(* ===== verification/Prelude.thy ===== *)
theory Prelude
  imports Main "HOL-Library.Word" "HOL-Library.Multiset"
begin

text \<open>
  Shared vocabulary of the YuanCI development: the Go value types that every package of
  \<open>src/internal\<close> uses, and the list, option and association-list lemmas that the component
  theories share.

  A Go \<open>string\<close> or \<open>[]byte\<close> is a list of bytes (\<^typ>\<open>char\<close> has exactly the 256 byte values), so
  \<^const>\<open>length\<close> counts bytes as Go's \<open>len\<close> does. A \<open>uuid.UUID\<close> is a 128-bit word, \<open>uuid.Nil\<close> is 0.
  A \<open>time.Time\<close> is the number of nanoseconds since the zero time, so \<open>time.Time{}\<close> is 0 and
  \<open>Before\<close> is \<open><\<close>. A \<open>time.Duration\<close> or \<open>int64\<close> is an \<^typ>\<open>int\<close>, wrapped by \<open>int64\<close>
  wherever the source computes a new value that could leave the 64-bit range. A Go map is its list of
  entries in the order in which one \<open>range\<close> over it would visit them.
\<close>

type_synonym uuid = "128 word"
type_synonym bytes = "char list"
type_synonym gotime = int
type_synonym duration = int
type_synonym gomap = "(string \<times> string) list"

abbreviation (input) uuid_Nil :: uuid where
  "uuid_Nil \<equiv> 0"

abbreviation (input) time_zero :: gotime where
  "time_zero \<equiv> 0"

text \<open>Durations in nanoseconds, as the constants of package \<open>time\<close>.\<close>

definition Millisecond :: duration where "Millisecond = 1000000"
definition Second :: duration where "Second = 1000000000"
definition Minute :: duration where "Minute = 60 * Second"
definition Hour :: duration where "Hour = 60 * Minute"

named_theorems go_time "unfolding rules for duration constants"

lemmas duration_defs [go_time] = Millisecond_def Second_def Minute_def Hour_def

text \<open>Two's-complement wrap-around of a 64-bit signed result.\<close>

definition int64 :: "int \<Rightarrow> int" where
  "int64 x = (x + 2 ^ 63) mod 2 ^ 64 - 2 ^ 63"

definition in_int64 :: "int \<Rightarrow> bool" where
  "in_int64 x \<longleftrightarrow> - (2 ^ 63) \<le> x \<and> x < 2 ^ 63"

lemma int64_id [simp]: "in_int64 x \<Longrightarrow> int64 x = x"
  by (simp add: int64_def in_int64_def)

lemma int64_in_range: "in_int64 (int64 x)"
proof -
  have "0 \<le> (x + 2 ^ 63) mod 2 ^ 64" and "(x + 2 ^ 63) mod 2 ^ 64 < 2 ^ 64"
    by (rule pos_mod_sign, simp) (rule pos_mod_bound, simp)
  then show ?thesis
    by (simp add: in_int64_def int64_def)
qed

section \<open>Go maps as association lists\<close>

text \<open>A lookup in a Go map gives the zero value for a missing key.\<close>

definition map_get :: "'v \<Rightarrow> ('k \<times> 'v) list \<Rightarrow> 'k \<Rightarrow> 'v" where
  "map_get zero m k = (case map_of m k of None \<Rightarrow> zero | Some v \<Rightarrow> v)"

text \<open>Storing replaces the entry of the key and keeps the others.\<close>

fun map_put :: "'k \<Rightarrow> 'v \<Rightarrow> ('k \<times> 'v) list \<Rightarrow> ('k \<times> 'v) list" where
  "map_put k v [] = [(k, v)]"
| "map_put k v ((k', v') # m) = (if k' = k then (k, v) # m else (k', v') # map_put k v m)"

lemma map_of_map_put [simp]: "map_of (map_put k v m) = (map_of m)(k \<mapsto> v)"
  by (induction m) (auto simp: fun_eq_iff)

lemma keys_map_put [simp]: "fst ` set (map_put k v m) = insert k (fst ` set m)"
  by (induction m rule: map_put.induct) (auto split: if_splits)

lemma distinct_map_put: "distinct (map fst m) \<Longrightarrow> distinct (map fst (map_put k v m))"
proof (induction m)
  case Nil
  then show ?case by simp
next
  case (Cons e m)
  obtain k' v' where e: "e = (k', v')" by (cases e)
  have keys: "set (map fst (map_put k v m)) = insert k (set (map fst m))"
    by simp
  show ?case
    using Cons e keys by (auto simp del: keys_map_put)
qed

section \<open>Updating the first match of a slice\<close>

text \<open>
  \<open>for index := range xs { if p(xs[index]) { xs[index] = f(xs[index]); return } }\<close>
\<close>

fun update_first :: "('a \<Rightarrow> bool) \<Rightarrow> ('a \<Rightarrow> 'a) \<Rightarrow> 'a list \<Rightarrow> 'a list" where
  "update_first p f [] = []"
| "update_first p f (x # xs) = (if p x then f x # xs else x # update_first p f xs)"

lemma length_update_first [simp]: "length (update_first p f xs) = length xs"
  by (induction xs) auto

lemma map_update_first [simp]:
  "(\<And>x. g (f x) = g x) \<Longrightarrow> map g (update_first p f xs) = map g xs"
  by (induction xs) auto

lemma set_update_first: "set (update_first p f xs) \<subseteq> set xs \<union> f ` {x \<in> set xs. p x}"
  by (induction xs) auto

lemma update_first_no_match: "(\<And>x. x \<in> set xs \<Longrightarrow> \<not> p x) \<Longrightarrow> update_first p f xs = xs"
  by (induction xs) auto

lemma nth_update_first:
  "i < length xs \<Longrightarrow>
   update_first p f xs ! i =
     (if p (xs ! i) \<and> (\<forall>k<i. \<not> p (xs ! k)) then f (xs ! i) else xs ! i)"
proof (induction xs arbitrary: i)
  case Nil
  then show ?case by simp
next
  case (Cons x xs)
  show ?case
  proof (cases i)
    case 0
    then show ?thesis by simp
  next
    case (Suc j)
    have "(\<forall>k<Suc j. \<not> p ((x # xs) ! k)) \<longleftrightarrow> \<not> p x \<and> (\<forall>k<j. \<not> p (xs ! k))"
      by (simp add: All_less_Suc2)
    with Cons Suc show ?thesis by auto
  qed
qed

section \<open>Concatenating loops\<close>

text \<open>
  \<open>for i, x := range xs { out = append(out, f(i, x)...) }\<close>, with the index counting from the given
  start.
\<close>

fun concat_index :: "(nat \<Rightarrow> 'a \<Rightarrow> 'b list) \<Rightarrow> nat \<Rightarrow> 'a list \<Rightarrow> 'b list" where
  "concat_index f i [] = []"
| "concat_index f i (x # xs) = f i x @ concat_index f (Suc i) xs"

lemma concat_index_eq_Nil:
  "concat_index f i xs = [] \<longleftrightarrow> (\<forall>k<length xs. f (i + k) (xs ! k) = [])"
  by (induction xs arbitrary: i) (auto simp: All_less_Suc2)

lemma concat_index_NilD:
  "concat_index f i xs = [] \<Longrightarrow> x \<in> set xs \<Longrightarrow> \<exists>k. f k x = []"
  by (auto simp: concat_index_eq_Nil in_set_conv_nth)

section \<open>Results\<close>

lemma list_all_iff_set [simp]: "list_all p xs \<longleftrightarrow> (\<forall>x\<in>set xs. p x)"
  by (simp add: list_all_iff)

end
