(* ===== verification/Go_Std.thy ===== *)
theory Go_Std
  imports Prelude
begin

text \<open>
  The functions of Go's standard library that the modelled packages call: \<open>strings\<close>, \<open>strconv\<close>,
  \<open>time.ParseDuration\<close>, \<open>path.Clean\<close>, \<open>encoding/hex\<close>, and the character classes of the source's regular
  expressions. Only byte-level behaviour that the callers observe is modelled; where Go works on Unicode
  code points the definitions say how the encoded bytes are treated.
\<close>

section \<open>Character classes\<close>

definition is_digit :: "char \<Rightarrow> bool" where
  "is_digit c \<longleftrightarrow> 48 \<le> (of_char c :: nat) \<and> (of_char c :: nat) \<le> 57"

definition is_upper :: "char \<Rightarrow> bool" where
  "is_upper c \<longleftrightarrow> 65 \<le> (of_char c :: nat) \<and> (of_char c :: nat) \<le> 90"

definition is_lower :: "char \<Rightarrow> bool" where
  "is_lower c \<longleftrightarrow> 97 \<le> (of_char c :: nat) \<and> (of_char c :: nat) \<le> 122"

definition is_alnum :: "char \<Rightarrow> bool" where
  "is_alnum c \<longleftrightarrow> is_digit c \<or> is_upper c \<or> is_lower c"

lemmas char_class_defs = is_digit_def is_upper_def is_lower_def is_alnum_def

text \<open>
  \<open>^[first][rest]{0,n}$\<close>: an anchored pattern of one leading character and at most \<open>n\<close> further ones.
\<close>

definition matches :: "(char \<Rightarrow> bool) \<Rightarrow> (char \<Rightarrow> bool) \<Rightarrow> nat \<Rightarrow> string \<Rightarrow> bool" where
  "matches first rest n s \<longleftrightarrow>
     (case s of [] \<Rightarrow> False | c # cs \<Rightarrow> first c \<and> list_all rest cs \<and> length cs \<le> n)"

lemma matches_length: "matches f r n s \<Longrightarrow> 0 < length s \<and> length s \<le> Suc n"
  by (auto simp: matches_def split: list.splits)

lemma matches_notin:
  assumes "matches f r n s" and "\<not> f c" and "\<not> r c"
  shows "c \<notin> set s"
  using assms by (auto simp: matches_def split: list.splits)

section \<open>Package strings\<close>

definition HasPrefix :: "string \<Rightarrow> string \<Rightarrow> bool" where
  "HasPrefix s p \<longleftrightarrow> take (length p) s = p"

definition HasSuffix :: "string \<Rightarrow> string \<Rightarrow> bool" where
  "HasSuffix s p \<longleftrightarrow> length p \<le> length s \<and> drop (length s - length p) s = p"

definition TrimPrefix :: "string \<Rightarrow> string \<Rightarrow> string" where
  "TrimPrefix s p = (if HasPrefix s p then drop (length p) s else s)"

definition TrimSuffix :: "string \<Rightarrow> string \<Rightarrow> string" where
  "TrimSuffix s p = (if HasSuffix s p then take (length s - length p) s else s)"

lemma HasPrefix_append [simp]: "HasPrefix (p @ s) p"
  by (simp add: HasPrefix_def)

lemma HasPrefixE:
  assumes "HasPrefix s p"
  obtains t where "s = p @ t"
  using assms by (metis HasPrefix_def append_take_drop_id)

lemma HasPrefix_iff: "HasPrefix s p \<longleftrightarrow> (\<exists>t. s = p @ t)"
  by (metis HasPrefix_append HasPrefixE)

lemma HasPrefix_Nil [simp]: "HasPrefix s []"
  by (simp add: HasPrefix_def)

lemma HasPrefix_Cons [simp]:
  "HasPrefix (x # s) (y # p) \<longleftrightarrow> x = y \<and> HasPrefix s p"
  "HasPrefix [] (y # p) \<longleftrightarrow> False"
  by (auto simp: HasPrefix_def)

lemma TrimPrefix_append [simp]: "TrimPrefix (p @ s) p = s"
  by (simp add: TrimPrefix_def)

lemma HasSuffix_append [simp]: "HasSuffix (s @ p) p"
  by (simp add: HasSuffix_def)

lemma HasSuffix_iff: "HasSuffix s p \<longleftrightarrow> (\<exists>t. s = t @ p)"
  by (metis HasSuffix_append HasSuffix_def append_take_drop_id)

lemma TrimSuffix_append [simp]: "TrimSuffix (s @ p) p = s"
  by (simp add: TrimSuffix_def)

text \<open>\<open>strings.Contains\<close>.\<close>

fun Contains :: "string \<Rightarrow> string \<Rightarrow> bool" where
  "Contains [] p = (p = [])"
| "Contains (c # s) p = (HasPrefix (c # s) p \<or> Contains s p)"

lemma Contains_iff: "Contains s p \<longleftrightarrow> (\<exists>u v. s = u @ p @ v)"
proof (induction s)
  case Nil
  then show ?case by auto
next
  case (Cons c s)
  have "(\<exists>u v. c # s = u @ p @ v) \<longleftrightarrow> (\<exists>v. c # s = p @ v) \<or> (\<exists>u v. s = u @ p @ v)"
    (is "?l \<longleftrightarrow> ?r")
  proof
    assume ?l
    then obtain u v where "c # s = u @ p @ v" by blast
    then show ?r by (cases u) auto
  next
    assume ?r
    then show ?l by (metis append_Cons append_Nil)
  qed
  with Cons.IH show ?case by (simp add: HasPrefix_iff)
qed

text \<open>
  \<open>strings.TrimSpace\<close> removes the code points of \<open>unicode.IsSpace\<close> at both ends; these are their
  UTF-8 encodings.
\<close>

definition space_encodings :: "string list" where
  "space_encodings =
     [[CHR 0x09], [CHR 0x0A], [CHR 0x0B], [CHR 0x0C], [CHR 0x0D], [CHR 0x20],
      [CHR 0xC2, CHR 0x85], [CHR 0xC2, CHR 0xA0], [CHR 0xE1, CHR 0x9A, CHR 0x80],
      [CHR 0xE2, CHR 0x80, CHR 0x80], [CHR 0xE2, CHR 0x80, CHR 0x81],
      [CHR 0xE2, CHR 0x80, CHR 0x82], [CHR 0xE2, CHR 0x80, CHR 0x83],
      [CHR 0xE2, CHR 0x80, CHR 0x84], [CHR 0xE2, CHR 0x80, CHR 0x85],
      [CHR 0xE2, CHR 0x80, CHR 0x86], [CHR 0xE2, CHR 0x80, CHR 0x87],
      [CHR 0xE2, CHR 0x80, CHR 0x88], [CHR 0xE2, CHR 0x80, CHR 0x89],
      [CHR 0xE2, CHR 0x80, CHR 0x8A], [CHR 0xE2, CHR 0x80, CHR 0xA8],
      [CHR 0xE2, CHR 0x80, CHR 0xA9], [CHR 0xE2, CHR 0x80, CHR 0xAF],
      [CHR 0xE2, CHR 0x81, CHR 0x9F], [CHR 0xE3, CHR 0x80, CHR 0x80]]"

fun trim_left_of :: "string list \<Rightarrow> nat \<Rightarrow> string \<Rightarrow> string" where
  "trim_left_of ws 0 s = s"
| "trim_left_of ws (Suc n) s =
     (case List.find (\<lambda>w. HasPrefix s w) ws of
        None \<Rightarrow> s
      | Some w \<Rightarrow> trim_left_of ws n (drop (length w) s))"

definition TrimLeftSpace :: "string \<Rightarrow> string" where
  "TrimLeftSpace s = trim_left_of space_encodings (length s) s"

definition TrimSpace :: "string \<Rightarrow> string" where
  "TrimSpace s =
     rev (trim_left_of (map rev space_encodings) (length s) (rev (TrimLeftSpace s)))"

text \<open>
  Upper and lower case of ASCII letters. Of the other code points only dotless i and long s have an
  ASCII upper case and only the Kelvin sign and dotted I an ASCII lower case; every remaining
  non-ASCII sequence stays non-ASCII and is kept as it is.
\<close>

definition to_upper_char :: "char \<Rightarrow> char" where
  "to_upper_char c = (if is_lower c then char_of ((of_char c :: nat) - 32) else c)"

definition to_lower_char :: "char \<Rightarrow> char" where
  "to_lower_char c = (if is_upper c then char_of ((of_char c :: nat) + 32) else c)"

fun ToUpper :: "string \<Rightarrow> string" where
  "ToUpper [] = []"
| "ToUpper (a # b # s) =
     (if a = CHR 0xC4 \<and> b = CHR 0xB1 then CHR ''I'' # ToUpper s
      else if a = CHR 0xC5 \<and> b = CHR 0xBF then CHR ''S'' # ToUpper s
      else to_upper_char a # ToUpper (b # s))"
| "ToUpper [a] = [to_upper_char a]"

fun ToLower :: "string \<Rightarrow> string" where
  "ToLower [] = []"
| "ToLower (a # s) =
     (if HasPrefix (a # s) [CHR 0xE2, CHR 0x84, CHR 0xAA] then CHR ''k'' # ToLower (drop 2 s)
      else if HasPrefix (a # s) [CHR 0xC4, CHR 0xB0] then CHR ''i'' # ToLower (drop 1 s)
      else to_lower_char a # ToLower s)"

text \<open>Strings that trimming and upper-casing leave alone.\<close>

lemma space_encodings_ends:
  assumes "w \<in> set space_encodings" and "is_alnum c"
  shows "w \<noteq> [] \<and> hd w \<noteq> c \<and> last w \<noteq> c"
  using assms by (auto simp: space_encodings_def char_class_defs)

lemma HasPrefix_hd: "HasPrefix s p \<Longrightarrow> p \<noteq> [] \<Longrightarrow> hd s = hd p"
  by (auto simp: HasPrefix_iff)

lemma trim_left_of_id:
  assumes "\<And>w. w \<in> set ws \<Longrightarrow> w \<noteq> [] \<and> hd w \<noteq> hd s"
  shows "trim_left_of ws n s = s"
proof (cases n)
  case (Suc m)
  have "List.find (\<lambda>w. HasPrefix s w) ws = None"
    using assms by (metis HasPrefix_hd find_None_iff)
  with Suc show ?thesis by simp
qed simp

lemma TrimSpace_id:
  assumes "s \<noteq> []" and "is_alnum (hd s)" and "is_alnum (last s)"
  shows "TrimSpace s = s"
proof -
  have left: "TrimLeftSpace s = s"
    unfolding TrimLeftSpace_def
    by (rule trim_left_of_id) (use assms(2) space_encodings_ends in auto)
  have "trim_left_of (map rev space_encodings) (length s) (rev s) = rev s"
    by (rule trim_left_of_id)
      (use assms(1,3) space_encodings_ends in \<open>auto simp: hd_rev\<close>)
  with left show ?thesis by (simp add: TrimSpace_def)
qed

lemma ToUpper_id:
  assumes "list_all (\<lambda>c. is_digit c \<or> is_upper c) s"
  shows "ToUpper s = s"
  using assms
proof (induction s rule: ToUpper.induct)
  case (2 a b s)
  have "a \<noteq> CHR 0xC4" and "a \<noteq> CHR 0xC5" and "to_upper_char a = a"
    using 2(4) by (auto simp: char_class_defs to_upper_char_def)
  with 2 show ?case by simp
qed (auto simp: to_upper_char_def char_class_defs)

lemma HasSuffix_rev: "HasSuffix s p \<longleftrightarrow> HasPrefix (rev s) (rev p)"
  by (metis HasPrefix_iff HasSuffix_iff rev_append rev_rev_ident)

text \<open>\<open>strings.Split\<close> on a one-byte separator: always at least one segment.\<close>

fun split_on :: "char \<Rightarrow> string \<Rightarrow> string list" where
  "split_on sep [] = [[]]"
| "split_on sep (c # s) =
     (if c = sep then [] # split_on sep s
      else (case split_on sep s of
              [] \<Rightarrow> [[c]]
            | w # ws \<Rightarrow> (c # w) # ws))"

lemma split_on_not_Nil [simp]: "split_on sep s \<noteq> []"
  by (cases s) (auto split: list.splits)

lemma split_on_no_sep: "w \<in> set (split_on sep s) \<Longrightarrow> sep \<notin> set w"
  by (induction s arbitrary: w) (auto split: list.splits if_splits)

lemma split_on_id: "sep \<notin> set s \<Longrightarrow> split_on sep s = [s]"
  by (induction s) auto

section \<open>Package strconv\<close>

definition digit_val :: "char \<Rightarrow> int" where
  "digit_val c = of_char c - 48"

definition digits_val :: "string \<Rightarrow> int" where
  "digits_val s = fold (\<lambda>c n. 10 * n + digit_val c) s 0"

definition ParseUint :: "string \<Rightarrow> int option" where
  "ParseUint s =
     (if s \<noteq> [] \<and> list_all is_digit s \<and> digits_val s < 2 ^ 64 then Some (digits_val s) else None)"

definition ParseInt :: "string \<Rightarrow> int option" where
  "ParseInt s =
     (case s of
        [] \<Rightarrow> None
      | c # cs \<Rightarrow>
          (let neg = (c = CHR ''-'');
               body = (if c = CHR ''-'' \<or> c = CHR ''+'' then cs else s)
           in case ParseUint body of
                None \<Rightarrow> None
              | Some n \<Rightarrow>
                  if neg then (if n > 2 ^ 63 then None else Some (- n))
                  else (if n \<ge> 2 ^ 63 then None else Some n)))"

lemma digit_val_nonneg: "is_digit c \<Longrightarrow> 0 \<le> digit_val c"
proof -
  assume "is_digit c"
  then have "int 48 \<le> int (of_char c)" unfolding is_digit_def by linarith
  moreover have "int (of_char c) = of_char c" by (rule of_nat_of_char)
  ultimately show ?thesis by (simp add: digit_val_def)
qed

lemma digits_val_snoc [simp]: "digits_val (s @ [c]) = 10 * digits_val s + digit_val c"
  by (simp add: digits_val_def)

lemma digits_val_Nil [simp]: "digits_val [] = 0"
  by (simp add: digits_val_def)

lemma digits_val_nonneg: "list_all is_digit s \<Longrightarrow> 0 \<le> digits_val s"
  by (induction s rule: rev_induct) (auto simp: digit_val_nonneg)

lemma ParseUint_nonneg: "ParseUint s = Some n \<Longrightarrow> 0 \<le> n"
  using digits_val_nonneg [of s] by (auto simp: ParseUint_def split: if_splits)

lemma ParseInt_range: "ParseInt s = Some v \<Longrightarrow> in_int64 v"
  by (fastforce simp: ParseInt_def in_int64_def Let_def
      split: list.splits option.splits if_splits dest: ParseUint_nonneg)

text \<open>\<open>strconv.FormatInt(v, 10)\<close> and \<open>strconv.Itoa\<close>.\<close>

definition digit_char :: "nat \<Rightarrow> char" where
  "digit_char n = char_of (n + 48)"

fun format_nat :: "nat \<Rightarrow> string" where
  "format_nat n = (if n < 10 then [digit_char n] else format_nat (n div 10) @ [digit_char (n mod 10)])"

declare format_nat.simps [simp del]

definition FormatInt :: "int \<Rightarrow> string" where
  "FormatInt v = (if v < 0 then CHR ''-'' # format_nat (nat (- v)) else format_nat (nat v))"

lemma digit_val_digit_char [simp]:
  assumes "n < 10"
  shows "digit_val (digit_char n) = int n"
proof -
  have "(of_char (digit_char n) :: nat) = n + 48" using assms by (simp add: digit_char_def)
  moreover have "int (of_char (digit_char n)) = of_char (digit_char n)" by (rule of_nat_of_char)
  ultimately show ?thesis unfolding digit_val_def by linarith
qed

lemma is_digit_digit_char [simp]: "n < 10 \<Longrightarrow> is_digit (digit_char n)"
  by (simp add: is_digit_def digit_char_def)

lemma digits_val_format_nat [simp]: "digits_val (format_nat n) = int n"
proof (induction n rule: format_nat.induct)
  case (1 n)
  show ?case
  proof (cases "n < 10")
    case True
    then show ?thesis using digits_val_snoc [of "[]"] by (simp add: format_nat.simps [of n])
  next
    case False
    then show ?thesis
      using 1 by (simp add: format_nat.simps [of n] of_nat_div of_nat_mod)
  qed
qed

lemma format_nat_digits: "list_all is_digit (format_nat n) \<and> format_nat n \<noteq> []"
proof (induction n rule: format_nat.induct)
  case (1 n)
  then show ?case
    by (cases "n < 10") (auto simp add: format_nat.simps [of n])
qed

lemma ParseUint_format_nat: "int n < 2 ^ 64 \<Longrightarrow> ParseUint (format_nat n) = Some (int n)"
  using format_nat_digits [of n] by (simp add: ParseUint_def)

lemma digit_not_sign: "is_digit c \<Longrightarrow> c \<noteq> CHR ''-'' \<and> c \<noteq> CHR ''+''"
  by (auto simp: is_digit_def)

lemma ParseInt_digits:
  "s \<noteq> [] \<Longrightarrow> list_all is_digit s \<Longrightarrow> digits_val s < 2 ^ 63 \<Longrightarrow> ParseInt s = Some (digits_val s)"
  by (cases s) (auto simp: ParseInt_def ParseUint_def Let_def digit_not_sign)

text \<open>Printing an \<open>int64\<close> in decimal and parsing it again gives the value back.\<close>

lemma ParseInt_FormatInt:
  assumes "in_int64 v"
  shows "ParseInt (FormatInt v) = Some v"
proof (cases "v < 0")
  case True
  then have "int (nat (- v)) < 2 ^ 64" using assms by (auto simp: in_int64_def)
  with True show ?thesis
    using assms ParseUint_format_nat [of "nat (- v)"]
    by (simp add: FormatInt_def ParseInt_def Let_def in_int64_def)
next
  case False
  then show ?thesis
    using assms format_nat_digits [of "nat v"] ParseInt_digits [of "format_nat (nat v)"]
    by (simp add: FormatInt_def in_int64_def)
qed

section \<open>Package encoding/hex\<close>

definition hex_digit :: "nat \<Rightarrow> char" where
  "hex_digit n = (if n < 10 then char_of (n + 48) else char_of (n + 87))"

definition hex_encode :: "bytes \<Rightarrow> string" where
  "hex_encode bs =
     concat (map (\<lambda>b. [hex_digit ((of_char b :: nat) div 16), hex_digit ((of_char b :: nat) mod 16)]) bs)"

lemma length_hex_encode [simp]: "length (hex_encode bs) = 2 * length bs"
  by (induction bs) (simp_all add: hex_encode_def)

text \<open>\<open>fromHexChar\<close>: both letter cases are accepted.\<close>

definition hex_val :: "char \<Rightarrow> nat option" where
  "hex_val c =
     (let n = (of_char c :: nat) in
      if 48 \<le> n \<and> n \<le> 57 then Some (n - 48)
      else if 97 \<le> n \<and> n \<le> 102 then Some (n - 87)
      else if 65 \<le> n \<and> n \<le> 70 then Some (n - 55)
      else None)"

fun hex_decode :: "string \<Rightarrow> bytes option" where
  "hex_decode [] = Some []"
| "hex_decode [c] = None"
| "hex_decode (a # b # s) =
     (case (hex_val a, hex_val b, hex_decode s) of
        (Some h, Some l, Some bs) \<Rightarrow> Some (char_of (16 * h + l) # bs)
      | _ \<Rightarrow> None)"

lemma hex_val_hex_digit [simp]: "n < 16 \<Longrightarrow> hex_val (hex_digit n) = Some n"
  by (auto simp: hex_val_def hex_digit_def Let_def)

lemma hex_decode_encode: "hex_decode (hex_encode bs) = Some bs"
proof (induction bs)
  case Nil
  then show ?case by (simp add: hex_encode_def)
next
  case (Cons b bs)
  have "(of_char b :: nat) < 16 * 16" by (simp add: nat_of_char_less_256)
  then have "(of_char b :: nat) div 16 < 16" by (rule less_mult_imp_div_less)
  with Cons show ?case by (simp add: hex_encode_def)
qed

section \<open>time.ParseDuration\<close>

text \<open>The unit table, with both encodings of the micro sign.\<close>

definition unit_map :: "(string \<times> int) list" where
  "unit_map =
     [(''ns'', 1), (''us'', 1000), ([CHR 0xC2, CHR 0xB5, CHR ''s''], 1000),
      ([CHR 0xCE, CHR 0xBC, CHR ''s''], 1000), (''ms'', 1000000), (''s'', 1000000000),
      (''m'', 60000000000), (''h'', 3600000000000)]"

text \<open>
  \<open>leadingFraction\<close>: the digits after the point up to the first one that would overflow, with the number
  of digits kept (the scale is ten to that power).
\<close>

fun leading_fraction :: "int \<Rightarrow> nat \<Rightarrow> string \<Rightarrow> int \<times> nat" where
  "leading_fraction x k [] = (x, k)"
| "leading_fraction x k (c # cs) =
     (if x > (2 ^ 63 - 1) div 10 \<or> 10 * x + digit_val c > 2 ^ 63 then (x, k)
      else leading_fraction (10 * x + digit_val c) (Suc k) cs)"

text \<open>
  One \<open>number unit\<close> term: its value in nanoseconds and the rest of the string. The contribution of the
  fractional digits \<open>f\<close> at scale \<open>10 ^ k\<close> is computed by the source in floating point; that
  rounding is the parameter \<open>frac\<close>.
\<close>

definition duration_term :: "(int \<Rightarrow> int \<Rightarrow> nat \<Rightarrow> int) \<Rightarrow> string \<Rightarrow> (int \<times> string) option" where
  "duration_term frac s =
     (let ds = takeWhile is_digit s;
          s1 = drop (length ds) s;
          dot = (case s1 of [] \<Rightarrow> False | c # _ \<Rightarrow> c = CHR ''.'');
          s2 = (if dot then tl s1 else s1);
          fs = (if dot then takeWhile is_digit s2 else []);
          s3 = drop (length fs) s2;
          u = takeWhile (\<lambda>c. c \<noteq> CHR ''.'' \<and> \<not> is_digit c) s3;
          s4 = drop (length u) s3;
          v = digits_val ds;
          (f, k) = leading_fraction 0 0 fs
      in if v > 2 ^ 63 \<or> (ds = [] \<and> fs = []) \<or> u = [] then None
         else (case map_of unit_map u of
                 None \<Rightarrow> None
               | Some unit \<Rightarrow>
                   if v > 2 ^ 63 div unit then None
                   else (let w = (if f > 0 then v * unit + frac f unit k else v * unit)
                         in if w > 2 ^ 63 then None else Some (w, s4))))"

lemma duration_term_shorter:
  assumes "duration_term frac s = Some (v, s')"
  shows "length s' < length s"
proof -
  define ds where "ds = takeWhile is_digit s"
  define s1 where "s1 = drop (length ds) s"
  define dot where "dot = (case s1 of [] \<Rightarrow> False | c # _ \<Rightarrow> c = CHR ''.'')"
  define s2 where "s2 = (if dot then tl s1 else s1)"
  define fs where "fs = (if dot then takeWhile is_digit s2 else [])"
  define s3 where "s3 = drop (length fs) s2"
  define u where "u = takeWhile (\<lambda>c. c \<noteq> CHR ''.'' \<and> \<not> is_digit c) s3"
  have "u \<noteq> []" and s': "s' = drop (length u) s3"
    using assms
    by (auto simp: duration_term_def Let_def ds_def s1_def dot_def s2_def fs_def s3_def u_def
        split: prod.splits option.splits if_splits)
  then have "0 < length u" and "length u \<le> length s3"
    by (auto simp: u_def length_takeWhile_le)
  moreover have "length s3 \<le> length s" by (auto simp: s3_def s2_def s1_def)
  ultimately show ?thesis using s' by (simp del: length_greater_0_conv)
qed

text \<open>The loop over the terms; the sum is an \<open>uint64\<close>.\<close>

function duration_terms :: "(int \<Rightarrow> int \<Rightarrow> nat \<Rightarrow> int) \<Rightarrow> int \<Rightarrow> string \<Rightarrow> int option" where
  "duration_terms frac d s =
     (if s = [] then Some d
      else (case duration_term frac s of
              None \<Rightarrow> None
            | Some (v, s') \<Rightarrow>
                (let d' = (d + v) mod 2 ^ 64
                 in if d' > 2 ^ 63 then None else duration_terms frac d' s')))"
  by pat_completeness auto
termination
  by (relation "measure (\<lambda>(frac, d, s). length s)") (auto dest: duration_term_shorter)

declare duration_terms.simps [simp del]

definition ParseDuration :: "(int \<Rightarrow> int \<Rightarrow> nat \<Rightarrow> int) \<Rightarrow> string \<Rightarrow> duration option" where
  "ParseDuration frac orig =
     (let neg = (case orig of [] \<Rightarrow> False | c # _ \<Rightarrow> c = CHR ''-'');
          s = (case orig of [] \<Rightarrow> [] | c # cs \<Rightarrow> if c = CHR ''-'' \<or> c = CHR ''+'' then cs else orig)
      in if s = ''0'' then Some 0
         else if s = [] then None
         else (case duration_terms frac 0 s of
                 None \<Rightarrow> None
               | Some d \<Rightarrow>
                   if neg then Some (- d)
                   else if d > 2 ^ 63 - 1 then None
                   else Some d))"

end
