(* ===== verification/Dep_Graph.thy ===== *)
theory Dep_Graph
  imports Go_Std
begin

text \<open>
  The dependency-graph search \<open>hasCycle\<close> of \<open>src/internal/pipeline/compiler.go\<close>: a depth-first search
  over a Go map of node names to dependency lists, with a colour per node. The search is shown to
  terminate on every graph and to report a cycle exactly when the graph has one.
\<close>

type_synonym graph = "(string \<times> string list) list"

text \<open>The colours \<open>unseen\<close>, \<open>visiting\<close>, \<open>visited\<close>; a missing entry of the state map is \<open>unseen\<close>.\<close>

datatype mark = Unseen | Visiting | Visited

type_synonym marks = "string \<Rightarrow> mark"

text \<open>\<open>graph[node]\<close>: the dependency list of a node, empty for a name that is not a key.\<close>

definition succs :: "graph \<Rightarrow> string \<Rightarrow> string list" where
  "succs g n = map_get [] g n"

text \<open>
  The closure \<open>visit\<close>, run over the nodes of a loop. One node of the list is one call of \<open>visit\<close>: a
  node under visit closes a cycle, a visited node is done, an unseen node is marked, its successors are
  visited in order, and it is marked visited. The first cycle found ends the loop.
\<close>

function visit_all :: "graph \<Rightarrow> marks \<Rightarrow> string list \<Rightarrow> bool \<times> marks" where
  "visit_all g st [] = (False, st)"
| "visit_all g st (n # ns) =
     (case st n of
        Visiting \<Rightarrow> (True, st)
      | Visited \<Rightarrow> visit_all g st ns
      | Unseen \<Rightarrow>
          (let (cyc, st') = visit_all g (st(n := Visiting)) (succs g n)
           in if cyc then (True, st') else visit_all g (st'(n := Visited)) ns))"
  by pat_completeness auto

text \<open>A call never turns a marked node back into an unseen one, which makes the nested call terminate.\<close>

lemma visit_all_keeps_marked:
  assumes "visit_all_dom (g, st, ns)"
  shows "st m \<noteq> Unseen \<Longrightarrow> snd (visit_all g st ns) m \<noteq> Unseen"
  using assms
proof (induction g st ns arbitrary: m rule: visit_all.pinduct)
  case (1 g st)
  then show ?case by (simp add: visit_all.psimps)
next
  case (2 g st n ns)
  show ?case
  proof (cases "st n")
    case Unseen
    obtain cyc st' where inner: "visit_all g (st(n := Visiting)) (succs g n) = (cyc, st')"
      by fastforce
    have "(st(n := Visiting)) m \<noteq> Unseen"
      using "2.prems" by simp
    from "2.IH"(1) [OF Unseen this] inner have kept: "st' m \<noteq> Unseen"
      by (simp add: fun_upd_def)
    have "cyc = False \<Longrightarrow> snd (visit_all g (st'(n := Visited)) ns) m \<noteq> Unseen"
      using "2.IH"(2) [OF Unseen inner [symmetric] refl, of m] kept by (simp add: fun_upd_def)
    then show ?thesis
      using Unseen inner kept "2.hyps" by (auto simp: visit_all.psimps)
  qed (use 2 in \<open>auto simp: visit_all.psimps\<close>)
qed

definition graph_nodes :: "graph \<Rightarrow> string set" where
  "graph_nodes g = fst ` set g"

definition unseen_nodes :: "graph \<Rightarrow> marks \<Rightarrow> string set" where
  "unseen_nodes g st = {n \<in> graph_nodes g. st n = Unseen}"

lemma finite_unseen_nodes [simp]: "finite (unseen_nodes g st)"
  by (simp add: unseen_nodes_def graph_nodes_def)

lemma succs_not_key: "n \<notin> graph_nodes g \<Longrightarrow> succs g n = []"
  by (force simp: succs_def map_get_def graph_nodes_def dest: map_of_SomeD split: option.split)

termination visit_all
proof (relation "inv_image (finite_psubset <*lex*> less_than)
                  (\<lambda>(g, st, ns). (unseen_nodes g st, length ns))", goal_cases)
  case 1
  show ?case by (intro wf_inv_image wf_lex_prod wf_finite_psubset wf_less_than)
next
  case (2 g st n ns)
  show ?case
  proof (cases "n \<in> graph_nodes g")
    case True
    then have "unseen_nodes g (st(n := Visiting)) \<subset> unseen_nodes g st"
      using 2 by (auto simp: unseen_nodes_def)
    then show ?thesis by (simp add: finite_psubset_def)
  next
    case False
    then have "unseen_nodes g (st(n := Visiting)) = unseen_nodes g st"
      using 2 by (auto simp: unseen_nodes_def)
    with False show ?thesis by (simp add: succs_not_key)
  qed
next
  case (3 g st n ns p cyc st')
  have st': "st' = snd (visit_all g (st(n := Visiting)) (succs g n))"
    using 3(2,3) by (metis snd_conv)
  have "st m = Unseen" if "st' m = Unseen" for m
    using visit_all_keeps_marked [OF 3(5), of m] that st' by (cases "m = n") (use 3(1) in auto)
  then have "unseen_nodes g (st'(n := Visited)) \<subseteq> unseen_nodes g st"
    by (auto simp: unseen_nodes_def)
  then show ?case by (auto simp: finite_psubset_def)
next
  case (4 g st n ns)
  then show ?case by simp
qed

text \<open>\<open>hasCycle\<close>: the outer loop over the keys of the map, in the order of the range.\<close>

definition hasCycle :: "graph \<Rightarrow> bool" where
  "hasCycle g = fst (visit_all g (\<lambda>_. Unseen) (map fst g))"

section \<open>What a search that finds no cycle leaves behind\<close>

definition dep_edges :: "graph \<Rightarrow> (string \<times> string) set" where
  "dep_edges g = {(x, y). y \<in> set (succs g x)}"

text \<open>Every call of the loop is one of four shapes; later inductions use this case rule.\<close>

lemma visit_all_Cons_cases:
  assumes "visit_all g st (n # ns) = (cyc, st')"
  obtains (visiting) "st n = Visiting" "cyc" "st' = st"
  | (visited) "st n = Visited" "visit_all g st ns = (cyc, st')"
  | (inner) "st n = Unseen" "visit_all g (st(n := Visiting)) (succs g n) = (True, st')" "cyc"
  | (rest) st1 where "st n = Unseen" "visit_all g (st(n := Visiting)) (succs g n) = (False, st1)"
      "visit_all g (st1(n := Visited)) ns = (cyc, st')"
  using assms by (cases "st n") (auto split: prod.splits if_splits)

text \<open>Computation induction with the states kept as function updates.\<close>

lemma visit_all_induct [case_names Nil Cons]:
  assumes "\<And>g st. P g st []"
    and "\<And>g st n ns. (st n = Visited \<Longrightarrow> P g st ns) \<Longrightarrow>
           (st n = Unseen \<Longrightarrow> P g (st(n := Visiting)) (succs g n)) \<Longrightarrow>
           (\<And>st1. st n = Unseen \<Longrightarrow> visit_all g (st(n := Visiting)) (succs g n) = (False, st1) \<Longrightarrow>
              P g (st1(n := Visited)) ns) \<Longrightarrow> P g st (n # ns)"
  shows "P g st ns"
proof (induction g st ns rule: visit_all.induct)
  case (1 g st)
  show ?case by (rule assms(1))
next
  case (2 g st n ns)
  show ?case
  proof (rule assms(2))
    show "P g st ns" if "st n = Visited"
      using 2 that by blast
    show "P g (st(n := Visiting)) (succs g n)" if "st n = Unseen"
      using 2 that by (simp add: fun_upd_def)
    show "P g (st1(n := Visited)) ns"
      if "st n = Unseen" and "visit_all g (st(n := Visiting)) (succs g n) = (False, st1)" for st1
      using "2"(2) [OF that(1) that(2) [symmetric] refl] by (simp add: fun_upd_def)
  qed
qed

lemma visit_all_frame:
  assumes "visit_all g st ns = (False, st')"
  shows "(\<forall>m. st' m = Visiting \<longleftrightarrow> st m = Visiting) \<and>
         (\<forall>m. st m = Visited \<longrightarrow> st' m = Visited) \<and> (\<forall>n\<in>set ns. st' n = Visited)"
  using assms
proof (induction g st ns arbitrary: st' rule: visit_all_induct)
  case (Nil g st)
  then show ?case by simp
next
  case (Cons g st n ns)
  from Cons.prems show ?case
  proof (cases rule: visit_all_Cons_cases)
    case visited
    with Cons.IH(1) [OF visited] show ?thesis by simp
  next
    case (rest st1)
    note i = Cons.IH(2) [OF rest(1,2)] and o = Cons.IH(3) [OF rest(1,2) rest(3)]
    have "st' n = Visited" using o by simp
    moreover have "st' m = Visiting \<longleftrightarrow> st m = Visiting" for m
    proof (cases "m = n")
      case True
      then show ?thesis using o rest(1) by (auto split: if_splits)
    next
      case False
      then show ?thesis using o i by simp
    qed
    moreover have "st' m = Visited" if "st m = Visited" for m
      using that i o rest(1) by (metis fun_upd_apply mark.distinct(3))
    ultimately show ?thesis using o by simp
  qed simp_all
qed

text \<open>
  A set of nodes that is closed under dependencies and on no cycle. The visited nodes always form one.
\<close>

definition settled :: "graph \<Rightarrow> string set \<Rightarrow> bool" where
  "settled g V \<longleftrightarrow> dep_edges g `` V \<subseteq> V \<and> (\<forall>x\<in>V. (x, x) \<notin> (dep_edges g)\<^sup>+)"

lemma closed_trancl:
  assumes "r `` V \<subseteq> V" and "(x, y) \<in> r\<^sup>+" and "x \<in> V"
  shows "y \<in> V"
  using assms(2,1,3) by (induction rule: trancl_induct) auto

lemma settled_insert:
  assumes "settled g V" and "set (succs g n) \<subseteq> V" and "n \<notin> V"
  shows "settled g (insert n V)"
proof -
  have closed: "dep_edges g `` V \<subseteq> V" using assms(1) by (simp add: settled_def)
  have "(n, n) \<notin> (dep_edges g)\<^sup>+"
  proof
    assume "(n, n) \<in> (dep_edges g)\<^sup>+"
    then obtain y where "(n, y) \<in> dep_edges g" and "(y, n) \<in> (dep_edges g)\<^sup>*"
      by (meson tranclD)
    then have "y \<in> V" and "y = n \<or> (y, n) \<in> (dep_edges g)\<^sup>+"
      using assms(2) by (auto simp: dep_edges_def rtrancl_eq_or_trancl)
    then show False using closed_trancl [OF closed] assms(3) by blast
  qed
  then show ?thesis
    using assms(1,2) by (auto simp: settled_def dep_edges_def)
qed

lemma visit_all_settled:
  assumes "visit_all g st ns = (False, st')" and "settled g {m. st m = Visited}"
  shows "settled g {m. st' m = Visited}"
  using assms
proof (induction g st ns arbitrary: st' rule: visit_all_induct)
  case (Nil g st)
  then show ?case by simp
next
  case (Cons g st n ns)
  from Cons.prems(1) show ?case
  proof (cases rule: visit_all_Cons_cases)
    case visited
    with Cons show ?thesis by blast
  next
    case (rest st1)
    have "{m. (st(n := Visiting)) m = Visited} = {m. st m = Visited}"
      using rest(1) by auto
    then have "settled g {m. st1 m = Visited}"
      using Cons.IH(2) [OF rest(1,2)] Cons.prems(2) by simp
    moreover have "set (succs g n) \<subseteq> {m. st1 m = Visited}" and "st1 n = Visiting"
      using visit_all_frame [OF rest(2)] by auto
    ultimately have "settled g (insert n {m. st1 m = Visited})"
      by (simp add: settled_insert)
    moreover have "{m. (st1(n := Visited)) m = Visited} = insert n {m. st1 m = Visited}"
      by auto
    ultimately show ?thesis using Cons.IH(3) [OF rest(1-3)] by simp
  qed simp_all
qed

text \<open>A search that reports a cycle has found one: each node under visit leads to the nodes to come.\<close>

lemma visit_all_sound:
  assumes "visit_all g st ns = (True, st')"
    and "\<forall>v n. st v = Visiting \<longrightarrow> n \<in> set ns \<longrightarrow> (v, n) \<in> (dep_edges g)\<^sup>+"
  shows "\<exists>x. (x, x) \<in> (dep_edges g)\<^sup>+"
  using assms
proof (induction g st ns arbitrary: st' rule: visit_all_induct)
  case (Nil g st)
  then show ?case by simp
next
  case (Cons g st n ns)
  from Cons.prems(1) show ?case
  proof (cases rule: visit_all_Cons_cases)
    case visiting
    with Cons.prems(2) show ?thesis by auto
  next
    case visited
    with Cons show ?thesis by auto
  next
    case inner
    have "(v, m) \<in> (dep_edges g)\<^sup>+"
      if "(st(n := Visiting)) v = Visiting" and "m \<in> set (succs g n)" for v m
    proof (cases "v = n")
      case True
      with that(2) show ?thesis by (auto simp: dep_edges_def)
    next
      case False
      then have "(v, n) \<in> (dep_edges g)\<^sup>+" using Cons.prems(2) that(1) by simp
      then show ?thesis using that(2) by (auto simp: dep_edges_def intro: trancl_into_trancl)
    qed
    then show ?thesis using Cons.IH(2) [OF inner(1,2)] by blast
  next
    case (rest st1)
    have "(v, m) \<in> (dep_edges g)\<^sup>+" if "(st1(n := Visited)) v = Visiting" and "m \<in> set ns" for v m
    proof -
      have "v \<noteq> n" and "st1 v = Visiting" using that(1) by (auto split: if_splits)
      then have "st v = Visiting" using visit_all_frame [OF rest(2)] by simp
      then show ?thesis using Cons.prems(2) that(2) by simp
    qed
    then show ?thesis using Cons.IH(3) [OF rest(1,2)] rest(3) by blast
  qed
qed

lemma hasCycle_iff: "hasCycle g \<longleftrightarrow> (\<exists>x. (x, x) \<in> (dep_edges g)\<^sup>+)"
proof
  assume "hasCycle g"
  then obtain st' where "visit_all g (\<lambda>_. Unseen) (map fst g) = (True, st')"
    unfolding hasCycle_def by (metis prod.collapse)
  then show "\<exists>x. (x, x) \<in> (dep_edges g)\<^sup>+"
    by (rule visit_all_sound) simp
next
  assume "\<exists>x. (x, x) \<in> (dep_edges g)\<^sup>+"
  then obtain x where x: "(x, x) \<in> (dep_edges g)\<^sup>+" by blast
  then obtain y where "(x, y) \<in> dep_edges g" by (meson tranclD)
  then have key: "x \<in> set (map fst g)"
    using succs_not_key [of x g] by (cases "x \<in> graph_nodes g") (auto simp: dep_edges_def graph_nodes_def)
  show "hasCycle g"
  proof (rule ccontr)
    assume "\<not> hasCycle g"
    then obtain st' where v: "visit_all g (\<lambda>_. Unseen) (map fst g) = (False, st')"
      unfolding hasCycle_def by (metis prod.collapse)
    have "settled g {m. st' m = Visited}"
      by (rule visit_all_settled [OF v]) (simp add: settled_def)
    moreover have "st' x = Visited" using visit_all_frame [OF v] key by blast
    ultimately show False using x by (auto simp: settled_def)
  qed
qed

lemma not_hasCycle_acyclic: "\<not> hasCycle g \<longleftrightarrow> acyclic (dep_edges g)"
  by (simp add: hasCycle_iff acyclic_def)

text \<open>Go visits the entries of a map in an unspecified order; the verdict does not depend on it.\<close>

lemma map_get_perm:
  assumes "mset m = mset m'" and "distinct (map fst m)"
  shows "map_get z m k = map_get z m' k"
proof -
  have d: "distinct (map fst m')"
    using assms by (metis mset_map mset_eq_imp_distinct_iff)
  have "map_of m = map_of m'"
    using assms d by (metis map_of_inject_set mset_eq_setD)
  then show ?thesis by (simp add: map_get_def)
qed

lemma hasCycle_perm:
  assumes "mset g = mset g'" and "distinct (map fst g)"
  shows "hasCycle g = hasCycle g'"
proof -
  have "dep_edges g = dep_edges g'"
    using map_get_perm [OF assms] by (simp add: dep_edges_def succs_def)
  then show ?thesis by (simp add: hasCycle_iff)
qed

lemma finite_dep_edges: "finite (dep_edges g)"
proof -
  have "dep_edges g \<subseteq> graph_nodes g \<times> (\<Union>(n, ds)\<in>set g. set ds)"
  proof (clarsimp simp: dep_edges_def)
    fix x y
    assume y: "y \<in> set (succs g x)"
    then obtain ds where "map_of g x = Some ds" and "y \<in> set ds"
      by (cases "map_of g x") (auto simp: succs_def map_get_def)
    then show "x \<in> graph_nodes g \<and> (\<exists>e\<in>set g. y \<in> (case e of (n, ds) \<Rightarrow> set ds))"
      by (force dest: map_of_SomeD simp: graph_nodes_def)
  qed
  then show ?thesis
    by (rule finite_subset) (auto simp: graph_nodes_def)
qed

text \<open>Without a cycle the dependency relation is well-founded: there is always a first node to run.\<close>

lemma wf_dep_edges: "\<not> hasCycle g \<Longrightarrow> wf ((dep_edges g)\<inverse>)"
  by (simp add: not_hasCycle_acyclic finite_acyclic_wf_converse finite_dep_edges)

end
