(* ===== verification/Pipeline_Types.thy ===== *)
theory Pipeline_Types
  imports Dep_Graph
begin

text \<open>
  The data of package \<open>pipeline\<close> (\<open>src/internal/pipeline/types.go\<close>): the decoded pipeline file and the
  compiled plan, field by field. A \<open>nil\<close> map is told apart from an empty one only for the runner labels,
  the one place where the code looks; elsewhere a map field is its list of entries.
\<close>

definition APIVersion :: string where
  "APIVersion = ''v1''"

record Concurrency =
  conc_Group :: string
  conc_Limit :: int
  conc_CancelPrevious :: bool

record Trigger =
  trig_Event :: string
  trig_Branches :: "string list"
  trig_Paths :: "string list"

record Service =
  svc_Name :: string
  svc_Image :: string
  svc_Environment :: gomap

record Step =
  step_Name :: string
  step_Image :: string
  step_Commands :: "string list"
  step_WorkingDir :: string
  step_Environment :: gomap
  step_Timeout :: string

record Resources =
  res_CPU :: string
  res_Memory :: string
  res_PIDs :: int
  res_Disk :: string
  res_Privileged :: bool

record RunnerRequirements =
  req_OS :: string
  req_Architecture :: string
  req_Executor :: string
  req_Labels :: "gomap option"

record Job =
  job_Name :: string
  job_Image :: string
  job_DependsOn :: "string list"
  job_Timeout :: string
  job_Retry :: int
  job_Environment :: gomap
  job_Secrets :: "string list"
  job_Services :: "Service list"
  job_Matrix :: "(string \<times> string list) list"
  job_Resources :: Resources
  job_RunsOn :: RunnerRequirements
  job_Steps :: "Step list"

record Stage =
  stage_Name :: string
  stage_DependsOn :: "string list"
  stage_Jobs :: "Job list"

record Pipeline =
  pipe_Version :: string
  pipe_Name :: string
  pipe_Concurrency :: "Concurrency option"
  pipe_Triggers :: "Trigger list"
  pipe_Environment :: gomap
  pipe_Stages :: "Stage list"

record PlanJob =
  pj_Name :: string
  pj_Image :: string
  pj_DependsOn :: "string list"
  pj_Timeout :: duration
  pj_Retry :: int
  pj_Matrix :: "(string \<times> string list) list"
  pj_Environment :: gomap
  pj_Services :: "Service list"
  pj_Resources :: Resources
  pj_RunsOn :: RunnerRequirements
  pj_RequiredDiskBytes :: int
  pj_Secrets :: "string list"
  pj_Steps :: "Step list"

record PlanStage =
  ps_Name :: string
  ps_DependsOn :: "string list"
  ps_Jobs :: "PlanJob list"

record Plan =
  plan_Version :: string
  plan_Name :: string
  plan_ConfigSHA256 :: string
  plan_CompiledAt :: gotime
  plan_Stages :: "PlanStage list"

text \<open>
  What a compilation takes from outside the package: the YAML decoder (a third-party module), the JSON
  encoder and the hash of the standard library, the order in which each \<open>range\<close> over a map visits the
  entries (unspecified in Go) and the floating-point rounding inside \<open>time.ParseDuration\<close>.
\<close>

record runtime =
  yaml_decode :: "bytes \<Rightarrow> Pipeline option"
  json_marshal :: "Pipeline \<Rightarrow> bytes option"
  sha256 :: "bytes \<Rightarrow> bytes"
  range_deps :: "graph \<Rightarrow> graph"
  range_graph :: "graph \<Rightarrow> graph"
  range_fields :: "gomap \<Rightarrow> gomap"
  float_fraction :: "int \<Rightarrow> int \<Rightarrow> nat \<Rightarrow> int"

text \<open>A \<open>range\<close> visits every entry exactly once, in some order.\<close>

definition ranges_ok :: "runtime \<Rightarrow> bool" where
  "ranges_ok rt \<longleftrightarrow>
     (\<forall>m. mset (range_deps rt m) = mset m) \<and>
     (\<forall>m. mset (range_graph rt m) = mset m) \<and>
     (\<forall>m. mset (range_fields rt m) = mset m)"

lemma ranges_okD:
  assumes "ranges_ok rt"
  shows "set (range_deps rt m) = set m" and "set (range_fields rt fm) = set fm"
    and "mset (range_graph rt g) = mset g"
proof -
  show "set (range_deps rt m) = set m"
    using assms by (metis ranges_ok_def mset_eq_setD)
  show "set (range_fields rt fm) = set fm"
    using assms by (metis ranges_ok_def mset_eq_setD)
  show "mset (range_graph rt g) = mset g"
    using assms by (simp add: ranges_ok_def)
qed

end
