(* ===== verification/Run_State.thy ===== *)
theory Run_State
  imports Pipeline_Types
begin

text \<open>
  The run and job state machines of \<open>src/internal/run/state.go\<close> and the data that the run stores keep and
  exchange (\<open>store.go\<close>, \<open>runner_store.go\<close>, \<open>recovery.go\<close>, \<open>logs.go\<close> of the same package), with the
  validators of the requests that runners send.
\<close>

section \<open>Run and job status\<close>

datatype Status =
    StatusQueued | StatusRunning | StatusWaitingApproval | StatusSucceeded | StatusFailed | StatusCanceled

definition transitions :: "(Status \<times> Status list) list" where
  "transitions =
     [(StatusQueued, [StatusRunning, StatusCanceled]),
      (StatusRunning, [StatusWaitingApproval, StatusSucceeded, StatusFailed, StatusCanceled]),
      (StatusWaitingApproval, [StatusRunning, StatusFailed, StatusCanceled])]"

definition Terminal :: "Status \<Rightarrow> bool" where
  "Terminal s \<longleftrightarrow> s = StatusSucceeded \<or> s = StatusFailed \<or> s = StatusCanceled"

definition ValidateTransition :: "Status \<Rightarrow> Status \<Rightarrow> bool" where
  "ValidateTransition src dst \<longleftrightarrow> dst \<in> set (map_get [] transitions src)"

datatype JobStatus =
    JobBlocked | JobQueued | JobAssigned | JobRunning | JobSucceeded | JobFailed | JobCanceled | JobSkipped

definition job_transitions :: "(JobStatus \<times> JobStatus list) list" where
  "job_transitions =
     [(JobBlocked, [JobQueued, JobCanceled, JobSkipped]),
      (JobQueued, [JobAssigned, JobCanceled, JobSkipped]),
      (JobAssigned, [JobRunning, JobQueued, JobCanceled]),
      (JobRunning, [JobSucceeded, JobFailed, JobCanceled])]"

definition ValidateJobTransition :: "JobStatus \<Rightarrow> JobStatus \<Rightarrow> bool" where
  "ValidateJobTransition src dst \<longleftrightarrow> dst \<in> set (map_get [] job_transitions src)"

text \<open>The statuses a job never leaves.\<close>

definition job_final :: "JobStatus \<Rightarrow> bool" where
  "job_final s \<longleftrightarrow> s = JobSucceeded \<or> s = JobFailed \<or> s = JobCanceled \<or> s = JobSkipped"

abbreviation job_leased :: "JobStatus \<Rightarrow> bool" where
  "job_leased s \<equiv> s = JobAssigned \<or> s = JobRunning"

section \<open>Records of the stores\<close>

record Record =
  rec_ID :: uuid
  rec_ProjectID :: "uuid option"
  rec_CreatedBy :: "uuid option"
  rec_PipelineVersionID :: "uuid option"
  rec_IdempotencyKey :: string
  rec_PipelineName :: string
  rec_Event :: string
  rec_Ref :: string
  rec_CommitSHA :: string
  rec_Status :: Status
  rec_ConfigSHA256 :: string
  rec_Plan :: bytes
  rec_CreatedAt :: gotime
  rec_StartedAt :: "gotime option"
  rec_FinishedAt :: "gotime option"

record SourceCheckout =
  src_RepositoryUUID :: uuid
  src_Provider :: string
  src_RepositoryID :: string
  src_CloneURL :: string
  src_CommitSHA :: string

record Assignment =
  as_JobID :: uuid
  as_RunID :: uuid
  as_StageName :: string
  as_JobName :: string
  as_Attempt :: int
  as_LeaseToken :: string
  as_LeaseExpires :: gotime
  as_Spec :: PlanJob
  as_Source :: "SourceCheckout option"

record memoryJob =
  mj_assignment :: Assignment
  mj_key :: string
  mj_dependencies :: "string list"
  mj_status :: JobStatus
  mj_runnerID :: uuid
  mj_acceptedAt :: "gotime option"
  mj_leaseRenewed :: "gotime option"

section \<open>Runner requests\<close>

definition RunnerLeaseDuration :: duration where
  "RunnerLeaseDuration = 30 * Second"

definition MaximumHeartbeatJobCount :: nat where
  "MaximumHeartbeatJobCount = 256"

record RunnerDescriptor =
  rd_ID :: uuid
  rd_PoolType :: string
  rd_OS :: string
  rd_Architecture :: string
  rd_Executor :: string
  rd_Labels :: gomap
  rd_Capacity :: int
  rd_AvailableDiskBytes :: int
  rd_ProtocolVersion :: int

record LeaseRequest =
  lr_RunnerID :: uuid
  lr_JobID :: uuid
  lr_LeaseToken :: string

record LeaseState =
  ls_JobID :: uuid
  ls_LeaseExpires :: gotime

record ActiveLease =
  al_JobID :: uuid
  al_LeaseToken :: string
  al_State :: string

record HeartbeatRequest =
  hb_Runner :: RunnerDescriptor
  hb_ActiveJobs :: "ActiveLease list"

record LeaseResult =
  res_JobID :: uuid
  res_Renewed :: bool
  res_LeaseExpires :: gotime
  res_CancelReason :: string

record HeartbeatResult =
  hr_LeaseExpires :: gotime
  hr_Jobs :: "LeaseResult list"

record RunnerCompletion =
  rc_RunnerID :: uuid
  rc_JobID :: uuid
  rc_LeaseToken :: string
  rc_Status :: JobStatus

record RecoveryResult =
  rr_Requeued :: int
  rr_Failed :: int

definition MaximumRecoveryBatch :: int where
  "MaximumRecoveryBatch = 100"

text \<open>The errors of the store operations.\<close>

datatype store_error =
    ErrLeaseInvalid | ErrJobNotFound | ErrInvalidRunnerRequest | ErrInvalidRecoveryLimit
  | ErrDecodePlan | ErrRunExists | ErrInvalidTerminalStatus

section \<open>Request validation\<close>

definition runner_label_rest :: "char \<Rightarrow> bool" where
  "runner_label_rest c \<longleftrightarrow> is_alnum c \<or> c \<in> set ''._/-''"

definition runner_label_pattern :: "string \<Rightarrow> bool" where
  "runner_label_pattern s = matches is_alnum runner_label_rest 127 s"

text \<open>The loop over the active leases, with the job IDs seen so far.\<close>

fun active_jobs_ok :: "uuid list \<Rightarrow> ActiveLease list \<Rightarrow> bool" where
  "active_jobs_ok seen [] = True"
| "active_jobs_ok seen (active # rest) =
     (if al_JobID active = uuid_Nil \<or> al_LeaseToken active = [] \<or>
         (al_State active \<noteq> ''received'' \<and> al_State active \<noteq> ''running'') then False
      else if al_JobID active \<in> set seen then False
      else active_jobs_ok (al_JobID active # seen) rest)"

definition ValidateHeartbeatRequest :: "HeartbeatRequest \<Rightarrow> bool" where
  "ValidateHeartbeatRequest request =
     (let runner = hb_Runner request in
      if rd_ID runner = uuid_Nil \<or>
         (rd_PoolType runner \<noteq> ''standard'' \<and> rd_PoolType runner \<noteq> ''privileged'' \<and>
          rd_PoolType runner \<noteq> ''deployment'') \<or>
         rd_OS runner = [] \<or> length (rd_OS runner) > 64 \<or>
         rd_Architecture runner = [] \<or> length (rd_Architecture runner) > 64 \<or>
         rd_Executor runner = [] \<or> length (rd_Executor runner) > 64 \<or>
         rd_Capacity runner < 1 \<or> rd_Capacity runner > 256 \<or>
         rd_AvailableDiskBytes runner < 0 \<or>
         rd_ProtocolVersion runner < 1 \<or> rd_ProtocolVersion runner > 2 \<or>
         length (rd_Labels runner) > 128 \<or>
         length (hb_ActiveJobs request) > MaximumHeartbeatJobCount \<or>
         int (length (hb_ActiveJobs request)) > rd_Capacity runner
      then False
      else list_all (\<lambda>(key, value). runner_label_pattern key \<and> length value \<le> 256) (rd_Labels runner) \<and>
           active_jobs_ok [] (hb_ActiveJobs request))"

definition validateLeaseRequest :: "LeaseRequest \<Rightarrow> bool" where
  "validateLeaseRequest request \<longleftrightarrow>
     \<not> (lr_RunnerID request = uuid_Nil \<or> lr_JobID request = uuid_Nil \<or> lr_LeaseToken request = [])"

section \<open>Job logs\<close>

definition MaxLogChunkBytes :: int where "MaxLogChunkBytes = 32768"
definition MaxJobLogBytes :: int where "MaxJobLogBytes = 16777216"
definition MaxJobLogChunks :: int where "MaxJobLogChunks = 8192"

lemmas log_limits = MaxLogChunkBytes_def MaxJobLogBytes_def MaxJobLogChunks_def

record LogChunk =
  lc_Lease :: LeaseRequest
  lc_Sequence :: int
  lc_Step :: int
  lc_Stream :: string
  lc_Data :: bytes
  lc_Truncated :: bool

definition ValidateLogChunk :: "LogChunk \<Rightarrow> bool" where
  "ValidateLogChunk c \<longleftrightarrow>
     \<not> (lr_RunnerID (lc_Lease c) = uuid_Nil \<or> lr_JobID (lc_Lease c) = uuid_Nil \<or>
        length (lr_LeaseToken (lc_Lease c)) = 0 \<or> length (lr_LeaseToken (lc_Lease c)) > 512 \<or>
        lc_Sequence c < 1 \<or> lc_Sequence c > MaxJobLogChunks \<or>
        lc_Step c < 0 \<or> lc_Step c > 1023 \<or>
        (lc_Stream c \<noteq> ''stdout'' \<and> lc_Stream c \<noteq> ''stderr'') \<or>
        int (length (lc_Data c)) > MaxLogChunkBytes \<or>
        (\<not> lc_Truncated c \<and> length (lc_Data c) = 0) \<or>
        (lc_Truncated c \<and> length (lc_Data c) \<noteq> 0))"

section \<open>Facts about the machines and the validators\<close>

lemma Terminal_iff_stuck: "Terminal s \<longleftrightarrow> (\<forall>t. \<not> ValidateTransition s t)"
  by (cases s) (auto simp: Terminal_def ValidateTransition_def transitions_def map_get_def)

lemma job_final_iff_stuck: "job_final s \<longleftrightarrow> (\<forall>t. \<not> ValidateJobTransition s t)"
  by (cases s) (auto simp: job_final_def ValidateJobTransition_def job_transitions_def map_get_def)

lemma active_jobs_ok_iff:
  "active_jobs_ok seen as \<longleftrightarrow>
     (\<forall>a\<in>set as. al_JobID a \<noteq> 0 \<and> al_LeaseToken a \<noteq> [] \<and>
        (al_State a = ''received'' \<or> al_State a = ''running'')) \<and>
     distinct (map al_JobID as) \<and> al_JobID ` set as \<inter> set seen = {}"
  by (induction as arbitrary: seen) auto

end
