(* ===== verification/Memory_Store.thy ===== *)
theory Memory_Store
  imports Run_State
begin

text \<open>
  The in-memory run store of \<open>src/internal/run\<close>: \<open>MemoryStore\<close> with the job operations of \<open>store.go\<close>, the
  runner protocol of \<open>runner_memory.go\<close> and the lease recovery of \<open>recovery_memory.go\<close>.

  Every operation holds the store's lock from its first read to its return, so an operation is one atomic
  function from the store to an error, or to the new store and the reply. The clock (\<open>m.now\<close>, a field of
  the source's store) is read once per operation and is the argument \<open>now\<close>; the token drawn by
  \<open>randomToken\<close> and the identifiers drawn by \<open>uuid.New\<close> are arguments as well. An operation that returns
  an error leaves the store as it was.
\<close>

record MemoryStore =
  ms_records :: "Record list"
  ms_jobs :: "memoryJob list"
  ms_runners :: "uuid \<rightharpoonup> RunnerDescriptor"

definition NewMemoryStore :: MemoryStore where
  "NewMemoryStore = \<lparr>ms_records = [], ms_jobs = [], ms_runners = Map.empty\<rparr>"

abbreviation mj_JobID :: "memoryJob \<Rightarrow> uuid" where
  "mj_JobID j \<equiv> as_JobID (mj_assignment j)"

abbreviation mj_RunID :: "memoryJob \<Rightarrow> uuid" where
  "mj_RunID j \<equiv> as_RunID (mj_assignment j)"

section \<open>Creating and listing runs\<close>

definition job_key :: "string \<Rightarrow> string \<Rightarrow> string" where
  "job_key stage job = stage @ ''/'' @ job"

text \<open>The map \<open>stageJobs\<close>: the keys of all jobs of a stage.\<close>

definition stageJobs :: "PlanStage list \<Rightarrow> string \<Rightarrow> string list" where
  "stageJobs stages name =
     concat (map (\<lambda>stage. if ps_Name stage = name
                          then map (\<lambda>job. job_key (ps_Name stage) (pj_Name job)) (ps_Jobs stage)
                          else []) stages)"

definition job_dependencies :: "PlanStage list \<Rightarrow> PlanStage \<Rightarrow> PlanJob \<Rightarrow> string list" where
  "job_dependencies stages stage job =
     concat (map (stageJobs stages) (ps_DependsOn stage)) @
     map (job_key (ps_Name stage)) (pj_DependsOn job)"

definition new_job :: "uuid \<Rightarrow> PlanStage list \<Rightarrow> uuid \<times> PlanStage \<times> PlanJob \<Rightarrow> memoryJob" where
  "new_job runID stages p =
     (case p of (jobID, stage, job) \<Rightarrow>
        (let dependencies = job_dependencies stages stage job in
         \<lparr>mj_assignment =
            \<lparr>as_JobID = jobID, as_RunID = runID, as_StageName = ps_Name stage, as_JobName = pj_Name job,
             as_Attempt = 1, as_LeaseToken = [], as_LeaseExpires = time_zero, as_Spec = job,
             as_Source = None\<rparr>,
          mj_key = job_key (ps_Name stage) (pj_Name job), mj_dependencies = dependencies,
          mj_status = (if dependencies = [] then JobQueued else JobBlocked),
          mj_runnerID = uuid_Nil, mj_acceptedAt = None, mj_leaseRenewed = None\<rparr>))"

definition plan_pairs :: "PlanStage list \<Rightarrow> (PlanStage \<times> PlanJob) list" where
  "plan_pairs stages = concat (map (\<lambda>stage. map (Pair stage) (ps_Jobs stage)) stages)"

definition new_jobs :: "(nat \<Rightarrow> uuid) \<Rightarrow> uuid \<Rightarrow> PlanStage list \<Rightarrow> memoryJob list" where
  "new_jobs newID runID stages =
     map (\<lambda>(i, p). new_job runID stages (newID i, p)) (enumerate 0 (plan_pairs stages))"

definition Create :: "(bytes \<Rightarrow> Plan option) \<Rightarrow> (nat \<Rightarrow> uuid) \<Rightarrow> Record \<Rightarrow> MemoryStore
    \<Rightarrow> store_error + MemoryStore \<times> Record" where
  "Create unmarshal newID record m =
     (case unmarshal (rec_Plan record) of
        None \<Rightarrow> Inl ErrDecodePlan
      | Some plan \<Rightarrow>
          if list_ex (\<lambda>existing. rec_ID existing = rec_ID record) (ms_records m) then Inl ErrRunExists
          else Inr (m\<lparr>ms_records := record # ms_records m,
                      ms_jobs := ms_jobs m @ new_jobs newID (rec_ID record) (plan_Stages plan)\<rparr>,
                    record))"

definition List_runs :: "int \<Rightarrow> MemoryStore \<Rightarrow> Record list" where
  "List_runs limit m =
     (let n = (if limit \<le> 0 \<or> limit > int (length (ms_records m)) then length (ms_records m) else nat limit)
      in take n (ms_records m))"

section \<open>Shared helpers\<close>

definition findJob :: "MemoryStore \<Rightarrow> uuid \<Rightarrow> memoryJob option" where
  "findJob m jobID = List.find (\<lambda>j. mj_JobID j = jobID) (ms_jobs m)"

definition update_job :: "uuid \<Rightarrow> (memoryJob \<Rightarrow> memoryJob) \<Rightarrow> MemoryStore \<Rightarrow> MemoryStore" where
  "update_job jobID f m = m\<lparr>ms_jobs := update_first (\<lambda>j. mj_JobID j = jobID) f (ms_jobs m)\<rparr>"

text \<open>The map \<open>states\<close> of \<open>unblock\<close>: a later job with the same key replaces an earlier one.\<close>

definition job_states :: "uuid \<Rightarrow> memoryJob list \<Rightarrow> string \<rightharpoonup> JobStatus" where
  "job_states runID jobs =
     map_of (rev (map (\<lambda>j. (mj_key j, mj_status j)) (filter (\<lambda>j. mj_RunID j = runID) jobs)))"

definition unblock_job :: "uuid \<Rightarrow> (string \<rightharpoonup> JobStatus) \<Rightarrow> memoryJob \<Rightarrow> memoryJob" where
  "unblock_job runID states job =
     (if mj_RunID job \<noteq> runID \<or> mj_status job \<noteq> JobBlocked then job
      else if list_all (\<lambda>d. states d = Some JobSucceeded) (mj_dependencies job)
      then job\<lparr>mj_status := JobQueued\<rparr> else job)"

definition unblock :: "uuid \<Rightarrow> MemoryStore \<Rightarrow> MemoryStore" where
  "unblock runID m = m\<lparr>ms_jobs := map (unblock_job runID (job_states runID (ms_jobs m))) (ms_jobs m)\<rparr>"

text \<open>The loop that skips what can no longer run after a failure.\<close>

definition skip_job :: "uuid \<Rightarrow> memoryJob \<Rightarrow> memoryJob" where
  "skip_job runID job =
     (if mj_RunID job = runID \<and> (mj_status job = JobBlocked \<or> mj_status job = JobQueued)
      then job\<lparr>mj_status := JobSkipped\<rparr> else job)"

definition skip_pending :: "uuid \<Rightarrow> MemoryStore \<Rightarrow> MemoryStore" where
  "skip_pending runID m = m\<lparr>ms_jobs := map (skip_job runID) (ms_jobs m)\<rparr>"

definition setRunStatus :: "uuid \<Rightarrow> Status \<Rightarrow> MemoryStore \<Rightarrow> MemoryStore" where
  "setRunStatus runID status m =
     m\<lparr>ms_records := update_first (\<lambda>r. rec_ID r = runID) (\<lambda>r. r\<lparr>rec_Status := status\<rparr>) (ms_records m)\<rparr>"

definition setRunStarted :: "gotime \<Rightarrow> uuid \<Rightarrow> MemoryStore \<Rightarrow> MemoryStore" where
  "setRunStarted now runID m =
     m\<lparr>ms_records := update_first (\<lambda>r. rec_ID r = runID \<and> rec_StartedAt r = None)
                       (\<lambda>r. r\<lparr>rec_StartedAt := Some now\<rparr>) (ms_records m)\<rparr>"

definition setRunFinished :: "gotime \<Rightarrow> uuid \<Rightarrow> MemoryStore \<Rightarrow> MemoryStore" where
  "setRunFinished now runID m =
     m\<lparr>ms_records := update_first (\<lambda>r. rec_ID r = runID)
                       (\<lambda>r. r\<lparr>rec_FinishedAt := Some now\<rparr>) (ms_records m)\<rparr>"

definition job_active :: "JobStatus \<Rightarrow> bool" where
  "job_active s \<longleftrightarrow> s = JobBlocked \<or> s = JobQueued \<or> s = JobAssigned \<or> s = JobRunning"

definition finalizeRun :: "gotime \<Rightarrow> uuid \<Rightarrow> MemoryStore \<Rightarrow> MemoryStore" where
  "finalizeRun now runID m =
     (let statuses = map mj_status (filter (\<lambda>j. mj_RunID j = runID) (ms_jobs m)) in
      if list_ex job_active statuses then m
      else setRunFinished now runID
             (setRunStatus runID
               (if JobFailed \<in> set statuses then StatusFailed
                else if JobCanceled \<in> set statuses then StatusCanceled
                else StatusSucceeded) m))"

text \<open>
  The tail that \<open>CompleteJob\<close> and \<open>CompleteRunnerJob\<close> share, after the job itself was updated by \<open>f\<close>.
\<close>

definition complete_tail ::
    "gotime \<Rightarrow> memoryJob \<Rightarrow> (memoryJob \<Rightarrow> memoryJob) \<Rightarrow> JobStatus \<Rightarrow> MemoryStore \<Rightarrow> MemoryStore" where
  "complete_tail now job f status m =
     (let m1 = update_job (mj_JobID job) f m;
          m2 = (if status = JobSucceeded then unblock (mj_RunID job) m1
                else skip_pending (mj_RunID job) m1)
      in finalizeRun now (mj_RunID job) m2)"

definition leaseDuration :: "duration \<Rightarrow> duration" where
  "leaseDuration jobTimeout =
     int64 ((if jobTimeout \<le> 0 then 30 * Minute else jobTimeout) + 5 * Minute)"

definition leaseAlive :: "gotime \<Rightarrow> memoryJob \<Rightarrow> bool" where
  "leaseAlive now job \<longleftrightarrow> now < as_LeaseExpires (mj_assignment job)"

definition validLease :: "gotime \<Rightarrow> memoryJob \<Rightarrow> string \<Rightarrow> bool" where
  "validLease now job token \<longleftrightarrow>
     leaseAlive now job \<and> as_LeaseToken (mj_assignment job) = token"

definition validRunnerLease :: "gotime \<Rightarrow> memoryJob \<Rightarrow> uuid \<Rightarrow> string \<Rightarrow> bool" where
  "validRunnerLease now job runnerID token \<longleftrightarrow>
     mj_runnerID job = runnerID \<and> leaseAlive now job \<and> as_LeaseToken (mj_assignment job) = token"

section \<open>The job operations of store.go\<close>

definition assign_job :: "string \<Rightarrow> gotime \<Rightarrow> memoryJob \<Rightarrow> memoryJob" where
  "assign_job token expires job =
     job\<lparr>mj_status := JobAssigned,
         mj_assignment := (mj_assignment job)\<lparr>as_LeaseToken := token, as_LeaseExpires := expires\<rparr>\<rparr>"

definition ClaimJob :: "gotime \<Rightarrow> string \<Rightarrow> MemoryStore \<Rightarrow> MemoryStore \<times> Assignment option" where
  "ClaimJob now token m =
     (case List.find (\<lambda>j. mj_status j = JobQueued) (ms_jobs m) of
        None \<Rightarrow> (m, None)
      | Some job \<Rightarrow>
          (let f = assign_job token (now + leaseDuration (pj_Timeout (as_Spec (mj_assignment job))));
               m1 = m\<lparr>ms_jobs := update_first (\<lambda>j. mj_status j = JobQueued) f (ms_jobs m)\<rparr>;
               m2 = setRunStatus (mj_RunID job) StatusRunning (setRunStarted now (mj_RunID job) m1)
           in (m2, Some (mj_assignment (f job)))))"

definition StartJob :: "gotime \<Rightarrow> uuid \<Rightarrow> string \<Rightarrow> MemoryStore \<Rightarrow> store_error + MemoryStore" where
  "StartJob now jobID token m =
     (case findJob m jobID of
        None \<Rightarrow> Inl ErrJobNotFound
      | Some job \<Rightarrow>
          if \<not> validLease now job token \<or> mj_status job \<noteq> JobAssigned then Inl ErrLeaseInvalid
          else Inr (update_job jobID (\<lambda>j. j\<lparr>mj_status := JobRunning\<rparr>) m))"

definition terminal_request :: "JobStatus \<Rightarrow> bool" where
  "terminal_request status \<longleftrightarrow> status = JobSucceeded \<or> status = JobFailed \<or> status = JobCanceled"

definition CompleteJob ::
    "gotime \<Rightarrow> uuid \<Rightarrow> string \<Rightarrow> JobStatus \<Rightarrow> MemoryStore \<Rightarrow> store_error + MemoryStore" where
  "CompleteJob now jobID token status m =
     (if \<not> terminal_request status then Inl ErrInvalidTerminalStatus
      else
        (case findJob m jobID of
           None \<Rightarrow> Inl ErrJobNotFound
         | Some job \<Rightarrow>
             if \<not> validLease now job token \<or> \<not> job_leased (mj_status job) then Inl ErrLeaseInvalid
             else Inr (complete_tail now job
                    (\<lambda>j. j\<lparr>mj_status := status,
                           mj_assignment := (mj_assignment j)\<lparr>as_LeaseToken := []\<rparr>\<rparr>) status m)))"

section \<open>The runner protocol of runner\_memory.go\<close>

definition runnerMatches :: "PlanJob \<Rightarrow> RunnerDescriptor \<Rightarrow> bool" where
  "runnerMatches spec runner =
     (if rd_PoolType runner \<noteq> ''standard'' \<or> req_OS (pj_RunsOn spec) \<noteq> rd_OS runner \<or>
         req_Executor (pj_RunsOn spec) \<noteq> rd_Executor runner \<or>
         (req_Architecture (pj_RunsOn spec) \<noteq> [] \<and>
          req_Architecture (pj_RunsOn spec) \<noteq> rd_Architecture runner) \<or>
         pj_RequiredDiskBytes spec > rd_AvailableDiskBytes runner
      then False
      else list_all (\<lambda>(key, value). map_get [] (rd_Labels runner) key = value)
             (case req_Labels (pj_RunsOn spec) of None \<Rightarrow> [] | Some labels \<Rightarrow> labels))"

definition live_leases :: "gotime \<Rightarrow> uuid \<Rightarrow> memoryJob list \<Rightarrow> nat" where
  "live_leases now runnerID jobs =
     length (filter (\<lambda>j. mj_runnerID j = runnerID \<and> job_leased (mj_status j) \<and> leaseAlive now j) jobs)"

definition claimable :: "RunnerDescriptor \<Rightarrow> memoryJob \<Rightarrow> bool" where
  "claimable runner job \<longleftrightarrow> mj_status job = JobQueued \<and> runnerMatches (as_Spec (mj_assignment job)) runner"

definition assign_to_runner :: "gotime \<Rightarrow> string \<Rightarrow> uuid \<Rightarrow> memoryJob \<Rightarrow> memoryJob" where
  "assign_to_runner now token runnerID job =
     (assign_job token (now + RunnerLeaseDuration) job)
       \<lparr>mj_runnerID := runnerID, mj_acceptedAt := None, mj_leaseRenewed := Some now\<rparr>"

definition ClaimRunnerJob ::
    "gotime \<Rightarrow> string \<Rightarrow> uuid \<Rightarrow> MemoryStore \<Rightarrow> store_error + MemoryStore \<times> Assignment option" where
  "ClaimRunnerJob now token runnerID m =
     (if runnerID = uuid_Nil then Inl ErrInvalidRunnerRequest
      else
        (case ms_runners m runnerID of
           None \<Rightarrow> Inl ErrInvalidRunnerRequest
         | Some runner \<Rightarrow>
             if int (live_leases now (rd_ID runner) (ms_jobs m)) \<ge> rd_Capacity runner then Inr (m, None)
             else
               (case List.find (claimable runner) (ms_jobs m) of
                  None \<Rightarrow> Inr (m, None)
                | Some job \<Rightarrow>
                    (let f = assign_to_runner now token (rd_ID runner);
                         m1 = m\<lparr>ms_jobs := update_first (claimable runner) f (ms_jobs m)\<rparr>;
                         m2 = setRunStatus (mj_RunID job) StatusRunning
                                (setRunStarted now (mj_RunID job) m1)
                     in Inr (m2, Some (mj_assignment (f job)))))))"

definition lease_state :: "memoryJob \<Rightarrow> LeaseState" where
  "lease_state job =
     \<lparr>ls_JobID = mj_JobID job, ls_LeaseExpires = as_LeaseExpires (mj_assignment job)\<rparr>"

definition AcknowledgeRunnerJob ::
    "gotime \<Rightarrow> LeaseRequest \<Rightarrow> MemoryStore \<Rightarrow> store_error + MemoryStore \<times> LeaseState" where
  "AcknowledgeRunnerJob now request m =
     (if \<not> validateLeaseRequest request then Inl ErrInvalidRunnerRequest
      else
        (case findJob m (lr_JobID request) of
           None \<Rightarrow> Inl ErrLeaseInvalid
         | Some job \<Rightarrow>
             if \<not> validRunnerLease now job (lr_RunnerID request) (lr_LeaseToken request) \<or>
                \<not> job_leased (mj_status job) then Inl ErrLeaseInvalid
             else Inr (update_job (lr_JobID request)
                         (\<lambda>j. if mj_acceptedAt j = None then j\<lparr>mj_acceptedAt := Some now\<rparr> else j) m,
                       lease_state job)))"

definition ReleaseRunnerJob :: "gotime \<Rightarrow> LeaseRequest \<Rightarrow> MemoryStore \<Rightarrow> store_error + MemoryStore" where
  "ReleaseRunnerJob now request m =
     (if \<not> validateLeaseRequest request then Inl ErrInvalidRunnerRequest
      else
        (case findJob m (lr_JobID request) of
           None \<Rightarrow> Inl ErrLeaseInvalid
         | Some job \<Rightarrow>
             if \<not> validRunnerLease now job (lr_RunnerID request) (lr_LeaseToken request) \<or>
                mj_status job \<noteq> JobAssigned \<or> mj_acceptedAt job \<noteq> None then Inl ErrLeaseInvalid
             else Inr (update_job (lr_JobID request)
                         (\<lambda>j. j\<lparr>mj_status := JobQueued, mj_runnerID := uuid_Nil,
                                mj_assignment := (mj_assignment j)
                                  \<lparr>as_LeaseToken := [], as_LeaseExpires := time_zero\<rparr>,
                                mj_leaseRenewed := None\<rparr>) m)))"

definition StartRunnerJob ::
    "gotime \<Rightarrow> LeaseRequest \<Rightarrow> MemoryStore \<Rightarrow> store_error + MemoryStore \<times> LeaseState" where
  "StartRunnerJob now request m =
     (if \<not> validateLeaseRequest request then Inl ErrInvalidRunnerRequest
      else
        (case findJob m (lr_JobID request) of
           None \<Rightarrow> Inl ErrLeaseInvalid
         | Some job \<Rightarrow>
             if \<not> validRunnerLease now job (lr_RunnerID request) (lr_LeaseToken request) \<or>
                mj_acceptedAt job = None \<or> \<not> job_leased (mj_status job) then Inl ErrLeaseInvalid
             else Inr (update_job (lr_JobID request) (\<lambda>j. j\<lparr>mj_status := JobRunning\<rparr>) m,
                       lease_state job)))"

definition renewable :: "gotime \<Rightarrow> uuid \<Rightarrow> string \<Rightarrow> memoryJob option \<Rightarrow> bool" where
  "renewable now runnerID token found \<longleftrightarrow>
     (case found of
        None \<Rightarrow> False
      | Some job \<Rightarrow> validRunnerLease now job runnerID token \<and> job_leased (mj_status job))"

text \<open>One iteration of the heartbeat loop: the job is renewed in place, the reply grows.\<close>

definition renew_step :: "gotime \<Rightarrow> uuid \<Rightarrow> ActiveLease \<Rightarrow> MemoryStore \<times> LeaseResult list
    \<Rightarrow> MemoryStore \<times> LeaseResult list" where
  "renew_step now runnerID active acc =
     (case acc of (m, results) \<Rightarrow>
        if \<not> renewable now runnerID (al_LeaseToken active) (findJob m (al_JobID active))
        then (m, results @ [\<lparr>res_JobID = al_JobID active, res_Renewed = False,
                             res_LeaseExpires = time_zero, res_CancelReason = ''lease_invalid''\<rparr>])
        else (update_job (al_JobID active)
                (\<lambda>j. j\<lparr>mj_assignment := (mj_assignment j)\<lparr>as_LeaseExpires := now + RunnerLeaseDuration\<rparr>,
                       mj_leaseRenewed := Some now\<rparr>) m,
              results @ [\<lparr>res_JobID = al_JobID active, res_Renewed = True,
                          res_LeaseExpires = now + RunnerLeaseDuration, res_CancelReason = []\<rparr>]))"

definition RenewRunnerLeases ::
    "gotime \<Rightarrow> HeartbeatRequest \<Rightarrow> MemoryStore \<Rightarrow> store_error + MemoryStore \<times> HeartbeatResult" where
  "RenewRunnerLeases now request m =
     (if \<not> ValidateHeartbeatRequest request then Inl ErrInvalidRunnerRequest
      else
        (let runner = hb_Runner request;
             m1 = m\<lparr>ms_runners := (ms_runners m)(rd_ID runner \<mapsto> runner)\<rparr>;
             (m2, results) = fold (renew_step now (rd_ID runner)) (hb_ActiveJobs request) (m1, [])
         in Inr (m2, \<lparr>hr_LeaseExpires = now + RunnerLeaseDuration, hr_Jobs = results\<rparr>)))"

definition CompleteRunnerJob ::
    "gotime \<Rightarrow> RunnerCompletion \<Rightarrow> MemoryStore \<Rightarrow> store_error + MemoryStore" where
  "CompleteRunnerJob now request m =
     (if rc_RunnerID request = uuid_Nil \<or> rc_JobID request = uuid_Nil \<or> rc_LeaseToken request = []
      then Inl ErrInvalidRunnerRequest
      else if \<not> terminal_request (rc_Status request) then Inl ErrInvalidTerminalStatus
      else
        (case findJob m (rc_JobID request) of
           None \<Rightarrow> Inl ErrLeaseInvalid
         | Some job \<Rightarrow>
             if \<not> validRunnerLease now job (rc_RunnerID request) (rc_LeaseToken request) \<or>
                \<not> job_leased (mj_status job) then Inl ErrLeaseInvalid
             else Inr (complete_tail now job
                    (\<lambda>j. j\<lparr>mj_status := rc_Status request,
                           mj_assignment := (mj_assignment j)\<lparr>as_LeaseToken := []\<rparr>,
                           mj_runnerID := uuid_Nil\<rparr>) (rc_Status request) m)))"

section \<open>Lease recovery of recovery\_memory.go\<close>

definition resetRunAfterRequeue :: "uuid \<Rightarrow> MemoryStore \<Rightarrow> MemoryStore" where
  "resetRunAfterRequeue runID m =
     (if list_ex (\<lambda>j. mj_RunID j = runID \<and>
            (mj_status j = JobRunning \<or> mj_status j = JobSucceeded \<or> mj_status j = JobFailed \<or>
             mj_status j = JobCanceled)) (ms_jobs m)
      then m
      else m\<lparr>ms_records := update_first (\<lambda>r. rec_ID r = runID)
               (\<lambda>r. r\<lparr>rec_Status := StatusQueued, rec_StartedAt := None, rec_FinishedAt := None\<rparr>)
               (ms_records m)\<rparr>)"

definition requeue_job :: "gotime \<Rightarrow> memoryJob \<Rightarrow> memoryJob" where
  "requeue_job now job =
     job\<lparr>mj_status := JobQueued, mj_runnerID := uuid_Nil, mj_acceptedAt := None, mj_leaseRenewed := None,
         mj_assignment := (mj_assignment job)\<lparr>as_LeaseToken := [], as_LeaseExpires := now\<rparr>\<rparr>"

definition fail_job :: "memoryJob \<Rightarrow> memoryJob" where
  "fail_job job =
     job\<lparr>mj_status := JobFailed,
         mj_assignment := (mj_assignment job)\<lparr>as_LeaseToken := []\<rparr>, mj_leaseRenewed := None\<rparr>"

definition finish_all_records :: "gotime \<Rightarrow> uuid \<Rightarrow> MemoryStore \<Rightarrow> MemoryStore" where
  "finish_all_records now runID m =
     m\<lparr>ms_records := map (\<lambda>r. if rec_ID r = runID then r\<lparr>rec_FinishedAt := Some now\<rparr> else r)
                       (ms_records m)\<rparr>"

text \<open>One iteration of the recovery loop, at index \<open>i\<close> of the job list.\<close>

definition recover_step :: "int \<Rightarrow> gotime \<Rightarrow> nat \<Rightarrow> MemoryStore \<times> int \<times> RecoveryResult
    \<Rightarrow> MemoryStore \<times> int \<times> RecoveryResult" where
  "recover_step limit now i acc =
     (case acc of (m, processed, result) \<Rightarrow>
        (let job = ms_jobs m ! i; runID = mj_RunID job in
         if processed \<ge> limit \<or> \<not> job_leased (mj_status job) \<or> leaseAlive now job
         then (m, processed, result)
         else if mj_status job = JobAssigned
         then (resetRunAfterRequeue runID (m\<lparr>ms_jobs := (ms_jobs m)[i := requeue_job now job]\<rparr>),
               processed + 1, result\<lparr>rr_Requeued := rr_Requeued result + 1\<rparr>)
         else (finish_all_records now runID
                 (setRunStatus runID StatusFailed
                   (skip_pending runID (m\<lparr>ms_jobs := (ms_jobs m)[i := fail_job job]\<rparr>))),
               processed + 1, result\<lparr>rr_Failed := rr_Failed result + 1\<rparr>)))"

definition RecoverExpiredRunnerLeases ::
    "gotime \<Rightarrow> int \<Rightarrow> MemoryStore \<Rightarrow> store_error + MemoryStore \<times> RecoveryResult" where
  "RecoverExpiredRunnerLeases now limit m =
     (if limit < 1 \<or> limit > MaximumRecoveryBatch then Inl ErrInvalidRecoveryLimit
      else
        (case fold (recover_step limit now) [0..<length (ms_jobs m)]
                (m, 0, \<lparr>rr_Requeued = 0, rr_Failed = 0\<rparr>) of
           (m', _, result) \<Rightarrow> Inr (m', result)))"

end
