(* ===== verification/Job_Machine.thy ===== *)
theory Job_Machine
  imports Run_State
begin

text \<open>
  The abstract specification of the job life cycle that the run stores implement. A store is seen only as
  its list of jobs, each with its run, its key, the keys it depends on and its status; leases, tokens,
  runners and clocks are left out. The step relation says which status changes a store may make, and the
  invariants say what they keep: no job runs before its dependencies succeeded, none stays blocked after
  they did, and a failure leaves nothing waiting.
\<close>

record job_view =
  jv_run :: uuid
  jv_key :: string
  jv_deps :: "string list"
  jv_status :: JobStatus

text \<open>The status of each key of a run; of jobs with equal keys the last one counts.\<close>

definition view_states :: "uuid \<Rightarrow> job_view list \<Rightarrow> string \<rightharpoonup> JobStatus" where
  "view_states r vs =
     map_of (rev (map (\<lambda>v. (jv_key v, jv_status v)) (filter (\<lambda>v. jv_run v = r) vs)))"

definition deps_met :: "job_view list \<Rightarrow> job_view \<Rightarrow> bool" where
  "deps_met vs v \<longleftrightarrow> (\<forall>d\<in>set (jv_deps v). view_states (jv_run v) vs d = Some JobSucceeded)"

definition set_status :: "nat \<Rightarrow> JobStatus \<Rightarrow> job_view list \<Rightarrow> job_view list" where
  "set_status i s vs = vs[i := (vs ! i)\<lparr>jv_status := s\<rparr>]"

definition release_view :: "uuid \<Rightarrow> job_view list \<Rightarrow> job_view \<Rightarrow> job_view" where
  "release_view r vs v =
     (if jv_run v = r \<and> jv_status v = JobBlocked \<and> deps_met vs v then v\<lparr>jv_status := JobQueued\<rparr> else v)"

definition release_deps :: "uuid \<Rightarrow> job_view list \<Rightarrow> job_view list" where
  "release_deps r vs = map (release_view r vs) vs"

definition skip_view :: "uuid \<Rightarrow> job_view \<Rightarrow> job_view" where
  "skip_view r v =
     (if jv_run v = r \<and> (jv_status v = JobBlocked \<or> jv_status v = JobQueued)
      then v\<lparr>jv_status := JobSkipped\<rparr> else v)"

definition skip_views :: "uuid \<Rightarrow> job_view list \<Rightarrow> job_view list" where
  "skip_views r vs = map (skip_view r) vs"

text \<open>A newly submitted job waits for its dependencies, if it has any.\<close>

definition fresh_view :: "uuid \<Rightarrow> job_view \<Rightarrow> bool" where
  "fresh_view r v \<longleftrightarrow>
     jv_run v = r \<and> jv_status v = (if jv_deps v = [] then JobQueued else JobBlocked)"

text \<open>
  The jobs of a new run: they wait for their dependencies or are queued, and some may be taken over from an
  earlier run as succeeded.
\<close>

definition fresh_views :: "uuid \<Rightarrow> job_view list \<Rightarrow> bool" where
  "fresh_views r new \<longleftrightarrow>
     (\<forall>v\<in>set new. jv_run v = r \<and> jv_status v \<in> {JobSucceeded, JobQueued, JobBlocked} \<and>
        (jv_status v = JobBlocked \<longleftrightarrow> \<not> deps_met new v)) \<and>
     (new = [] \<or> (\<exists>v\<in>set new. jv_status v \<noteq> JobSucceeded))"

definition cancel_view :: "uuid \<Rightarrow> job_view \<Rightarrow> job_view" where
  "cancel_view r v = (if jv_run v = r \<and> \<not> job_final (jv_status v) then v\<lparr>jv_status := JobCanceled\<rparr> else v)"

definition cancel_views :: "uuid \<Rightarrow> job_view list \<Rightarrow> job_view list" where
  "cancel_views r vs = map (cancel_view r) vs"

text \<open>The machine of a store whose runs can be canceled as a whole has \<open>c\<close> true.\<close>

inductive job_step :: "bool \<Rightarrow> job_view list \<Rightarrow> job_view list \<Rightarrow> bool" for c where
  submit: "r \<notin> jv_run ` set vs \<Longrightarrow> fresh_views r new \<Longrightarrow> job_step c vs (vs @ new)"
| assign: "i < length vs \<Longrightarrow> jv_status (vs ! i) = JobQueued \<Longrightarrow> job_step c vs (set_status i JobAssigned vs)"
| start: "i < length vs \<Longrightarrow> job_leased (jv_status (vs ! i)) \<Longrightarrow> job_step c vs (set_status i JobRunning vs)"
| requeue: "i < length vs \<Longrightarrow> jv_status (vs ! i) = JobAssigned \<Longrightarrow> job_step c vs (set_status i JobQueued vs)"
| succeed: "i < length vs \<Longrightarrow> job_leased (jv_status (vs ! i)) \<Longrightarrow>
     job_step c vs (release_deps (jv_run (vs ! i)) (set_status i JobSucceeded vs))"
| fail: "i < length vs \<Longrightarrow> job_leased (jv_status (vs ! i)) \<Longrightarrow> s = JobFailed \<or> s = JobCanceled \<Longrightarrow>
     job_step c vs (skip_views (jv_run (vs ! i)) (set_status i s vs))"
| cancel: "c \<Longrightarrow> job_step c vs (cancel_views r vs)"

abbreviation job_steps :: "bool \<Rightarrow> job_view list \<Rightarrow> job_view list \<Rightarrow> bool" where
  "job_steps c \<equiv> (job_step c)\<^sup>*\<^sup>*"

section \<open>The invariants\<close>

definition waits :: "bool \<Rightarrow> JobStatus \<Rightarrow> bool" where
  "waits c s \<longleftrightarrow> s = JobBlocked \<or> s = JobSkipped \<or> (c \<and> s = JobCanceled)"

definition started_ok :: "bool \<Rightarrow> job_view list \<Rightarrow> bool" where
  "started_ok c vs \<longleftrightarrow>
     (\<forall>v\<in>set vs. \<not> waits c (jv_status v) \<longrightarrow> deps_met vs v)"

definition blocked_ok :: "job_view list \<Rightarrow> bool" where
  "blocked_ok vs \<longleftrightarrow> (\<forall>v\<in>set vs. jv_status v = JobBlocked \<longrightarrow> \<not> deps_met vs v)"

definition broken :: "JobStatus \<Rightarrow> bool" where
  "broken s \<longleftrightarrow> s = JobFailed \<or> s = JobCanceled"

definition stopped_ok :: "job_view list \<Rightarrow> bool" where
  "stopped_ok vs \<longleftrightarrow>
     (\<forall>v\<in>set vs. \<forall>w\<in>set vs. jv_run v = jv_run w \<longrightarrow>
        broken (jv_status v) \<or> jv_status v = JobSkipped \<longrightarrow> jv_status w \<noteq> JobBlocked)"

definition skipped_ok :: "job_view list \<Rightarrow> bool" where
  "skipped_ok vs \<longleftrightarrow>
     (\<forall>v\<in>set vs. jv_status v = JobSkipped \<longrightarrow>
        (\<exists>w\<in>set vs. jv_run w = jv_run v \<and> broken (jv_status w)))"

definition job_inv :: "bool \<Rightarrow> job_view list \<Rightarrow> bool" where
  "job_inv c vs \<longleftrightarrow> started_ok c vs \<and> blocked_ok vs \<and> stopped_ok vs \<and> skipped_ok vs"

lemmas job_inv_defs = job_inv_def started_ok_def blocked_ok_def stopped_ok_def skipped_ok_def

section \<open>How a change of one list of views affects the dependencies\<close>

lemma view_states_Cons:
  "view_states r (v # vs) d =
     (case view_states r vs d of
        Some s \<Rightarrow> Some s
      | None \<Rightarrow> if jv_run v = r \<and> jv_key v = d then Some (jv_status v) else None)"
  by (auto simp: view_states_def map_add_def split: option.splits)

lemma view_states_Nil [simp]: "view_states r [] d = None"
  by (simp add: view_states_def)

lemma view_states_append_other:
  "r \<notin> jv_run ` set new \<Longrightarrow> view_states r (vs @ new) = view_states r vs"
proof -
  assume "r \<notin> jv_run ` set new"
  then have "filter (\<lambda>v. jv_run v = r) new = []"
    by (auto simp: filter_empty_conv)
  then show ?thesis by (simp add: view_states_def)
qed

lemma view_states_prepend_other:
  "r \<notin> jv_run ` set vs \<Longrightarrow> view_states r (vs @ new) = view_states r new"
proof -
  assume "r \<notin> jv_run ` set vs"
  then have "filter (\<lambda>v. jv_run v = r) vs = []"
    by (auto simp: filter_empty_conv)
  then show ?thesis by (simp add: view_states_def)
qed

lemma view_states_in:
  "view_states r vs d = Some s \<Longrightarrow> \<exists>v\<in>set vs. jv_run v = r \<and> jv_key v = d \<and> jv_status v = s"
  by (induction vs) (auto simp: view_states_Cons split: option.splits if_splits)

text \<open>
  \<open>keeps r vs ws\<close>: the same jobs in the same order, and no job of run \<open>r\<close> loses the status succeeded.
\<close>

definition keeps :: "uuid \<Rightarrow> job_view list \<Rightarrow> job_view list \<Rightarrow> bool" where
  "keeps r vs ws \<longleftrightarrow>
     list_all2 (\<lambda>v w. jv_run w = jv_run v \<and> jv_key w = jv_key v \<and> jv_deps w = jv_deps v \<and>
       (jv_run v = r \<longrightarrow> jv_status v = JobSucceeded \<longrightarrow> jv_status w = JobSucceeded)) vs ws"

lemma view_states_keeps:
  assumes "keeps r vs ws"
  shows "(view_states r vs d = None \<longleftrightarrow> view_states r ws d = None) \<and>
         (view_states r vs d = Some JobSucceeded \<longrightarrow> view_states r ws d = Some JobSucceeded)"
  using assms unfolding keeps_def
  by (induction rule: list_all2_induct) (auto simp: view_states_Cons split: option.splits)

lemma deps_met_keeps:
  "keeps (jv_run v) vs ws \<Longrightarrow> jv_run w = jv_run v \<Longrightarrow> jv_deps w = jv_deps v \<Longrightarrow>
   deps_met vs v \<Longrightarrow> deps_met ws w"
  using view_states_keeps by (simp add: deps_met_def)

lemma keeps_map:
  assumes "\<And>v. v \<in> set vs \<Longrightarrow> jv_run (f v) = jv_run v \<and> jv_key (f v) = jv_key v \<and> jv_deps (f v) = jv_deps v \<and>
    (jv_run v = r \<longrightarrow> jv_status v = JobSucceeded \<longrightarrow> jv_status (f v) = JobSucceeded)"
  shows "keeps r vs (map f vs)"
  unfolding keeps_def list_all2_conv_all_nth using assms by simp

lemma keeps_map_converse:
  assumes "\<And>v. v \<in> set vs \<Longrightarrow> jv_run (f v) = jv_run v \<and> jv_key (f v) = jv_key v \<and> jv_deps (f v) = jv_deps v \<and>
    (jv_run v = r \<longrightarrow> jv_status (f v) = JobSucceeded \<longrightarrow> jv_status v = JobSucceeded)"
  shows "keeps r (map f vs) vs"
  unfolding keeps_def list_all2_conv_all_nth using assms by simp

lemma keeps_trans: "keeps r us vs \<Longrightarrow> keeps r vs ws \<Longrightarrow> keeps r us ws"
  unfolding keeps_def by (rule list_all2_trans) auto

lemma keeps_refl: "keeps r vs vs"
  by (simp add: keeps_def list_all2_same)

text \<open>A status change at one index, seen from every run and from the other runs only.\<close>

lemma keeps_set_status:
  assumes "i < length vs" and "jv_status (vs ! i) = JobSucceeded \<longrightarrow> s = JobSucceeded"
  shows "keeps r vs (set_status i s vs)"
  using assms by (auto simp: keeps_def set_status_def list_all2_conv_all_nth nth_list_update)

lemma keeps_set_status_converse:
  assumes "i < length vs" and "jv_run (vs ! i) = r \<longrightarrow> s = JobSucceeded \<longrightarrow> jv_status (vs ! i) = JobSucceeded"
  shows "keeps r (set_status i s vs) vs"
  using assms by (auto simp: keeps_def set_status_def list_all2_conv_all_nth nth_list_update)

lemma set_set_status:
  assumes "w \<in> set (set_status i s vs)" and "i < length vs"
  obtains "w \<in> set vs" | "w = (vs ! i)\<lparr>jv_status := s\<rparr>"
  using assms set_update_subset_insert [of vs i] by (auto simp: set_status_def)

lemma set_status_nth [simp]:
  "i < length vs \<Longrightarrow> set_status i s vs ! i = (vs ! i)\<lparr>jv_status := s\<rparr>"
  "length (set_status i s vs) = length vs"
  by (simp_all add: set_status_def)

lemma release_view_same [simp]:
  "jv_run (release_view r vs v) = jv_run v" "jv_key (release_view r vs v) = jv_key v"
  "jv_deps (release_view r vs v) = jv_deps v"
  by (simp_all add: release_view_def)

lemma skip_view_same [simp]:
  "jv_run (skip_view r v) = jv_run v" "jv_key (skip_view r v) = jv_key v"
  "jv_deps (skip_view r v) = jv_deps v"
  by (simp_all add: skip_view_def)

lemma keeps_release: "keeps r vs (release_deps q vs)" "keeps r (release_deps q vs) vs"
  unfolding release_deps_def
  by (rule keeps_map, simp add: release_view_def) (rule keeps_map_converse, simp add: release_view_def)

lemma keeps_skip: "keeps r vs (skip_views q vs)" "keeps r (skip_views q vs) vs"
  unfolding skip_views_def
  by (rule keeps_map, simp add: skip_view_def) (rule keeps_map_converse, simp add: skip_view_def)

lemma deps_met_iff_keeps:
  "keeps (jv_run v) vs ws \<Longrightarrow> keeps (jv_run v) ws vs \<Longrightarrow> jv_run w = jv_run v \<Longrightarrow> jv_deps w = jv_deps v \<Longrightarrow>
   deps_met ws w \<longleftrightarrow> deps_met vs v"
  by (metis deps_met_keeps)

lemma deps_met_status [simp]: "deps_met vs (v\<lparr>jv_status := s\<rparr>) \<longleftrightarrow> deps_met vs v"
  by (simp add: deps_met_def)

section \<open>Every step keeps the invariants\<close>

text \<open>
  A change of one job between statuses that are neither blocked, skipped, succeeded nor broken keeps
  everything.
\<close>

definition plain :: "JobStatus \<Rightarrow> bool" where
  "plain s \<longleftrightarrow> s = JobQueued \<or> s = JobAssigned \<or> s = JobRunning"

lemma job_inv_plain:
  assumes inv: "job_inv c vs" and i: "i < length vs" and p: "plain (jv_status (vs ! i))" "plain s"
  shows "job_inv c (set_status i s vs)"
proof -
  let ?ws = "set_status i s vs"
  have k: "keeps r vs ?ws" "keeps r ?ws vs" for r
    using keeps_set_status [OF i, of s r] keeps_set_status_converse [OF i, of r s] p
    by (auto simp: plain_def)
  have met: "deps_met ?ws w \<longleftrightarrow> deps_met vs w" for w
    using deps_met_iff_keeps [OF k] by blast
  have vi: "vs ! i \<in> set vs" using i by simp
  have "started_ok c ?ws"
    using inv p vi by (auto simp: job_inv_defs met plain_def waits_def elim!: set_set_status [OF _ i])
  moreover have "blocked_ok ?ws"
    using inv p by (auto simp: job_inv_defs met plain_def elim!: set_set_status [OF _ i])
  moreover have "stopped_ok ?ws"
    unfolding stopped_ok_def
  proof (intro ballI impI)
    fix v w
    assume v: "v \<in> set ?ws" and w: "w \<in> set ?ws" and r: "jv_run v = jv_run w"
      and b: "broken (jv_status v) \<or> jv_status v = JobSkipped"
    have "v \<in> set vs" using v b p by (auto simp: plain_def broken_def elim!: set_set_status [OF _ i])
    then show "jv_status w \<noteq> JobBlocked"
      using w r b inv p by (auto simp: job_inv_defs plain_def elim!: set_set_status [OF _ i])
  qed
  moreover have "skipped_ok ?ws"
    unfolding skipped_ok_def
  proof (intro ballI impI)
    fix v
    assume v: "v \<in> set ?ws" and b: "jv_status v = JobSkipped"
    have "v \<in> set vs" using v b p by (auto simp: plain_def elim!: set_set_status [OF _ i])
    then obtain w where w: "w \<in> set vs" "jv_run w = jv_run v" "broken (jv_status w)"
      using b inv by (auto simp: job_inv_defs)
    then obtain n where n: "n < length vs" "vs ! n = w" by (auto simp: in_set_conv_nth)
    then have "n \<noteq> i" using w(3) p by (auto simp: plain_def broken_def)
    then have "?ws ! n = w" using n by (simp add: set_status_def)
    then have "w \<in> set ?ws" using n by (metis nth_mem set_status_nth(2))
    then show "\<exists>w\<in>set ?ws. jv_run w = jv_run v \<and> broken (jv_status w)" using w by blast
  qed
  ultimately show ?thesis by (simp add: job_inv_def)
qed

lemma fresh_views_plain:
  assumes "\<And>v. v \<in> set new \<Longrightarrow> fresh_view r v"
  shows "fresh_views r new"
proof -
  have st: "jv_status v = (if jv_deps v = [] then JobQueued else JobBlocked)" "jv_run v = r" if "v \<in> set new" for v
    using assms [OF that] by (simp_all add: fresh_view_def)
  have no_succ: "view_states r new d \<noteq> Some JobSucceeded" for d
    using view_states_in [of r new d] st by (fastforce split: if_splits)
  have "deps_met new v \<longleftrightarrow> jv_deps v = []" if "v \<in> set new" for v
    using no_succ st(2) [OF that] by (auto simp: deps_met_def neq_Nil_conv)
  then show ?thesis using st by (cases new) (auto simp: fresh_views_def)
qed

lemma job_inv_submit:
  assumes inv: "job_inv c vs" and r: "r \<notin> jv_run ` set vs" and new: "fresh_views r new"
  shows "job_inv c (vs @ new)"
proof -
  have old: "jv_run v \<noteq> r" if "v \<in> set vs" for v using r that by auto
  have nr: "jv_run v = r" if "v \<in> set new" for v using new that by (simp add: fresh_views_def)
  have met_old: "deps_met (vs @ new) v \<longleftrightarrow> deps_met vs v" if "v \<in> set vs" for v
  proof -
    have "jv_run v \<notin> jv_run ` set new" using old [OF that] nr by blast
    then show ?thesis using view_states_append_other [of "jv_run v" new vs] by (simp add: deps_met_def)
  qed
  have "view_states r (vs @ new) = view_states r new" using r by (rule view_states_prepend_other)
  then have met_new: "deps_met (vs @ new) v \<longleftrightarrow> deps_met new v" if "v \<in> set new" for v
    using nr [OF that] by (simp add: deps_met_def)
  have st: "jv_status v = JobBlocked \<longleftrightarrow> \<not> deps_met new v" if "v \<in> set new" for v
    using new that by (simp add: fresh_views_def)
  have fresh: "jv_status v \<noteq> JobSkipped \<and> \<not> broken (jv_status v)" if "v \<in> set new" for v
    using new that by (auto simp: fresh_views_def broken_def)
  have "started_ok c (vs @ new)"
    unfolding started_ok_def
  proof (intro ballI impI)
    fix v
    assume "v \<in> set (vs @ new)" "\<not> waits c (jv_status v)"
    then show "deps_met (vs @ new) v"
      using inv met_old met_new st by (auto simp: job_inv_def started_ok_def waits_def)
  qed
  moreover have "blocked_ok (vs @ new)"
    unfolding blocked_ok_def
  proof (intro ballI impI)
    fix v
    assume "v \<in> set (vs @ new)" "jv_status v = JobBlocked"
    then show "\<not> deps_met (vs @ new) v"
      using inv met_old met_new st by (auto simp: job_inv_def blocked_ok_def)
  qed
  moreover have "stopped_ok (vs @ new)"
    unfolding stopped_ok_def
  proof (intro ballI impI)
    fix v w
    assume v: "v \<in> set (vs @ new)" and w: "w \<in> set (vs @ new)" and e: "jv_run v = jv_run w"
      and b: "broken (jv_status v) \<or> jv_status v = JobSkipped"
    have "v \<in> set vs" using v b fresh by auto
    moreover from this have "w \<in> set vs" using w e old nr by auto
    ultimately show "jv_status w \<noteq> JobBlocked"
      using inv e b unfolding job_inv_def stopped_ok_def by blast
  qed
  moreover have "skipped_ok (vs @ new)"
    unfolding skipped_ok_def
  proof (intro ballI impI)
    fix v
    assume v: "v \<in> set (vs @ new)" and b: "jv_status v = JobSkipped"
    have "v \<in> set vs" using v b fresh by auto
    then show "\<exists>w\<in>set (vs @ new). jv_run w = jv_run v \<and> broken (jv_status w)"
      using inv b by (auto simp: job_inv_def skipped_ok_def)
  qed
  ultimately show ?thesis by (simp add: job_inv_def)
qed

text \<open>Statuses after the combined steps, job by job.\<close>

definition after :: "(job_view \<Rightarrow> JobStatus) \<Rightarrow> job_view list \<Rightarrow> job_view list \<Rightarrow> nat \<Rightarrow> JobStatus \<Rightarrow> bool" where
  "after f vs ws i s \<longleftrightarrow>
     length ws = length vs \<and>
     (\<forall>n<length vs. jv_run (ws ! n) = jv_run (vs ! n) \<and> jv_key (ws ! n) = jv_key (vs ! n) \<and>
        jv_deps (ws ! n) = jv_deps (vs ! n) \<and>
        jv_status (ws ! n) = (if n = i then s else f (vs ! n)))"

lemma after_succeed:
  assumes "i < length vs"
  shows "after (\<lambda>v. if jv_run v = r \<and> jv_status v = JobBlocked \<and> deps_met (set_status i JobSucceeded vs) v
                    then JobQueued else jv_status v)
           vs (release_deps r (set_status i JobSucceeded vs)) i JobSucceeded"
  using assms
  by (auto simp: after_def release_deps_def release_view_def set_status_def nth_list_update)

lemma after_fail:
  assumes "i < length vs" and "s = JobFailed \<or> s = JobCanceled"
  shows "after (\<lambda>v. if jv_run v = r \<and> (jv_status v = JobBlocked \<or> jv_status v = JobQueued)
                    then JobSkipped else jv_status v)
           vs (skip_views r (set_status i s vs)) i s"
  using assms
  by (auto simp: after_def skip_views_def skip_view_def set_status_def nth_list_update)

lemma ex_set_conv_nth: "(\<exists>x\<in>set xs. P x) \<longleftrightarrow> (\<exists>k<length xs. P (xs ! k))"
  by (metis in_set_conv_nth)

text \<open>The list invariants, by index.\<close>

lemma job_inv_nth:
  "job_inv c vs \<longleftrightarrow>
     (\<forall>n<length vs. \<not> waits c (jv_status (vs ! n)) \<longrightarrow> deps_met vs (vs ! n)) \<and>
     (\<forall>n<length vs. jv_status (vs ! n) = JobBlocked \<longrightarrow> \<not> deps_met vs (vs ! n)) \<and>
     (\<forall>n<length vs. \<forall>k<length vs. jv_run (vs ! n) = jv_run (vs ! k) \<longrightarrow>
        broken (jv_status (vs ! n)) \<or> jv_status (vs ! n) = JobSkipped \<longrightarrow> jv_status (vs ! k) \<noteq> JobBlocked) \<and>
     (\<forall>n<length vs. jv_status (vs ! n) = JobSkipped \<longrightarrow>
        (\<exists>k<length vs. jv_run (vs ! k) = jv_run (vs ! n) \<and> broken (jv_status (vs ! k))))"
  unfolding job_inv_defs all_set_conv_all_nth ex_set_conv_nth by blast

lemma job_inv_succeed:
  assumes inv: "job_inv c vs" and i: "i < length vs" and l: "job_leased (jv_status (vs ! i))"
  shows "job_inv c (release_deps (jv_run (vs ! i)) (set_status i JobSucceeded vs))"
    (is "job_inv c ?ws")
proof -
  let ?us = "set_status i JobSucceeded vs" and ?r = "jv_run (vs ! i)"
  note a = after_succeed [OF i, of ?r, unfolded after_def]
  have len: "length ?ws = length vs" using a by blast
  have ws: "jv_run (?ws ! n) = jv_run (vs ! n)" "jv_deps (?ws ! n) = jv_deps (vs ! n)"
    "jv_status (?ws ! n) = (if n = i then JobSucceeded
       else if jv_run (vs ! n) = ?r \<and> jv_status (vs ! n) = JobBlocked \<and> deps_met ?us (vs ! n)
       then JobQueued else jv_status (vs ! n))" if "n < length vs" for n
    using a that by auto
  have k: "keeps q vs ?us" for q by (rule keeps_set_status [OF i]) simp
  have k': "keeps q vs ?ws" for q by (rule keeps_trans [OF k keeps_release(1)])
  have met_us: "deps_met ?ws (?ws ! n) \<longleftrightarrow> deps_met ?us (vs ! n)" if "n < length vs" for n
    by (rule deps_met_iff_keeps) (use ws that keeps_release in auto)
  have mono: "deps_met vs (vs ! n) \<Longrightarrow> deps_met ?ws (?ws ! n)" if "n < length vs" for n
    by (rule deps_met_keeps [OF k']) (use ws that in auto)
  have other: "deps_met ?ws (?ws ! n) \<longleftrightarrow> deps_met vs (vs ! n)"
    if "n < length vs" "jv_run (vs ! n) \<noteq> ?r" for n
    unfolding met_us [OF that(1)]
    by (rule deps_met_iff_keeps) (use k keeps_set_status_converse [OF i] that(2) in auto)
  have old: "\<not> waits c (jv_status (vs ! n)) \<Longrightarrow> deps_met vs (vs ! n)"
    "jv_status (vs ! n) = JobBlocked \<Longrightarrow> \<not> deps_met vs (vs ! n)" if "n < length vs" for n
    using inv that by (simp_all add: job_inv_nth)
  have stop: "jv_status (vs ! k) \<noteq> JobBlocked"
    if "n < length vs" "k < length vs" "jv_run (vs ! n) = jv_run (vs ! k)"
      "broken (jv_status (vs ! n)) \<or> jv_status (vs ! n) = JobSkipped" for n k
    using inv that unfolding job_inv_nth by blast
  have skip: "\<exists>k<length vs. jv_run (vs ! k) = jv_run (vs ! n) \<and> broken (jv_status (vs ! k))"
    if "n < length vs" "jv_status (vs ! n) = JobSkipped" for n
    using inv that unfolding job_inv_nth by blast
  have "deps_met ?ws (?ws ! n)"
    if "n < length vs" "\<not> waits c (jv_status (?ws ! n))" for n
    using that ws(3) [OF that(1)] mono [OF that(1)] old(1) [OF that(1)] met_us [OF that(1)] l
    by (auto simp: waits_def split: if_splits)
  moreover have "\<not> deps_met ?ws (?ws ! n)" if "n < length vs" "jv_status (?ws ! n) = JobBlocked" for n
    using that ws(3) [OF that(1)] old(2) [OF that(1)] met_us [OF that(1)] other [OF that(1)]
    by (auto split: if_splits)
  moreover have "jv_status (?ws ! k) \<noteq> JobBlocked"
    if "n < length vs" "k < length vs" "jv_run (?ws ! n) = jv_run (?ws ! k)"
      "broken (jv_status (?ws ! n)) \<or> jv_status (?ws ! n) = JobSkipped" for n k
    using that ws stop [of n k] by (auto simp: broken_def split: if_splits)
  moreover have "\<exists>k<length vs. jv_run (?ws ! k) = jv_run (?ws ! n) \<and> broken (jv_status (?ws ! k))"
    if n: "n < length vs" "jv_status (?ws ! n) = JobSkipped" for n
  proof -
    obtain k where "k < length vs" "jv_run (vs ! k) = jv_run (vs ! n)" "broken (jv_status (vs ! k))"
      using skip [of n] n ws by (auto split: if_splits)
    then show ?thesis using ws n l by (intro exI [of _ k]) (auto simp: broken_def)
  qed
  ultimately show ?thesis unfolding job_inv_nth len by blast
qed

lemma job_inv_fail:
  assumes inv: "job_inv c vs" and i: "i < length vs" and l: "job_leased (jv_status (vs ! i))"
    and s: "s = JobFailed \<or> s = JobCanceled"
  shows "job_inv c (skip_views (jv_run (vs ! i)) (set_status i s vs))"
    (is "job_inv c ?ws")
proof -
  let ?us = "set_status i s vs" and ?r = "jv_run (vs ! i)"
  note a = after_fail [OF i s, of ?r, unfolded after_def]
  have len: "length ?ws = length vs" using a by blast
  have ws: "jv_run (?ws ! n) = jv_run (vs ! n)" "jv_deps (?ws ! n) = jv_deps (vs ! n)"
    "jv_status (?ws ! n) = (if n = i then s
       else if jv_run (vs ! n) = ?r \<and> (jv_status (vs ! n) = JobBlocked \<or> jv_status (vs ! n) = JobQueued)
       then JobSkipped else jv_status (vs ! n))" if "n < length vs" for n
    using a that by auto
  have k: "keeps q vs ?us" "keeps q ?us vs" for q
    using keeps_set_status [OF i, of s q] keeps_set_status_converse [OF i, of q s] l s by auto
  have met: "deps_met ?ws (?ws ! n) \<longleftrightarrow> deps_met vs (vs ! n)" if "n < length vs" for n
    by (rule deps_met_iff_keeps) (use ws that keeps_trans [OF k(1) keeps_skip(1)]
        keeps_trans [OF keeps_skip(2) k(2)] in auto)
  have old: "\<not> waits c (jv_status (vs ! n)) \<Longrightarrow> deps_met vs (vs ! n)"
    "jv_status (vs ! n) = JobBlocked \<Longrightarrow> \<not> deps_met vs (vs ! n)" if "n < length vs" for n
    using inv that by (simp_all add: job_inv_nth)
  have stop: "jv_status (vs ! k) \<noteq> JobBlocked"
    if "n < length vs" "k < length vs" "jv_run (vs ! n) = jv_run (vs ! k)"
      "broken (jv_status (vs ! n)) \<or> jv_status (vs ! n) = JobSkipped" for n k
    using inv that unfolding job_inv_nth by blast
  have skip: "\<exists>k<length vs. jv_run (vs ! k) = jv_run (vs ! n) \<and> broken (jv_status (vs ! k))"
    if "n < length vs" "jv_status (vs ! n) = JobSkipped" for n
    using inv that unfolding job_inv_nth by blast
  have "deps_met ?ws (?ws ! n)"
    if "n < length vs" "\<not> waits c (jv_status (?ws ! n))" for n
    using that ws(3) [OF that(1)] met [OF that(1)] old(1) [OF that(1)] l by (auto simp: waits_def split: if_splits)
  moreover have "\<not> deps_met ?ws (?ws ! n)" if "n < length vs" "jv_status (?ws ! n) = JobBlocked" for n
    using that ws(3) [OF that(1)] met [OF that(1)] old(2) [OF that(1)] s by (auto split: if_splits)
  moreover have "jv_status (?ws ! k) \<noteq> JobBlocked"
    if "n < length vs" "k < length vs" "jv_run (?ws ! n) = jv_run (?ws ! k)"
      "broken (jv_status (?ws ! n)) \<or> jv_status (?ws ! n) = JobSkipped" for n k
    using that ws stop [of n k] s by (auto split: if_splits)
  moreover have "\<exists>k<length vs. jv_run (?ws ! k) = jv_run (?ws ! n) \<and> broken (jv_status (?ws ! k))"
    if n: "n < length vs" "jv_status (?ws ! n) = JobSkipped" for n
  proof (cases "jv_run (vs ! n) = ?r")
    case True
    then show ?thesis using ws i n s by (intro exI [of _ i]) (simp add: broken_def)
  next
    case False
    then have "jv_status (vs ! n) = JobSkipped" using ws(3) [OF n(1)] n(2) by (auto split: if_splits)
    then obtain k where "k < length vs" "jv_run (vs ! k) = jv_run (vs ! n)" "broken (jv_status (vs ! k))"
      using skip n by blast
    then show ?thesis using ws n False by (intro exI [of _ k]) (auto simp: broken_def)
  qed
  ultimately show ?thesis unfolding job_inv_nth len by blast
qed

lemma cancel_view_same [simp]:
  "jv_run (cancel_view r v) = jv_run v" "jv_key (cancel_view r v) = jv_key v"
  "jv_deps (cancel_view r v) = jv_deps v"
  "jv_status (cancel_view r v) = (if jv_run v = r \<and> \<not> job_final (jv_status v) then JobCanceled else jv_status v)"
  by (simp_all add: cancel_view_def)

lemma keeps_cancel: "keeps q vs (cancel_views r vs)" "keeps q (cancel_views r vs) vs"
  unfolding cancel_views_def
  by (rule keeps_map, simp add: job_final_def) (rule keeps_map_converse, simp)

lemma job_inv_cancel:
  assumes inv: "job_inv True vs"
  shows "job_inv True (cancel_views r vs)" (is "job_inv True ?ws")
proof -
  have met: "deps_met ?ws (cancel_view r v) \<longleftrightarrow> deps_met vs v" for v
    by (rule deps_met_iff_keeps [OF keeps_cancel]) simp_all
  have "started_ok True ?ws" "blocked_ok ?ws"
    using inv met by (auto simp: job_inv_defs cancel_views_def waits_def job_final_def split: if_splits)
  moreover have "stopped_ok ?ws"
    using inv by (auto simp: job_inv_defs cancel_views_def broken_def job_final_def split: if_splits)
  moreover have "skipped_ok ?ws"
    unfolding skipped_ok_def
  proof (intro ballI impI)
    fix v
    assume "v \<in> set ?ws" and "jv_status v = JobSkipped"
    then obtain u where u: "u \<in> set vs" "jv_status u = JobSkipped" "v = cancel_view r u"
      by (auto simp: cancel_views_def split: if_splits)
    then obtain w where "w \<in> set vs" "jv_run w = jv_run u" "broken (jv_status w)" using inv by (auto simp: job_inv_defs)
    then show "\<exists>w\<in>set ?ws. jv_run w = jv_run v \<and> broken (jv_status w)"
      using u by (intro bexI [of _ "cancel_view r w"]) (auto simp: cancel_views_def broken_def)
  qed
  ultimately show ?thesis by (simp add: job_inv_def)
qed

lemma job_step_inv: "job_step c vs ws \<Longrightarrow> job_inv c vs \<Longrightarrow> job_inv c ws"
proof (induction rule: job_step.induct)
  case (submit r vs new)
  then show ?case by (blast intro: job_inv_submit)
next
  case (assign i vs)
  then show ?case by (intro job_inv_plain) (auto simp: plain_def)
next
  case (start i vs)
  then show ?case by (intro job_inv_plain) (auto simp: plain_def)
next
  case (requeue i vs)
  then show ?case by (intro job_inv_plain) (auto simp: plain_def)
next
  case (succeed i vs)
  then show ?case by (intro job_inv_succeed)
next
  case (fail i vs s)
  then show ?case by (intro job_inv_fail)
next
  case (cancel vs r)
  then show ?case using job_inv_cancel by simp
qed

lemma job_steps_inv: "job_steps c vs ws \<Longrightarrow> job_inv c vs \<Longrightarrow> job_inv c ws"
  by (induction rule: rtranclp_induct) (auto intro: job_step_inv)

lemma job_inv_Nil: "job_inv c []"
  by (simp add: job_inv_defs)

section \<open>A run never gets stuck\<close>

text \<open>The dependency graph of a run: every dependency names a job of the run, and there is no cycle.\<close>

definition key_edges :: "uuid \<Rightarrow> job_view list \<Rightarrow> (string \<times> string) set" where
  "key_edges r vs = (\<Union>v\<in>{v \<in> set vs. jv_run v = r}. {jv_key v} \<times> set (jv_deps v))"

definition run_keys :: "uuid \<Rightarrow> job_view list \<Rightarrow> string set" where
  "run_keys r vs = jv_key ` {v \<in> set vs. jv_run v = r}"

definition run_graph_ok :: "uuid \<Rightarrow> job_view list \<Rightarrow> bool" where
  "run_graph_ok r vs \<longleftrightarrow> key_edges r vs `` UNIV \<subseteq> run_keys r vs \<and> acyclic (key_edges r vs)"

lemma finite_key_edges: "finite (key_edges r vs)"
  by (simp add: key_edges_def)

lemma view_states_known:
  "d \<in> run_keys r vs \<Longrightarrow> view_states r vs d \<noteq> None"
  by (induction vs) (auto simp: view_states_Cons run_keys_def split: option.splits)

lemma no_deadlock:
  assumes inv: "job_inv c vs" and g: "run_graph_ok r vs"
    and v: "v \<in> set vs" "jv_run v = r" "jv_status v = JobBlocked"
  shows "\<exists>w\<in>set vs. jv_run w = r \<and> plain (jv_status w)"
proof (rule ccontr)
  assume none: "\<not> ?thesis"
  define Q where "Q = jv_key ` {w \<in> set vs. jv_run w = r \<and> jv_status w = JobBlocked}"
  have "wf ((key_edges r vs)\<inverse>)"
    using g by (simp add: run_graph_ok_def finite_acyclic_wf_converse finite_key_edges)
  moreover have "jv_key v \<in> Q" using v by (auto simp: Q_def)
  ultimately obtain k where "k \<in> Q" and min: "\<And>d. (k, d) \<in> key_edges r vs \<Longrightarrow> d \<notin> Q"
    by (metis wfE_min converse_iff)
  then obtain b where b: "b \<in> set vs" "jv_run b = r" "jv_status b = JobBlocked" "jv_key b = k"
    by (auto simp: Q_def)
  have "view_states r vs d = Some JobSucceeded" if d: "d \<in> set (jv_deps b)" for d
  proof -
    have e: "(k, d) \<in> key_edges r vs" using b d by (auto simp: key_edges_def)
    then have "d \<in> run_keys r vs" using g by (auto simp: run_graph_ok_def)
    then obtain s where s: "view_states r vs d = Some s" using view_states_known by fastforce
    then obtain w where w: "w \<in> set vs" "jv_run w = r" "jv_key w = d" "jv_status w = s"
      using view_states_in by blast
    have "s \<noteq> JobBlocked" using min [OF e] w by (auto simp: Q_def)
    moreover have "\<not> plain s" using none w by blast
    moreover have "\<not> (broken s \<or> s = JobSkipped)"
      using inv w b by (auto simp: job_inv_defs)
    ultimately show ?thesis using s by (cases s) (auto simp: plain_def broken_def)
  qed
  then have "deps_met vs b" using b by (simp add: deps_met_def)
  then show False using inv b by (auto simp: job_inv_defs)
qed

text \<open>The jobs of a run, without their statuses, never change after its submission.\<close>

definition ident :: "job_view \<Rightarrow> uuid \<times> string \<times> string list" where
  "ident v = (jv_run v, jv_key v, jv_deps v)"

lemma run_graph_ok_ident:
  assumes "map ident vs = map ident ws"
  shows "run_graph_ok r vs = run_graph_ok r ws"
proof -
  have img: "ident ` set vs = ident ` set ws" using assms by (metis list.set_map)
  have edges: "key_edges r us = {(k, d). \<exists>ds. (r, k, ds) \<in> ident ` set us \<and> d \<in> set ds}" for us
    by (auto simp: key_edges_def ident_def image_iff)
  have keys: "run_keys r us = {k. \<exists>ds. (r, k, ds) \<in> ident ` set us}" for us
    by (auto simp: run_keys_def ident_def image_iff)
  show ?thesis unfolding run_graph_ok_def edges keys img ..
qed

lemma run_graph_ok_append:
  assumes "r \<notin> jv_run ` set new"
  shows "run_graph_ok r (vs @ new) = run_graph_ok r vs"
proof -
  have "{v \<in> set (vs @ new). jv_run v = r} = {v \<in> set vs. jv_run v = r}" using assms by auto
  then show ?thesis by (simp only: run_graph_ok_def key_edges_def run_keys_def)
qed

lemma ident_set_status [simp]: "map ident (set_status i s vs) = map ident vs"
proof (cases "i < length vs")
  case True
  have "(map ident vs)[i := ident (vs ! i)] = map ident vs"
    using True by (simp add: list_update_same_conv)
  then show ?thesis by (simp add: set_status_def map_update ident_def)
qed (simp add: set_status_def list_update_beyond)

lemma ident_release [simp]: "map ident (release_deps r vs) = map ident vs"
  by (simp add: release_deps_def ident_def)

lemma ident_skip [simp]: "map ident (skip_views r vs) = map ident vs"
  by (simp add: skip_views_def ident_def)

lemma ident_cancel [simp]: "map ident (cancel_views r vs) = map ident vs"
  by (simp add: cancel_views_def ident_def)

lemma job_step_ident:
  assumes "job_step c vs ws"
  shows "\<exists>new. map ident ws = map ident vs @ map ident new \<and> jv_run ` set vs \<inter> jv_run ` set new = {}"
  using assms
proof (cases rule: job_step.cases)
  case (submit r new)
  then show ?thesis by (intro exI [of _ new]) (auto simp: fresh_views_def)
qed (rule exI [of _ "[]"], simp)+

lemma job_step_run_graph:
  assumes "job_step c vs ws" and "run_graph_ok r vs" and "r \<in> jv_run ` set vs"
  shows "run_graph_ok r ws \<and> r \<in> jv_run ` set ws"
proof -
  obtain new where new: "map ident ws = map ident (vs @ new)" "jv_run ` set vs \<inter> jv_run ` set new = {}"
    using job_step_ident [OF assms(1)] by auto
  have "run_graph_ok r ws"
    using run_graph_ok_ident [OF new(1)] run_graph_ok_append [of r new vs] new(2) assms(2,3) by blast
  moreover have "jv_run ` set ws = fst ` set (map ident ws)" by (simp add: image_image ident_def)
  then have "jv_run ` set ws = jv_run ` set (vs @ new)"
    unfolding new(1) by (simp add: image_image image_Un ident_def)
  ultimately show ?thesis using assms(3) by auto
qed

text \<open>Final statuses are final: a step never changes the status of a finished job.\<close>

lemma job_step_final:
  assumes "job_step c vs ws" and "n < length vs" and "job_final (jv_status (vs ! n))"
  shows "n < length ws \<and> ws ! n = vs ! n"
  using assms
proof (cases rule: job_step.cases)
  case (submit r new)
  then show ?thesis using assms(2) by (simp add: nth_append)
next
  case (succeed i)
  then have "n \<noteq> i" using assms(3) by (auto simp: job_final_def)
  then show ?thesis
    using succeed assms(2,3)
    by (auto simp: release_deps_def release_view_def set_status_def job_final_def)
next
  case (fail i s)
  then have "n \<noteq> i" using assms(3) by (auto simp: job_final_def)
  then show ?thesis
    using fail assms(2,3) by (auto simp: skip_views_def skip_view_def set_status_def job_final_def)
next
  case (cancel r)
  then show ?thesis using assms(2,3) by (simp add: cancel_views_def cancel_view_def)
qed (auto simp: set_status_def job_final_def nth_list_update)

lemma job_steps_final:
  assumes "job_steps c vs ws" and "n < length vs" and "job_final (jv_status (vs ! n))"
  shows "n < length ws \<and> ws ! n = vs ! n"
  using assms
proof (induction rule: rtranclp_induct)
  case (step ws us)
  then show ?case using job_step_final [of c ws us n] by simp
qed simp

lemma job_steps_run_graph:
  assumes "job_steps c vs ws" and "run_graph_ok r vs" and "r \<in> jv_run ` set vs"
  shows "run_graph_ok r ws \<and> r \<in> jv_run ` set ws"
  using assms by (induction rule: rtranclp_induct) (auto dest: job_step_run_graph)

end
