(* ===== verification/Run_Machine.thy ===== *)
theory Run_Machine
  imports Job_Machine
begin

text \<open>
  The abstract specification of a run store: the job machine together with the status and the finishing
  time of every run. It says when a run is started, reset and finished, and the invariants say what the
  status of a run means for its jobs. The contract of a store is the locale \<open>run_store\<close> at the end; the
  in-memory store and the PostgreSQL store are shown to meet it.
\<close>

type_synonym run_table = "uuid \<rightharpoonup> Status \<times> gotime option"
type_synonym store_view = "job_view list \<times> run_table"

definition update_run :: "uuid \<Rightarrow> (Status \<times> gotime option \<Rightarrow> Status \<times> gotime option) \<Rightarrow> run_table \<Rightarrow> run_table" where
  "update_run r f runs = runs(r := map_option f (runs r))"

definition run_statuses :: "uuid \<Rightarrow> job_view list \<Rightarrow> JobStatus set" where
  "run_statuses r vs = jv_status ` {v \<in> set vs. jv_run v = r}"

definition outcome :: "JobStatus set \<Rightarrow> Status" where
  "outcome S =
     (if JobFailed \<in> S then StatusFailed else if JobCanceled \<in> S then StatusCanceled else StatusSucceeded)"

text \<open>A run is finished as soon as all its jobs are.\<close>

definition finish_run :: "gotime \<Rightarrow> uuid \<Rightarrow> job_view list \<Rightarrow> run_table \<Rightarrow> run_table" where
  "finish_run now r vs runs =
     (if \<forall>s\<in>run_statuses r vs. job_final s
      then update_run r (\<lambda>_. (outcome (run_statuses r vs), Some now)) runs else runs)"

text \<open>A run whose only activity was an assignment that expired is queued again.\<close>

definition reset_run :: "uuid \<Rightarrow> job_view list \<Rightarrow> run_table \<Rightarrow> run_table" where
  "reset_run r vs runs =
     (if run_statuses r vs \<inter> {JobRunning, JobSucceeded, JobFailed, JobCanceled} = {}
      then update_run r (\<lambda>_. (StatusQueued, None)) runs else runs)"

text \<open>
  The store with \<open>c\<close> true can cancel runs, and assigns no job of a run that is over; the other one does not look
  at the run when it assigns a job.
\<close>

inductive run_step :: "bool \<Rightarrow> store_view \<Rightarrow> store_view \<Rightarrow> bool" for c where
  submit: "runs r = None \<Longrightarrow> fresh_views r new \<Longrightarrow>
     run_step c (vs, runs) (vs @ new, runs(r \<mapsto> (StatusQueued, fin)))"
| assign: "i < length vs \<Longrightarrow> jv_status (vs ! i) = JobQueued \<Longrightarrow>
     (c \<Longrightarrow> \<forall>st fin. runs (jv_run (vs ! i)) = Some (st, fin) \<longrightarrow> \<not> Terminal st) \<Longrightarrow>
     run_step c (vs, runs)
       (set_status i JobAssigned vs, update_run (jv_run (vs ! i)) (\<lambda>(_, fin). (StatusRunning, fin)) runs)"
| start: "i < length vs \<Longrightarrow> job_leased (jv_status (vs ! i)) \<Longrightarrow>
     run_step c (vs, runs) (set_status i JobRunning vs, runs)"
| release: "i < length vs \<Longrightarrow> jv_status (vs ! i) = JobAssigned \<Longrightarrow>
     run_step c (vs, runs) (set_status i JobQueued vs, runs)"
| requeue: "i < length vs \<Longrightarrow> jv_status (vs ! i) = JobAssigned \<Longrightarrow> ws = set_status i JobQueued vs \<Longrightarrow>
     run_step c (vs, runs) (ws, reset_run (jv_run (vs ! i)) ws runs)"
| succeed: "i < length vs \<Longrightarrow> job_leased (jv_status (vs ! i)) \<Longrightarrow>
     ws = release_deps (jv_run (vs ! i)) (set_status i JobSucceeded vs) \<Longrightarrow>
     run_step c (vs, runs) (ws, finish_run now (jv_run (vs ! i)) ws runs)"
| fail: "i < length vs \<Longrightarrow> job_leased (jv_status (vs ! i)) \<Longrightarrow> s = JobFailed \<or> s = JobCanceled \<Longrightarrow>
     ws = skip_views (jv_run (vs ! i)) (set_status i s vs) \<Longrightarrow>
     run_step c (vs, runs) (ws, finish_run now (jv_run (vs ! i)) ws runs)"
| expire: "i < length vs \<Longrightarrow> jv_status (vs ! i) = JobRunning \<Longrightarrow>
     run_step c (vs, runs)
       (skip_views (jv_run (vs ! i)) (set_status i JobFailed vs),
        update_run (jv_run (vs ! i)) (\<lambda>_. (StatusFailed, Some now)) runs)"
| cancel: "c \<Longrightarrow> r \<in> jv_run ` set vs \<Longrightarrow> runs r = Some (st, fin) \<Longrightarrow> \<not> Terminal st \<Longrightarrow>
     run_step c (vs, runs) (cancel_views r vs, update_run r (\<lambda>_. (StatusCanceled, Some now)) runs)"

abbreviation run_steps :: "bool \<Rightarrow> store_view \<Rightarrow> store_view \<Rightarrow> bool" where
  "run_steps c \<equiv> (run_step c)\<^sup>*\<^sup>*"

section \<open>The invariant\<close>

text \<open>What the status and the finishing time of a run say about the statuses of its jobs.\<close>

definition run_ok :: "JobStatus set \<Rightarrow> Status \<times> gotime option \<Rightarrow> bool" where
  "run_ok S = (\<lambda>(st, fin).
     (st = StatusSucceeded \<longrightarrow> S \<subseteq> {JobSucceeded}) \<and>
     (st = StatusFailed \<longrightarrow> JobFailed \<in> S) \<and>
     (st = StatusCanceled \<longrightarrow> JobCanceled \<in> S \<and> (\<forall>s\<in>S. job_final s)) \<and>
     (Terminal st \<longrightarrow> fin \<noteq> None) \<and>
     (S \<noteq> {} \<longrightarrow> (\<forall>s\<in>S. job_final s) \<longrightarrow> Terminal st))"

definition store_inv :: "bool \<Rightarrow> store_view \<Rightarrow> bool" where
  "store_inv c = (\<lambda>(vs, runs).
     job_inv c vs \<and> jv_run ` set vs \<subseteq> dom runs \<and>
     (\<forall>r x. runs r = Some x \<longrightarrow> run_ok (run_statuses r vs) x))"

lemma run_step_job_step:
  assumes "run_step c (vs, runs) (ws, runs')" and "jv_run ` set vs \<subseteq> dom runs"
  shows "job_step c vs ws"
  using assms(1)
proof (cases rule: run_step.cases)
  case (submit r new fin)
  then have "r \<notin> jv_run ` set vs" using assms(2) by auto
  then show ?thesis using submit by (auto intro: job_step.submit)
qed (auto intro: job_step.intros)

section \<open>How the statuses of a run change\<close>

lemma run_statuses_append: "run_statuses r (vs @ new) = run_statuses r vs \<union> run_statuses r new"
  by (auto simp: run_statuses_def)

lemma run_statuses_Cons:
  "run_statuses r (v # vs) = (if jv_run v = r then insert (jv_status v) (run_statuses r vs) else run_statuses r vs)"
  by (auto simp: run_statuses_def)

lemma run_statuses_Nil [simp]: "run_statuses r [] = {}"
  by (simp add: run_statuses_def)

lemma run_statuses_nth: "run_statuses r vs = {jv_status (vs ! n) |n. n < length vs \<and> jv_run (vs ! n) = r}"
  by (auto simp: run_statuses_def in_set_conv_nth image_iff)

text \<open>
  \<open>touches r vs ws\<close>: the same jobs with the same runs, where only jobs of run \<open>r\<close> that were not final
  changed their status.
\<close>

definition touches :: "uuid \<Rightarrow> job_view list \<Rightarrow> job_view list \<Rightarrow> bool" where
  "touches r vs ws \<longleftrightarrow>
     list_all2 (\<lambda>v w. jv_run w = jv_run v \<and>
       (jv_status w = jv_status v \<or> jv_run v = r \<and> \<not> job_final (jv_status v))) vs ws"

lemma touches_statuses:
  assumes "touches r vs ws"
  shows "q \<noteq> r \<Longrightarrow> run_statuses q ws = run_statuses q vs"
    and "s \<in> run_statuses r vs \<Longrightarrow> job_final s \<Longrightarrow> s \<in> run_statuses r ws"
    and "jv_run ` set ws = jv_run ` set vs"
  using assms unfolding touches_def
  by (induction rule: list_all2_induct) (auto simp: run_statuses_Cons)

lemma touches_map:
  assumes "\<And>v. v \<in> set vs \<Longrightarrow> jv_run (f v) = jv_run v \<and>
    (jv_status (f v) = jv_status v \<or> jv_run v = r \<and> \<not> job_final (jv_status v))"
  shows "touches r vs (map f vs)"
  using assms by (simp add: touches_def list_all2_conv_all_nth)

lemma touches_set_status:
  "i < length vs \<Longrightarrow> \<not> job_final (jv_status (vs ! i)) \<Longrightarrow> touches (jv_run (vs ! i)) vs (set_status i s vs)"
  by (auto simp: touches_def set_status_def list_all2_conv_all_nth nth_list_update)

lemma touches_succeed:
  assumes "i < length vs" and "job_leased (jv_status (vs ! i))"
  shows "touches (jv_run (vs ! i)) vs (release_deps (jv_run (vs ! i)) (set_status i JobSucceeded vs))"
  using after_succeed [OF assms(1), of "jv_run (vs ! i)"] assms(2)
  by (auto simp: after_def touches_def list_all2_conv_all_nth job_final_def)

lemma touches_fail:
  assumes "i < length vs" and "job_leased (jv_status (vs ! i))" and "s = JobFailed \<or> s = JobCanceled"
  shows "touches (jv_run (vs ! i)) vs (skip_views (jv_run (vs ! i)) (set_status i s vs))"
  using after_fail [OF assms(1,3), of "jv_run (vs ! i)"] assms(2)
  by (auto simp: after_def touches_def list_all2_conv_all_nth job_final_def)

lemma status_in_set_status:
  "i < length vs \<Longrightarrow> s \<in> run_statuses (jv_run (vs ! i)) (set_status i s vs)"
  by (auto simp: run_statuses_nth set_status_def intro!: exI [of _ i])

lemma status_in_fail:
  assumes "i < length vs" and "s = JobFailed \<or> s = JobCanceled"
  shows "s \<in> run_statuses (jv_run (vs ! i)) (skip_views (jv_run (vs ! i)) (set_status i s vs))"
  using after_fail [OF assms, of "jv_run (vs ! i)"] assms(1)
  by (force simp: after_def run_statuses_nth)

lemma status_in_run: "i < length vs \<Longrightarrow> jv_status (vs ! i) \<in> run_statuses (jv_run (vs ! i)) vs"
  by (auto simp: run_statuses_nth)

section \<open>Every step keeps the invariant\<close>

lemma update_run_dom [simp]: "dom (update_run r f runs) = dom runs"
  by (auto simp: update_run_def dom_def)

lemma finish_run_dom [simp]: "dom (finish_run now r vs runs) = dom runs"
  by (simp add: finish_run_def)

lemma reset_run_dom [simp]: "dom (reset_run r vs runs) = dom runs"
  by (simp add: reset_run_def)

lemma update_run_other: "q \<noteq> r \<Longrightarrow> update_run r f runs q = runs q"
  by (simp add: update_run_def)

lemma finish_run_other: "q \<noteq> r \<Longrightarrow> finish_run now r vs runs q = runs q"
  by (simp add: finish_run_def update_run_def)

lemma reset_run_other: "q \<noteq> r \<Longrightarrow> reset_run r vs runs q = runs q"
  by (simp add: reset_run_def update_run_def)

text \<open>
  The shape that all steps but the submission share: the jobs of one run change, and so does its entry.
\<close>

lemma store_inv_run: "store_inv c (vs, runs) \<Longrightarrow> runs r = Some x \<Longrightarrow> run_ok (run_statuses r vs) x"
  unfolding store_inv_def by blast

lemma store_inv_touch:
  assumes inv: "store_inv c (vs, runs)" and job: "job_inv c ws" and t: "touches r vs ws"
    and dom: "dom runs' = dom runs" and other: "\<And>q. q \<noteq> r \<Longrightarrow> runs' q = runs q"
    and own: "\<And>x y. runs r = Some x \<Longrightarrow> runs' r = Some y \<Longrightarrow> run_ok (run_statuses r ws) y"
  shows "store_inv c (ws, runs')"
proof -
  have "run_ok (run_statuses q ws) y" if y: "runs' q = Some y" for q y
  proof (cases "q = r")
    case True
    have "r \<in> dom runs" using y True dom by blast
    then obtain x where "runs r = Some x" by blast
    then show ?thesis using own y True by blast
  next
    case False
    then have "runs q = Some y" using other y by simp
    then show ?thesis using store_inv_run [OF inv] touches_statuses(1) [OF t False] by simp
  qed
  then show ?thesis
    using inv job dom touches_statuses(3) [OF t] by (auto simp: store_inv_def)
qed

lemma store_inv_update:
  assumes "store_inv c (vs, runs)" and "job_inv c ws" and "touches r vs ws"
    and "\<And>x. run_ok (run_statuses r ws) (f x)"
  shows "store_inv c (ws, update_run r f runs)"
  using assms(1-3)
proof (rule store_inv_touch)
  fix x y
  assume "runs r = Some x" and "update_run r f runs r = Some y"
  then have "y = f x" by (simp add: update_run_def)
  then show "run_ok (run_statuses r ws) y" using assms(4) by simp
qed (simp_all add: update_run_other)

lemma run_ok_unchanged:
  assumes "run_ok S x" and "\<And>s. s \<in> S \<Longrightarrow> job_final s \<Longrightarrow> s \<in> S'"
    and "\<exists>s\<in>S. \<not> job_final s" and "\<exists>s\<in>S'. \<not> job_final s"
  shows "run_ok S' x"
proof -
  obtain s where "s \<in> S" "\<not> job_final s" using assms(3) by blast
  then have n: "\<not> S \<subseteq> {JobSucceeded}" "\<not> (\<forall>s\<in>S. job_final s)" by (auto simp: job_final_def)
  have f: "JobFailed \<in> S \<Longrightarrow> JobFailed \<in> S'" using assms(2) by (simp add: job_final_def)
  show ?thesis
    using assms(1,4) n f unfolding run_ok_def by (cases x) blast
qed

lemma run_ok_outcome:
  assumes "\<forall>s\<in>S. job_final s" and "JobSkipped \<in> S \<longrightarrow> JobFailed \<in> S \<or> JobCanceled \<in> S"
  shows "run_ok S (outcome S, Some now)"
  using assms by (auto simp: run_ok_def outcome_def Terminal_def job_final_def)

lemma skipped_statuses:
  "job_inv c vs \<Longrightarrow> JobSkipped \<in> run_statuses r vs \<Longrightarrow>
   JobFailed \<in> run_statuses r vs \<or> JobCanceled \<in> run_statuses r vs"
  by (force simp: job_inv_def skipped_ok_def run_statuses_def broken_def)

lemma run_ok_finish:
  assumes "run_ok S x" and "job_inv c ws" and "runs r = Some x"
    and "\<And>s. s \<in> S \<Longrightarrow> job_final s \<Longrightarrow> s \<in> run_statuses r ws"
    and "\<exists>s\<in>S. \<not> job_final s" and "finish_run now r ws runs r = Some y"
  shows "run_ok (run_statuses r ws) y"
proof (cases "\<forall>s\<in>run_statuses r ws. job_final s")
  case True
  then have "y = (outcome (run_statuses r ws), Some now)"
    using assms(3,6) by (simp add: finish_run_def update_run_def)
  then show ?thesis using run_ok_outcome [OF True] skipped_statuses [OF assms(2)] by blast
next
  case False
  then have "finish_run now r ws runs = runs" unfolding finish_run_def by (rule if_not_P)
  then have "y = x" using assms(3,6) by simp
  then show ?thesis using run_ok_unchanged [OF assms(1,4,5)] False by blast
qed

lemma store_inv_plain:
  assumes inv: "store_inv c (vs, runs)" and i: "i < length vs"
    and p: "plain (jv_status (vs ! i))" "plain s"
  shows "store_inv c (set_status i s vs, runs)"
proof -
  have nf: "\<not> job_final (jv_status (vs ! i))" "\<not> job_final s" using p by (auto simp: plain_def job_final_def)
  note t = touches_set_status [OF i nf(1), of s]
  show ?thesis
  proof (rule store_inv_touch [OF inv _ t])
    show "job_inv c (set_status i s vs)" using inv i p by (auto simp: store_inv_def intro: job_inv_plain)
    fix x y
    assume x: "runs (jv_run (vs ! i)) = Some x" "runs (jv_run (vs ! i)) = Some y"
    have "run_ok (run_statuses (jv_run (vs ! i)) (set_status i s vs)) x"
      using run_ok_unchanged [OF store_inv_run [OF inv x(1)] touches_statuses(2) [OF t]]
        status_in_run [OF i] status_in_set_status [OF i, of s] nf by blast
    then show "run_ok (run_statuses (jv_run (vs ! i)) (set_status i s vs)) y" using x by simp
  qed simp_all
qed

lemma store_inv_reset:
  assumes inv: "store_inv c (vs, runs)" and q: "JobQueued \<in> run_statuses r vs"
  shows "store_inv c (vs, reset_run r vs runs)"
proof (rule store_inv_touch [OF inv])
  show "touches r vs vs" by (simp add: touches_def list_all2_same)
  show "job_inv c vs" using inv by (simp add: store_inv_def)
  fix x y
  assume "runs r = Some x" and "reset_run r vs runs r = Some y"
  then have "y = x \<or> y = (StatusQueued, None)" by (auto simp: reset_run_def update_run_def split: if_splits)
  moreover have "run_ok (run_statuses r vs) (StatusQueued, None)"
    using q by (auto simp: run_ok_def Terminal_def job_final_def)
  ultimately show "run_ok (run_statuses r vs) y"
    using store_inv_run [OF inv \<open>runs r = Some x\<close>] by blast
qed (simp_all add: reset_run_other)

lemma store_inv_finish:
  assumes inv: "store_inv c (vs, runs)" and job: "job_inv c ws" and t: "touches r vs ws"
    and "\<exists>s\<in>run_statuses r vs. \<not> job_final s"
  shows "store_inv c (ws, finish_run now r ws runs)"
proof (rule store_inv_touch [OF inv job t])
  fix x y
  assume "runs r = Some x" and "finish_run now r ws runs r = Some y"
  then show "run_ok (run_statuses r ws) y"
    using run_ok_finish [OF store_inv_run [OF inv] job] touches_statuses(2) [OF t] assms(4) by blast
qed (simp_all add: finish_run_other)

lemma fresh_views_open: "fresh_views r new \<Longrightarrow> new = [] \<or> (\<exists>v\<in>set new. jv_run v = r \<and> \<not> job_final (jv_status v))"
  by (fastforce simp: fresh_views_def job_final_def)

lemma run_step_inv:
  assumes step: "run_step c a b" and inv: "store_inv c a"
  shows "store_inv c b"
  using step
proof (cases rule: run_step.cases)
  case (submit runs r new vs fin)
  have job: "job_inv c (vs @ new)"
    using run_step_job_step [of c vs runs "vs @ new"] step submit inv job_step_inv
    by (auto simp: store_inv_def)
  have old: "r \<notin> jv_run ` set vs" using inv submit by (auto simp: store_inv_def)
  have new_r: "jv_run v = r" if "v \<in> set new" for v using submit that by (simp add: fresh_views_def)
  have "run_ok (run_statuses q (vs @ new)) x" if x: "(runs(r \<mapsto> (StatusQueued, fin))) q = Some x" for q x
  proof (cases "q = r")
    case True
    have "run_statuses r vs = {}" using old by (auto simp: run_statuses_def)
    moreover have "run_statuses r new = {} \<or> (\<exists>s\<in>run_statuses r new. \<not> job_final s)"
      using fresh_views_open [OF submit(4)] by (auto simp: run_statuses_def)
    ultimately show ?thesis
      using x True by (auto simp: run_statuses_append run_ok_def Terminal_def)
  next
    case False
    then have "run_statuses q new = {}" using new_r by (auto simp: run_statuses_def)
    moreover have "runs q = Some x" using False x by simp
    ultimately show ?thesis using store_inv_run inv submit(1) by (simp add: run_statuses_append)
  qed
  then show ?thesis using job inv submit new_r by (auto simp: store_inv_def)
next
  case (assign i vs runs)
  have "job_inv c (set_status i JobAssigned vs)"
    using inv assign by (auto simp: store_inv_def intro!: job_inv_plain simp: plain_def)
  moreover have "touches (jv_run (vs ! i)) vs (set_status i JobAssigned vs)"
    by (rule touches_set_status) (use assign in \<open>simp_all add: job_final_def\<close>)
  moreover have "run_ok (run_statuses (jv_run (vs ! i)) (set_status i JobAssigned vs)) (StatusRunning, fin)" for fin
    using status_in_set_status [OF assign(3), of JobAssigned] by (auto simp: run_ok_def Terminal_def job_final_def)
  ultimately show ?thesis unfolding assign(2)
    using inv assign(1) by (intro store_inv_update) (auto split: prod.split)
next
  case (start i vs runs)
  show ?thesis unfolding start(2)
    by (rule store_inv_plain) (use start inv in \<open>auto simp: plain_def\<close>)
next
  case (release i vs runs)
  show ?thesis unfolding release(2)
    by (rule store_inv_plain) (use release inv in \<open>auto simp: plain_def\<close>)
next
  case (requeue i vs ws runs)
  have "store_inv c (ws, runs)" unfolding requeue(5)
    by (rule store_inv_plain) (use requeue inv in \<open>auto simp: plain_def\<close>)
  moreover have "JobQueued \<in> run_statuses (jv_run (vs ! i)) ws"
    using requeue status_in_set_status by simp
  ultimately show ?thesis unfolding requeue(2) by (rule store_inv_reset)
next
  case (succeed i vs ws runs now)
  have t: "touches (jv_run (vs ! i)) vs ws" using touches_succeed succeed by simp
  have j: "job_inv c ws" using job_inv_succeed succeed inv by (simp add: store_inv_def)
  show ?thesis unfolding succeed(2)
    by (rule store_inv_finish [OF _ j t]) (use inv succeed status_in_run [of i vs] in \<open>auto simp: job_final_def\<close>)
next
  case (fail i vs s ws runs now)
  have t: "touches (jv_run (vs ! i)) vs ws" using touches_fail fail by simp
  have j: "job_inv c ws" using job_inv_fail fail inv by (simp add: store_inv_def)
  show ?thesis unfolding fail(2)
    by (rule store_inv_finish [OF _ j t]) (use inv fail status_in_run [of i vs] in \<open>auto simp: job_final_def\<close>)
next
  case (expire i vs runs now)
  let ?ws = "skip_views (jv_run (vs ! i)) (set_status i JobFailed vs)"
  have t: "touches (jv_run (vs ! i)) vs ?ws" using touches_fail expire by simp
  have j: "job_inv c ?ws" using job_inv_fail expire inv by (simp add: store_inv_def)
  have "JobFailed \<in> run_statuses (jv_run (vs ! i)) ?ws" using status_in_fail expire by simp
  then have "run_ok (run_statuses (jv_run (vs ! i)) ?ws) (StatusFailed, Some now)"
    by (simp add: run_ok_def Terminal_def)
  then show ?thesis unfolding expire(2)
    using inv expire(1) by (intro store_inv_update [OF _ j t]) auto
next
  case (cancel r vs runs st fin now)
  have j: "job_inv c (cancel_views r vs)" using job_inv_cancel [of vs r] inv cancel by (simp add: store_inv_def)
  have t: "touches r vs (cancel_views r vs)" unfolding cancel_views_def by (rule touches_map) auto
  obtain v where v: "v \<in> set vs" "jv_run v = r" "\<not> job_final (jv_status v)"
    using store_inv_run [of c vs runs r "(st, fin)"] inv cancel by (auto simp: run_ok_def run_statuses_def)
  then have "jv_status (cancel_view r v) \<in> run_statuses r (cancel_views r vs)"
    unfolding run_statuses_def cancel_views_def by (intro imageI) auto
  then have "JobCanceled \<in> run_statuses r (cancel_views r vs)" using v by simp
  moreover have "\<forall>s\<in>run_statuses r (cancel_views r vs). job_final s"
  proof
    fix s assume "s \<in> run_statuses r (cancel_views r vs)"
    then obtain v where "s = jv_status (cancel_view r v)" "jv_run (cancel_view r v) = r"
      unfolding run_statuses_def cancel_views_def set_map by blast
    then show "job_final s" by (cases "jv_run v = r") (simp_all add: cancel_view_def job_final_def)
  qed
  ultimately have "run_ok (run_statuses r (cancel_views r vs)) (StatusCanceled, Some now)"
    by (simp add: run_ok_def Terminal_def)
  then show ?thesis unfolding cancel(2)
    using inv cancel(1) by (intro store_inv_update [OF _ j t]) auto
qed

lemma run_steps_inv: "run_steps c a b \<Longrightarrow> store_inv c a \<Longrightarrow> store_inv c b"
  by (induction rule: rtranclp_induct) (auto intro: run_step_inv)

lemma run_steps_job_steps:
  assumes "run_steps c a b" and "store_inv c a"
  shows "job_steps c (fst a) (fst b)"
  using assms
proof (induction rule: rtranclp_induct)
  case (step b d)
  obtain vs runs ws runs' where bc: "b = (vs, runs)" "d = (ws, runs')" by fastforce
  have "store_inv c b" using step run_steps_inv by blast
  then have "job_step c vs ws"
    using run_step_job_step [of c vs runs ws runs'] step(2) bc by (simp add: store_inv_def)
  then show ?case using step bc by simp
qed simp

section \<open>Terminal runs\<close>

text \<open>A run that is over and still has open jobs has failed.\<close>

lemma over_is_failed:
  assumes "run_ok S (st, fin)" "Terminal st" "s \<in> S" "\<not> job_final s"
  shows "st = StatusFailed \<and> JobFailed \<in> S"
  using assms by (cases st) (auto simp: run_ok_def Terminal_def job_final_def)

lemma finish_run_failed:
  assumes "runs r = Some (StatusFailed, fin)" "JobFailed \<in> run_statuses r ws"
  shows "\<exists>fin'. finish_run now r ws runs r = Some (StatusFailed, fin')"
  using assms by (auto simp: finish_run_def update_run_def outcome_def)

lemma run_step_terminal:
  assumes step: "run_step True (vs, runs) (ws, runs')" and inv: "store_inv True (vs, runs)"
    and r: "runs r = Some (st, fin)" "Terminal st"
  shows "\<exists>fin'. runs' r = Some (st, fin')"
proof -
  have failed: "st = StatusFailed \<and> JobFailed \<in> run_statuses r ws"
    if "i < length vs" "\<not> job_final (jv_status (vs ! i))" "jv_run (vs ! i) = r" "touches r vs ws" for i
    using over_is_failed [OF store_inv_run [OF inv r(1)] r(2)] status_in_run [OF that(1)] that touches_statuses(2) [OF that(4)]
    by (auto simp: job_final_def)
  show ?thesis
    using step
  proof (cases rule: run_step.cases)
    case (requeue i)
    have t: "touches (jv_run (vs ! i)) vs ws" using requeue touches_set_status [of i vs JobQueued] by (simp add: job_final_def)
    show ?thesis
    proof (cases "jv_run (vs ! i) = r")
      case True
      then show ?thesis using failed [of i] requeue t r by (auto simp: reset_run_def job_final_def)
    qed (use requeue r in \<open>simp add: reset_run_other\<close>)
  next
    case (succeed i now)
    have t: "touches (jv_run (vs ! i)) vs ws" using touches_succeed succeed by simp
    show ?thesis
    proof (cases "jv_run (vs ! i) = r")
      case True
      then show ?thesis using failed [of i] succeed t r finish_run_failed by (auto simp: job_final_def)
    qed (use succeed r in \<open>simp add: finish_run_other\<close>)
  next
    case (fail i s now)
    have t: "touches (jv_run (vs ! i)) vs ws" using touches_fail fail by simp
    show ?thesis
    proof (cases "jv_run (vs ! i) = r")
      case True
      then show ?thesis using failed [of i] fail(3,4) t r finish_run_failed fail(1,2) by (auto simp: job_final_def)
    qed (use fail r in \<open>simp add: finish_run_other\<close>)
  next
    case (expire i now)
    have t: "touches (jv_run (vs ! i)) vs ws" using touches_fail expire by simp
    show ?thesis
    proof (cases "jv_run (vs ! i) = r")
      case True
      then show ?thesis using failed [of i] expire t r by (simp add: update_run_def job_final_def)
    qed (use expire r in \<open>simp add: update_run_other\<close>)
  qed (use r in \<open>auto simp: update_run_def\<close>)
qed

lemma run_steps_terminal:
  assumes "run_steps True a b" "store_inv True a" "snd a r = Some (st, fin)" "Terminal st"
  shows "\<exists>fin'. snd b r = Some (st, fin')"
  using assms
proof (induction rule: rtranclp_induct)
  case (step b d)
  then obtain fin' where "snd b r = Some (st, fin')" by blast
  moreover have "store_inv True b" using step run_steps_inv by blast
  ultimately show ?case
    using run_step_terminal [of "fst b" "snd b" "fst d" "snd d"] step(2,6) by simp
qed blast

text \<open>The jobs of one run.\<close>

definition run_views :: "uuid \<Rightarrow> job_view list \<Rightarrow> job_view list" where
  "run_views r vs = filter (\<lambda>v. jv_run v = r) vs"

lemma run_views_map: "(\<And>v. jv_run v = r \<Longrightarrow> f v = v) \<Longrightarrow> (\<And>v. jv_run (f v) = jv_run v) \<Longrightarrow> run_views r (map f vs) = run_views r vs"
  unfolding run_views_def by (induction vs) auto

lemma run_views_set_status: "i < length vs \<Longrightarrow> jv_run (vs ! i) \<noteq> r \<Longrightarrow> run_views r (set_status i s vs) = run_views r vs"
  unfolding set_status_def run_views_def
proof (induction vs arbitrary: i)
  case (Cons v vs)
  then show ?case by (cases i) auto
qed simp

lemma run_views_other:
  assumes "q \<noteq> r"
  shows "run_views r (release_deps q vs) = run_views r vs" "run_views r (skip_views q vs) = run_views r vs"
    "run_views r (cancel_views q vs) = run_views r vs"
  unfolding release_deps_def skip_views_def cancel_views_def
  by (rule run_views_map; use assms in \<open>auto simp: release_view_def skip_view_def cancel_view_def\<close>)+

lemma run_statuses_views: "run_statuses r vs = jv_status ` set (run_views r vs)"
  by (auto simp: run_statuses_def run_views_def)

text \<open>A run that is over and has no leased job is not touched any more.\<close>

lemma run_step_frozen:
  assumes step: "run_step True (vs, runs) (ws, runs')" and inv: "store_inv True (vs, runs)"
    and r: "runs r = Some (st, fin)" "Terminal st" "\<forall>s\<in>run_statuses r vs. \<not> job_leased s"
  shows "run_views r ws = run_views r vs"
proof -
  have n: "jv_run (vs ! i) \<noteq> r" if "i < length vs" "job_leased (jv_status (vs ! i))" for i
    using status_in_run [OF that(1)] that(2) r(3) by metis
  show ?thesis
    using step
  proof (cases rule: run_step.cases)
    case (submit q new fin')
    then have "q \<noteq> r" using r(1) by auto
    then have "run_views r new = []" using submit by (auto simp: run_views_def fresh_views_def filter_empty_conv)
    then show ?thesis using submit by (simp add: run_views_def)
  next
    case (assign i)
    then have "jv_run (vs ! i) \<noteq> r" using r(1,2) by auto
    then show ?thesis using assign by (simp add: run_views_set_status)
  next
    case (start i)
    then show ?thesis using n [of i] by (simp add: run_views_set_status)
  next
    case (release i)
    then show ?thesis using n [of i] by (simp add: run_views_set_status)
  next
    case (requeue i)
    then show ?thesis using n [of i] by (simp add: run_views_set_status)
  next
    case (succeed i now)
    then have o: "jv_run (vs ! i) \<noteq> r" using n [of i] by simp
    show ?thesis using succeed run_views_other(1) [OF o] run_views_set_status [OF _ o] by simp
  next
    case (fail i s now)
    then have o: "jv_run (vs ! i) \<noteq> r" using n [of i] by simp
    have "ws = skip_views (jv_run (vs ! i)) (set_status i s vs)" using fail by simp
    then show ?thesis using run_views_other(2) [OF o] run_views_set_status [OF _ o] fail by simp
  next
    case (expire i now)
    then have o: "jv_run (vs ! i) \<noteq> r" using n [of i] by simp
    show ?thesis using expire run_views_other(2) [OF o] run_views_set_status [OF _ o] by simp
  next
    case (cancel q st' fin' now)
    then have "q \<noteq> r" using r(1,2) by auto
    then show ?thesis using cancel run_views_other(3) by simp
  qed
qed

lemma run_steps_frozen:
  assumes "run_steps True a b" "store_inv True a" "snd a r = Some (st, fin)" "Terminal st"
    "\<forall>s\<in>run_statuses r (fst a). \<not> job_leased s"
  shows "run_views r (fst b) = run_views r (fst a)"
  using assms
proof (induction rule: rtranclp_induct)
  case (step b d)
  obtain fin' where "snd b r = Some (st, fin')" using run_steps_terminal [OF step(1,4,5,6)] by blast
  moreover have "store_inv True b" using step run_steps_inv by blast
  moreover have e: "run_views r (fst b) = run_views r (fst a)" using step by blast
  then have "run_statuses r (fst b) = run_statuses r (fst a)" by (simp add: run_statuses_views)
  ultimately have "run_views r (fst d) = run_views r (fst b)"
    using run_step_frozen [of "fst b" "snd b" "fst d" "snd d" r st fin'] step(2,6,7) by simp
  then show ?case using e by simp
qed simp

section \<open>The contract of a run store\<close>

text \<open>
  A store has a state that can be seen as jobs and runs, starts empty, and every operation of it makes
  steps of the run machine.
\<close>

locale run_store =
  fixes c :: bool and abs :: "'s \<Rightarrow> store_view" and ok :: "'s \<Rightarrow> bool" and init :: 's and step :: "'s \<Rightarrow> 's \<Rightarrow> bool"
  assumes abs_init: "abs init = ([], Map.empty)"
    and init_ok: "ok init"
    and step_ok: "ok s \<Longrightarrow> step s t \<Longrightarrow> ok t"
    and step_refines: "ok s \<Longrightarrow> step s t \<Longrightarrow> run_steps c (abs s) (abs t)"
begin

abbreviation reachable :: "'s \<Rightarrow> bool" where
  "reachable s \<equiv> step\<^sup>*\<^sup>* init s"

lemma steps_ok: "step\<^sup>*\<^sup>* s t \<Longrightarrow> ok s \<Longrightarrow> ok t"
  by (induction rule: rtranclp_induct) (auto intro: step_ok)

lemma reachable_ok: "reachable s \<Longrightarrow> ok s"
  using steps_ok init_ok by blast

lemma steps_refine: "step\<^sup>*\<^sup>* s t \<Longrightarrow> ok s \<Longrightarrow> run_steps c (abs s) (abs t)"
proof (induction rule: rtranclp_induct)
  case (step t u)
  then show ?case using step_refines [of t u] steps_ok [of s t] by simp
qed simp

lemma reachable_inv: "reachable s \<Longrightarrow> store_inv c (abs s)"
  using steps_refine [of init s] run_steps_inv [of c "abs init" "abs s"]
  by (simp add: abs_init init_ok store_inv_def job_inv_Nil)

lemma steps_jobs: "reachable s \<Longrightarrow> step\<^sup>*\<^sup>* s t \<Longrightarrow> job_steps c (fst (abs s)) (fst (abs t))"
  by (rule run_steps_job_steps) (auto intro: steps_refine reachable_inv reachable_ok)

text \<open>A job that left the waiting room has all its dependencies succeeded.\<close>

lemma dependencies_first:
  assumes "reachable s" and "v \<in> set (fst (abs s))"
    and "\<not> waits c (jv_status v)" and "d \<in> set (jv_deps v)"
  shows "view_states (jv_run v) (fst (abs s)) d = Some JobSucceeded"
proof -
  have "started_ok c (fst (abs s))"
    using reachable_inv [OF assms(1)] by (cases "abs s") (simp add: store_inv_def job_inv_def)
  then show ?thesis using assms(2-) by (auto simp: started_ok_def deps_met_def)
qed

text \<open>The status of a finished job is frozen.\<close>

lemma final_forever:
  assumes "reachable s" and "step\<^sup>*\<^sup>* s t" and "n < length (fst (abs s))"
    and "job_final (jv_status (fst (abs s) ! n))"
  shows "n < length (fst (abs t)) \<and> fst (abs t) ! n = fst (abs s) ! n"
  using job_steps_final [OF steps_jobs [OF assms(1,2)] assms(3,4)] .

text \<open>Once a run is over its status does not change.\<close>

lemma terminal_forever:
  assumes "c" "reachable s" "step\<^sup>*\<^sup>* s t" "snd (abs s) r = Some (st, fin)" "Terminal st"
  shows "\<exists>fin'. snd (abs t) r = Some (st, fin')"
  using run_steps_terminal [of "abs s" "abs t" r st fin] steps_refine [OF assms(3) reachable_ok [OF assms(2)]]
    reachable_inv [OF assms(2)] assms(1,4,5) by simp

lemma frozen_forever:
  assumes "c" "reachable s" "step\<^sup>*\<^sup>* s t" "snd (abs s) r = Some (st, fin)" "Terminal st"
    "\<forall>x\<in>run_statuses r (fst (abs s)). \<not> job_leased x"
  shows "run_views r (fst (abs t)) = run_views r (fst (abs s))"
  using run_steps_frozen [of "abs s" "abs t" r st fin] steps_refine [OF assms(3) reachable_ok [OF assms(2)]]
    reachable_inv [OF assms(2)] assms(1,4-6) by simp

text \<open>What the status of a run says about its jobs.\<close>

lemma run_meaning:
  "reachable s \<Longrightarrow> snd (abs s) r = Some x \<Longrightarrow> run_ok (run_statuses r (fst (abs s))) x"
  using reachable_inv [of s] store_inv_run [of c "fst (abs s)" "snd (abs s)" r x] by simp

text \<open>
  A run with an acyclic and closed dependency graph that is not finished has a job that can be worked on.
\<close>

lemma run_progress:
  assumes "reachable s" and "step\<^sup>*\<^sup>* s t" and "run_graph_ok r (fst (abs s))"
    and "r \<in> jv_run ` set (fst (abs s))" and "snd (abs t) r = Some (st, fin)" and "\<not> Terminal st"
  shows "\<exists>w\<in>set (fst (abs t)). jv_run w = r \<and> plain (jv_status w)"
proof -
  have g: "run_graph_ok r (fst (abs t))" "r \<in> jv_run ` set (fst (abs t))"
    using job_steps_run_graph [OF steps_jobs [OF assms(1,2)]] assms(3,4) by auto
  have rt: "reachable t" using assms(1,2) by simp
  have "run_ok (run_statuses r (fst (abs t))) (st, fin)" using run_meaning [OF rt assms(5)] .
  then obtain v where v: "v \<in> set (fst (abs t))" "jv_run v = r" "\<not> job_final (jv_status v)"
    using g(2) assms(6) by (auto simp: run_ok_def run_statuses_def)
  show ?thesis
  proof (cases "jv_status v = JobBlocked")
    case True
    then show ?thesis
      using no_deadlock [OF _ g(1) v(1,2)] reachable_inv [OF rt] by (auto simp: store_inv_def split: prod.splits)
  next
    case False
    then show ?thesis using v by (cases "jv_status v") (auto simp: job_final_def plain_def)
  qed
qed

end

end
