(* ===== verification/Pipeline_Validate.thy ===== *)
theory Pipeline_Validate
  imports Pipeline_Types
begin

text \<open>
  Validation of a decoded pipeline: \<open>Validate\<close>, \<open>validateJobs\<close>, \<open>ValidateServices\<close>,
  \<open>validateDependencies\<close>, \<open>parseByteSize\<close> and \<open>parseTimeout\<close> of
  \<open>src/internal/pipeline/compiler.go\<close>. A validation returns the list of problems, empty when the value is
  accepted. The declarative predicate \<open>valid_pipeline\<close> says what is accepted, and \<open>Validate_iff\<close> shows
  that the code accepts exactly that, whatever order Go's map ranges take.
\<close>

section \<open>Patterns\<close>

definition name_rest :: "char \<Rightarrow> bool" where
  "name_rest c \<longleftrightarrow> is_alnum c \<or> c \<in> set ''._-''"

definition label_rest :: "char \<Rightarrow> bool" where
  "label_rest c \<longleftrightarrow> is_alnum c \<or> c \<in> set ''._/-''"

definition env_first :: "char \<Rightarrow> bool" where
  "env_first c \<longleftrightarrow> is_upper c \<or> is_lower c \<or> c = CHR ''_''"

definition env_rest :: "char \<Rightarrow> bool" where
  "env_rest c \<longleftrightarrow> is_alnum c \<or> c = CHR ''_''"

definition namePattern :: "string \<Rightarrow> bool" where
  "namePattern s = matches is_alnum name_rest 62 s"

definition runnerLabelPattern :: "string \<Rightarrow> bool" where
  "runnerLabelPattern s = matches is_alnum label_rest 127 s"

definition environmentNamePattern :: "string \<Rightarrow> bool" where
  "environmentNamePattern s = matches env_first env_rest (length s) s"

lemma namePattern_no_slash: "namePattern s \<Longrightarrow> CHR ''/'' \<notin> set s"
  unfolding namePattern_def
  by (erule matches_notin) (simp_all add: name_rest_def char_class_defs)

section \<open>Problems\<close>

text \<open>
  A message is a fixed text, or the one formatted text, which quotes the unknown dependency's name.
\<close>

datatype message = Msg string | Unknown_Dependency string

record ValidationError =
  err_Path :: string
  err_Message :: message

type_synonym ValidationErrors = "ValidationError list"

definition verr :: "string \<Rightarrow> string \<Rightarrow> ValidationError" where
  "verr path msg = \<lparr>err_Path = path, err_Message = Msg msg\<rparr>"

definition indexed :: "string \<Rightarrow> nat \<Rightarrow> string" where
  "indexed path i = path @ ''['' @ format_nat i @ '']''"

section \<open>Sizes and timeouts\<close>

definition size_units :: "(string \<times> int) list" where
  "size_units =
     [(''TIB'', 2 ^ 40), (''GIB'', 2 ^ 30), (''MIB'', 2 ^ 20), (''KIB'', 2 ^ 10),
      (''TB'', 1000000000000), (''GB'', 1000000000), (''MB'', 1000000), (''KB'', 1000)]"

definition parseByteSize :: "string \<Rightarrow> string + int" where
  "parseByteSize raw =
     (if raw = [] then Inr 0
      else
        (let upper = ToUpper (TrimSpace raw) in
         case List.find (\<lambda>unit. HasSuffix upper (fst unit)) size_units of
           Some unit \<Rightarrow>
             (case ParseInt (TrimSpace (TrimSuffix upper (fst unit))) of
                None \<Rightarrow> Inl ''must be a non-negative size no larger than 1 PiB''
              | Some value \<Rightarrow>
                  if value < 0 \<or> value > 2 ^ 50 div snd unit
                  then Inl ''must be a non-negative size no larger than 1 PiB''
                  else Inr (int64 (value * snd unit)))
         | None \<Rightarrow>
             (case ParseInt upper of
                None \<Rightarrow> Inl ''must use bytes or KB/MB/GB/TB/KiB/MiB/GiB/TiB''
              | Some value \<Rightarrow>
                  if value < 0 \<or> value > 2 ^ 50
                  then Inl ''must use bytes or KB/MB/GB/TB/KiB/MiB/GiB/TiB''
                  else Inr value)))"

definition parseTimeout :: "(int \<Rightarrow> int \<Rightarrow> nat \<Rightarrow> int) \<Rightarrow> string \<Rightarrow> string + duration" where
  "parseTimeout frac raw =
     (if raw = [] then Inr (30 * Minute)
      else (case ParseDuration frac raw of
              None \<Rightarrow> Inl ''must be a Go duration such as 10m or 1h''
            | Some value \<Rightarrow>
                if value < Second \<or> value > 24 * Hour then Inl ''must be between 1s and 24h''
                else Inr value))"

section \<open>Services\<close>

definition bad_image_char :: "char \<Rightarrow> bool" where
  "bad_image_char c \<longleftrightarrow> c \<in> set [CHR '' '', CHR 0x09, CHR 0x0D, CHR 0x0A, CHR 0x00]"

definition bad_service_image :: "string \<Rightarrow> bool" where
  "bad_service_image img \<longleftrightarrow>
     img = [] \<or> length img > 512 \<or> HasPrefix img ''-'' \<or> list_ex bad_image_char img"

definition bad_service_variable :: "string \<times> string \<Rightarrow> bool" where
  "bad_service_variable kv \<longleftrightarrow>
     \<not> environmentNamePattern (fst kv) \<or> length (fst kv) > 128 \<or> length (snd kv) > 32768 \<or>
     CHR 0x00 \<in> set (snd kv)"

fun service_problems :: "nat \<Rightarrow> string list \<Rightarrow> Service list \<Rightarrow> ValidationErrors" where
  "service_problems i names [] = []"
| "service_problems i names (service # rest) =
     (let path = indexed ''services'' i;
          alias = ToLower (svc_Name service)
      in (if \<not> namePattern (svc_Name service) \<or> alias \<in> set names
          then [verr (path @ ''.name'') ''must be valid and unique within the job (case insensitive)'']
          else []) @
         (if bad_service_image (svc_Image service)
          then [verr (path @ ''.image'') ''must be a non-empty image reference, not an option'']
          else []) @
         (if length (svc_Environment service) > 128
          then [verr (path @ ''.environment'') ''must contain at most 128 variables'']
          else []) @
         (if list_ex bad_service_variable (svc_Environment service)
          then [verr (path @ ''.environment'') ''contains an invalid variable'']
          else []) @
         service_problems (Suc i) (alias # names) rest)"

definition ValidateServices :: "Service list \<Rightarrow> ValidationErrors" where
  "ValidateServices services =
     (if length services > 16 then [verr ''services'' ''must contain at most 16 services'']
      else service_problems 0 [] services)"

section \<open>Dependencies\<close>

definition dependency_problems ::
    "string \<Rightarrow> string list \<Rightarrow> string \<times> string list \<Rightarrow> ValidationErrors" where
  "dependency_problems path names entry =
     concat (map (\<lambda>dependency.
       if dependency = fst entry
       then [verr (path @ ''.'' @ fst entry @ ''.depends_on'') ''cannot depend on itself'']
       else if dependency \<notin> set names
       then [\<lparr>err_Path = path @ ''.'' @ fst entry @ ''.depends_on'',
              err_Message = Unknown_Dependency dependency\<rparr>]
       else []) (snd entry))"

definition validateDependencies ::
    "runtime \<Rightarrow> string \<Rightarrow> string list \<Rightarrow> graph \<Rightarrow> ValidationErrors" where
  "validateDependencies rt path names dependencies =
     concat (map (dependency_problems path names) (range_deps rt dependencies)) @
     (if hasCycle (range_graph rt dependencies)
      then [verr path ''dependency graph contains a cycle''] else [])"

definition stageDependencies :: "Stage list \<Rightarrow> graph" where
  "stageDependencies stages =
     fold (\<lambda>stage. map_put (stage_Name stage) (stage_DependsOn stage)) stages []"

definition jobDependencies :: "Job list \<Rightarrow> graph" where
  "jobDependencies jobs =
     fold (\<lambda>job. map_put (job_Name job) (job_DependsOn job)) jobs []"

section \<open>Jobs\<close>

definition step_problems :: "string \<Rightarrow> Job \<Rightarrow> nat \<Rightarrow> Step \<Rightarrow> ValidationErrors" where
  "step_problems jobPath job j step =
     (let stepPath = indexed (jobPath @ ''.steps'') j in
      (if \<not> namePattern (step_Name step) then [verr (stepPath @ ''.name'') ''is invalid''] else []) @
      (if step_Image step = [] \<and> job_Image job = []
       then [verr (stepPath @ ''.image'') ''is required when the job has no default image''] else []) @
      (if step_Commands step = [] then [verr (stepPath @ ''.commands'') ''must not be empty''] else []))"

definition labels_of :: "RunnerRequirements \<Rightarrow> gomap" where
  "labels_of r = (case req_Labels r of None \<Rightarrow> [] | Some m \<Rightarrow> m)"

definition bad_label :: "string \<times> string \<Rightarrow> bool" where
  "bad_label kv \<longleftrightarrow> length (snd kv) > 256 \<or> \<not> runnerLabelPattern (fst kv)"

definition bad_field :: "string \<Rightarrow> bool" where
  "bad_field value \<longleftrightarrow> length value > 64 \<or> (value \<noteq> [] \<and> \<not> namePattern value)"

definition runs_on_problems :: "runtime \<Rightarrow> string \<Rightarrow> RunnerRequirements \<Rightarrow> ValidationErrors" where
  "runs_on_problems rt jobPath r =
     concat (map (\<lambda>(field, value).
         if bad_field value then [verr (jobPath @ ''.runs_on.'' @ field) ''is invalid''] else [])
       (range_fields rt [(''os'', req_OS r), (''architecture'', req_Architecture r),
                         (''executor'', req_Executor r)])) @
     (if length (labels_of r) > 64
      then [verr (jobPath @ ''.runs_on.labels'') ''must contain at most 64 labels''] else []) @
     (if list_ex bad_label (labels_of r)
      then [verr (jobPath @ ''.runs_on.labels'') ''contains an invalid label''] else [])"

definition job_problems :: "runtime \<Rightarrow> string \<Rightarrow> Job \<Rightarrow> ValidationErrors" where
  "job_problems rt jobPath job =
     map (\<lambda>p. p\<lparr>err_Path := jobPath @ ''.'' @ err_Path p\<rparr>) (ValidateServices (job_Services job)) @
     (if job_Steps job = [] then [verr (jobPath @ ''.steps'') ''must contain at least one step''] else []) @
     (if job_Retry job < 0 \<or> job_Retry job > 5
      then [verr (jobPath @ ''.retry'') ''must be between 0 and 5''] else []) @
     (if res_Privileged (job_Resources job)
      then [verr (jobPath @ ''.resources.privileged'')
              ''is forbidden in pipeline v1; use an administrator-approved runner policy''] else []) @
     (case parseByteSize (res_Disk (job_Resources job)) of
        Inl e \<Rightarrow> [verr (jobPath @ ''.resources.disk'') e] | Inr _ \<Rightarrow> []) @
     runs_on_problems rt jobPath (job_RunsOn job) @
     (if job_Timeout job \<noteq> []
      then (case parseTimeout (float_fraction rt) (job_Timeout job) of
              Inl e \<Rightarrow> [verr (jobPath @ ''.timeout'') e] | Inr _ \<Rightarrow> [])
      else []) @
     concat_index (step_problems jobPath job) 0 (job_Steps job)"

text \<open>The name check shared by stages and jobs: invalid, or seen before.\<close>

definition name_problems :: "string \<Rightarrow> string \<Rightarrow> string list \<Rightarrow> string \<Rightarrow> ValidationErrors" where
  "name_problems path dup names name =
     (if \<not> namePattern name then [verr (path @ ''.name'') ''is invalid'']
      else if name \<in> set names then [verr (path @ ''.name'') dup] else [])"

fun jobs_problems :: "runtime \<Rightarrow> string \<Rightarrow> nat \<Rightarrow> string list \<Rightarrow> Job list \<Rightarrow> ValidationErrors" where
  "jobs_problems rt path i names [] = []"
| "jobs_problems rt path i names (job # rest) =
     (let jobPath = indexed (path @ ''.jobs'') i
      in name_problems jobPath ''must be unique within its stage'' names (job_Name job) @
         job_problems rt jobPath job @
         jobs_problems rt path (Suc i) (job_Name job # names) rest)"

definition validateJobs :: "runtime \<Rightarrow> string \<Rightarrow> Job list \<Rightarrow> ValidationErrors" where
  "validateJobs rt path jobs =
     (if jobs = [] then [verr (path @ ''.jobs'') ''must contain at least one job'']
      else jobs_problems rt path 0 [] jobs @
           validateDependencies rt (path @ ''.jobs'') (map job_Name jobs) (jobDependencies jobs))"

section \<open>The pipeline\<close>

fun stages_problems :: "runtime \<Rightarrow> nat \<Rightarrow> string list \<Rightarrow> Stage list \<Rightarrow> ValidationErrors" where
  "stages_problems rt i names [] = []"
| "stages_problems rt i names (stage # rest) =
     (let path = indexed ''stages'' i
      in name_problems path ''must be unique'' names (stage_Name stage) @
         validateJobs rt path (stage_Jobs stage) @
         stages_problems rt (Suc i) (stage_Name stage # names) rest)"

definition concurrency_problems :: "Concurrency option \<Rightarrow> ValidationErrors" where
  "concurrency_problems c =
     (case c of
        None \<Rightarrow> []
      | Some c \<Rightarrow>
          (if conc_Group c = [] then [verr ''concurrency.group'' ''is required''] else []) @
          (if conc_Limit c < 0 \<or> conc_Limit c > 100
           then [verr ''concurrency.limit'' ''must be between 0 and 100''] else []))"

definition allowedEvents :: "string list" where
  "allowedEvents = [''push'', ''pull_request'', ''tag'', ''manual'', ''cron'', ''api'']"

definition trigger_problems :: "nat \<Rightarrow> Trigger \<Rightarrow> ValidationErrors" where
  "trigger_problems i trigger =
     (if trig_Event trigger \<notin> set allowedEvents
      then [verr (indexed ''triggers'' i @ ''.event'') ''is not supported''] else [])"

definition Validate :: "runtime \<Rightarrow> Pipeline \<Rightarrow> ValidationErrors" where
  "Validate rt value =
     (if pipe_Version value \<noteq> APIVersion then [verr ''version'' ''must be v1''] else []) @
     (if \<not> namePattern (pipe_Name value)
      then [verr ''name'' ''must be 1-63 letters, numbers, dots, underscores or hyphens''] else []) @
     (if pipe_Stages value = [] then [verr ''stages'' ''must contain at least one stage''] else []) @
     concurrency_problems (pipe_Concurrency value) @
     stages_problems rt 0 [] (pipe_Stages value) @
     validateDependencies rt ''stages'' (map stage_Name (pipe_Stages value))
       (stageDependencies (pipe_Stages value)) @
     concat_index trigger_problems 0 (pipe_Triggers value)"

section \<open>What is accepted\<close>

text \<open>The dependency relation of a list of named nodes.\<close>

definition edges_of :: "('a \<Rightarrow> string) \<Rightarrow> ('a \<Rightarrow> string list) \<Rightarrow> 'a list \<Rightarrow> (string \<times> string) set" where
  "edges_of name deps xs = {(name x, d) | x d. x \<in> set xs \<and> d \<in> set (deps x)}"

text \<open>Named nodes with unique names, known dependencies and no dependency cycle.\<close>

definition valid_graph :: "('a \<Rightarrow> string) \<Rightarrow> ('a \<Rightarrow> string list) \<Rightarrow> 'a list \<Rightarrow> bool" where
  "valid_graph name deps xs \<longleftrightarrow>
     (\<forall>x\<in>set xs. namePattern (name x)) \<and> distinct (map name xs) \<and>
     (\<forall>x\<in>set xs. set (deps x) \<subseteq> name ` set xs) \<and> acyclic (edges_of name deps xs)"

definition valid_service :: "Service \<Rightarrow> bool" where
  "valid_service s \<longleftrightarrow>
     namePattern (svc_Name s) \<and> \<not> bad_service_image (svc_Image s) \<and>
     length (svc_Environment s) \<le> 128 \<and> (\<forall>kv\<in>set (svc_Environment s). \<not> bad_service_variable kv)"

definition valid_services :: "Service list \<Rightarrow> bool" where
  "valid_services ss \<longleftrightarrow>
     length ss \<le> 16 \<and> (\<forall>s\<in>set ss. valid_service s) \<and> distinct (map (ToLower \<circ> svc_Name) ss)"

definition valid_step :: "Job \<Rightarrow> Step \<Rightarrow> bool" where
  "valid_step job step \<longleftrightarrow>
     namePattern (step_Name step) \<and> (step_Image step \<noteq> [] \<or> job_Image job \<noteq> []) \<and> step_Commands step \<noteq> []"

definition valid_runs_on :: "RunnerRequirements \<Rightarrow> bool" where
  "valid_runs_on r \<longleftrightarrow>
     \<not> bad_field (req_OS r) \<and> \<not> bad_field (req_Architecture r) \<and> \<not> bad_field (req_Executor r) \<and>
     length (labels_of r) \<le> 64 \<and> (\<forall>kv\<in>set (labels_of r). \<not> bad_label kv)"

definition valid_job :: "(int \<Rightarrow> int \<Rightarrow> nat \<Rightarrow> int) \<Rightarrow> Job \<Rightarrow> bool" where
  "valid_job frac job \<longleftrightarrow>
     valid_services (job_Services job) \<and> job_Steps job \<noteq> [] \<and> 0 \<le> job_Retry job \<and> job_Retry job \<le> 5 \<and>
     \<not> res_Privileged (job_Resources job) \<and> (\<exists>n. parseByteSize (res_Disk (job_Resources job)) = Inr n) \<and>
     valid_runs_on (job_RunsOn job) \<and> (\<exists>t. parseTimeout frac (job_Timeout job) = Inr t) \<and>
     (\<forall>step\<in>set (job_Steps job). valid_step job step)"

definition valid_stage :: "(int \<Rightarrow> int \<Rightarrow> nat \<Rightarrow> int) \<Rightarrow> Stage \<Rightarrow> bool" where
  "valid_stage frac stage \<longleftrightarrow>
     stage_Jobs stage \<noteq> [] \<and> (\<forall>job\<in>set (stage_Jobs stage). valid_job frac job) \<and>
     valid_graph job_Name job_DependsOn (stage_Jobs stage)"

definition valid_pipeline :: "(int \<Rightarrow> int \<Rightarrow> nat \<Rightarrow> int) \<Rightarrow> Pipeline \<Rightarrow> bool" where
  "valid_pipeline frac p \<longleftrightarrow>
     pipe_Version p = APIVersion \<and> namePattern (pipe_Name p) \<and> pipe_Stages p \<noteq> [] \<and>
     (\<forall>c. pipe_Concurrency p = Some c \<longrightarrow> conc_Group c \<noteq> [] \<and> 0 \<le> conc_Limit c \<and> conc_Limit c \<le> 100) \<and>
     (\<forall>stage\<in>set (pipe_Stages p). valid_stage frac stage) \<and>
     valid_graph stage_Name stage_DependsOn (pipe_Stages p) \<and>
     (\<forall>t\<in>set (pipe_Triggers p). trig_Event t \<in> set allowedEvents)"

section \<open>The validators accept exactly that\<close>

named_theorems accepts "when a validator reports no problem"

lemma service_problems_Nil [accepts]:
  "service_problems i names ss = [] \<longleftrightarrow>
     (\<forall>s\<in>set ss. valid_service s) \<and> distinct (map (ToLower \<circ> svc_Name) ss) \<and>
     (ToLower \<circ> svc_Name) ` set ss \<inter> set names = {}"
  by (induction ss arbitrary: i names)
    (auto simp: Let_def valid_service_def list_ex_iff not_less)

lemma ValidateServices_Nil [accepts]: "ValidateServices ss = [] \<longleftrightarrow> valid_services ss"
  by (auto simp: ValidateServices_def valid_services_def service_problems_Nil)

lemma step_problems_Nil [accepts]: "step_problems path job i step = [] \<longleftrightarrow> valid_step job step"
  by (auto simp: step_problems_def valid_step_def Let_def)

lemma concat_index_const_Nil:
  assumes "\<And>i x. f i x = [] \<longleftrightarrow> P x"
  shows "concat_index f i xs = [] \<longleftrightarrow> (\<forall>x\<in>set xs. P x)"
  by (induction xs arbitrary: i) (simp_all add: assms)

lemma runs_on_problems_Nil [accepts]:
  assumes "ranges_ok rt"
  shows "runs_on_problems rt path r = [] \<longleftrightarrow> valid_runs_on r"
proof -
  have "(\<forall>x\<in>set (range_fields rt fm). P x) \<longleftrightarrow> (\<forall>x\<in>set fm. P x)" for P fm
    using ranges_okD(2) [OF assms] by simp
  then show ?thesis
    by (auto simp: runs_on_problems_def valid_runs_on_def list_ex_iff not_less
        split: if_splits prod.splits)
qed

lemma parseTimeout_empty [simp]: "parseTimeout frac [] = Inr (30 * Minute)"
  by (simp add: parseTimeout_def)

lemma job_problems_Nil [accepts]:
  assumes "ranges_ok rt"
  shows "job_problems rt path job = [] \<longleftrightarrow> valid_job (float_fraction rt) job"
proof -
  have disk: "(case r of Inl e \<Rightarrow> [verr p e] | Inr _ \<Rightarrow> []) = [] \<longleftrightarrow> (\<exists>n. r = Inr n)"
    for r :: "string + int" and p
    by (cases r) simp_all
  have time: "(if t \<noteq> [] then (case parseTimeout frac t of Inl e \<Rightarrow> [verr p e] | Inr _ \<Rightarrow> []) else []) = []
      \<longleftrightarrow> (\<exists>n. parseTimeout frac t = Inr n)" for frac t p
    by (cases "parseTimeout frac t"; cases "t = []") simp_all
  show ?thesis
    unfolding job_problems_def valid_job_def append_is_Nil_conv disk time
    by (simp add: ValidateServices_Nil runs_on_problems_Nil [OF assms] not_less
        concat_index_const_Nil [OF step_problems_Nil])
qed

lemma name_problems_Nil [accepts]:
  "name_problems path dup names name = [] \<longleftrightarrow> namePattern name \<and> name \<notin> set names"
  by (simp add: name_problems_def)

lemma jobs_problems_Nil [accepts]:
  assumes "ranges_ok rt"
  shows "jobs_problems rt path i names jobs = [] \<longleftrightarrow>
     (\<forall>job\<in>set jobs. namePattern (job_Name job) \<and> valid_job (float_fraction rt) job) \<and>
     distinct (map job_Name jobs) \<and> job_Name ` set jobs \<inter> set names = {}"
  by (induction jobs arbitrary: i names)
    (auto simp: Let_def name_problems_Nil job_problems_Nil [OF assms])

text \<open>Building the dependency map from distinct names keeps every entry.\<close>

lemma map_put_fresh: "k \<notin> fst ` set m \<Longrightarrow> map_put k v m = m @ [(k, v)]"
  by (induction m) auto

lemma fold_map_put:
  "distinct (map name xs) \<Longrightarrow> name ` set xs \<inter> fst ` set m = {} \<Longrightarrow>
   fold (\<lambda>x. map_put (name x) (deps x)) xs m = m @ map (\<lambda>x. (name x, deps x)) xs"
  by (induction xs arbitrary: m) (auto simp: map_put_fresh)

lemma dep_edges_map:
  assumes "distinct (map name xs)"
  shows "dep_edges (map (\<lambda>x. (name x, deps x)) xs) = edges_of name deps xs"
proof -
  have d: "distinct (map fst (map (\<lambda>x. (name x, deps x)) xs))"
    using assms by (simp add: comp_def)
  have look: "map_of (map (\<lambda>x. (name x, deps x)) xs) (name x) = Some (deps x)" if "x \<in> set xs" for x
    using that by (intro map_of_is_SomeI [OF d]) auto
  have none: "map_of (map (\<lambda>x. (name x, deps x)) xs) n = None" if "n \<notin> name ` set xs" for n
    using that by (simp add: map_of_eq_None_iff image_comp comp_def)
  show ?thesis
  proof (rule set_eqI, clarify)
    fix n d
    show "(n, d) \<in> dep_edges (map (\<lambda>x. (name x, deps x)) xs) \<longleftrightarrow> (n, d) \<in> edges_of name deps xs"
    proof (cases "n \<in> name ` set xs")
      case True
      then obtain x where x: "x \<in> set xs" "n = name x" by blast
      have "y = x" if "y \<in> set xs" "name y = name x" for y
        using assms that x by (metis distinct_map inj_onD)
      then show ?thesis
        using x look [OF x(1)] by (auto simp: dep_edges_def succs_def map_get_def edges_of_def)
    next
      case False
      then show ?thesis
        using none by (auto simp: dep_edges_def succs_def map_get_def edges_of_def)
    qed
  qed
qed

lemma acyclic_no_self: "acyclic (edges_of name deps xs) \<Longrightarrow> x \<in> set xs \<Longrightarrow> name x \<notin> set (deps x)"
  by (auto simp: acyclic_def edges_of_def)

lemma concat_map_Nil: "concat (map f xs) = [] \<longleftrightarrow> (\<forall>x\<in>set xs. f x = [])"
  by (induction xs) auto

lemma dependency_problems_Nil [accepts]:
  "dependency_problems path names e = [] \<longleftrightarrow> (\<forall>d\<in>set (snd e). d \<noteq> fst e \<and> d \<in> set names)"
  unfolding dependency_problems_def concat_map_Nil by auto

lemma validateDependencies_Nil:
  assumes rt: "ranges_ok rt" and names: "\<forall>x\<in>set xs. namePattern (name x)"
    and dist: "distinct (map name xs)"
  shows "validateDependencies rt path (map name xs)
           (fold (\<lambda>x. map_put (name x) (deps x)) xs []) = [] \<longleftrightarrow> valid_graph name deps xs"
proof -
  let ?g = "map (\<lambda>x. (name x, deps x)) xs"
  have g: "fold (\<lambda>x. map_put (name x) (deps x)) xs [] = ?g"
    using fold_map_put [OF dist, of "[]"] by simp
  have d: "distinct (map fst ?g)" using dist by (simp add: comp_def)
  have "hasCycle (range_graph rt ?g) = hasCycle ?g"
    using hasCycle_perm [OF _ d] ranges_okD(3) [OF rt] by metis
  then have cyc: "\<not> hasCycle (range_graph rt ?g) \<longleftrightarrow> acyclic (edges_of name deps xs)"
    by (simp add: not_hasCycle_acyclic dep_edges_map [OF dist])
  have probs: "concat (map (dependency_problems path (map name xs)) (range_deps rt ?g)) = [] \<longleftrightarrow>
      (\<forall>x\<in>set xs. \<forall>d\<in>set (deps x). d \<noteq> name x \<and> d \<in> name ` set xs)"
    unfolding concat_map_Nil dependency_problems_Nil ranges_okD(1) [OF rt] by simp
  show ?thesis
    unfolding validateDependencies_def g valid_graph_def append_is_Nil_conv probs
    using cyc names dist acyclic_no_self [of name deps xs] by (auto split: if_splits)
qed

lemma validateJobs_Nil [accepts]:
  assumes "ranges_ok rt"
  shows "validateJobs rt path jobs = [] \<longleftrightarrow>
     jobs \<noteq> [] \<and> (\<forall>job\<in>set jobs. valid_job (float_fraction rt) job) \<and>
     valid_graph job_Name job_DependsOn jobs"
proof (cases "jobs \<noteq> [] \<and> jobs_problems rt path 0 [] jobs = []")
  case True
  then have "\<forall>job\<in>set jobs. namePattern (job_Name job)" and "distinct (map job_Name jobs)"
    by (simp_all add: jobs_problems_Nil [OF assms])
  from validateDependencies_Nil [OF assms this, of "path @ ''.jobs''" job_DependsOn] True
  show ?thesis by (auto simp: validateJobs_def jobDependencies_def jobs_problems_Nil [OF assms])
next
  case False
  then show ?thesis
    by (auto simp: validateJobs_def jobs_problems_Nil [OF assms] valid_graph_def)
qed

lemma stages_problems_Nil [accepts]:
  assumes "ranges_ok rt"
  shows "stages_problems rt i names stages = [] \<longleftrightarrow>
     (\<forall>stage\<in>set stages. namePattern (stage_Name stage) \<and> valid_stage (float_fraction rt) stage) \<and>
     distinct (map stage_Name stages) \<and> stage_Name ` set stages \<inter> set names = {}"
  by (induction stages arbitrary: i names)
    (auto simp: Let_def name_problems_Nil validateJobs_Nil [OF assms] valid_stage_def)

lemma trigger_problems_Nil [accepts]:
  "trigger_problems i t = [] \<longleftrightarrow> trig_Event t \<in> set allowedEvents"
  by (simp add: trigger_problems_def)

lemma Validate_Nil:
  assumes "ranges_ok rt"
  shows "Validate rt p = [] \<longleftrightarrow> valid_pipeline (float_fraction rt) p"
proof (cases "stages_problems rt 0 [] (pipe_Stages p) = []")
  case True
  then have "\<forall>s\<in>set (pipe_Stages p). namePattern (stage_Name s)"
    and "distinct (map stage_Name (pipe_Stages p))"
    by (simp_all add: stages_problems_Nil [OF assms])
  from validateDependencies_Nil [OF assms this, of "''stages''" stage_DependsOn] True
  show ?thesis
    unfolding Validate_def valid_pipeline_def append_is_Nil_conv stageDependencies_def
    by (auto simp: stages_problems_Nil [OF assms] concurrency_problems_def not_less
        concat_index_const_Nil [OF trigger_problems_Nil] split: option.splits if_splits)
next
  case False
  then show ?thesis
    by (auto simp: Validate_def stages_problems_Nil [OF assms] valid_pipeline_def valid_graph_def)
qed

end
