(* ===== verification/Pipeline_Compile.thy ===== *)
theory Pipeline_Compile
  imports Pipeline_Validate
begin

text \<open>
  Compilation of a pipeline file into a plan: \<open>Parse\<close> and \<open>Compile\<close> of
  \<open>src/internal/pipeline/compiler.go\<close>. The lemmas show that an accepted file always compiles (the
  conversions of the second pass cannot fail after validation), that the plan keeps the names and
  dependencies of the file, and that every number in it is within the promised bounds.
\<close>

datatype compile_error =
    Decode_Error
  | Invalid_Pipeline ValidationErrors
  | Canonicalize_Error
  | Invalid_Value ValidationError

definition Parse :: "runtime \<Rightarrow> bytes \<Rightarrow> compile_error + Pipeline" where
  "Parse rt source = (case yaml_decode rt source of None \<Rightarrow> Inl Decode_Error | Some value \<Rightarrow> Inr value)"

definition default_runs_on :: "RunnerRequirements \<Rightarrow> RunnerRequirements" where
  "default_runs_on r =
     r\<lparr>req_OS := (if req_OS r = [] then ''linux'' else req_OS r),
       req_Executor := (if req_Executor r = [] then ''docker'' else req_Executor r),
       req_Labels := (case req_Labels r of None \<Rightarrow> Some [] | Some m \<Rightarrow> Some m)\<rparr>"

definition compile_job :: "runtime \<Rightarrow> string \<Rightarrow> Job \<Rightarrow> compile_error + PlanJob" where
  "compile_job rt stageName job =
     (case parseTimeout (float_fraction rt) (job_Timeout job) of
        Inl e \<Rightarrow> Inl (Invalid_Value (verr
          (''stage.'' @ stageName @ ''.job.'' @ job_Name job @ ''.timeout'') e))
      | Inr timeout \<Rightarrow>
          (case parseByteSize (res_Disk (job_Resources job)) of
             Inl e \<Rightarrow> Inl (Invalid_Value (verr
               (''stage.'' @ stageName @ ''.job.'' @ job_Name job @ ''.resources.disk'') e))
           | Inr diskBytes \<Rightarrow>
               Inr \<lparr>pj_Name = job_Name job, pj_Image = job_Image job, pj_DependsOn = job_DependsOn job,
                    pj_Timeout = timeout, pj_Retry = job_Retry job, pj_Matrix = job_Matrix job,
                    pj_Environment = job_Environment job, pj_Services = job_Services job,
                    pj_Resources = job_Resources job, pj_RunsOn = default_runs_on (job_RunsOn job),
                    pj_RequiredDiskBytes = diskBytes, pj_Secrets = job_Secrets job,
                    pj_Steps = job_Steps job\<rparr>))"

text \<open>The compile loops stop at the first conversion error.\<close>

fun compile_jobs :: "runtime \<Rightarrow> string \<Rightarrow> Job list \<Rightarrow> compile_error + PlanJob list" where
  "compile_jobs rt stageName [] = Inr []"
| "compile_jobs rt stageName (job # jobs) =
     (case compile_job rt stageName job of
        Inl e \<Rightarrow> Inl e
      | Inr pj \<Rightarrow> (case compile_jobs rt stageName jobs of Inl e \<Rightarrow> Inl e | Inr pjs \<Rightarrow> Inr (pj # pjs)))"

fun compile_stages :: "runtime \<Rightarrow> Stage list \<Rightarrow> compile_error + PlanStage list" where
  "compile_stages rt [] = Inr []"
| "compile_stages rt (stage # stages) =
     (case compile_jobs rt (stage_Name stage) (stage_Jobs stage) of
        Inl e \<Rightarrow> Inl e
      | Inr pjs \<Rightarrow>
          (case compile_stages rt stages of
             Inl e \<Rightarrow> Inl e
           | Inr pss \<Rightarrow> Inr (\<lparr>ps_Name = stage_Name stage, ps_DependsOn = stage_DependsOn stage,
                             ps_Jobs = pjs\<rparr> # pss)))"

definition Compile :: "runtime \<Rightarrow> bytes \<Rightarrow> gotime \<Rightarrow> compile_error + Plan" where
  "Compile rt source now =
     (case Parse rt source of
        Inl e \<Rightarrow> Inl e
      | Inr value \<Rightarrow>
          (if Validate rt value \<noteq> [] then Inl (Invalid_Pipeline (Validate rt value))
           else
             (case json_marshal rt value of
                None \<Rightarrow> Inl Canonicalize_Error
              | Some canonical \<Rightarrow>
                  (case compile_stages rt (pipe_Stages value) of
                     Inl e \<Rightarrow> Inl e
                   | Inr stages \<Rightarrow>
                       Inr \<lparr>plan_Version = pipe_Version value, plan_Name = pipe_Name value,
                            plan_ConfigSHA256 = hex_encode (sha256 rt canonical),
                            plan_CompiledAt = now, plan_Stages = stages\<rparr>))))"

section \<open>Sizes and timeouts\<close>

lemma size_units_mult: "unit \<in> set size_units \<Longrightarrow> 1000 \<le> snd unit \<and> snd unit \<le> 2 ^ 40"
  by (auto simp: size_units_def)

lemma scaled_size_range:
  fixes v m :: int
  assumes "0 \<le> v" and "v \<le> 2 ^ 50 div m" and "1000 \<le> m"
  shows "0 \<le> v * m \<and> v * m \<le> 2 ^ 50"
proof -
  have "v * m \<le> 2 ^ 50 div m * m"
    using assms by (simp add: mult_right_mono)
  also have "\<dots> \<le> 2 ^ 50"
    using div_mult_mod_eq [of "2 ^ 50" m] pos_mod_sign [of m "2 ^ 50"] assms(3) by linarith
  finally show ?thesis using assms by simp
qed

lemma int64_scaled_size:
  fixes v m :: int
  assumes "0 \<le> v" and "v \<le> 2 ^ 50 div m" and "1000 \<le> m"
  shows "int64 (v * m) = v * m"
  using scaled_size_range [OF assms] by (intro int64_id) (simp add: in_int64_def)

lemma parseByteSize_bounds:
  assumes "parseByteSize raw = Inr n"
  shows "0 \<le> n \<and> n \<le> 2 ^ 50"
proof (cases "List.find (\<lambda>unit. HasSuffix (ToUpper (TrimSpace raw)) (fst unit)) size_units")
  case None
  then show ?thesis
    using assms by (auto simp: parseByteSize_def Let_def split: if_splits option.splits)
next
  case (Some unit)
  have unit: "1000 \<le> snd unit"
    using Some size_units_mult [of unit] by (auto simp: find_Some_iff)
  have "n = 0 \<or> (\<exists>v. 0 \<le> v \<and> v \<le> 2 ^ 50 div snd unit \<and> n = int64 (v * snd unit))"
    using assms Some by (auto simp: parseByteSize_def Let_def not_less split: if_splits option.splits)
  then show ?thesis
    using scaled_size_range [OF _ _ unit] int64_scaled_size [OF _ _ unit] by auto
qed

text \<open>A size printed with one of the units is read back as that many bytes.\<close>

lemma find_size_unit:
  assumes "is_digit d" and "unit \<in> set size_units"
  shows "List.find (\<lambda>u. HasSuffix (ds @ d # fst unit) (fst u)) size_units = Some unit"
proof -
  have d: "d \<noteq> CHR ''T''" "d \<noteq> CHR ''G''" "d \<noteq> CHR ''M''" "d \<noteq> CHR ''K''" "d \<noteq> CHR ''I''" "d \<noteq> CHR ''B''"
    using assms(1) by (auto simp: is_digit_def)
  show ?thesis
    using assms(2) unfolding size_units_def list.set insert_iff empty_iff
    by (elim disjE) (simp_all add: HasSuffix_rev d)
qed

lemma parseByteSize_print:
  assumes "unit \<in> set size_units" and "int n \<le> 2 ^ 50 div snd unit"
  shows "parseByteSize (format_nat n @ fst unit) = Inr (int n * snd unit)"
proof -
  have unit: "1000 \<le> snd unit" using size_units_mult [OF assms(1)] by simp
  have u: "list_all is_upper (fst unit)" "fst unit \<noteq> []"
    using assms(1) by (auto simp: size_units_def char_class_defs)
  obtain ds d where f: "format_nat n = ds @ [d]"
    using format_nat_digits [of n] by (metis append_butlast_last_id)
  have dig: "list_all is_digit (ds @ [d])" using format_nat_digits [of n] f by metis
  have raw: "TrimSpace (format_nat n @ fst unit) = format_nat n @ fst unit"
    by (rule TrimSpace_id) (use u dig f in \<open>auto simp: hd_append is_alnum_def\<close>)
  have up: "ToUpper (format_nat n @ fst unit) = format_nat n @ fst unit"
    by (rule ToUpper_id) (use u dig f in auto)
  have num: "TrimSpace (format_nat n) = format_nat n"
    by (rule TrimSpace_id) (use dig f in \<open>auto simp: hd_append is_alnum_def\<close>)
  have "int n \<le> int n * snd unit"
    using mult_left_mono [of 1 "snd unit" "int n"] unit by simp
  then have "in_int64 (int n)"
    using scaled_size_range [OF _ assms(2) unit] by (simp add: in_int64_def)
  then have "ParseInt (format_nat n) = Some (int n)"
    using ParseInt_FormatInt [of "int n"] by (simp add: FormatInt_def)
  moreover have "List.find (\<lambda>u. HasSuffix (format_nat n @ fst unit) (fst u)) size_units = Some unit"
    using find_size_unit [OF _ assms(1), of d ds] dig f by simp
  ultimately show ?thesis
    using assms(2) raw up num int64_scaled_size [OF _ _ unit, of "int n"] format_nat_digits [of n]
    by (simp add: parseByteSize_def Let_def not_less)
qed

lemma parseTimeout_bounds:
  "parseTimeout frac raw = Inr t \<Longrightarrow> Second \<le> t \<and> t \<le> 24 * Hour"
  by (auto simp: parseTimeout_def go_time split: if_splits option.splits)

section \<open>A plan mirrors its pipeline\<close>

lemma compile_job_Inr:
  assumes "compile_job rt sn job = Inr pj"
  shows "pj_Name pj = job_Name job \<and> pj_DependsOn pj = job_DependsOn job \<and>
         parseTimeout (float_fraction rt) (job_Timeout job) = Inr (pj_Timeout pj) \<and>
         parseByteSize (res_Disk (job_Resources job)) = Inr (pj_RequiredDiskBytes pj) \<and>
         pj_RunsOn pj = default_runs_on (job_RunsOn job) \<and> pj_Steps pj = job_Steps job \<and>
         pj_Retry pj = job_Retry job \<and> pj_Resources pj = job_Resources job \<and>
         pj_Services pj = job_Services job"
  using assms by (auto simp: compile_job_def split: sum.splits)

lemma compile_jobs_Inr:
  "compile_jobs rt sn jobs = Inr pjs \<Longrightarrow>
   list_all2 (\<lambda>job pj. compile_job rt sn job = Inr pj) jobs pjs"
  by (induction jobs arbitrary: pjs) (auto split: sum.splits)

lemma compile_stages_Inr:
  "compile_stages rt stages = Inr pss \<Longrightarrow>
   list_all2 (\<lambda>stage ps. ps_Name ps = stage_Name stage \<and> ps_DependsOn ps = stage_DependsOn stage \<and>
     list_all2 (\<lambda>job pj. compile_job rt (stage_Name stage) job = Inr pj) (stage_Jobs stage) (ps_Jobs ps))
   stages pss"
  by (induction stages arbitrary: pss) (auto split: sum.splits dest: compile_jobs_Inr)

lemma compile_job_total: "valid_job (float_fraction rt) job \<Longrightarrow> \<exists>pj. compile_job rt sn job = Inr pj"
  by (auto simp: compile_job_def valid_job_def)

lemma compile_jobs_total:
  "(\<forall>job\<in>set jobs. valid_job (float_fraction rt) job) \<Longrightarrow> \<exists>pjs. compile_jobs rt sn jobs = Inr pjs"
  by (induction jobs) (auto dest: compile_job_total [where sn = sn])

lemma compile_stages_total:
  "(\<forall>stage\<in>set stages. valid_stage (float_fraction rt) stage) \<Longrightarrow>
   \<exists>pss. compile_stages rt stages = Inr pss"
proof (induction stages)
  case (Cons stage stages)
  then obtain pjs where "compile_jobs rt (stage_Name stage) (stage_Jobs stage) = Inr pjs"
    using compile_jobs_total by (metis list.set_intros(1) valid_stage_def)
  with Cons show ?case by auto
qed simp

lemma list_all2_map_eq: "list_all2 (\<lambda>x y. g y = f x) xs ys \<Longrightarrow> map f xs = map g ys"
  by (induction rule: list_all2_induct) auto

lemma compile_jobs_names:
  "compile_jobs rt sn jobs = Inr pjs \<Longrightarrow>
   map (\<lambda>j. (job_Name j, job_DependsOn j)) jobs = map (\<lambda>j. (pj_Name j, pj_DependsOn j)) pjs"
  by (rule list_all2_map_eq, drule compile_jobs_Inr) (auto elim!: list_all2_mono dest: compile_job_Inr)

lemma compile_stages_names:
  "compile_stages rt stages = Inr pss \<Longrightarrow>
   map (\<lambda>s. (stage_Name s, stage_DependsOn s, map (\<lambda>j. (job_Name j, job_DependsOn j)) (stage_Jobs s))) stages =
   map (\<lambda>s. (ps_Name s, ps_DependsOn s, map (\<lambda>j. (pj_Name j, pj_DependsOn j)) (ps_Jobs s))) pss"
  by (induction stages arbitrary: pss) (auto split: sum.splits dest: compile_jobs_names)

section \<open>What a compiled plan promises\<close>

text \<open>The dependency structure of a plan: names, known dependencies, no cycle, at both levels.\<close>

definition plan_graph_ok :: "Plan \<Rightarrow> bool" where
  "plan_graph_ok plan \<longleftrightarrow>
     plan_Stages plan \<noteq> [] \<and> valid_graph ps_Name ps_DependsOn (plan_Stages plan) \<and>
     (\<forall>ps\<in>set (plan_Stages plan). ps_Jobs ps \<noteq> [] \<and> valid_graph pj_Name pj_DependsOn (ps_Jobs ps))"

definition plan_job_ok :: "PlanJob \<Rightarrow> bool" where
  "plan_job_ok pj \<longleftrightarrow>
     Second \<le> pj_Timeout pj \<and> pj_Timeout pj \<le> 24 * Hour \<and>
     0 \<le> pj_RequiredDiskBytes pj \<and> pj_RequiredDiskBytes pj \<le> 2 ^ 50 \<and>
     0 \<le> pj_Retry pj \<and> pj_Retry pj \<le> 5 \<and> \<not> res_Privileged (pj_Resources pj) \<and>
     pj_Steps pj \<noteq> [] \<and> req_OS (pj_RunsOn pj) \<noteq> [] \<and> req_Executor (pj_RunsOn pj) \<noteq> [] \<and>
     req_Labels (pj_RunsOn pj) \<noteq> None \<and> valid_services (pj_Services pj)"

lemma default_runs_on_filled:
  "req_OS (default_runs_on r) \<noteq> [] \<and> req_Executor (default_runs_on r) \<noteq> [] \<and>
   req_Labels (default_runs_on r) \<noteq> None"
  by (simp add: default_runs_on_def split: option.split)

lemma compile_job_ok:
  "valid_job (float_fraction rt) job \<Longrightarrow> compile_job rt sn job = Inr pj \<Longrightarrow> plan_job_ok pj"
  using compile_job_Inr [of rt sn job pj] parseTimeout_bounds parseByteSize_bounds
  by (auto simp: plan_job_ok_def valid_job_def default_runs_on_filled)

lemma valid_graph_map:
  assumes "list_all2 (\<lambda>x y. name' y = name x \<and> deps' y = deps x) xs ys"
    and "valid_graph name deps xs"
  shows "valid_graph name' deps' ys"
proof -
  have pairs: "map (\<lambda>x. (name x, deps x)) xs = map (\<lambda>y. (name' y, deps' y)) ys"
    by (rule list_all2_map_eq) (use assms(1) in \<open>auto elim: list_all2_mono\<close>)
  have names: "map name xs = map name' ys"
    using arg_cong [OF pairs, of "map fst"] by (simp add: comp_def)
  have sets: "(\<lambda>x. (name x, deps x)) ` set xs = (\<lambda>y. (name' y, deps' y)) ` set ys"
    using pairs by (metis list.set_map)
  have edges: "edges_of name deps xs = edges_of name' deps' ys"
    using sets unfolding edges_of_def by (simp add: set_eq_iff image_iff) metis
  have nset: "name ` set xs = name' ` set ys"
    using names by (metis list.set_map)
  have ball: "(\<forall>x\<in>set xs. P (name x) (deps x)) \<longleftrightarrow> (\<forall>y\<in>set ys. P (name' y) (deps' y))" for P
  proof -
    have "(\<forall>x\<in>set xs. P (name x) (deps x)) \<longleftrightarrow> (\<forall>p\<in>(\<lambda>x. (name x, deps x)) ` set xs. P (fst p) (snd p))"
      by simp
    also have "\<dots> \<longleftrightarrow> (\<forall>y\<in>set ys. P (name' y) (deps' y))"
      unfolding sets by simp
    finally show ?thesis .
  qed
  show ?thesis
    using assms(2) names edges nset ball [of "\<lambda>n d. namePattern n"]
      ball [of "\<lambda>n d. set d \<subseteq> name' ` set ys"]
    by (simp add: valid_graph_def)
qed

lemma Compile_Inr:
  assumes "Compile rt source now = Inr plan"
  obtains p canonical where "yaml_decode rt source = Some p" "Validate rt p = []"
    "json_marshal rt p = Some canonical" "compile_stages rt (pipe_Stages p) = Inr (plan_Stages plan)"
    "plan_Version plan = pipe_Version p" "plan_Name plan = pipe_Name p"
    "plan_ConfigSHA256 plan = hex_encode (sha256 rt canonical)" "plan_CompiledAt plan = now"
  using assms by (auto simp: Compile_def Parse_def split: option.splits sum.splits if_splits)

lemma list_all2_in2: "list_all2 P xs ys \<Longrightarrow> y \<in> set ys \<Longrightarrow> \<exists>x\<in>set xs. P x y"
  by (metis list_all2_conv_all_nth in_set_conv_nth)

lemma Compile_graph_ok:
  assumes "ranges_ok rt" and "Compile rt source now = Inr plan"
  shows "plan_graph_ok plan"
proof -
  obtain p where v: "Validate rt p = []" and c: "compile_stages rt (pipe_Stages p) = Inr (plan_Stages plan)"
    using assms(2) by (rule Compile_Inr)
  have valid: "valid_pipeline (float_fraction rt) p" using v Validate_Nil [OF assms(1)] by simp
  note rel = compile_stages_Inr [OF c]
  have "valid_graph ps_Name ps_DependsOn (plan_Stages plan)"
    by (rule valid_graph_map [where name = stage_Name and deps = stage_DependsOn])
      (use rel valid in \<open>auto elim: list_all2_mono simp: valid_pipeline_def\<close>)
  moreover have "plan_Stages plan \<noteq> []" using rel valid by (auto simp: valid_pipeline_def)
  moreover have "ps_Jobs ps \<noteq> [] \<and> valid_graph pj_Name pj_DependsOn (ps_Jobs ps)"
    if ps: "ps \<in> set (plan_Stages plan)" for ps
  proof -
    obtain stage where s: "stage \<in> set (pipe_Stages p)"
      and j: "list_all2 (\<lambda>job pj. compile_job rt (stage_Name stage) job = Inr pj)
                (stage_Jobs stage) (ps_Jobs ps)"
      using list_all2_in2 [OF rel ps] by auto
    have "valid_stage (float_fraction rt) stage" using s valid by (simp add: valid_pipeline_def)
    then have ne: "stage_Jobs stage \<noteq> []" and g: "valid_graph job_Name job_DependsOn (stage_Jobs stage)"
      by (simp_all add: valid_stage_def)
    have "valid_graph pj_Name pj_DependsOn (ps_Jobs ps)"
      by (rule valid_graph_map [OF _ g]) (use j in \<open>auto elim!: list_all2_mono dest: compile_job_Inr\<close>)
    moreover have "ps_Jobs ps \<noteq> []" using j ne by auto
    ultimately show ?thesis by simp
  qed
  ultimately show ?thesis by (simp add: plan_graph_ok_def)
qed

lemma Compile_jobs_ok:
  assumes "ranges_ok rt" and "Compile rt source now = Inr plan"
    and "ps \<in> set (plan_Stages plan)" and "pj \<in> set (ps_Jobs ps)"
  shows "plan_job_ok pj"
proof -
  obtain p where v: "Validate rt p = []" and c: "compile_stages rt (pipe_Stages p) = Inr (plan_Stages plan)"
    using assms(2) by (rule Compile_Inr)
  have valid: "valid_pipeline (float_fraction rt) p" using v Validate_Nil [OF assms(1)] by simp
  obtain stage where s: "stage \<in> set (pipe_Stages p)"
    and j: "list_all2 (\<lambda>job pj. compile_job rt (stage_Name stage) job = Inr pj)
              (stage_Jobs stage) (ps_Jobs ps)"
    using list_all2_in2 [OF compile_stages_Inr [OF c] assms(3)] by auto
  obtain job where "job \<in> set (stage_Jobs stage)" and "compile_job rt (stage_Name stage) job = Inr pj"
    using list_all2_in2 [OF j assms(4)] by auto
  then show ?thesis
    using s valid by (auto simp: valid_pipeline_def valid_stage_def intro: compile_job_ok)
qed

end
