(* ===== verification/Memory_Refine.thy ===== *)
theory Memory_Refine
  imports Memory_Store Run_Machine Pipeline_Compile
begin

text \<open>
  The in-memory store implements the run machine. \<open>mem_step\<close> is the store as a transition system: one rule
  per operation, with any arguments, of which the successful calls change the state. Every operation is
  shown to make steps of the abstract machine, the store is an interpretation of the contract \<open>run_store\<close>,
  and the guarantees of the abstract machine become guarantees of the store.
\<close>

section \<open>The store as a transition system\<close>

inductive mem_step :: "MemoryStore \<Rightarrow> MemoryStore \<Rightarrow> bool" where
  create: "Create unmarshal newID record m = Inr (m', out) \<Longrightarrow> rec_Status record = StatusQueued \<Longrightarrow> mem_step m m'"
| claim: "ClaimJob now token m = (m', out) \<Longrightarrow> mem_step m m'"
| start: "StartJob now jobID token m = Inr m' \<Longrightarrow> mem_step m m'"
| complete: "CompleteJob now jobID token status m = Inr m' \<Longrightarrow> mem_step m m'"
| claim_runner: "ClaimRunnerJob now token runnerID m = Inr (m', out) \<Longrightarrow> mem_step m m'"
| acknowledge: "AcknowledgeRunnerJob now request m = Inr (m', out) \<Longrightarrow> mem_step m m'"
| release: "ReleaseRunnerJob now request m = Inr m' \<Longrightarrow> mem_step m m'"
| start_runner: "StartRunnerJob now request m = Inr (m', out) \<Longrightarrow> mem_step m m'"
| renew: "RenewRunnerLeases now heartbeat m = Inr (m', out) \<Longrightarrow> mem_step m m'"
| complete_runner: "CompleteRunnerJob now completion m = Inr m' \<Longrightarrow> mem_step m m'"
| recover: "RecoverExpiredRunnerLeases now limit m = Inr (m', out) \<Longrightarrow> mem_step m m'"

abbreviation mem_steps :: "MemoryStore \<Rightarrow> MemoryStore \<Rightarrow> bool" where
  "mem_steps \<equiv> mem_step\<^sup>*\<^sup>*"

definition view :: "memoryJob \<Rightarrow> job_view" where
  "view j = \<lparr>jv_run = mj_RunID j, jv_key = mj_key j, jv_deps = mj_dependencies j, jv_status = mj_status j\<rparr>"

definition views :: "MemoryStore \<Rightarrow> job_view list" where
  "views m = map view (ms_jobs m)"

definition run_info :: "MemoryStore \<Rightarrow> run_table" where
  "run_info m = map_of (map (\<lambda>r. (rec_ID r, (rec_Status r, rec_FinishedAt r))) (ms_records m))"

definition mem_view :: "MemoryStore \<Rightarrow> store_view" where
  "mem_view m = (views m, run_info m)"

section \<open>The helpers of the store on the abstract view\<close>

lemma view_sel [simp]:
  "jv_run (view j) = mj_RunID j" "jv_key (view j) = mj_key j" "jv_deps (view j) = mj_dependencies j"
  "jv_status (view j) = mj_status j"
  by (simp_all add: view_def)

lemma length_views [simp]: "length (views m) = length (ms_jobs m)"
  by (simp add: views_def)

lemma nth_views [simp]: "i < length (ms_jobs m) \<Longrightarrow> views m ! i = view (ms_jobs m ! i)"
  by (simp add: views_def)

lemma find_first:
  assumes "List.find p xs = Some x"
  obtains i where "i < length xs" "xs ! i = x" "p x" "\<And>f. update_first p f xs = xs[i := f x]"
proof -
  have "\<exists>i<length xs. xs ! i = x \<and> p x \<and> (\<forall>f. update_first p f xs = xs[i := f x])"
    using assms
  proof (induction xs)
    case (Cons y ys)
    show ?case
    proof (cases "p y")
      case True
      then show ?thesis using Cons by (intro exI [of _ 0]) simp
    next
      case False
      then obtain i where "i < length ys" "ys ! i = x" "p x" "\<forall>f. update_first p f ys = ys[i := f x]"
        using Cons by auto
      then show ?thesis using False by (intro exI [of _ "Suc i"]) simp
    qed
  qed simp
  then show ?thesis using that by blast
qed

lemma map_of_update_first:
  assumes "\<And>r. k (f r) = k r"
  shows "map_of (map (\<lambda>r. (k r, g r)) (update_first (\<lambda>r. k r = i) f rs)) =
    (map_of (map (\<lambda>r. (k r, g r)) rs))
      (i := map_option (\<lambda>r. g (f r)) (map_of (map (\<lambda>r. (k r, r)) rs) i))"
  using assms by (induction rs) (auto simp: fun_eq_iff)

lemma map_of_map_snd: "map_of (map (\<lambda>r. (k r, g (h r))) rs) i = map_option g (map_of (map (\<lambda>r. (k r, h r)) rs) i)"
  by (induction rs) auto

lemma run_info_map_option:
  "map_option g (map_of (map (\<lambda>r. (rec_ID r, r)) (ms_records m)) i) =
     map_of (map (\<lambda>r. (rec_ID r, g r)) (ms_records m)) i"
  by (induction "ms_records m") (use map_of_map_snd [of rec_ID g "\<lambda>r. r"] in simp_all)

named_theorems store_views "how the helpers of the store change the abstract view"

lemma run_info_setRunStatus [store_views]:
  "run_info (setRunStatus r st m) = update_run r (\<lambda>(_, fin). (st, fin)) (run_info m)"
  unfolding run_info_def setRunStatus_def update_run_def
  by (simp add: map_of_update_first run_info_map_option map_of_map_snd [symmetric])

lemma run_info_setRunFinished [store_views]:
  "run_info (setRunFinished now r m) = update_run r (\<lambda>(st, _). (st, Some now)) (run_info m)"
  unfolding run_info_def setRunFinished_def update_run_def
  by (simp add: map_of_update_first run_info_map_option map_of_map_snd [symmetric])

lemma run_info_setRunStarted [store_views]: "run_info (setRunStarted now r m) = run_info m"
  unfolding run_info_def setRunStarted_def by simp

lemma run_info_finish_all [store_views]:
  "run_info (finish_all_records now r m) = update_run r (\<lambda>(st, _). (st, Some now)) (run_info m)"
proof -
  have "map_of (map ((\<lambda>r. (rec_ID r, rec_Status r, rec_FinishedAt r)) \<circ>
          (\<lambda>x. if rec_ID x = r then x\<lparr>rec_FinishedAt := Some now\<rparr> else x)) rs) =
        (map_of (map (\<lambda>r. (rec_ID r, rec_Status r, rec_FinishedAt r)) rs))
          (r := map_option (\<lambda>(st, _). (st, Some now))
             (map_of (map (\<lambda>r. (rec_ID r, rec_Status r, rec_FinishedAt r)) rs) r))" for rs
    by (induction rs) (auto simp: fun_eq_iff)
  then show ?thesis
    unfolding run_info_def finish_all_records_def update_run_def by simp
qed

lemma run_info_jobs [simp]: "run_info (m\<lparr>ms_jobs := js\<rparr>) = run_info m"
  by (simp add: run_info_def)

lemma run_info_runners [simp]: "run_info (m\<lparr>ms_runners := rs\<rparr>) = run_info m"
  by (simp add: run_info_def)

lemma run_info_helpers [store_views]:
  "run_info (update_job j f m) = run_info m" "run_info (unblock r m) = run_info m"
  "run_info (skip_pending r m) = run_info m"
  by (simp_all add: update_job_def unblock_def skip_pending_def)

lemma ms_jobs_records [store_views]:
  "ms_jobs (setRunStatus r st m) = ms_jobs m" "ms_jobs (setRunStarted now r m) = ms_jobs m"
  "ms_jobs (setRunFinished now r m) = ms_jobs m" "ms_jobs (finish_all_records now r m) = ms_jobs m"
  "ms_jobs (resetRunAfterRequeue r m) = ms_jobs m" "ms_jobs (finalizeRun now r m) = ms_jobs m"
  by (simp_all add: setRunStatus_def setRunStarted_def setRunFinished_def finish_all_records_def
      resetRunAfterRequeue_def finalizeRun_def Let_def)

lemma views_records [store_views]:
  "views (setRunStatus r st m) = views m" "views (setRunStarted now r m) = views m"
  "views (setRunFinished now r m) = views m" "views (finish_all_records now r m) = views m"
  "views (resetRunAfterRequeue r m) = views m" "views (finalizeRun now r m) = views m"
  by (simp_all add: views_def ms_jobs_records)

lemma set_statuses: "set (map mj_status (filter (\<lambda>j. mj_RunID j = r) (ms_jobs m))) = run_statuses r (views m)"
  by (force simp: run_statuses_def views_def)

lemma job_active_iff: "job_active s \<longleftrightarrow> \<not> job_final s"
  by (cases s) (auto simp: job_active_def job_final_def)

lemma update_run_twice: "update_run r f (update_run r g runs) = update_run r (f \<circ> g) runs"
  by (auto simp: update_run_def fun_eq_iff option.map_comp)

lemma run_info_finalizeRun [store_views]:
  "run_info (finalizeRun now r m) = finish_run now r (views m) (run_info m)"
proof -
  have c: "(\<lambda>(st, _). (st, Some now)) \<circ> (\<lambda>(_, fin). (s, fin)) = (\<lambda>_. (s, Some now))" for s :: Status
    by (auto simp: fun_eq_iff)
  show ?thesis
    unfolding finalizeRun_def Let_def list_ex_iff set_statuses finish_run_def outcome_def job_active_iff
    by (simp add: store_views update_run_twice c)
qed

lemma run_info_reset [store_views]:
  "run_info (resetRunAfterRequeue r m) = reset_run r (views m) (run_info m)"
proof -
  have c: "list_ex (\<lambda>j. mj_RunID j = r \<and>
            (mj_status j = JobRunning \<or> mj_status j = JobSucceeded \<or> mj_status j = JobFailed \<or>
             mj_status j = JobCanceled)) (ms_jobs m) \<longleftrightarrow>
     run_statuses r (views m) \<inter> {JobRunning, JobSucceeded, JobFailed, JobCanceled} \<noteq> {}"
    unfolding set_statuses [symmetric] by (force simp: list_ex_iff)
  have "run_info (m\<lparr>ms_records := update_first (\<lambda>x. rec_ID x = r)
          (\<lambda>x. x\<lparr>rec_Status := StatusQueued, rec_StartedAt := None, rec_FinishedAt := None\<rparr>) (ms_records m)\<rparr>) =
        update_run r (\<lambda>_. (StatusQueued, None)) (run_info m)"
    unfolding run_info_def update_run_def
    by (simp add: map_of_update_first run_info_map_option map_of_map_snd [symmetric])
  then show ?thesis unfolding resetRunAfterRequeue_def c reset_run_def by simp
qed

lemma job_states_views: "job_states r (ms_jobs m) = view_states r (views m)"
  by (simp add: job_states_def view_states_def views_def filter_map comp_def)

lemma views_unblock [store_views]: "views (unblock r m) = release_deps r (views m)"
proof -
  have "view (unblock_job r (view_states r (views m)) j) = release_view r (views m) (view j)" for j
    by (auto simp: unblock_job_def release_view_def deps_met_def view_def)
  then show ?thesis
    by (simp add: unblock_def job_states_views release_deps_def) (simp add: views_def)
qed

lemma views_skip [store_views]: "views (skip_pending r m) = skip_views r (views m)"
proof -
  have "view (skip_job r j) = skip_view r (view j)" for j
    by (auto simp: skip_job_def skip_view_def view_def)
  then show ?thesis by (simp add: skip_pending_def skip_views_def views_def)
qed

lemma views_update [store_views]:
  assumes "i < length (ms_jobs m)" and "view j = (view (ms_jobs m ! i))\<lparr>jv_status := s\<rparr>"
  shows "views (m\<lparr>ms_jobs := (ms_jobs m)[i := j]\<rparr>) = set_status i s (views m)"
  using assms by (simp add: views_def set_status_def map_update)

lemma findJob_index:
  assumes "findJob m jobID = Some job"
  obtains i where "i < length (ms_jobs m)" "ms_jobs m ! i = job" "mj_JobID job = jobID"
    "\<And>f. update_job jobID f m = m\<lparr>ms_jobs := (ms_jobs m)[i := f job]\<rparr>"
proof -
  obtain i where "i < length (ms_jobs m)" "ms_jobs m ! i = job" "mj_JobID job = jobID"
    "\<And>f. update_first (\<lambda>j. mj_JobID j = jobID) f (ms_jobs m) = (ms_jobs m)[i := f job]"
    using find_first [OF assms [unfolded findJob_def]] by blast
  then show ?thesis using that by (simp add: update_job_def)
qed

lemma set_status_same: "i < length vs \<Longrightarrow> set_status i (jv_status (vs ! i)) vs = vs"
  by (simp add: set_status_def)

section \<open>Every operation makes steps of the machine\<close>

lemma one_step: "run_step False (views m, run_info m) (views m', run_info m') \<Longrightarrow> run_steps False (mem_view m) (mem_view m')"
  by (simp add: mem_view_def r_into_rtranclp)

lemma no_step: "views m' = views m \<Longrightarrow> run_info m' = run_info m \<Longrightarrow> run_steps False (mem_view m) (mem_view m')"
  by (simp add: mem_view_def)

lemma new_jobs_fresh:
  assumes "v \<in> view ` set (new_jobs newID r stages)"
  shows "fresh_view r v"
proof -
  obtain i p where "v = view (new_job r stages (newID i, p))"
    using assms by (auto simp: new_jobs_def)
  then show ?thesis by (cases p) (simp add: new_job_def fresh_view_def Let_def)
qed

lemma Create_steps:
  assumes "Create unmarshal newID record m = Inr (m', out)" and "rec_Status record = StatusQueued"
  shows "run_steps False (mem_view m) (mem_view m')"
proof -
  obtain plan where plan: "unmarshal (rec_Plan record) = Some plan"
    using assms(1) by (auto simp: Create_def split: option.splits)
  have m': "m' = m\<lparr>ms_records := record # ms_records m,
      ms_jobs := ms_jobs m @ new_jobs newID (rec_ID record) (plan_Stages plan)\<rparr>"
    and new: "\<forall>x\<in>set (ms_records m). rec_ID x \<noteq> rec_ID record"
    using assms(1) by (auto simp: Create_def plan list_ex_iff split: if_splits)
  have "run_info m (rec_ID record) = None"
    using new by (auto simp: run_info_def map_of_eq_None_iff)
  then have "run_step False (views m, run_info m)
     (views m @ map view (new_jobs newID (rec_ID record) (plan_Stages plan)),
      (run_info m)(rec_ID record \<mapsto> (StatusQueued, rec_FinishedAt record)))"
    by (rule run_step.submit) (rule fresh_views_plain, rule new_jobs_fresh, simp)
  moreover have "views m' = views m @ map view (new_jobs newID (rec_ID record) (plan_Stages plan))"
    by (simp add: m' views_def)
  moreover have "run_info m' = (run_info m)(rec_ID record \<mapsto> (StatusQueued, rec_FinishedAt record))"
    using assms(2) by (simp add: m' run_info_def)
  ultimately show ?thesis by (intro one_step) simp
qed

text \<open>The two claims share their last part.\<close>

lemma assign_steps:
  assumes "List.find p (ms_jobs m) = Some job" and "p job \<Longrightarrow> mj_status job = JobQueued"
    and "view (f job) = (view job)\<lparr>jv_status := JobAssigned\<rparr>"
    and "m' = setRunStatus (mj_RunID job) StatusRunning
           (setRunStarted now (mj_RunID job) (m\<lparr>ms_jobs := update_first p f (ms_jobs m)\<rparr>))"
  shows "run_steps False (mem_view m) (mem_view m')"
proof -
  obtain i where i: "i < length (ms_jobs m)" "ms_jobs m ! i = job" "p job"
    "\<And>f. update_first p f (ms_jobs m) = (ms_jobs m)[i := f job]"
    using find_first [OF assms(1)] by blast
  have "views (m\<lparr>ms_jobs := (ms_jobs m)[i := f job]\<rparr>) = set_status i JobAssigned (views m)"
    by (rule views_update) (use i assms(3) in simp_all)
  then show ?thesis
    using run_step.assign [of i "views m" False "run_info m"] i assms(2,4)
    by (intro one_step) (simp add: store_views)
qed

lemma ClaimJob_steps:
  assumes "ClaimJob now token m = (m', out)"
  shows "run_steps False (mem_view m) (mem_view m')"
proof (cases "List.find (\<lambda>j. mj_status j = JobQueued) (ms_jobs m)")
  case None
  then show ?thesis using assms by (simp add: ClaimJob_def)
next
  case (Some job)
  then show ?thesis
    using assms by (auto simp: ClaimJob_def Let_def assign_job_def view_def intro!: assign_steps [OF Some])
qed

lemma ClaimRunnerJob_steps:
  assumes "ClaimRunnerJob now token runnerID m = Inr (m', out)"
  shows "run_steps False (mem_view m) (mem_view m')"
proof -
  obtain runner where
    "m' = m \<or> (\<exists>job. List.find (claimable runner) (ms_jobs m) = Some job \<and>
       m' = setRunStatus (mj_RunID job) StatusRunning (setRunStarted now (mj_RunID job)
              (m\<lparr>ms_jobs := update_first (claimable runner)
                            (assign_to_runner now token (rd_ID runner)) (ms_jobs m)\<rparr>)))"
    using assms by (auto simp: ClaimRunnerJob_def Let_def split: option.splits if_splits)
  then show ?thesis
    by (auto simp: claimable_def assign_to_runner_def assign_job_def view_def intro!: assign_steps)
qed

text \<open>The operations that change the status of one job that they look up.\<close>

lemma found_views:
  assumes "findJob m jobID = Some job" and "\<And>j. view (f j) = (view j)\<lparr>jv_status := g (jv_status (view j))\<rparr>"
  obtains i where "i < length (ms_jobs m)" "ms_jobs m ! i = job"
    "views (update_job jobID f m) = set_status i (g (mj_status job)) (views m)"
proof -
  obtain i where i: "i < length (ms_jobs m)" "ms_jobs m ! i = job"
    "update_job jobID f m = m\<lparr>ms_jobs := (ms_jobs m)[i := f job]\<rparr>"
    using findJob_index [OF assms(1)] by metis
  show ?thesis
    by (rule that [of i]) (use i assms(2) in \<open>auto simp: views_update\<close>)
qed

lemma update_job_keeps:
  assumes "\<And>j. view (f j) = view j"
  shows "run_steps False (mem_view m) (mem_view (update_job jobID f m))"
  using assms by (intro no_step) (simp_all add: store_views, simp add: update_job_def views_def)

lemma StartJob_steps:
  assumes "StartJob now jobID token m = Inr m'"
  shows "run_steps False (mem_view m) (mem_view m')"
proof -
  obtain job where j: "findJob m jobID = Some job" "mj_status job = JobAssigned"
    "m' = update_job jobID (\<lambda>j. j\<lparr>mj_status := JobRunning\<rparr>) m"
    using assms by (auto simp: StartJob_def split: option.splits if_splits)
  obtain i where i: "i < length (ms_jobs m)" "ms_jobs m ! i = job" "views m' = set_status i JobRunning (views m)"
    unfolding j(3) by (rule found_views [OF j(1), where f = "\<lambda>j. j\<lparr>mj_status := JobRunning\<rparr>" and g = "\<lambda>_. JobRunning"]) (simp_all add: view_def)
  show ?thesis
    using run_step.start [of i "views m" False "run_info m"] i j
    by (intro one_step) (simp add: store_views)
qed

lemma StartRunnerJob_steps:
  assumes "StartRunnerJob now request m = Inr (m', out)"
  shows "run_steps False (mem_view m) (mem_view m')"
proof -
  obtain job where j: "findJob m (lr_JobID request) = Some job" "job_leased (mj_status job)"
    "m' = update_job (lr_JobID request) (\<lambda>j. j\<lparr>mj_status := JobRunning\<rparr>) m"
    using assms by (auto simp: StartRunnerJob_def split: option.splits if_splits)
  obtain i where i: "i < length (ms_jobs m)" "ms_jobs m ! i = job" "views m' = set_status i JobRunning (views m)"
    unfolding j(3) by (rule found_views [OF j(1), where f = "\<lambda>j. j\<lparr>mj_status := JobRunning\<rparr>" and g = "\<lambda>_. JobRunning"]) (simp_all add: view_def)
  show ?thesis
    using run_step.start [of i "views m" False "run_info m"] i j
    by (intro one_step) (auto simp: store_views)
qed

lemma AcknowledgeRunnerJob_steps:
  assumes "AcknowledgeRunnerJob now request m = Inr (m', out)"
  shows "run_steps False (mem_view m) (mem_view m')"
proof -
  have "m' = update_job (lr_JobID request)
          (\<lambda>j. if mj_acceptedAt j = None then j\<lparr>mj_acceptedAt := Some now\<rparr> else j) m"
    using assms by (auto simp: AcknowledgeRunnerJob_def split: option.splits if_splits)
  then show ?thesis by (simp add: update_job_keeps view_def)
qed

lemma ReleaseRunnerJob_steps:
  assumes "ReleaseRunnerJob now request m = Inr m'"
  shows "run_steps False (mem_view m) (mem_view m')"
proof -
  let ?f = "\<lambda>j. j\<lparr>mj_status := JobQueued, mj_runnerID := uuid_Nil,
              mj_assignment := (mj_assignment j)\<lparr>as_LeaseToken := [], as_LeaseExpires := time_zero\<rparr>,
              mj_leaseRenewed := None\<rparr>"
  obtain job where j: "findJob m (lr_JobID request) = Some job" "mj_status job = JobAssigned"
    "m' = update_job (lr_JobID request) ?f m"
    using assms by (auto simp: ReleaseRunnerJob_def split: option.splits if_splits)
  obtain i where i: "i < length (ms_jobs m)" "ms_jobs m ! i = job" "views m' = set_status i JobQueued (views m)"
    unfolding j(3) by (rule found_views [OF j(1), where f = ?f and g = "\<lambda>_. JobQueued"]) (simp_all add: view_def)
  show ?thesis
    using run_step.release [of i "views m" False "run_info m"] i j
    by (intro one_step) (simp add: store_views)
qed

lemma complete_tail_steps:
  assumes "findJob m jobID = Some job" and "job_leased (mj_status job)" and "terminal_request status"
    and "\<And>j. view (f j) = (view j)\<lparr>jv_status := status\<rparr>"
  shows "run_steps False (mem_view m) (mem_view (complete_tail now job f status m))"
proof -
  have id: "mj_JobID job = jobID" using findJob_index [OF assms(1)] by metis
  obtain i where i: "i < length (ms_jobs m)" "ms_jobs m ! i = job"
    "views (update_job jobID f m) = set_status i status (views m)"
    by (rule found_views [OF assms(1), where f = f and g = "\<lambda>_. status"]) (simp_all add: assms(4))
  show ?thesis
  proof (cases "status = JobSucceeded")
    case True
    then show ?thesis
      using run_step.succeed [of i "views m" _ False "run_info m" now] i assms(2) id
      by (intro one_step) (auto simp: complete_tail_def Let_def store_views)
  next
    case False
    then have "status = JobFailed \<or> status = JobCanceled" using assms(3) by (simp add: terminal_request_def)
    then show ?thesis
      using run_step.fail [of i "views m" status _ False "run_info m" now] i assms(2) id False
      by (intro one_step) (auto simp: complete_tail_def Let_def store_views)
  qed
qed

lemma CompleteJob_steps:
  assumes "CompleteJob now jobID token status m = Inr m'"
  shows "run_steps False (mem_view m) (mem_view m')"
proof -
  obtain job where "findJob m jobID = Some job" "job_leased (mj_status job)" "terminal_request status"
    "m' = complete_tail now job (\<lambda>j. j\<lparr>mj_status := status,
            mj_assignment := (mj_assignment j)\<lparr>as_LeaseToken := []\<rparr>\<rparr>) status m"
    using assms by (auto simp: CompleteJob_def split: option.splits if_splits)
  then show ?thesis by (auto intro!: complete_tail_steps simp: view_def)
qed

lemma CompleteRunnerJob_steps:
  assumes "CompleteRunnerJob now request m = Inr m'"
  shows "run_steps False (mem_view m) (mem_view m')"
proof -
  obtain job where "findJob m (rc_JobID request) = Some job" "job_leased (mj_status job)"
    "terminal_request (rc_Status request)"
    "m' = complete_tail now job (\<lambda>j. j\<lparr>mj_status := rc_Status request,
            mj_assignment := (mj_assignment j)\<lparr>as_LeaseToken := []\<rparr>, mj_runnerID := uuid_Nil\<rparr>)
            (rc_Status request) m"
    using assms by (auto simp: CompleteRunnerJob_def split: option.splits if_splits)
  then show ?thesis by (auto intro!: complete_tail_steps simp: view_def)
qed

text \<open>The two operations that are loops.\<close>

lemma renew_step_view: "mem_view (fst (renew_step now runnerID active (m, rs))) = mem_view m"
  by (simp add: renew_step_def mem_view_def store_views) (simp add: update_job_def views_def view_def)

lemma renew_fold_view:
  "mem_view (fst (fold (renew_step now runnerID) actives (m, rs))) = mem_view m"
proof (induction actives arbitrary: m rs)
  case (Cons a as)
  obtain m1 rs1 where "renew_step now runnerID a (m, rs) = (m1, rs1)" by fastforce
  then show ?case using Cons [of m1 rs1] renew_step_view [of now runnerID a m rs] by simp
qed simp

lemma RenewRunnerLeases_steps:
  assumes "RenewRunnerLeases now request m = Inr (m', out)"
  shows "run_steps False (mem_view m) (mem_view m')"
proof -
  let ?r = "hb_Runner request" and ?m = "m\<lparr>ms_runners := (ms_runners m)(rd_ID (hb_Runner request) \<mapsto> hb_Runner request)\<rparr>"
  have "m' = fst (fold (renew_step now (rd_ID ?r)) (hb_ActiveJobs request) (?m, []))"
    using assms by (auto simp: RenewRunnerLeases_def Let_def split: if_splits prod.splits)
  then have "mem_view m' = mem_view ?m" using renew_fold_view by simp
  then show ?thesis by (simp add: mem_view_def views_def)
qed

lemma recover_step_steps:
  assumes i: "i < length (ms_jobs m)" and step: "recover_step limit now i (m, n, res) = (m', n', res')"
  shows "run_steps False (mem_view m) (mem_view m') \<and> length (ms_jobs m') = length (ms_jobs m)"
proof -
  let ?job = "ms_jobs m ! i"
  consider (skip) "n \<ge> limit \<or> \<not> job_leased (mj_status ?job) \<or> leaseAlive now ?job"
    | (requeue) "\<not> (n \<ge> limit \<or> \<not> job_leased (mj_status ?job) \<or> leaseAlive now ?job)" "mj_status ?job = JobAssigned"
    | (fail) "\<not> (n \<ge> limit \<or> \<not> job_leased (mj_status ?job) \<or> leaseAlive now ?job)" "mj_status ?job = JobRunning"
    by blast
  then show ?thesis
  proof cases
    case skip
    then have "m' = m" using step unfolding recover_step_def Let_def prod.case by simp
    then show ?thesis by simp
  next
    case requeue
    then have m': "m' = resetRunAfterRequeue (mj_RunID ?job)
        (m\<lparr>ms_jobs := (ms_jobs m)[i := requeue_job now ?job]\<rparr>)"
      using step unfolding recover_step_def Let_def prod.case by simp
    have "views (m\<lparr>ms_jobs := (ms_jobs m)[i := requeue_job now ?job]\<rparr>) = set_status i JobQueued (views m)"
      by (rule views_update [OF i]) (simp add: requeue_job_def view_def)
    then show ?thesis
      using run_step.requeue [of i "views m" _ False "run_info m"] i requeue m'
      by (intro conjI one_step) (simp_all add: store_views)
  next
    case fail
    then have m': "m' = finish_all_records now (mj_RunID ?job) (setRunStatus (mj_RunID ?job) StatusFailed
        (skip_pending (mj_RunID ?job) (m\<lparr>ms_jobs := (ms_jobs m)[i := fail_job ?job]\<rparr>)))"
      using step unfolding recover_step_def Let_def prod.case by simp
    have c: "(\<lambda>(st, _). (st, Some now)) \<circ> (\<lambda>(_, fin). (StatusFailed, fin)) =
        (\<lambda>_ :: Status \<times> gotime option. (StatusFailed, Some now))"
      by (auto simp: fun_eq_iff)
    have "views (m\<lparr>ms_jobs := (ms_jobs m)[i := fail_job ?job]\<rparr>) = set_status i JobFailed (views m)"
      by (rule views_update [OF i]) (simp add: fail_job_def view_def)
    then show ?thesis
      using run_step.expire [of i "views m" False "run_info m" now] i fail m'
      by (intro conjI one_step) (simp_all add: store_views update_run_twice c, simp add: skip_pending_def)
  qed
qed

lemma recover_fold_steps:
  assumes "fold (recover_step limit now) idx (m, n, res) = (m', n', res')" and "\<forall>i\<in>set idx. i < length (ms_jobs m)"
  shows "run_steps False (mem_view m) (mem_view m')"
  using assms
proof (induction idx arbitrary: m n res)
  case (Cons i idx)
  obtain m1 n1 res1 where s: "recover_step limit now i (m, n, res) = (m1, n1, res1)"
    using prod_cases3 by blast
  have "run_steps False (mem_view m) (mem_view m1)" "length (ms_jobs m1) = length (ms_jobs m)"
    using recover_step_steps [OF _ s] Cons.prems by auto
  then show ?case using Cons.IH [of m1 n1 res1] Cons.prems s by (simp add: rtranclp_trans)
qed simp

lemma RecoverExpiredRunnerLeases_steps:
  assumes "RecoverExpiredRunnerLeases now limit m = Inr (m', out)"
  shows "run_steps False (mem_view m) (mem_view m')"
proof -
  obtain n where "fold (recover_step limit now) [0..<length (ms_jobs m)]
      (m, 0, \<lparr>rr_Requeued = 0, rr_Failed = 0\<rparr>) = (m', n, out)"
    using assms by (auto simp: RecoverExpiredRunnerLeases_def split: if_splits prod.splits)
  then show ?thesis by (rule recover_fold_steps) simp
qed

lemmas operation_steps =
  Create_steps ClaimJob_steps StartJob_steps CompleteJob_steps ClaimRunnerJob_steps
  AcknowledgeRunnerJob_steps ReleaseRunnerJob_steps StartRunnerJob_steps RenewRunnerLeases_steps
  CompleteRunnerJob_steps RecoverExpiredRunnerLeases_steps

lemma mem_step_refines: "mem_step m m' \<Longrightarrow> run_steps False (mem_view m) (mem_view m')"
  by (induction rule: mem_step.induct) (erule (1) operation_steps | erule operation_steps)+

lemma mem_view_init: "mem_view NewMemoryStore = ([], Map.empty)"
  by (simp add: mem_view_def views_def run_info_def NewMemoryStore_def)

interpretation mem: run_store False mem_view "\<lambda>_. True" NewMemoryStore mem_step
  by unfold_locales (simp_all add: mem_view_init mem_step_refines)

end
