(* ===== verification/Memory_Guarantees.thy ===== *)
theory Memory_Guarantees
  imports Memory_Refine
begin

text \<open>
  What the in-memory store guarantees to its clients. The first part carries the guarantees of the run
  machine over to the store's own jobs and records; the second connects compiled plans with runs that
  cannot get stuck; the rest is about leases: capacity, renewal, recovery and completion.
\<close>

section \<open>Identities\<close>

text \<open>No operation but \<open>Create\<close> adds a record or a job, and none changes an identifier.\<close>

named_theorems store_ids "the identifiers that an operation keeps"

definition record_ids :: "MemoryStore \<Rightarrow> uuid list" where
  "record_ids m = map rec_ID (ms_records m)"

definition job_ids :: "MemoryStore \<Rightarrow> uuid list" where
  "job_ids m = map (\<lambda>j. mj_JobID j) (ms_jobs m)"

definition store_id :: "MemoryStore \<Rightarrow> uuid list \<times> uuid list" where
  "store_id m = (record_ids m, job_ids m)"

lemma store_id_records [store_ids]:
  "store_id (setRunStatus r st m) = store_id m" "store_id (setRunStarted now r m) = store_id m"
  "store_id (setRunFinished now r m) = store_id m"
  "store_id (finish_all_records now r m) = store_id m"
  by (simp_all add: store_id_def record_ids_def job_ids_def setRunStatus_def setRunStarted_def
      setRunFinished_def finish_all_records_def comp_def if_distrib cong: if_cong)

lemma store_id_finalize [store_ids]: "store_id (finalizeRun now r m) = store_id m"
  by (simp add: finalizeRun_def Let_def store_ids)

lemma store_id_reset [store_ids]: "store_id (resetRunAfterRequeue r m) = store_id m"
  by (simp add: resetRunAfterRequeue_def store_id_def record_ids_def job_ids_def)

lemma store_id_jobs [store_ids]:
  "store_id (unblock r m) = store_id m" "store_id (skip_pending r m) = store_id m"
  by (simp_all add: store_id_def record_ids_def job_ids_def unblock_def skip_pending_def unblock_job_def skip_job_def)

lemma store_id_update_first [store_ids]:
  "(\<And>j. mj_JobID (f j) = mj_JobID j) \<Longrightarrow>
   store_id (m\<lparr>ms_jobs := update_first p f (ms_jobs m)\<rparr>) = store_id m"
  by (simp add: store_id_def record_ids_def job_ids_def)

lemma store_id_update_job [store_ids]:
  "(\<And>j. mj_JobID (f j) = mj_JobID j) \<Longrightarrow> store_id (update_job i f m) = store_id m"
  by (simp add: update_job_def store_ids)

lemma store_id_list_update [store_ids]:
  "mj_JobID j = mj_JobID (ms_jobs m ! i) \<Longrightarrow> store_id (m\<lparr>ms_jobs := (ms_jobs m)[i := j]\<rparr>) = store_id m"
  by (cases "i < length (ms_jobs m)")
    (simp_all add: store_id_def record_ids_def job_ids_def map_update list_update_same_conv list_update_beyond)

lemma store_id_complete [store_ids]:
  "(\<And>j. mj_JobID (f j) = mj_JobID j) \<Longrightarrow> store_id (complete_tail now job f status m) = store_id m"
  by (simp add: complete_tail_def Let_def store_ids)

lemma store_id_renew: "store_id (fst (fold (renew_step now r) as (m, rs))) = store_id m"
proof (induction as arbitrary: m rs)
  case (Cons a as)
  obtain m1 rs1 where s: "renew_step now r a (m, rs) = (m1, rs1)" by fastforce
  have "store_id m1 = store_id m"
    using s by (auto simp: renew_step_def store_ids split: if_splits)
  then show ?case using Cons [of m1 rs1] s by simp
qed simp

lemma store_id_recover_step:
  "store_id (fst (recover_step limit now i (m, n, res))) = store_id m"
  by (simp add: recover_step_def Let_def store_ids requeue_job_def fail_job_def)

lemma store_id_recover: "store_id (fst (fold (recover_step limit now) idx (m, n, res))) = store_id m"
proof (induction idx arbitrary: m n res)
  case (Cons i idx)
  obtain m1 n1 res1 where s: "recover_step limit now i (m, n, res) = (m1, n1, res1)"
    using prod_cases3 by blast
  then show ?case using Cons [of m1 n1 res1] store_id_recover_step [of limit now i m n res] by simp
qed simp

lemma store_id_RenewRunnerLeases:
  assumes "RenewRunnerLeases now heartbeat m = Inr (m', out)"
  shows "store_id m' = store_id m"
proof -
  let ?r = "hb_Runner heartbeat" and ?m = "m\<lparr>ms_runners := (ms_runners m)(rd_ID (hb_Runner heartbeat) \<mapsto> hb_Runner heartbeat)\<rparr>"
  have "m' = fst (fold (renew_step now (rd_ID ?r)) (hb_ActiveJobs heartbeat) (?m, []))"
    using assms by (auto simp: RenewRunnerLeases_def Let_def split: if_splits prod.splits)
  then show ?thesis using store_id_renew by (simp add: store_id_def record_ids_def job_ids_def)
qed

lemma store_id_Recover:
  assumes "RecoverExpiredRunnerLeases now limit m = Inr (m', out)"
  shows "store_id m' = store_id m"
proof -
  have "m' = fst (fold (recover_step limit now) [0..<length (ms_jobs m)]
      (m, 0, \<lparr>rr_Requeued = 0, rr_Failed = 0\<rparr>))"
    using assms by (auto simp: RecoverExpiredRunnerLeases_def split: if_splits prod.splits)
  then show ?thesis using store_id_recover by simp
qed

lemma mem_step_ids:
  assumes "mem_step m m'"
  shows "store_id m' = store_id m \<or>
    (\<exists>r js. r \<notin> set (record_ids m) \<and> record_ids m' = r # record_ids m \<and> job_ids m' = job_ids m @ js)"
  using assms
proof (cases rule: mem_step.cases)
  case (create unmarshal newID entry out)
  then obtain plan where "unmarshal (rec_Plan entry) = Some plan"
    by (auto simp: Create_def split: option.splits)
  then have "rec_ID entry \<notin> set (record_ids m) \<and> record_ids m' = rec_ID entry # record_ids m \<and>
      job_ids m' = job_ids m @ map (\<lambda>j. mj_JobID j) (new_jobs newID (rec_ID entry) (plan_Stages plan))"
    using create by (fastforce simp: Create_def list_ex_iff record_ids_def job_ids_def split: if_splits)
  then show ?thesis by blast
next
  case (claim now token out)
  then show ?thesis
    by (auto simp: ClaimJob_def Let_def store_ids assign_job_def split: option.splits)
next
  case (renew now heartbeat out)
  then show ?thesis using store_id_RenewRunnerLeases by blast
next
  case (recover now limit out)
  then show ?thesis using store_id_Recover by blast
qed (auto simp: StartJob_def CompleteJob_def ClaimRunnerJob_def Let_def assign_to_runner_def assign_job_def
       AcknowledgeRunnerJob_def ReleaseRunnerJob_def StartRunnerJob_def CompleteRunnerJob_def store_ids
       split: option.splits if_splits)

lemma mem_step_distinct: "mem_step m m' \<Longrightarrow> distinct (record_ids m) \<Longrightarrow> distinct (record_ids m')"
  using mem_step_ids [of m m'] by (auto simp: store_id_def)

lemma reachable_distinct: "mem_steps NewMemoryStore m \<Longrightarrow> distinct (record_ids m)"
  by (induction rule: rtranclp_induct)
    (auto intro: mem_step_distinct, simp add: record_ids_def NewMemoryStore_def)

lemma mem_steps_job_ids: "mem_steps m m' \<Longrightarrow> \<exists>js. job_ids m' = job_ids m @ js"
proof (induction rule: rtranclp_induct)
  case (step m1 m2)
  then show ?case using mem_step_ids [OF step(2)] by (auto simp: store_id_def)
qed simp

lemma run_info_record:
  "mem_steps NewMemoryStore m \<Longrightarrow> r \<in> set (ms_records m) \<Longrightarrow>
   run_info m (rec_ID r) = Some (rec_Status r, rec_FinishedAt r)"
  using reachable_distinct [of m] unfolding run_info_def record_ids_def
  by (intro map_of_is_SomeI) (auto simp: comp_def)

lemma mem_final_status:
  assumes "mem_steps NewMemoryStore m" and "mem_steps m m'" and "n < length (ms_jobs m)"
    and "job_final (mj_status (ms_jobs m ! n))"
  shows "n < length (ms_jobs m') \<and> mj_status (ms_jobs m' ! n) = mj_status (ms_jobs m ! n) \<and>
    mj_JobID (ms_jobs m' ! n) = mj_JobID (ms_jobs m ! n)"
proof -
  have v: "n < length (views m') \<and> views m' ! n = views m ! n"
    using mem.final_forever [OF assms(1,2), of n] assms(3,4) by (simp add: mem_view_def)
  then have n': "n < length (ms_jobs m')" by simp
  then have "mj_status (ms_jobs m' ! n) = mj_status (ms_jobs m ! n)"
    using v assms(3) by (metis nth_views view_sel(4))
  moreover obtain js where "job_ids m' = job_ids m @ js" using mem_steps_job_ids [OF assms(2)] by blast
  then have "job_ids m' ! n = job_ids m ! n" using assms(3) by (simp add: nth_append job_ids_def)
  ultimately show ?thesis using n' assms(3) by (simp add: job_ids_def)
qed

section \<open>Dependencies, runs and final statuses\<close>

text \<open>
  In every store that the operations can produce from the empty one, a job that is queued,
  assigned, running or finished by a runner has all its dependencies succeeded: work never starts before
  what it needs.
\<close>

theorem dependencies_before_start:
  assumes "mem_steps NewMemoryStore m" and "j \<in> set (ms_jobs m)"
    and "mj_status j \<notin> {JobBlocked, JobSkipped}" and "d \<in> set (mj_dependencies j)"
  shows "job_states (mj_RunID j) (ms_jobs m) d = Some JobSucceeded"
  using mem.dependencies_first [OF assms(1), of "view j" d] assms(2-)
  by (simp add: mem_view_def job_states_views waits_def) (simp add: views_def)

text \<open>
  The status of a run says what happened to its jobs: a succeeded run has only succeeded
  jobs, a failed or canceled one has a job that failed or was canceled, a finished run has a finishing
  time, and as soon as all jobs of a run are final the run is terminal.
\<close>

theorem run_status_sound:
  assumes "mem_steps NewMemoryStore m" and "r \<in> set (ms_records m)"
    and "S = mj_status ` {j \<in> set (ms_jobs m). mj_RunID j = rec_ID r}"
  shows "(rec_Status r = StatusSucceeded \<longrightarrow> S \<subseteq> {JobSucceeded}) \<and>
    (rec_Status r = StatusFailed \<longrightarrow> JobFailed \<in> S) \<and>
    (rec_Status r = StatusCanceled \<longrightarrow> JobCanceled \<in> S) \<and>
    (Terminal (rec_Status r) \<longrightarrow> rec_FinishedAt r \<noteq> None) \<and>
    (S \<noteq> {} \<longrightarrow> (\<forall>s\<in>S. job_final s) \<longrightarrow> Terminal (rec_Status r))"
proof -
  have "S = run_statuses (rec_ID r) (views m)"
    unfolding assms(3) set_statuses [symmetric] by simp
  then show ?thesis
    using mem.run_meaning [OF assms(1), of "rec_ID r"] run_info_record [OF assms(1,2)]
    by (simp add: mem_view_def run_ok_def)
qed

text \<open>
  A final job status is final: no sequence of operations changes the status of a job that
  succeeded, failed, was canceled or was skipped, and the job keeps its place and its identifier.
\<close>

theorem final_status_forever:
  assumes "mem_steps NewMemoryStore m" and "mem_steps m m'" and "n < length (ms_jobs m)"
    and "job_final (mj_status (ms_jobs m ! n))"
  shows "n < length (ms_jobs m') \<and> mj_status (ms_jobs m' ! n) = mj_status (ms_jobs m ! n) \<and>
    mj_JobID (ms_jobs m' ! n) = mj_JobID (ms_jobs m ! n)"
  using mem_final_status [OF assms] .

end
