(* ===== verification/Plan_Runs.thy ===== *)
theory Plan_Runs
  imports Memory_Guarantees
begin

text \<open>
  From the compiler to the store: the jobs that \<open>Create\<close> makes of a compiled plan have a closed and acyclic
  dependency graph, so a run of a compiled plan never gets stuck.
\<close>

section \<open>Job keys\<close>

definition no_slash :: "string \<Rightarrow> bool" where
  "no_slash s \<longleftrightarrow> CHR ''/'' \<notin> set s"

lemma job_key_stage: "no_slash s \<Longrightarrow> takeWhile (\<lambda>c. c \<noteq> CHR ''/'') (job_key s j) = s"
  unfolding job_key_def no_slash_def by (subst takeWhile_append2) auto

lemma job_key_inject: "no_slash s \<Longrightarrow> no_slash s' \<Longrightarrow> job_key s j = job_key s' j' \<longleftrightarrow> s = s' \<and> j = j'"
  using job_key_stage [of s j] job_key_stage [of s' j'] by (metis job_key_def same_append_eq)

section \<open>The dependency graph of a plan\<close>

definition plan_edges :: "PlanStage list \<Rightarrow> ((string \<times> string) \<times> (string \<times> string)) set" where
  "plan_edges stages =
     {((ps_Name s, pj_Name j), (ps_Name t, pj_Name k)) | s j t k.
        s \<in> set stages \<and> j \<in> set (ps_Jobs s) \<and> t \<in> set stages \<and> k \<in> set (ps_Jobs t) \<and>
        (ps_Name t \<in> set (ps_DependsOn s) \<or> s = t \<and> pj_Name k \<in> set (pj_DependsOn j))}"

lemma in_stageJobs:
  "d \<in> set (stageJobs stages name) \<longleftrightarrow>
     (\<exists>t\<in>set stages. \<exists>k\<in>set (ps_Jobs t). ps_Name t = name \<and> d = job_key name (pj_Name k))"
  by (auto simp: stageJobs_def)

lemma plan_edges_step:
  assumes "((s, j), (t, k)) \<in> plan_edges stages" and "distinct (map ps_Name stages)"
  shows "(s, t) \<in> edges_of ps_Name ps_DependsOn stages \<or>
    s = t \<and> (\<exists>p\<in>set stages. ps_Name p = s \<and> (j, k) \<in> edges_of pj_Name pj_DependsOn (ps_Jobs p))"
  using assms by (auto simp: plan_edges_def edges_of_def)

lemma plan_edges_trancl:
  assumes "(x, y) \<in> (plan_edges stages)\<^sup>+" and d: "distinct (map ps_Name stages)"
  shows "(fst x, fst y) \<in> (edges_of ps_Name ps_DependsOn stages)\<^sup>+ \<or>
    fst x = fst y \<and> (\<exists>p\<in>set stages. ps_Name p = fst x \<and>
      (snd x, snd y) \<in> (edges_of pj_Name pj_DependsOn (ps_Jobs p))\<^sup>+)"
  using assms(1)
proof (induction rule: trancl_induct)
  case (base y)
  then show ?case using plan_edges_step [OF _ d, of "fst x" "snd x" "fst y" "snd y"] by auto
next
  case (step y z)
  have yz: "(fst y, fst z) \<in> edges_of ps_Name ps_DependsOn stages \<or>
    fst y = fst z \<and> (\<exists>p\<in>set stages. ps_Name p = fst y \<and>
      (snd y, snd z) \<in> edges_of pj_Name pj_DependsOn (ps_Jobs p))"
    using plan_edges_step [OF _ d, of "fst y" "snd y" "fst z" "snd z"] step(2) by simp
  have same: "p = q" if "p \<in> set stages" "q \<in> set stages" "ps_Name p = ps_Name q" for p q
    using d that by (auto simp: distinct_map inj_on_def)
  show ?case
  proof (cases "(fst y, fst z) \<in> edges_of ps_Name ps_DependsOn stages")
    case True
    then show ?thesis using step.IH by (auto intro: trancl_into_trancl)
  next
    case False
    then obtain q where q: "fst y = fst z" "q \<in> set stages" "ps_Name q = fst y"
      "(snd y, snd z) \<in> edges_of pj_Name pj_DependsOn (ps_Jobs q)"
      using yz by blast
    show ?thesis using step.IH q same [OF q(2)] by (metis trancl_into_trancl)
  qed
qed

lemma acyclic_plan_edges:
  assumes "plan_graph_ok plan"
  shows "acyclic (plan_edges (plan_Stages plan))"
  unfolding acyclic_def
proof (rule allI, rule notI)
  fix x
  assume x: "(x, x) \<in> (plan_edges (plan_Stages plan))\<^sup>+"
  have d: "distinct (map ps_Name (plan_Stages plan))"
    and a: "acyclic (edges_of ps_Name ps_DependsOn (plan_Stages plan))"
    using assms by (simp_all add: plan_graph_ok_def valid_graph_def)
  obtain p where "p \<in> set (plan_Stages plan)"
    "(snd x, snd x) \<in> (edges_of pj_Name pj_DependsOn (ps_Jobs p))\<^sup>+"
    using plan_edges_trancl [OF x d] a unfolding acyclic_def by blast
  then show False
    using assms unfolding plan_graph_ok_def valid_graph_def acyclic_def by blast
qed

lemma plan_names:
  assumes "plan_graph_ok plan" and "s \<in> set (plan_Stages plan)"
  shows "no_slash (ps_Name s)"
  using assms namePattern_no_slash by (auto simp: plan_graph_ok_def valid_graph_def no_slash_def)

lemma set_plan_pairs: "(s, j) \<in> set (plan_pairs stages) \<longleftrightarrow> s \<in> set stages \<and> j \<in> set (ps_Jobs s)"
  by (auto simp: plan_pairs_def)

definition plan_view :: "uuid \<Rightarrow> PlanStage list \<Rightarrow> PlanStage \<Rightarrow> PlanJob \<Rightarrow> job_view" where
  "plan_view r stages s j =
     \<lparr>jv_run = r, jv_key = job_key (ps_Name s) (pj_Name j), jv_deps = job_dependencies stages s j,
      jv_status = (if job_dependencies stages s j = [] then JobQueued else JobBlocked)\<rparr>"

lemma plan_view_sel [simp]:
  "jv_run (plan_view r stages s j) = r" "jv_key (plan_view r stages s j) = job_key (ps_Name s) (pj_Name j)"
  "jv_deps (plan_view r stages s j) = job_dependencies stages s j"
  by (simp_all add: plan_view_def)

lemma view_new_job: "view (new_job r stages (i, s, j)) = plan_view r stages s j"
  by (simp add: new_job_def view_def plan_view_def Let_def)

lemma set_new_jobs:
  "view ` set (new_jobs newID r stages) =
     {plan_view r stages s j | s j. s \<in> set stages \<and> j \<in> set (ps_Jobs s)}" (is "?L = ?R")
proof -
  have "?L = (\<lambda>(i, s, j). view (new_job r stages (newID i, s, j))) ` set (enumerate 0 (plan_pairs stages))"
    by (simp add: new_jobs_def image_image case_prod_beta)
  also have "\<dots> = (\<lambda>(s, j). plan_view r stages s j) ` (snd ` set (enumerate 0 (plan_pairs stages)))"
    by (auto simp: image_image view_new_job case_prod_beta)
  also have "snd ` set (enumerate 0 (plan_pairs stages)) = set (plan_pairs stages)"
    by (metis list.set_map map_snd_enumerate)
  also have "(\<lambda>(s, j). plan_view r stages s j) ` set (plan_pairs stages) = ?R"
    using set_plan_pairs [of _ _ stages] by (auto simp: image_iff)
  finally show ?thesis .
qed

lemma dependency_edge:
  assumes "plan_graph_ok plan" and "s \<in> set (plan_Stages plan)" and "j \<in> set (ps_Jobs s)"
    and "d \<in> set (job_dependencies (plan_Stages plan) s j)"
  obtains t k where "t \<in> set (plan_Stages plan)" "k \<in> set (ps_Jobs t)" "d = job_key (ps_Name t) (pj_Name k)"
    "((ps_Name s, pj_Name j), (ps_Name t, pj_Name k)) \<in> plan_edges (plan_Stages plan)"
proof -
  consider (stage) n where "n \<in> set (ps_DependsOn s)" "d \<in> set (stageJobs (plan_Stages plan) n)"
    | (job) n where "n \<in> set (pj_DependsOn j)" "d = job_key (ps_Name s) n"
    using assms(4) by (auto simp: job_dependencies_def)
  then show thesis
  proof cases
    case stage
    then obtain t k where "t \<in> set (plan_Stages plan)" "k \<in> set (ps_Jobs t)" "ps_Name t = n"
      "d = job_key n (pj_Name k)"
      by (auto simp: in_stageJobs)
    then show thesis using that [of t k] stage assms(2,3) by (auto simp: plan_edges_def)
  next
    case job
    have "n \<in> pj_Name ` set (ps_Jobs s)"
      using assms(1-3) job(1) unfolding plan_graph_ok_def valid_graph_def by blast
    then obtain k where "k \<in> set (ps_Jobs s)" "pj_Name k = n" by blast
    then show thesis using that [of s k] job assms(2,3) by (auto simp: plan_edges_def)
  qed
qed

lemma key_edges_plan:
  assumes ok: "plan_graph_ok plan"
    and vs: "{v \<in> set vs. jv_run v = r} = view ` set (new_jobs newID r (plan_Stages plan))"
    and e: "(x, y) \<in> key_edges r vs"
  obtains s j t k where "x = job_key s j" "y = job_key t k" "no_slash s" "no_slash t"
    "((s, j), (t, k)) \<in> plan_edges (plan_Stages plan)" "y \<in> run_keys r vs"
proof -
  obtain v where v: "v \<in> view ` set (new_jobs newID r (plan_Stages plan))" "x = jv_key v" "y \<in> set (jv_deps v)"
    using e unfolding key_edges_def vs by blast
  obtain s j where s: "s \<in> set (plan_Stages plan)" "j \<in> set (ps_Jobs s)"
    "x = job_key (ps_Name s) (pj_Name j)" "y \<in> set (job_dependencies (plan_Stages plan) s j)"
    using v unfolding set_new_jobs by auto
  obtain t k where t: "t \<in> set (plan_Stages plan)" "k \<in> set (ps_Jobs t)" "y = job_key (ps_Name t) (pj_Name k)"
    "((ps_Name s, pj_Name j), (ps_Name t, pj_Name k)) \<in> plan_edges (plan_Stages plan)"
    using dependency_edge [OF ok s(1,2,4)] by metis
  have "plan_view r (plan_Stages plan) t k \<in> view ` set (new_jobs newID r (plan_Stages plan))"
    unfolding set_new_jobs using t by blast
  then have "y \<in> run_keys r vs" unfolding run_keys_def vs using t(3) plan_view_sel(2) image_eqI by metis
  then show thesis using that s t plan_names [OF ok] by blast
qed

lemma key_edges_trancl:
  assumes ok: "plan_graph_ok plan"
    and vs: "{v \<in> set vs. jv_run v = r} = view ` set (new_jobs newID r (plan_Stages plan))"
    and e: "(x, y) \<in> (key_edges r vs)\<^sup>+"
  shows "\<exists>s j t k. x = job_key s j \<and> y = job_key t k \<and> no_slash s \<and> no_slash t \<and>
    ((s, j), (t, k)) \<in> (plan_edges (plan_Stages plan))\<^sup>+"
  using e
proof (induction rule: trancl_induct)
  case (base y)
  then show ?case by (rule key_edges_plan [OF ok vs]) blast
next
  case (step y z)
  obtain s j t k where 1: "x = job_key s j" "y = job_key t k" "no_slash s" "no_slash t"
    "((s, j), (t, k)) \<in> (plan_edges (plan_Stages plan))\<^sup>+"
    using step.IH by blast
  obtain t' k' u l where 2: "y = job_key t' k'" "z = job_key u l" "no_slash t'" "no_slash u"
    "((t', k'), (u, l)) \<in> plan_edges (plan_Stages plan)"
    using key_edges_plan [OF ok vs step.hyps(2)] by metis
  have "t' = t \<and> k' = k" using 1 2 job_key_inject by metis
  then show ?case using 1 2 by (metis trancl_into_trancl)
qed

lemma run_graph_ok_plan:
  assumes ok: "plan_graph_ok plan"
    and vs: "{v \<in> set vs. jv_run v = r} = view ` set (new_jobs newID r (plan_Stages plan))"
  shows "run_graph_ok r vs"
proof -
  have "acyclic (key_edges r vs)"
    unfolding acyclic_def
  proof (rule allI, rule notI)
    fix x
    assume "(x, x) \<in> (key_edges r vs)\<^sup>+"
    then obtain s j t k where "x = job_key s j" "x = job_key t k" "no_slash s" "no_slash t"
      "((s, j), (t, k)) \<in> (plan_edges (plan_Stages plan))\<^sup>+"
      using key_edges_trancl [OF ok vs] by metis
    then have "((s, j), (s, j)) \<in> (plan_edges (plan_Stages plan))\<^sup>+" using job_key_inject by metis
    then show False using acyclic_plan_edges [OF ok] by (auto simp: acyclic_def)
  qed
  moreover have "key_edges r vs `` UNIV \<subseteq> run_keys r vs"
    using key_edges_plan [OF ok vs] by blast
  ultimately show ?thesis by (simp add: run_graph_ok_def)
qed

section \<open>A run of a compiled plan makes progress\<close>

lemma Create_Inr:
  assumes "Create unmarshal newID entry m = Inr (m', out)"
  obtains plan where "unmarshal (rec_Plan entry) = Some plan"
    "rec_ID entry \<notin> rec_ID ` set (ms_records m)"
    "m' = m\<lparr>ms_records := entry # ms_records m,
            ms_jobs := ms_jobs m @ new_jobs newID (rec_ID entry) (plan_Stages plan)\<rparr>" "out = entry"
proof -
  obtain plan where plan: "unmarshal (rec_Plan entry) = Some plan"
    using assms by (auto simp: Create_def split: option.splits)
  show thesis
    by (rule that [OF plan]) (use assms plan in \<open>fastforce simp: Create_def list_ex_iff split: if_splits\<close>)+
qed

lemma reachable_runs_known:
  assumes "mem_steps NewMemoryStore m"
  shows "jv_run ` set (views m) \<subseteq> rec_ID ` set (ms_records m)"
proof -
  have "dom (run_info m) = rec_ID ` set (ms_records m)"
    by (simp add: run_info_def dom_map_of_conv_image_fst image_image)
  then show ?thesis
    using mem.reachable_inv [OF assms] by (simp add: store_inv_def mem_view_def)
qed

lemma select_right: "(\<And>x. x \<in> A \<Longrightarrow> \<not> p x) \<Longrightarrow> (\<And>x. x \<in> B \<Longrightarrow> p x) \<Longrightarrow> {x \<in> A \<union> B. p x} = B"
  by auto

lemma Create_run_jobs:
  assumes r: "mem_steps NewMemoryStore m" and c: "Create unmarshal newID entry m = Inr (m', out)"
    and plan: "unmarshal (rec_Plan entry) = Some plan"
  shows "{v \<in> set (views m'). jv_run v = rec_ID entry} =
    view ` set (new_jobs newID (rec_ID entry) (plan_Stages plan))"
proof -
  let ?new = "new_jobs newID (rec_ID entry) (plan_Stages plan)"
  obtain p where p: "unmarshal (rec_Plan entry) = Some p" "rec_ID entry \<notin> rec_ID ` set (ms_records m)"
    "m' = m\<lparr>ms_records := entry # ms_records m, ms_jobs := ms_jobs m @ new_jobs newID (rec_ID entry) (plan_Stages p)\<rparr>"
    by (rule Create_Inr [OF c]) blast
  have vs: "views m' = views m @ map view ?new" using p plan by (simp add: views_def)
  have old: "jv_run v \<noteq> rec_ID entry" if "v \<in> set (views m)" for v
  proof -
    have "jv_run v \<in> rec_ID ` set (ms_records m)" using reachable_runs_known [OF r] that by fast
    then show ?thesis using p(2) by metis
  qed
  have new: "jv_run v = rec_ID entry" if "v \<in> view ` set ?new" for v
    using new_jobs_fresh [OF that] by (simp add: fresh_view_def)
  show ?thesis unfolding vs set_append list.set_map by (rule select_right) (fact old, fact new)
qed

lemma new_jobs_exist:
  assumes "plan_graph_ok plan"
  shows "\<exists>v. v \<in> view ` set (new_jobs newID r (plan_Stages plan))"
proof -
  obtain s where s: "s \<in> set (plan_Stages plan)"
    using assms by (metis plan_graph_ok_def list.set_sel(1))
  then have "ps_Jobs s \<noteq> []" using assms by (simp add: plan_graph_ok_def)
  then obtain j where "j \<in> set (ps_Jobs s)" by (metis list.set_sel(1))
  then show ?thesis unfolding set_new_jobs using s by blast
qed

text \<open>
  A run of a compiled plan never gets stuck: after any operations, as long as the run is
  not terminal, it has a job that is queued, assigned or running, so there is work that some runner can
  take or finish.
\<close>

theorem compiled_run_never_stuck:
  assumes "ranges_ok rt" and "Compile rt source at = Inr plan" and "unmarshal (rec_Plan entry) = Some plan"
    and "mem_steps NewMemoryStore m" and "Create unmarshal newID entry m = Inr (m', out)"
    and "rec_Status entry = StatusQueued" and "mem_steps m' m''"
    and "r \<in> set (ms_records m'')" and "rec_ID r = rec_ID entry" and "\<not> Terminal (rec_Status r)"
  shows "\<exists>j\<in>set (ms_jobs m''). mj_RunID j = rec_ID entry \<and> mj_status j \<in> {JobQueued, JobAssigned, JobRunning}"
proof -
  have ok: "plan_graph_ok plan" using Compile_graph_ok [OF assms(1,2)] .
  have m': "mem_steps NewMemoryStore m'" using assms(4) mem_step.create [OF assms(5,6)] by simp
  then have m'': "mem_steps NewMemoryStore m''" using assms(7) by simp
  note jobs = Create_run_jobs [OF assms(4,5,3)]
  have g: "run_graph_ok (rec_ID entry) (fst (mem_view m'))"
    using run_graph_ok_plan [OF ok jobs] by (simp add: mem_view_def)
  obtain v where "v \<in> set (views m')" "jv_run v = rec_ID entry"
    using new_jobs_exist [OF ok] jobs by blast
  then have k: "rec_ID entry \<in> jv_run ` set (fst (mem_view m'))" by (force simp: mem_view_def)
  have i: "snd (mem_view m'') (rec_ID entry) = Some (rec_Status r, rec_FinishedAt r)"
    using run_info_record [OF m'' assms(8)] assms(9) by (simp add: mem_view_def)
  obtain w where "w \<in> set (views m'')" "jv_run w = rec_ID entry" "plain (jv_status w)"
    using mem.run_progress [OF m' assms(7) g k i assms(10)] by (auto simp: mem_view_def)
  then show ?thesis by (auto simp: views_def plain_def)
qed

end
