(* ===== verification/Pipeline_Properties.thy ===== *)
theory Pipeline_Properties
  imports Pipeline_Compile
begin

text \<open>
  The properties of the pipeline compiler, with a small two-stage pipeline on which they are evaluated.
\<close>

section \<open>A sample pipeline\<close>

definition sample_job :: "string \<Rightarrow> string list \<Rightarrow> Job" where
  "sample_job name deps =
     \<lparr>job_Name = name, job_Image = ''alpine'', job_DependsOn = deps, job_Timeout = [], job_Retry = 1,
      job_Environment = [], job_Secrets = [], job_Services = [], job_Matrix = [],
      job_Resources = \<lparr>res_CPU = [], res_Memory = [], res_PIDs = 0, res_Disk = ''10GiB'', res_Privileged = False\<rparr>,
      job_RunsOn = \<lparr>req_OS = [], req_Architecture = [], req_Executor = [], req_Labels = None\<rparr>,
      job_Steps = [\<lparr>step_Name = ''s'', step_Image = [], step_Commands = [''make''], step_WorkingDir = [],
                    step_Environment = [], step_Timeout = []\<rparr>]\<rparr>"

definition sample_pipeline :: Pipeline where
  "sample_pipeline =
     \<lparr>pipe_Version = ''v1'', pipe_Name = ''demo'', pipe_Concurrency = None, pipe_Triggers = [],
      pipe_Environment = [],
      pipe_Stages =
        [\<lparr>stage_Name = ''test'', stage_DependsOn = [''build''], stage_Jobs = [sample_job ''unit'' []]\<rparr>,
         \<lparr>stage_Name = ''build'', stage_DependsOn = [],
          stage_Jobs = [sample_job ''compile'' [], sample_job ''lint'' [''compile'']]\<rparr>]\<rparr>"

definition sample_runtime :: runtime where
  "sample_runtime =
     \<lparr>yaml_decode = (\<lambda>_. Some sample_pipeline), json_marshal = (\<lambda>_. Some ''{}''), sha256 = (\<lambda>_. ''h''),
      range_deps = (\<lambda>m. m), range_graph = rev, range_fields = (\<lambda>m. m), float_fraction = (\<lambda>_ _ _. 0)\<rparr>"

definition sample_plan_job :: "string \<Rightarrow> string list \<Rightarrow> PlanJob" where
  "sample_plan_job name deps =
     \<lparr>pj_Name = name, pj_Image = ''alpine'', pj_DependsOn = deps, pj_Timeout = 1800000000000, pj_Retry = 1, pj_Matrix = [],
      pj_Environment = [], pj_Services = [],
      pj_Resources = \<lparr>res_CPU = [], res_Memory = [], res_PIDs = 0, res_Disk = ''10GiB'', res_Privileged = False\<rparr>,
      pj_RunsOn = \<lparr>req_OS = ''linux'', req_Architecture = [], req_Executor = ''docker'', req_Labels = Some []\<rparr>,
      pj_RequiredDiskBytes = 10737418240, pj_Secrets = [],
      pj_Steps = [\<lparr>step_Name = ''s'', step_Image = [], step_Commands = [''make''], step_WorkingDir = [],
                   step_Environment = [], step_Timeout = []\<rparr>]\<rparr>"

definition sample_plan :: Plan where
  "sample_plan =
     \<lparr>plan_Version = ''v1'', plan_Name = ''demo'', plan_ConfigSHA256 = ''68'', plan_CompiledAt = 0,
      plan_Stages =
        [\<lparr>ps_Name = ''test'', ps_DependsOn = [''build''], ps_Jobs = [sample_plan_job ''unit'' []]\<rparr>,
         \<lparr>ps_Name = ''build'', ps_DependsOn = [],
          ps_Jobs = [sample_plan_job ''compile'' [], sample_plan_job ''lint'' [''compile'']]\<rparr>]\<rparr>"

lemma sample_ranges: "ranges_ok sample_runtime"
  by (simp add: ranges_ok_def sample_runtime_def)

lemma sample_compiles: "Compile sample_runtime [] 0 = Inr sample_plan"
  by code_simp

section \<open>Properties\<close>

text \<open>The names and dependencies of the stages of a file and of a plan, in order.\<close>

definition stage_names :: "Stage list \<Rightarrow> (string \<times> string list \<times> (string \<times> string list) list) list" where
  "stage_names stages =
     map (\<lambda>s. (stage_Name s, stage_DependsOn s, map (\<lambda>j. (job_Name j, job_DependsOn j)) (stage_Jobs s))) stages"

definition plan_names_of :: "Plan \<Rightarrow> (string \<times> string list \<times> (string \<times> string list) list) list" where
  "plan_names_of plan =
     map (\<lambda>s. (ps_Name s, ps_DependsOn s, map (\<lambda>j. (pj_Name j, pj_DependsOn j)) (ps_Jobs s))) (plan_Stages plan)"

text \<open>
  C23 (functional). A compiled plan is safe to schedule: its stages and the jobs of each stage have unique
  names, known dependencies and no cycle, and every job of it has a timeout of one second to 24 hours, at
  most 1 PiB of disk, at most 5 retries, steps, a runner system and executor, and no privileges.
\<close>

theorem Compile_plan_sound:
  assumes "ranges_ok rt" and "Compile rt source now = Inr plan"
  shows "plan_graph_ok plan \<and> (\<forall>ps\<in>set (plan_Stages plan). \<forall>pj\<in>set (ps_Jobs ps). plan_job_ok pj)"
  using Compile_graph_ok [OF assms] Compile_jobs_ok [OF assms] by blast

theorem Compile_plan_sound_witness:
  "Compile sample_runtime [] 0 = Inr sample_plan \<and> plan_graph_ok sample_plan \<and>
   plan_job_ok (hd (ps_Jobs (hd (plan_Stages sample_plan))))"
proof -
  have "plan_Stages sample_plan \<noteq> []" "ps_Jobs (hd (plan_Stages sample_plan)) \<noteq> []" by code_simp+
  then show ?thesis
    using Compile_plan_sound [OF sample_ranges sample_compiles] sample_compiles
    by (metis list.set_sel(1))
qed

text \<open>
  A pipeline file compiles exactly when it decodes, is valid and can be written in
  canonical form; the plan then has the stages and jobs of the file in the same order with the same names
  and dependencies, and its configuration hash is that of the canonical form.
\<close>

theorem Compile_exact:
  assumes "ranges_ok rt"
  shows "((\<exists>plan. Compile rt source now = Inr plan) \<longleftrightarrow>
      (\<exists>p canonical. yaml_decode rt source = Some p \<and> valid_pipeline (float_fraction rt) p \<and>
         json_marshal rt p = Some canonical)) \<and>
    (\<forall>plan p canonical. Compile rt source now = Inr plan \<and> yaml_decode rt source = Some p \<and>
       json_marshal rt p = Some canonical \<longrightarrow>
       stage_names (pipe_Stages p) = plan_names_of plan \<and> plan_Name plan = pipe_Name p \<and>
       plan_ConfigSHA256 plan = hex_encode (sha256 rt canonical))"
proof -
  have "\<exists>p canonical. yaml_decode rt source = Some p \<and> valid_pipeline (float_fraction rt) p \<and>
      json_marshal rt p = Some canonical" if "Compile rt source now = Inr plan" for plan
    using Validate_Nil [OF assms] that by (metis Compile_Inr)
  moreover have "\<exists>plan. Compile rt source now = Inr plan"
    if h: "yaml_decode rt source = Some p" "valid_pipeline (float_fraction rt) p" "json_marshal rt p = Some canonical"
    for p canonical
  proof -
    obtain pss where "compile_stages rt (pipe_Stages p) = Inr pss"
      using compile_stages_total h(2) unfolding valid_pipeline_def by blast
    then show ?thesis using h Validate_Nil [OF assms, of p] by (simp add: Compile_def Parse_def)
  qed
  moreover have "stage_names (pipe_Stages p) = plan_names_of plan \<and> plan_Name plan = pipe_Name p \<and>
      plan_ConfigSHA256 plan = hex_encode (sha256 rt canonical)"
    if "Compile rt source now = Inr plan" "yaml_decode rt source = Some p" "json_marshal rt p = Some canonical"
    for plan p canonical
  proof (rule Compile_Inr [OF that(1)])
    fix q c
    assume "yaml_decode rt source = Some q" "compile_stages rt (pipe_Stages q) = Inr (plan_Stages plan)"
      "json_marshal rt q = Some c" "plan_Name plan = pipe_Name q"
      "plan_ConfigSHA256 plan = hex_encode (sha256 rt c)"
    then show ?thesis using that compile_stages_names [of rt "pipe_Stages q"]
      by (simp add: stage_names_def plan_names_of_def)
  qed
  ultimately show ?thesis by blast
qed

theorem Compile_exact_witness:
  "stage_names (pipe_Stages sample_pipeline) = plan_names_of sample_plan \<and> plan_Name sample_plan = ''demo''"
proof -
  have "yaml_decode sample_runtime [] = Some sample_pipeline" "json_marshal sample_runtime sample_pipeline = Some ''{}''"
    by (simp_all add: sample_runtime_def)
  then have "stage_names (pipe_Stages sample_pipeline) = plan_names_of sample_plan \<and>
      plan_Name sample_plan = pipe_Name sample_pipeline"
    using Compile_exact [OF sample_ranges, of "[]" 0] sample_compiles by blast
  then show ?thesis by (simp add: sample_pipeline_def)
qed

text \<open>
  C24 (equivalence). The validator reports no problem exactly for the valid pipelines: the declarative
  description of a valid pipeline and the checks of the code agree, whatever order the maps are visited in.
\<close>

theorem Validate_exact:
  assumes "ranges_ok rt"
  shows "Validate rt p = [] \<longleftrightarrow> valid_pipeline (float_fraction rt) p"
  by (rule Validate_Nil [OF assms])

theorem Validate_exact_witness:
  "Validate sample_runtime sample_pipeline = [] \<and> valid_pipeline (float_fraction sample_runtime) sample_pipeline"
proof -
  have "Validate sample_runtime sample_pipeline = []" by code_simp
  then show ?thesis using Validate_exact [OF sample_ranges] by blast
qed

text \<open>
  C19 (equivalence). The depth-first search of \<open>hasCycle\<close> terminates and answers true exactly when some name
  depends on itself through one or more dependencies.
\<close>

theorem hasCycle_exact: "hasCycle g \<longleftrightarrow> (\<exists>x. (x, x) \<in> (dep_edges g)\<^sup>+)"
  by (rule hasCycle_iff)

text \<open>
  A size written as a number followed by one of the units (KB to TiB) is read as the number
  times the unit, for every number whose size is at most 1 PiB.
\<close>

theorem parseByteSize_roundtrip:
  assumes "unit \<in> set size_units" and "int n \<le> 2 ^ 50 div snd unit"
  shows "parseByteSize (format_nat n @ fst unit) = Inr (int n * snd unit)"
  by (rule parseByteSize_print [OF assms])

theorem parseByteSize_roundtrip_witness:
  "parseByteSize ''10GIB'' = Inr 10737418240"
proof -
  have u: "(''GIB'', 2 ^ 30) \<in> set size_units" by (simp add: size_units_def)
  have "format_nat 10 @ ''GIB'' = ''10GIB''" by code_simp
  then show ?thesis using parseByteSize_roundtrip [OF u, of 10] by simp
qed

text \<open>
  Whatever the text is, an accepted size is between 0 and 1 PiB and an accepted timeout is
  between one second and 24 hours, so neither conversion overflows.
\<close>

theorem size_and_timeout_bounds:
  "(parseByteSize raw = Inr n \<longrightarrow> 0 \<le> n \<and> n \<le> 2 ^ 50) \<and>
   (parseTimeout frac raw = Inr t \<longrightarrow> Second \<le> t \<and> t \<le> 24 * Hour)"
  using parseByteSize_bounds parseTimeout_bounds by blast

theorem size_and_timeout_bounds_witness:
  "parseByteSize ''2 TB'' = Inr 2000000000000 \<and> 0 \<le> (2000000000000::int) \<and> (2000000000000::int) \<le> 2 ^ 50"
proof -
  have "parseByteSize ''2 TB'' = Inr 2000000000000" by code_simp
  then show ?thesis using size_and_timeout_bounds [of "''2 TB''" 2000000000000] by blast
qed

end
