(* ===== verification/Store_Traces.thy ===== *)
theory Store_Traces
  imports Plan_Runs Pipeline_Properties
begin

text \<open>
  Executable traces of the in-memory store. A call that returns an error leaves the store as it was, so a
  list of calls runs to the end from any store, and every store it reaches is reachable in the transition
  system. The sample trace runs the plan of the sample pipeline.
\<close>

datatype call =
    CallCreate Plan "nat \<Rightarrow> uuid" Record
  | CallClaim gotime string
  | CallStart gotime uuid string
  | CallComplete gotime uuid string JobStatus
  | CallClaimRunner gotime string uuid
  | CallAcknowledge gotime LeaseRequest
  | CallRelease gotime LeaseRequest
  | CallStartRunner gotime LeaseRequest
  | CallRenew gotime HeartbeatRequest
  | CallCompleteRunner gotime RunnerCompletion
  | CallRecover gotime int

definition keep :: "MemoryStore \<Rightarrow> store_error + MemoryStore \<Rightarrow> MemoryStore" where
  "keep m res = (case res of Inl _ \<Rightarrow> m | Inr m' \<Rightarrow> m')"

definition keep_fst :: "MemoryStore \<Rightarrow> store_error + MemoryStore \<times> 'a \<Rightarrow> MemoryStore" where
  "keep_fst m res = (case res of Inl _ \<Rightarrow> m | Inr (m', _) \<Rightarrow> m')"

fun exec :: "call \<Rightarrow> MemoryStore \<Rightarrow> MemoryStore" where
  "exec (CallCreate plan newID entry) m = keep_fst m (Create (\<lambda>_. Some plan) newID (entry\<lparr>rec_Status := StatusQueued\<rparr>) m)"
| "exec (CallClaim now token) m = fst (ClaimJob now token m)"
| "exec (CallStart now jobID token) m = keep m (StartJob now jobID token m)"
| "exec (CallComplete now jobID token status) m = keep m (CompleteJob now jobID token status m)"
| "exec (CallClaimRunner now token runnerID) m = keep_fst m (ClaimRunnerJob now token runnerID m)"
| "exec (CallAcknowledge now request) m = keep_fst m (AcknowledgeRunnerJob now request m)"
| "exec (CallRelease now request) m = keep m (ReleaseRunnerJob now request m)"
| "exec (CallStartRunner now request) m = keep_fst m (StartRunnerJob now request m)"
| "exec (CallRenew now request) m = keep_fst m (RenewRunnerLeases now request m)"
| "exec (CallCompleteRunner now request) m = keep m (CompleteRunnerJob now request m)"
| "exec (CallRecover now limit) m = keep_fst m (RecoverExpiredRunnerLeases now limit m)"

definition trace :: "call list \<Rightarrow> MemoryStore \<Rightarrow> MemoryStore" where
  "trace calls m = fold exec calls m"

lemma keep_steps: "(\<And>m'. res = Inr m' \<Longrightarrow> mem_step m m') \<Longrightarrow> mem_steps m (keep m res)"
  by (auto simp: keep_def split: sum.splits)

lemma keep_fst_steps: "(\<And>m' out. res = Inr (m', out) \<Longrightarrow> mem_step m m') \<Longrightarrow> mem_steps m (keep_fst m res)"
  by (auto simp: keep_fst_def split: sum.splits)

lemma exec_steps: "mem_steps m (exec c m)"
proof (cases c)
  case (CallCreate plan newID entry)
  show ?thesis unfolding CallCreate exec.simps by (rule keep_fst_steps, erule mem_step.create) simp
next
  case (CallClaim now token)
  then show ?thesis
    using mem_step.claim [of now token m "fst (ClaimJob now token m)" "snd (ClaimJob now token m)"] by simp
qed (simp_all, (rule keep_steps keep_fst_steps, erule mem_step.intros)+)

lemma trace_steps: "mem_steps m (trace calls m)"
  unfolding trace_def
proof (induction calls arbitrary: m)
  case (Cons c calls)
  then show ?case using exec_steps [of m c] by (auto intro: rtranclp_trans)
qed simp

lemma trace_append: "trace (xs @ ys) m = trace ys (trace xs m)"
  by (simp add: trace_def)

section \<open>A sample trace\<close>

definition sample_record :: Record where
  "sample_record =
     \<lparr>rec_ID = 7, rec_ProjectID = None, rec_CreatedBy = None, rec_PipelineVersionID = None,
      rec_IdempotencyKey = [], rec_PipelineName = ''demo'', rec_Event = ''push'', rec_Ref = ''main'',
      rec_CommitSHA = [], rec_Status = StatusQueued, rec_ConfigSHA256 = [], rec_Plan = [],
      rec_CreatedAt = 0, rec_StartedAt = None, rec_FinishedAt = None\<rparr>"

definition sample_runner :: RunnerDescriptor where
  "sample_runner =
     \<lparr>rd_ID = 3, rd_PoolType = ''standard'', rd_OS = ''linux'', rd_Architecture = ''amd64'',
      rd_Executor = ''docker'', rd_Labels = [], rd_Capacity = 2, rd_AvailableDiskBytes = 10 ^ 12,
      rd_ProtocolVersion = 2\<rparr>"

definition sample_id :: "nat \<Rightarrow> uuid" where
  "sample_id i = 100 + of_nat i"

definition sample_create :: call where
  "sample_create = CallCreate sample_plan sample_id sample_record"

text \<open>The jobs of the sample are test/unit (100), build/compile (101) and build/lint (102).\<close>

definition sample_claimed :: MemoryStore where
  "sample_claimed = trace
     [sample_create, CallRenew 1 \<lparr>hb_Runner = sample_runner, hb_ActiveJobs = []\<rparr>,
      CallClaimRunner 2 ''token'' 3] NewMemoryStore"

definition sample_completion :: RunnerCompletion where
  "sample_completion =
     \<lparr>rc_RunnerID = 3, rc_JobID = 101, rc_LeaseToken = ''token'', rc_Status = JobSucceeded\<rparr>"

definition sample_done :: MemoryStore where
  "sample_done = trace [CallCompleteRunner 3 sample_completion] sample_claimed"

lemma sample_claimed_reachable: "mem_steps NewMemoryStore sample_claimed"
  unfolding sample_claimed_def by (rule trace_steps)

lemma sample_done_reachable: "mem_steps NewMemoryStore sample_done"
  unfolding sample_done_def using sample_claimed_reachable trace_steps by (rule rtranclp_trans)

lemma sample_done_statuses:
  "map (\<lambda>j. (mj_key j, mj_status j)) (ms_jobs sample_done) =
   [(''test/unit'', JobBlocked), (''build/compile'', JobSucceeded), (''build/lint'', JobQueued)]"
  by code_simp

end
