(* ===== verification/Lease_Guarantees.thy ===== *)
theory Lease_Guarantees
  imports Store_Traces
begin

text \<open>
  The lease protocol of the in-memory store: what a claim grants, that a job is completed at most once,
  what a heartbeat renews and what the recovery of expired leases does.
\<close>

section \<open>Refinement\<close>

text \<open>
  C22 (refinement). Every operation of the in-memory store makes zero or more steps of the abstract run
  machine: seen as jobs with dependencies and statuses and as runs with statuses, the store only ever
  submits, assigns, starts, releases, requeues, completes and expires jobs the way the machine allows.
\<close>

theorem store_refines_machine:
  assumes "mem_step m m'"
  shows "run_steps False (mem_view m) (mem_view m')"
  using assms by (rule mem_step_refines)

theorem store_refines_machine_witness:
  "run_steps False (mem_view sample_claimed) (mem_view (fst (ClaimJob 3 ''t'' sample_claimed)))"
proof -
  have "mem_step sample_claimed (fst (ClaimJob 3 ''t'' sample_claimed))"
    by (rule mem_step.claim [of 3 "''t''" _ _ "snd (ClaimJob 3 ''t'' sample_claimed)"]) simp
  then show ?thesis by (rule store_refines_machine)
qed

section \<open>Looking a job up\<close>

lemma findJob_iff:
  "findJob m jobID = Some j \<longleftrightarrow>
     (\<exists>i<length (ms_jobs m). ms_jobs m ! i = j \<and> job_ids m ! i = jobID \<and> (\<forall>k<i. job_ids m ! k \<noteq> jobID))"
  unfolding findJob_def find_Some_iff job_ids_def by auto

text \<open>Later stores find the job at the same place.\<close>

lemma findJob_later:
  assumes "findJob m jobID = Some j" and "mem_steps m m'"
  obtains i where "i < length (ms_jobs m)" "ms_jobs m ! i = j" "i < length (ms_jobs m')"
    "findJob m' jobID = Some (ms_jobs m' ! i)"
proof -
  obtain i where i: "i < length (ms_jobs m)" "ms_jobs m ! i = j" "job_ids m ! i = jobID"
    "\<forall>k<i. job_ids m ! k \<noteq> jobID"
    using assms(1) unfolding findJob_iff by blast
  obtain js where js: "job_ids m' = job_ids m @ js" using mem_steps_job_ids [OF assms(2)] by blast
  have len: "length (job_ids m) = length (ms_jobs m)" "length (job_ids m') = length (ms_jobs m')"
    by (simp_all add: job_ids_def)
  have i': "i < length (ms_jobs m')" using i(1) js len by (metis length_append trans_less_add1)
  have eq: "job_ids m' ! k = job_ids m ! k" if "k \<le> i" for k
    using that i(1) js len(1) by (simp add: nth_append)
  have "findJob m' jobID = Some (ms_jobs m' ! i)"
    unfolding findJob_iff by (rule exI [of _ i]) (use i i' eq in auto)
  then show thesis using that i i' by blast
qed

section \<open>A job is completed at most once\<close>

lemma find_map_same: "(\<And>x. p (g x) = p x) \<Longrightarrow> List.find p (map g xs) = map_option g (List.find p xs)"
  by (induction xs) auto

lemma find_update_first:
  "(\<And>x. p x \<Longrightarrow> p (f x)) \<Longrightarrow> List.find p (update_first p f xs) = map_option f (List.find p xs)"
  by (induction xs) auto

lemma findJob_update_job:
  "(\<And>j. mj_JobID (f j) = mj_JobID j) \<Longrightarrow> findJob (update_job jobID f m) jobID = map_option f (findJob m jobID)"
  by (simp add: findJob_def update_job_def find_update_first)

lemma findJob_finalizeRun [simp]: "findJob (finalizeRun now r m) = findJob m"
  by (simp add: fun_eq_iff findJob_def store_views)

lemma findJob_unblock:
  "findJob (unblock r m) jobID = map_option (unblock_job r (job_states r (ms_jobs m))) (findJob m jobID)"
  by (simp add: findJob_def unblock_def find_map_same unblock_job_def)

lemma findJob_skip: "findJob (skip_pending r m) jobID = map_option (skip_job r) (findJob m jobID)"
  by (simp add: findJob_def skip_pending_def find_map_same skip_job_def)

lemma complete_tail_final:
  assumes "findJob m jobID = Some job" and "mj_JobID job = jobID" and "terminal_request status"
    and "\<And>j. mj_JobID (f j) = mj_JobID j" and "\<And>j. mj_status (f j) = status"
  shows "findJob (complete_tail now job f status m) jobID = Some (f job)"
proof -
  have s: "status \<noteq> JobBlocked" "status \<noteq> JobQueued" using assms(3) by (auto simp: terminal_request_def)
  show ?thesis
    using assms s
    by (simp add: complete_tail_def Let_def findJob_unblock findJob_skip findJob_update_job
        unblock_job_def skip_job_def)
qed

lemma CompleteRunnerJob_final:
  assumes "CompleteRunnerJob now request m = Inr m'"
  shows "\<exists>j. findJob m' (rc_JobID request) = Some j \<and> mj_status j = rc_Status request \<and> job_final (mj_status j)"
proof -
  let ?f = "\<lambda>j. j\<lparr>mj_status := rc_Status request,
              mj_assignment := (mj_assignment j)\<lparr>as_LeaseToken := []\<rparr>, mj_runnerID := uuid_Nil\<rparr>"
  obtain job where job: "findJob m (rc_JobID request) = Some job" "terminal_request (rc_Status request)"
    "m' = complete_tail now job ?f (rc_Status request) m"
    using assms by (auto simp: CompleteRunnerJob_def split: option.splits if_splits)
  have "mj_JobID job = rc_JobID request" using job(1) by (simp add: findJob_def find_Some_iff) blast
  then have "findJob m' (rc_JobID request) = Some (?f job)"
    using complete_tail_final [OF job(1) _ job(2), of ?f now] job(3) by simp
  then show ?thesis using job(2) by (auto simp: terminal_request_def job_final_def)
qed

lemma final_refused:
  assumes "findJob m jobID = Some j" and "job_final (mj_status j)"
  shows "lr_JobID request = jobID \<Longrightarrow> \<exists>e. AcknowledgeRunnerJob now request m = Inl e"
    and "lr_JobID request = jobID \<Longrightarrow> \<exists>e. ReleaseRunnerJob now request m = Inl e"
    and "lr_JobID request = jobID \<Longrightarrow> \<exists>e. StartRunnerJob now request m = Inl e"
    and "rc_JobID completion = jobID \<Longrightarrow> \<exists>e. CompleteRunnerJob now completion m = Inl e"
  using assms
  by (auto simp: AcknowledgeRunnerJob_def ReleaseRunnerJob_def StartRunnerJob_def CompleteRunnerJob_def job_final_def)

text \<open>
  A job is completed at most once: after a runner's completion was accepted, whatever
  operations follow, every later completion, start, acknowledgement or release of that job is refused with
  an error, whichever runner, token and time it comes with.
\<close>

theorem completed_at_most_once:
  assumes "mem_steps NewMemoryStore m" and "CompleteRunnerJob now request m = Inr m'" and "mem_steps m' m''"
    and "rc_JobID completion = rc_JobID request" and "lr_JobID lease = rc_JobID request"
  shows "(\<exists>e. CompleteRunnerJob now' completion m'' = Inl e) \<and> (\<exists>e. StartRunnerJob now' lease m'' = Inl e) \<and>
    (\<exists>e. AcknowledgeRunnerJob now' lease m'' = Inl e) \<and> (\<exists>e. ReleaseRunnerJob now' lease m'' = Inl e)"
proof -
  obtain j where j: "findJob m' (rc_JobID request) = Some j" "job_final (mj_status j)"
    using CompleteRunnerJob_final [OF assms(2)] by blast
  obtain i where i: "i < length (ms_jobs m')" "ms_jobs m' ! i = j"
    "findJob m'' (rc_JobID request) = Some (ms_jobs m'' ! i)"
    by (rule findJob_later [OF j(1) assms(3)]) blast
  have m': "mem_steps NewMemoryStore m'" using assms(1) mem_step.complete_runner [OF assms(2)] by simp
  have "mj_status (ms_jobs m'' ! i) = mj_status j"
    using mem_final_status [OF m' assms(3) i(1)] i(2) j(2) by simp
  then show ?thesis using final_refused [OF i(3)] j(2) assms(4,5) by metis
qed

section \<open>What a claim grants\<close>

definition live_lease :: "gotime \<Rightarrow> uuid \<Rightarrow> memoryJob \<Rightarrow> bool" where
  "live_lease now r j \<longleftrightarrow> mj_runnerID j = r \<and> job_leased (mj_status j) \<and> leaseAlive now j"

lemma live_leases_filter: "live_leases now r js = length (filter (live_lease now r) js)"
  by (simp add: live_leases_def live_lease_def [abs_def])

lemma live_leases_update:
  assumes "i < length js"
  shows "live_leases now r (js[i := j]) + (if live_lease now r (js ! i) then 1 else 0) =
    live_leases now r js + (if live_lease now r j then 1 else 0)"
  using assms
proof (induction js arbitrary: i)
  case (Cons x js)
  then show ?case by (cases i) (auto simp: live_leases_filter)
qed simp

text \<open>
  A granted claim takes a job that was queued and that the runner can execute, and changes
  nothing but that job; the job is assigned to this runner with a lease of 30 seconds, and the runner then
  holds at most as many live leases as its capacity.
\<close>

theorem ClaimRunnerJob_grants:
  assumes "ClaimRunnerJob now token runnerID m = Inr (m', Some a)" and "ms_runners m runnerID = Some runner"
  shows "\<exists>i<length (ms_jobs m).
    mj_status (ms_jobs m ! i) = JobQueued \<and> runnerMatches (as_Spec (mj_assignment (ms_jobs m ! i))) runner \<and>
    ms_jobs m' = (ms_jobs m)[i := assign_to_runner now token (rd_ID runner) (ms_jobs m ! i)] \<and>
    a = mj_assignment (ms_jobs m' ! i) \<and> mj_runnerID (ms_jobs m' ! i) = rd_ID runner \<and>
    as_LeaseExpires a = now + 30 * Second \<and> as_LeaseToken a = token \<and>
    int (live_leases now (rd_ID runner) (ms_jobs m')) \<le> rd_Capacity runner"
proof -
  let ?f = "assign_to_runner now token (rd_ID runner)"
  obtain job where f: "List.find (claimable runner) (ms_jobs m) = Some job"
    and c: "int (live_leases now (rd_ID runner) (ms_jobs m)) < rd_Capacity runner"
    and a: "a = mj_assignment (?f job)"
    and m': "ms_jobs m' = update_first (claimable runner) ?f (ms_jobs m)"
    using assms by (auto simp: ClaimRunnerJob_def Let_def store_views not_le split: option.splits if_splits)
  obtain i where i: "i < length (ms_jobs m)" "ms_jobs m ! i = job" "claimable runner job"
    "ms_jobs m' = (ms_jobs m)[i := ?f job]"
    using find_first [OF f] m' by metis
  have "\<not> live_lease now (rd_ID runner) job" using i(3) by (simp add: live_lease_def claimable_def)
  then have "live_leases now (rd_ID runner) (ms_jobs m') \<le> live_leases now (rd_ID runner) (ms_jobs m) + 1"
    using live_leases_update [OF i(1), of now "rd_ID runner" "?f job"] i by simp
  then have "int (live_leases now (rd_ID runner) (ms_jobs m')) \<le> rd_Capacity runner" using c by linarith
  then show ?thesis
    using i a by (intro exI [of _ i])
      (simp add: claimable_def assign_to_runner_def assign_job_def RunnerLeaseDuration_def)
qed

section \<open>What a heartbeat renews\<close>

lemma findJob_update_other:
  "jobID \<noteq> other \<Longrightarrow> (\<And>j. mj_JobID (f j) = mj_JobID j) \<Longrightarrow> findJob (update_job jobID f m) other = findJob m other"
proof -
  assume "jobID \<noteq> other" "\<And>j. mj_JobID (f j) = mj_JobID j"
  then have "List.find (\<lambda>j. mj_JobID j = other) (update_first (\<lambda>j. mj_JobID j = jobID) f js) =
      List.find (\<lambda>j. mj_JobID j = other) js" for js
    by (induction js) auto
  then show ?thesis by (simp add: findJob_def update_job_def)
qed

definition renew_answer :: "gotime \<Rightarrow> uuid \<Rightarrow> MemoryStore \<Rightarrow> ActiveLease \<Rightarrow> LeaseResult" where
  "renew_answer now runnerID m active =
     (if renewable now runnerID (al_LeaseToken active) (findJob m (al_JobID active))
      then \<lparr>res_JobID = al_JobID active, res_Renewed = True,
            res_LeaseExpires = now + RunnerLeaseDuration, res_CancelReason = []\<rparr>
      else \<lparr>res_JobID = al_JobID active, res_Renewed = False,
            res_LeaseExpires = time_zero, res_CancelReason = ''lease_invalid''\<rparr>)"

lemma renewable_after_renewal:
  assumes "renew_step now r a (m, rs) = (m1, rs1)"
  shows "renewable now r token (findJob m1 jobID) = renewable now r token (findJob m jobID)"
proof (cases "renewable now r (al_LeaseToken a) (findJob m (al_JobID a))")
  case True
  let ?f = "\<lambda>j. j\<lparr>mj_assignment := (mj_assignment j)\<lparr>as_LeaseExpires := now + RunnerLeaseDuration\<rparr>,
              mj_leaseRenewed := Some now\<rparr>"
  have m1: "m1 = update_job (al_JobID a) ?f m" using assms True by (simp add: renew_step_def)
  obtain job where job: "findJob m (al_JobID a) = Some job" "leaseAlive now job"
    using True by (auto simp: renewable_def validRunnerLease_def split: option.splits)
  show ?thesis
  proof (cases "jobID = al_JobID a")
    case True
    then show ?thesis using m1 job
      by (simp add: findJob_update_job renewable_def validRunnerLease_def leaseAlive_def
          RunnerLeaseDuration_def go_time)
  next
    case False
    then show ?thesis using m1 by (simp add: findJob_update_other)
  qed
next
  case False
  then show ?thesis using assms by (simp add: renew_step_def)
qed

lemma renew_fold_answers:
  "fold (renew_step now r) as (m, rs) = (m', rs') \<Longrightarrow> rs' = rs @ map (renew_answer now r m) as"
proof (induction as arbitrary: m rs)
  case (Cons a as)
  obtain m1 rs1 where s: "renew_step now r a (m, rs) = (m1, rs1)" by fastforce
  have "rs1 = rs @ [renew_answer now r m a]"
    using s by (auto simp: renew_step_def renew_answer_def split: if_splits)
  moreover have "renew_answer now r m1 b = renew_answer now r m b" for b
    by (simp add: renew_answer_def renewable_after_renewal [OF s])
  ultimately show ?case using Cons.IH [of m1 rs1] Cons.prems s by simp
qed simp

lemma renew_fold_frame:
  "fold (renew_step now r) as (m, rs) = (m', rs') \<Longrightarrow>
   ms_records m' = ms_records m \<and> ms_runners m' = ms_runners m \<and>
   map mj_status (ms_jobs m') = map mj_status (ms_jobs m)"
proof (induction as arbitrary: m rs)
  case (Cons a as)
  obtain m1 rs1 where s: "renew_step now r a (m, rs) = (m1, rs1)" by fastforce
  have "ms_records m1 = ms_records m \<and> ms_runners m1 = ms_runners m \<and>
      map mj_status (ms_jobs m1) = map mj_status (ms_jobs m)"
    using s by (auto simp: renew_step_def update_job_def split: if_splits)
  then show ?case using Cons.IH [of m1 rs1] Cons.prems s by simp
qed simp

text \<open>
  A heartbeat answers every lease it names, in order: the lease is renewed for 30 seconds
  exactly when the job is still leased to this runner with this token and has not expired, and is answered
  with a cancellation otherwise; no job changes its status.
\<close>

theorem RenewRunnerLeases_answers:
  assumes "RenewRunnerLeases now request m = Inr (m', out)"
  shows "hr_Jobs out = map (renew_answer now (rd_ID (hb_Runner request)) m) (hb_ActiveJobs request) \<and>
    map mj_status (ms_jobs m') = map mj_status (ms_jobs m) \<and> ms_records m' = ms_records m \<and>
    ms_runners m' (rd_ID (hb_Runner request)) = Some (hb_Runner request)"
proof -
  let ?r = "hb_Runner request"
  let ?m = "m\<lparr>ms_runners := (ms_runners m)(rd_ID ?r \<mapsto> ?r)\<rparr>"
  obtain rs where f: "fold (renew_step now (rd_ID ?r)) (hb_ActiveJobs request) (?m, []) = (m', rs)"
    and out: "hr_Jobs out = rs"
    using assms by (auto simp: RenewRunnerLeases_def Let_def split: if_splits prod.splits)
  have fr: "ms_records m' = ms_records ?m \<and> ms_runners m' = ms_runners ?m \<and>
      map mj_status (ms_jobs m') = map mj_status (ms_jobs ?m)"
    using renew_fold_frame [OF f] .
  have "renew_answer now (rd_ID ?r) ?m = renew_answer now (rd_ID ?r) m"
    by (simp add: fun_eq_iff renew_answer_def findJob_def)
  then show ?thesis using renew_fold_answers [OF f] fr out by simp
qed

section \<open>What the recovery does\<close>

definition expired :: "gotime \<Rightarrow> memoryJob \<Rightarrow> bool" where
  "expired now j \<longleftrightarrow> job_leased (mj_status j) \<and> \<not> leaseAlive now j"

definition expiries :: "gotime \<Rightarrow> MemoryStore \<Rightarrow> bool list" where
  "expiries now m = map (expired now) (ms_jobs m)"

definition trues :: "bool list \<Rightarrow> int" where
  "trues bs = int (length (filter id bs))"

lemma trues_update: "i < length bs \<Longrightarrow> bs ! i \<Longrightarrow> trues (bs[i := False]) = trues bs - 1"
proof (induction bs arbitrary: i)
  case (Cons b bs)
  then show ?case by (cases i) (auto simp: trues_def)
qed simp

lemma trues_take_Suc:
  "k < length bs \<Longrightarrow> trues (take (Suc k) bs) = trues (take k bs) + (if bs ! k then 1 else 0)"
  by (simp add: take_Suc_conv_app_nth trues_def)

lemma trues_nonneg: "0 \<le> trues bs"
  by (simp add: trues_def)

lemma expiries_skip: "expiries now (skip_pending r m) = expiries now m"
  by (auto simp: expiries_def skip_pending_def expired_def skip_job_def leaseAlive_def)

lemma expiries_records:
  "expiries now (finish_all_records t r m) = expiries now m" "expiries now (setRunStatus r st m) = expiries now m"
  "expiries now (resetRunAfterRequeue r m) = expiries now m"
  by (simp_all add: expiries_def store_views)

lemma recover_step_expiries:
  assumes k: "k < length (ms_jobs m)" and s: "recover_step limit now k (m, n, res) = (m', n', res')"
  shows "length (ms_jobs m') = length (ms_jobs m) \<and>
    expiries now m' = (if n < limit \<and> expiries now m ! k then (expiries now m)[k := False] else expiries now m) \<and>
    n' = (if n < limit \<and> expiries now m ! k then n + 1 else n) \<and>
    rr_Requeued res' + rr_Failed res' - n' = rr_Requeued res + rr_Failed res - n \<and>
    rr_Requeued res \<le> rr_Requeued res' \<and> rr_Failed res \<le> rr_Failed res'"
proof -
  let ?job = "ms_jobs m ! k"
  have e: "expiries now m ! k = expired now ?job" using k by (simp add: expiries_def)
  have upd: "expiries now (m\<lparr>ms_jobs := (ms_jobs m)[k := j]\<rparr>) = (expiries now m)[k := False]"
    if "\<not> job_leased (mj_status j)" for j
    using that by (simp add: expiries_def map_update expired_def)
  have len: "length (ms_jobs m') = length (ms_jobs m)" using recover_step_steps [OF k s] by blast
  show ?thesis
  proof (cases "n < limit \<and> expired now ?job")
    case False
    then have "recover_step limit now k (m, n, res) = (m, n, res)"
      unfolding recover_step_def Let_def prod.case expired_def by (intro if_P) linarith
    then show ?thesis using s e False by auto
  next
    case True
    then have cond: "\<not> (n \<ge> limit \<or> \<not> job_leased (mj_status ?job) \<or> leaseAlive now ?job)"
      unfolding expired_def by linarith
    have m': "expiries now m' = (expiries now m)[k := False]" "n' = n + 1"
      "rr_Requeued res' + rr_Failed res' = rr_Requeued res + rr_Failed res + 1"
      "rr_Requeued res \<le> rr_Requeued res' \<and> rr_Failed res \<le> rr_Failed res'"
      using s cond unfolding recover_step_def Let_def prod.case if_not_P [OF cond]
      by (auto simp: expiries_skip expiries_records upd requeue_job_def fail_job_def split: if_splits)
    then show ?thesis using True len e by simp
  qed
qed

lemma recover_fold_expiries:
  assumes "fold (recover_step limit now) [0..<k] (m, 0, \<lparr>rr_Requeued = 0, rr_Failed = 0\<rparr>) = (m', n, res)"
    and "k \<le> length (ms_jobs m)" and "0 \<le> limit"
  shows "length (ms_jobs m') = length (ms_jobs m) \<and> drop k (expiries now m') = drop k (expiries now m) \<and>
    n = min limit (trues (take k (expiries now m))) \<and> trues (expiries now m') = trues (expiries now m) - n \<and>
    rr_Requeued res + rr_Failed res = n \<and> 0 \<le> rr_Requeued res \<and> 0 \<le> rr_Failed res"
  using assms(1,2)
proof (induction k arbitrary: m' n res)
  case 0
  then show ?case using assms(3) by (auto simp: trues_def)
next
  case (Suc k)
  obtain m1 n1 res1 where f: "fold (recover_step limit now) [0..<k] (m, 0, \<lparr>rr_Requeued = 0, rr_Failed = 0\<rparr>) = (m1, n1, res1)"
    using prod_cases3 by blast
  have s: "recover_step limit now k (m1, n1, res1) = (m', n, res)" using Suc.prems(1) f by simp
  note IH = Suc.IH [OF f]
  have k: "k < length (ms_jobs m1)" using IH Suc.prems(2) by simp
  note st = recover_step_expiries [OF k s]
  let ?b = "expiries now m" and ?b1 = "expiries now m1" and ?b' = "expiries now m'"
  have len: "length ?b1 = length ?b" "k < length ?b" using IH Suc.prems(2) by (simp_all add: expiries_def)
  have d: "drop k ?b1 = drop k ?b" using IH Suc.prems(2) by simp
  then have bk: "?b1 ! k = ?b ! k" using len by (metis hd_drop_conv_nth)
  have drop': "drop (Suc k) ?b' = drop (Suc k) ?b"
    using st d by (metis drop_Suc drop_update_cancel lessI tl_drop)
  show ?case
    using IH Suc.prems(2) st drop' bk trues_take_Suc [OF len(2)] trues_update [of k ?b1] len
    by (auto simp: min_def split: if_splits)
qed

text \<open>
  The recovery handles the expired leases and nothing more: the number of jobs it requeues
  and fails together is the number of expired leases, or the limit if that is smaller, and that many fewer
  expired leases remain; in particular none remains when the limit was not reached.
\<close>

theorem RecoverExpiredRunnerLeases_counts:
  assumes "RecoverExpiredRunnerLeases now limit m = Inr (m', out)"
  shows "rr_Requeued out + rr_Failed out = min limit (trues (expiries now m)) \<and>
    0 \<le> rr_Requeued out \<and> 0 \<le> rr_Failed out \<and>
    trues (expiries now m') = trues (expiries now m) - min limit (trues (expiries now m)) \<and>
    (trues (expiries now m) \<le> limit \<longrightarrow> (\<forall>j\<in>set (ms_jobs m'). \<not> expired now j))"
proof -
  obtain n where f: "fold (recover_step limit now) [0..<length (ms_jobs m)]
      (m, 0, \<lparr>rr_Requeued = 0, rr_Failed = 0\<rparr>) = (m', n, out)" and l: "0 \<le> limit"
    using assms by (auto simp: RecoverExpiredRunnerLeases_def split: if_splits prod.splits)
  have "take (length (ms_jobs m)) (expiries now m) = expiries now m" by (simp add: expiries_def)
  note r = recover_fold_expiries [OF f order_refl l, unfolded this]
  have "\<not> expired now j" if "trues (expiries now m') = 0" "j \<in> set (ms_jobs m')" for j
    using that by (auto simp: trues_def expiries_def filter_empty_conv)
  then show ?thesis using r by (auto simp: min_def)
qed

section \<open>Witnesses\<close>

theorem dependencies_before_start_witness:
  "job_states 7 (ms_jobs sample_done) ''build/compile'' = Some JobSucceeded"
proof -
  have j: "ms_jobs sample_done ! 2 \<in> set (ms_jobs sample_done)" by (rule nth_mem) code_simp
  have "mj_status (ms_jobs sample_done ! 2) \<notin> {JobBlocked, JobSkipped}" by code_simp
  moreover have "''build/compile'' \<in> set (mj_dependencies (ms_jobs sample_done ! 2))" by code_simp
  moreover have "mj_RunID (ms_jobs sample_done ! 2) = 7" by code_simp
  ultimately show ?thesis using dependencies_before_start [OF sample_done_reachable j] by simp
qed

definition sample_finished :: MemoryStore where
  "sample_finished = trace
     [CallClaim 4 ''a'', CallComplete 5 102 ''a'' JobSucceeded,
      CallClaim 6 ''b'', CallComplete 7 100 ''b'' JobSucceeded] sample_done"

lemma sample_finished_reachable: "mem_steps NewMemoryStore sample_finished" "mem_steps sample_done sample_finished"
  unfolding sample_finished_def using sample_done_reachable trace_steps by (blast intro: rtranclp_trans)+

theorem run_status_sound_witness:
  "map rec_Status (ms_records sample_finished) = [StatusSucceeded] \<and>
   mj_status ` {j \<in> set (ms_jobs sample_finished). mj_RunID j = rec_ID (hd (ms_records sample_finished))} \<subseteq> {JobSucceeded} \<and>
   rec_FinishedAt (hd (ms_records sample_finished)) \<noteq> None"
proof -
  have l: "map rec_Status (ms_records sample_finished) = [StatusSucceeded]" by code_simp
  then have r: "hd (ms_records sample_finished) \<in> set (ms_records sample_finished)"
    and s: "rec_Status (hd (ms_records sample_finished)) = StatusSucceeded"
    by (cases "ms_records sample_finished"; simp)+
  show ?thesis
    using run_status_sound [OF sample_finished_reachable(1) r refl] l s by (simp add: Terminal_def)
qed

theorem final_status_forever_witness:
  "mj_status (ms_jobs sample_finished ! 1) = JobSucceeded \<and> mj_JobID (ms_jobs sample_finished ! 1) = 101"
proof -
  have "1 < length (ms_jobs sample_done)" "job_final (mj_status (ms_jobs sample_done ! 1))"
    "mj_status (ms_jobs sample_done ! 1) = JobSucceeded" "mj_JobID (ms_jobs sample_done ! 1) = 101"
    by code_simp+
  then show ?thesis
    using final_status_forever [OF sample_done_reachable sample_finished_reachable(2), of 1] by simp
qed

theorem compiled_run_never_stuck_witness:
  "\<exists>j\<in>set (ms_jobs sample_done). mj_RunID j = 7 \<and> mj_status j \<in> {JobQueued, JobAssigned, JobRunning}"
proof -
  let ?u = "\<lambda>_ :: bytes. Some sample_plan"
  have "\<exists>m' out. Create ?u sample_id sample_record NewMemoryStore = Inr (m', out)"
    by (simp add: Create_def NewMemoryStore_def)
  then obtain m' out where c: "Create ?u sample_id sample_record NewMemoryStore = Inr (m', out)" by blast
  have q: "rec_Status sample_record = StatusQueued" "rec_ID sample_record = 7"
    by (simp_all add: sample_record_def)
  have "sample_record\<lparr>rec_Status := StatusQueued\<rparr> = sample_record" by (simp add: sample_record_def)
  then have e: "exec sample_create NewMemoryStore = m'"
    using c by (simp add: sample_create_def keep_fst_def)
  have steps: "mem_steps m' sample_done"
    unfolding sample_done_def sample_claimed_def e [symmetric]
    using trace_steps [of "exec sample_create NewMemoryStore"
        "[CallRenew 1 \<lparr>hb_Runner = sample_runner, hb_ActiveJobs = []\<rparr>, CallClaimRunner 2 ''token'' 3,
          CallCompleteRunner 3 sample_completion]"]
    by (simp add: trace_def)
  have l: "map (\<lambda>r. (rec_Status r, rec_ID r)) (ms_records sample_done) = [(StatusRunning, 7)]" by code_simp
  then have r: "hd (ms_records sample_done) \<in> set (ms_records sample_done)"
    "rec_ID (hd (ms_records sample_done)) = rec_ID sample_record"
    "\<not> Terminal (rec_Status (hd (ms_records sample_done)))"
    using q by (cases "ms_records sample_done"; simp add: Terminal_def)+
  show ?thesis
    using compiled_run_never_stuck [OF sample_ranges sample_compiles refl _ c q(1) steps r] q(2) by simp
qed

theorem completed_at_most_once_witness:
  "\<exists>e. CompleteRunnerJob 9 sample_completion sample_finished = Inl e"
proof -
  have "case CompleteRunnerJob 3 sample_completion sample_claimed of Inr _ \<Rightarrow> True | Inl _ \<Rightarrow> False" by code_simp
  then have c: "CompleteRunnerJob 3 sample_completion sample_claimed = Inr sample_done"
    by (simp add: sample_done_def trace_def keep_def split: sum.splits)
  show ?thesis
    using completed_at_most_once [OF sample_claimed_reachable c sample_finished_reachable(2) refl,
        of "\<lparr>lr_RunnerID = 3, lr_JobID = 101, lr_LeaseToken = ''token''\<rparr>"]
    by (simp add: sample_completion_def)
qed

definition sample_ready :: MemoryStore where
  "sample_ready = trace
     [sample_create, CallRenew 1 \<lparr>hb_Runner = sample_runner, hb_ActiveJobs = []\<rparr>] NewMemoryStore"

theorem ClaimRunnerJob_grants_witness:
  "int (live_leases 2 3 (ms_jobs sample_claimed)) \<le> 2"
proof -
  have "case ClaimRunnerJob 2 ''token'' 3 sample_ready of Inr (_, Some _) \<Rightarrow> True | _ \<Rightarrow> False" by code_simp
  then obtain m' a where c: "ClaimRunnerJob 2 ''token'' 3 sample_ready = Inr (m', Some a)"
    by (auto split: sum.splits option.splits prod.splits)
  have m': "m' = sample_claimed"
    using c by (simp add: sample_claimed_def sample_ready_def trace_def keep_fst_def)
  have "ms_runners sample_ready 3 = Some sample_runner" by code_simp
  moreover have "rd_ID sample_runner = 3" "rd_Capacity sample_runner = 2" by code_simp+
  ultimately show ?thesis using ClaimRunnerJob_grants [OF c] m' by auto
qed

definition sample_heartbeat :: HeartbeatRequest where
  "sample_heartbeat =
     \<lparr>hb_Runner = sample_runner,
      hb_ActiveJobs = [\<lparr>al_JobID = 101, al_LeaseToken = ''token'', al_State = ''running''\<rparr>,
                       \<lparr>al_JobID = 102, al_LeaseToken = ''stale'', al_State = ''running''\<rparr>]\<rparr>"

theorem RenewRunnerLeases_answers_witness:
  "\<exists>m' out. RenewRunnerLeases 5 sample_heartbeat sample_claimed = Inr (m', out) \<and>
     map res_Renewed (hr_Jobs out) = [True, False]"
proof -
  have "case RenewRunnerLeases 5 sample_heartbeat sample_claimed of Inr _ \<Rightarrow> True | Inl _ \<Rightarrow> False" by code_simp
  then obtain m' out where c: "RenewRunnerLeases 5 sample_heartbeat sample_claimed = Inr (m', out)"
    by (auto split: sum.splits)
  have "map res_Renewed (map (renew_answer 5 (rd_ID (hb_Runner sample_heartbeat)) sample_claimed)
      (hb_ActiveJobs sample_heartbeat)) = [True, False]"
    by code_simp
  then show ?thesis using RenewRunnerLeases_answers [OF c] c by auto
qed

theorem RecoverExpiredRunnerLeases_counts_witness:
  "\<exists>m' out. RecoverExpiredRunnerLeases (60 * Second) 100 sample_claimed = Inr (m', out) \<and>
     rr_Requeued out + rr_Failed out = 1 \<and> list_all (\<lambda>j. \<not> expired (60 * Second) j) (ms_jobs m')"
proof -
  have "case RecoverExpiredRunnerLeases (60 * Second) 100 sample_claimed of Inr _ \<Rightarrow> True | Inl _ \<Rightarrow> False"
    by code_simp
  then obtain m' out where c: "RecoverExpiredRunnerLeases (60 * Second) 100 sample_claimed = Inr (m', out)"
    by (auto split: sum.splits)
  have "trues (expiries (60 * Second) sample_claimed) = 1" by code_simp
  then show ?thesis using RecoverExpiredRunnerLeases_counts [OF c] c by auto
qed

section \<open>A failed run can be reopened\<close>

definition two_job_plan :: Plan where
  "two_job_plan = sample_plan\<lparr>plan_Stages :=
     map (\<lambda>s. s\<lparr>ps_DependsOn := [], ps_Jobs := [hd (ps_Jobs s)]\<rparr>) (plan_Stages sample_plan)\<rparr>"

text \<open>
  C30 (error). The recovery does not keep the run machine of \<open>state.go\<close>: with two expired leases in one run,
  one of a running job and one of an assigned job, a single recovery pass first fails and finishes the
  run and then puts the other job back into the queue, where the next claim turns the failed run into a
  running one, a change that \<open>ValidateTransition\<close> forbids.
\<close>

theorem recovery_reopens_failed_run:
  "let m1 = trace [CallCreate two_job_plan sample_id sample_record, CallClaim 1 ''x'', CallStart 2 100 ''x'',
                   CallClaim 3 ''y'', CallRecover (60 * Hour) 10] NewMemoryStore;
       m2 = trace [CallClaim (61 * Hour) ''z''] m1
   in map rec_Status (ms_records m1) = [StatusFailed] \<and> map rec_Status (ms_records m2) = [StatusRunning] \<and>
      \<not> ValidateTransition StatusFailed StatusRunning"
  by code_simp

end
