(* ===== verification/Authorization_Policy.thy ===== *)
theory Authorization_Policy
  imports Prelude
begin

text \<open>
  The authorization policy of \<open>src/internal/authorization/policy.go\<close>: a pure decision over an identity, a
  request with the ancestry of its resource, and the grants that the server resolved. The string types of
  the source are datatypes with one more constructor for any other string.
\<close>

datatype ScopeKind = Instance | Organization | Project | Environment | OtherKind string

record Scope =
  sc_Kind :: ScopeKind
  sc_ID :: uuid

text \<open>\<open>NoProtection\<close> is the empty string.\<close>

datatype Protection = Protected | Unprotected | NoProtection | OtherProtection string

record Resource =
  rs_Path :: "Scope list"
  rs_Protection :: Protection

record Principal =
  pr_ID :: uuid
  pr_Active :: bool

datatype Role = Viewer | Developer | Maintainer | Admin | Deployer | Approver | OtherRole string

record Grant =
  gr_SubjectID :: uuid
  gr_Scope :: Scope
  gr_Role :: Role

datatype Action =
    ResourceRead | RunRead | RunCreate | RunCancel | PipelineWrite | RepositoryManage | SecretManage
  | EnvironmentManage | DeploymentRead | DeploymentCreate | DeploymentApprove | MembersManage | AuditRead
  | RunnerManage | InstanceManage | OtherAction string

record Request =
  rq_Action :: Action
  rq_Resource :: Resource
  rq_RequestedBy :: uuid

section \<open>The checks\<close>

definition scope_order :: "ScopeKind list" where
  "scope_order = [Instance, Organization, Project, Environment]"

text \<open>One iteration of the loop over the path, at index \<open>i\<close>.\<close>

definition scope_valid :: "Scope list \<Rightarrow> nat \<Rightarrow> bool" where
  "scope_valid path i \<longleftrightarrow>
     sc_Kind (path ! i) = scope_order ! i \<and> sc_ID (path ! i) \<noteq> uuid_Nil \<and>
     list_all (\<lambda>previous. sc_ID previous \<noteq> sc_ID (path ! i)) (take i path)"

definition validResource :: "Resource \<Rightarrow> bool" where
  "validResource resource =
     (let path = rs_Path resource in
      if length path < 1 \<or> length path > length scope_order then False
      else if \<not> list_all (scope_valid path) [0..<length path] then False
      else if length path = 4
      then rs_Protection resource = Protected \<or> rs_Protection resource = Unprotected
      else rs_Protection resource = NoProtection)"

definition validActionTarget :: "Action \<Rightarrow> ScopeKind \<Rightarrow> bool" where
  "validActionTarget action kind =
     (case action of
        ResourceRead \<Rightarrow> True | MembersManage \<Rightarrow> True | AuditRead \<Rightarrow> True
      | RunRead \<Rightarrow> kind = Project | RunCreate \<Rightarrow> kind = Project | RunCancel \<Rightarrow> kind = Project
      | PipelineWrite \<Rightarrow> kind = Project | RepositoryManage \<Rightarrow> kind = Project
      | SecretManage \<Rightarrow> kind = Organization \<or> kind = Project \<or> kind = Environment
      | EnvironmentManage \<Rightarrow> kind = Environment | DeploymentRead \<Rightarrow> kind = Environment
      | DeploymentCreate \<Rightarrow> kind = Environment | DeploymentApprove \<Rightarrow> kind = Environment
      | RunnerManage \<Rightarrow> kind = Instance | InstanceManage \<Rightarrow> kind = Instance
      | OtherAction _ \<Rightarrow> False)"

definition protectedMutation :: "Action \<Rightarrow> bool" where
  "protectedMutation action \<longleftrightarrow>
     action \<in> set [SecretManage, EnvironmentManage, DeploymentCreate, DeploymentApprove, MembersManage]"

definition role_actions :: "Role \<Rightarrow> Action list" where
  "role_actions role =
     (case role of
        Viewer \<Rightarrow> [ResourceRead, RunRead, DeploymentRead]
      | Developer \<Rightarrow> [ResourceRead, RunRead, RunCreate, RunCancel, PipelineWrite, DeploymentRead]
      | Maintainer \<Rightarrow> [ResourceRead, RunRead, RunCreate, RunCancel, PipelineWrite,
          RepositoryManage, SecretManage, EnvironmentManage, DeploymentRead, DeploymentCreate]
      | Admin \<Rightarrow> [ResourceRead, RunRead, RunCreate, RunCancel, PipelineWrite,
          RepositoryManage, SecretManage, EnvironmentManage, DeploymentRead, DeploymentCreate,
          MembersManage, AuditRead, RunnerManage, InstanceManage]
      | Deployer \<Rightarrow> [ResourceRead, DeploymentRead, DeploymentCreate]
      | Approver \<Rightarrow> [ResourceRead, DeploymentRead, DeploymentApprove]
      | OtherRole _ \<Rightarrow> [])"

definition roleAllows :: "Role \<Rightarrow> Action \<Rightarrow> bool" where
  "roleAllows role action \<longleftrightarrow> action \<in> set (role_actions role)"

text \<open>The loop over the grants returns at the first one that no \<open>continue\<close> rejects.\<close>

fun grants_allow :: "uuid \<Rightarrow> Action \<Rightarrow> bool \<Rightarrow> Scope \<Rightarrow> Scope list \<Rightarrow> Grant list \<Rightarrow> bool" where
  "grants_allow subject action exact target path [] = False"
| "grants_allow subject action exact target path (grant # grants) =
     (if gr_SubjectID grant \<noteq> subject \<or> \<not> roleAllows (gr_Role grant) action
      then grants_allow subject action exact target path grants
      else if (gr_Role grant = Deployer \<or> gr_Role grant = Approver) \<and> sc_Kind (gr_Scope grant) \<noteq> Environment
      then grants_allow subject action exact target path grants
      else if exact \<and> gr_Scope grant \<noteq> target
      then grants_allow subject action exact target path grants
      else if gr_Scope grant \<in> set path then True
      else grants_allow subject action exact target path grants)"

definition exact_required :: "Request \<Rightarrow> bool" where
  "exact_required request \<longleftrightarrow>
     rq_Action request = DeploymentApprove \<or>
     (rs_Protection (rq_Resource request) = Protected \<and> protectedMutation (rq_Action request))"

definition Allowed :: "Principal \<Rightarrow> Request \<Rightarrow> Grant list \<Rightarrow> bool" where
  "Allowed subject request grants =
     (if \<not> pr_Active subject \<or> pr_ID subject = uuid_Nil \<or> \<not> validResource (rq_Resource request) then False
      else
        (let path = rs_Path (rq_Resource request); target = path ! (length path - 1) in
         if \<not> validActionTarget (rq_Action request) (sc_Kind target) then False
         else if rq_Action request = DeploymentApprove \<and>
                 (rq_RequestedBy request = uuid_Nil \<or> rq_RequestedBy request = pr_ID subject) then False
         else grants_allow (pr_ID subject) (rq_Action request) (exact_required request) target path grants))"

section \<open>What the decision means\<close>

text \<open>A grant that carries the request, as a predicate of the grant alone.\<close>

definition carries :: "Principal \<Rightarrow> Request \<Rightarrow> Grant \<Rightarrow> bool" where
  "carries subject request g \<longleftrightarrow>
     gr_SubjectID g = pr_ID subject \<and> roleAllows (gr_Role g) (rq_Action request) \<and>
     (gr_Role g \<in> {Deployer, Approver} \<longrightarrow> sc_Kind (gr_Scope g) = Environment) \<and>
     (exact_required request \<longrightarrow> gr_Scope g = last (rs_Path (rq_Resource request))) \<and>
     gr_Scope g \<in> set (rs_Path (rq_Resource request))"

definition eligible :: "Principal \<Rightarrow> Request \<Rightarrow> bool" where
  "eligible subject request \<longleftrightarrow>
     pr_Active subject \<and> pr_ID subject \<noteq> 0 \<and> validResource (rq_Resource request) \<and>
     validActionTarget (rq_Action request) (sc_Kind (last (rs_Path (rq_Resource request)))) \<and>
     (rq_Action request = DeploymentApprove \<longrightarrow>
        rq_RequestedBy request \<noteq> 0 \<and> rq_RequestedBy request \<noteq> pr_ID subject)"

lemma validResource_path: "validResource r \<Longrightarrow> rs_Path r \<noteq> []"
  by (auto simp: validResource_def Let_def)

lemma grants_allow_iff:
  "grants_allow subject action exact target path gs \<longleftrightarrow>
     (\<exists>g\<in>set gs. gr_SubjectID g = subject \<and> roleAllows (gr_Role g) action \<and>
        (gr_Role g \<in> {Deployer, Approver} \<longrightarrow> sc_Kind (gr_Scope g) = Environment) \<and>
        (exact \<longrightarrow> gr_Scope g = target) \<and> gr_Scope g \<in> set path)"
proof (induction gs)
  case (Cons g gs)
  show ?case unfolding grants_allow.simps Cons.IH by (simp split: if_split) blast
qed simp

lemma Allowed_iff: "Allowed p r gs \<longleftrightarrow> eligible p r \<and> (\<exists>g\<in>set gs. carries p r g)"
proof (cases "validResource (rq_Resource r)")
  case True
  let ?path = "rs_Path (rq_Resource r)"
  have l: "?path ! (length ?path - 1) = last ?path"
    using validResource_path [OF True] by (simp add: last_conv_nth)
  show ?thesis
    unfolding Allowed_def Let_def l grants_allow_iff eligible_def carries_def using True by simp blast
next
  case False
  then show ?thesis by (simp add: Allowed_def eligible_def)
qed

lemma valid_env_path:
  assumes "validResource r" and "sc_Kind (last (rs_Path r)) = Environment"
  shows "length (rs_Path r) = 4"
proof -
  let ?path = "rs_Path r"
  have ne: "?path \<noteq> []" and len: "length ?path \<le> 4"
    and all: "\<forall>i<length ?path. scope_valid ?path i"
    using assms(1) by (auto simp: validResource_def Let_def scope_order_def split: if_splits)
  have "scope_valid ?path (length ?path - 1)" using all ne by simp
  then have "scope_order ! (length ?path - 1) = Environment"
    using assms(2) ne by (simp add: scope_valid_def last_conv_nth)
  moreover have "length ?path - 1 \<in> {0, 1, 2, 3}" using len by auto
  ultimately show ?thesis using ne len by (auto simp: scope_order_def)
qed

lemma approve_role: "roleAllows role DeploymentApprove \<longleftrightarrow> role = Approver"
  by (cases role) (simp_all add: roleAllows_def role_actions_def)

text \<open>
  C33 (safety). Separation of duties: an approval is allowed only to an active principal other than the one
  who requested the deployment, on an environment, and only by a grant of the approver role on exactly that
  environment; no other role, and no grant at a broader scope, ever approves.
\<close>

theorem approval_separation:
  assumes "Allowed p r gs" and "rq_Action r = DeploymentApprove"
  shows "pr_Active p \<and> rq_RequestedBy r \<noteq> pr_ID p \<and> rq_RequestedBy r \<noteq> 0 \<and>
    length (rs_Path (rq_Resource r)) = 4 \<and>
    (\<exists>g\<in>set gs. gr_SubjectID g = pr_ID p \<and> gr_Role g = Approver \<and> gr_Scope g = last (rs_Path (rq_Resource r)) \<and>
       sc_Kind (gr_Scope g) = Environment)"
proof -
  obtain g where e: "eligible p r" and g: "g \<in> set gs" "carries p r g"
    using assms(1) Allowed_iff by blast
  have "sc_Kind (last (rs_Path (rq_Resource r))) = Environment"
    using e assms(2) by (simp add: eligible_def validActionTarget_def)
  then have "length (rs_Path (rq_Resource r)) = 4" using e valid_env_path by (simp add: eligible_def)
  then show ?thesis
    using e g assms(2) by (auto simp: eligible_def carries_def approve_role exact_required_def)
qed

text \<open>
  Changing a protected environment (its secrets, settings, members or deployments) needs a
  grant on exactly that environment: no role on the project, the organization or the instance, the
  administrator's included, is enough.
\<close>

theorem protected_needs_exact_grant:
  assumes "Allowed p r gs" and "rs_Protection (rq_Resource r) = Protected" and "protectedMutation (rq_Action r)"
  shows "\<exists>g\<in>set gs. gr_SubjectID g = pr_ID p \<and> gr_Scope g = last (rs_Path (rq_Resource r)) \<and>
    sc_Kind (gr_Scope g) = Environment \<and> roleAllows (gr_Role g) (rq_Action r)"
proof -
  obtain g where e: "eligible p r" and g: "g \<in> set gs" "carries p r g"
    using assms(1) Allowed_iff by blast
  have len: "length (rs_Path (rq_Resource r)) = 4"
    using e assms(2) by (auto simp: eligible_def validResource_def Let_def split: if_splits)
  have "scope_valid (rs_Path (rq_Resource r)) 3"
    using e len by (auto simp: eligible_def validResource_def Let_def split: if_splits)
  moreover have "last (rs_Path (rq_Resource r)) = rs_Path (rq_Resource r) ! 3"
    using len by (subst last_conv_nth) auto
  ultimately have "sc_Kind (last (rs_Path (rq_Resource r))) = Environment"
    by (simp add: scope_valid_def scope_order_def)
  then show ?thesis using g assms(2,3) by (auto simp: carries_def exact_required_def)
qed

text \<open>
  The decision depends only on the set of the principal's own grants, and more grants never
  take a permission away.
\<close>

theorem Allowed_own_grants:
  "(Allowed p r gs \<longleftrightarrow> Allowed p r (filter (\<lambda>g. gr_SubjectID g = pr_ID p) gs)) \<and>
   (set gs \<subseteq> set hs \<longrightarrow> Allowed p r gs \<longrightarrow> Allowed p r hs)"
  by (auto simp: Allowed_iff carries_def)

text \<open>The chain of general roles, each of which has the permissions of the ones before it.\<close>

definition role_rank :: "Role \<Rightarrow> nat" where
  "role_rank role =
     (case role of Viewer \<Rightarrow> 1 | Developer \<Rightarrow> 2 | Maintainer \<Rightarrow> 3 | Admin \<Rightarrow> 4 | _ \<Rightarrow> 0)"

lemma roleAllows_mono:
  "0 < role_rank a \<Longrightarrow> role_rank a \<le> role_rank b \<Longrightarrow> roleAllows a act \<Longrightarrow> roleAllows b act"
  by (cases a; cases b) (auto simp: role_rank_def roleAllows_def role_actions_def)

text \<open>
  Promotion is safe: raising the role of a grant along viewer, developer, maintainer, admin
  keeps everything that was allowed; and a grant at a scope reaches every valid resource below it, unless
  the action needs an exact grant.
\<close>

theorem promotion_and_inheritance:
  "(0 < role_rank (gr_Role g) \<and> role_rank (gr_Role g) \<le> role_rank role \<and> Allowed p r (g # gs) \<longrightarrow>
      Allowed p r (g\<lparr>gr_Role := role\<rparr> # gs)) \<and>
   (eligible p r \<and> \<not> exact_required r \<and> gr_SubjectID g = pr_ID p \<and> 0 < role_rank (gr_Role g) \<and>
      roleAllows (gr_Role g) (rq_Action r) \<and> gr_Scope g \<in> set (rs_Path (rq_Resource r)) \<longrightarrow> Allowed p r (g # gs))"
proof -
  have "role \<notin> {Deployer, Approver}" if "0 < role_rank role" for role
    using that by (auto simp: role_rank_def)
  then show ?thesis
    using roleAllows_mono [of "gr_Role g" role "rq_Action r"]
    by (fastforce simp: Allowed_iff carries_def)
qed

section \<open>Witnesses\<close>

definition sample_path :: "Scope list" where
  "sample_path = [\<lparr>sc_Kind = Instance, sc_ID = 1\<rparr>, \<lparr>sc_Kind = Organization, sc_ID = 2\<rparr>,
     \<lparr>sc_Kind = Project, sc_ID = 3\<rparr>, \<lparr>sc_Kind = Environment, sc_ID = 4\<rparr>]"

definition sample_request :: "Action \<Rightarrow> Request" where
  "sample_request a =
     \<lparr>rq_Action = a, rq_Resource = \<lparr>rs_Path = sample_path, rs_Protection = Protected\<rparr>, rq_RequestedBy = 8\<rparr>"

definition sample_grants :: "Grant list" where
  "sample_grants =
     [\<lparr>gr_SubjectID = 9, gr_Scope = \<lparr>sc_Kind = Instance, sc_ID = 1\<rparr>, gr_Role = Admin\<rparr>,
      \<lparr>gr_SubjectID = 9, gr_Scope = \<lparr>sc_Kind = Environment, sc_ID = 4\<rparr>, gr_Role = Approver\<rparr>,
      \<lparr>gr_SubjectID = 9, gr_Scope = \<lparr>sc_Kind = Environment, sc_ID = 4\<rparr>, gr_Role = Deployer\<rparr>]"

definition sample_user :: Principal where
  "sample_user = \<lparr>pr_ID = 9, pr_Active = True\<rparr>"

theorem approval_separation_witness:
  "Allowed sample_user (sample_request DeploymentApprove) sample_grants \<and>
   rq_RequestedBy (sample_request DeploymentApprove) \<noteq> pr_ID sample_user"
proof -
  have a: "Allowed sample_user (sample_request DeploymentApprove) sample_grants" by code_simp
  have "rq_Action (sample_request DeploymentApprove) = DeploymentApprove" by (simp add: sample_request_def)
  then show ?thesis using approval_separation [OF a] a by blast
qed

theorem protected_needs_exact_grant_witness:
  "Allowed sample_user (sample_request DeploymentCreate) sample_grants \<and>
   (\<exists>g\<in>set sample_grants. gr_Scope g = last sample_path \<and> roleAllows (gr_Role g) DeploymentCreate) \<and>
   \<not> Allowed sample_user (sample_request DeploymentCreate) [hd sample_grants]"
proof -
  have a: "Allowed sample_user (sample_request DeploymentCreate) sample_grants"
    "protectedMutation DeploymentCreate" "\<not> Allowed sample_user (sample_request DeploymentCreate) [hd sample_grants]"
    by code_simp+
  then show ?thesis using protected_needs_exact_grant [OF a(1)] by (auto simp: sample_request_def)
qed

theorem Allowed_own_grants_witness:
  "Allowed sample_user (sample_request ResourceRead) sample_grants"
proof -
  have "set [hd sample_grants] \<subseteq> set sample_grants" "Allowed sample_user (sample_request ResourceRead) [hd sample_grants]"
    by code_simp+
  then show ?thesis using Allowed_own_grants by blast
qed

theorem promotion_and_inheritance_witness:
  "Allowed sample_user (sample_request ResourceRead)
     [\<lparr>gr_SubjectID = 9, gr_Scope = \<lparr>sc_Kind = Organization, sc_ID = 2\<rparr>, gr_Role = Viewer\<rparr>]"
proof -
  let ?g = "\<lparr>gr_SubjectID = 9, gr_Scope = \<lparr>sc_Kind = Organization, sc_ID = 2\<rparr>, gr_Role = Viewer\<rparr>"
  have "eligible sample_user (sample_request ResourceRead)" "\<not> exact_required (sample_request ResourceRead)"
    "roleAllows (gr_Role ?g) (rq_Action (sample_request ResourceRead))" "0 < role_rank (gr_Role ?g)"
    "gr_Scope ?g \<in> set (rs_Path (rq_Resource (sample_request ResourceRead)))" "gr_SubjectID ?g = pr_ID sample_user"
    by code_simp+
  then show ?thesis using promotion_and_inheritance by blast
qed

end
