(* ===== verification/Go_Text.thy ===== *)
theory Go_Text
  imports Go_Std
begin

text \<open>
  More of Go's standard library on strings: UTF-8 validity (\<open>unicode/utf8\<close>), control characters
  (\<open>unicode.IsControl\<close> under \<open>strings.IndexFunc\<close>), joining segments, and \<open>path.Clean\<close>.
\<close>

section \<open>UTF-8\<close>

text \<open>The ranges of the continuation bytes after a leading byte; \<open>None\<close> for a byte that starts no rune.\<close>

definition utf8_tail :: "char \<Rightarrow> (int \<times> int) list option" where
  "utf8_tail c =
     (let b = (of_char c :: int); t = (128, 191) in
      if b < 128 then Some []
      else if b < 194 then None
      else if b < 224 then Some [t]
      else if b = 224 then Some [(160, 191), t]
      else if b = 237 then Some [(128, 159), t]
      else if b < 240 then Some [t, t]
      else if b = 240 then Some [(144, 191), t, t]
      else if b < 244 then Some [t, t, t]
      else if b = 244 then Some [(128, 143), t, t]
      else None)"

definition in_range :: "int \<times> int \<Rightarrow> char \<Rightarrow> bool" where
  "in_range r c \<longleftrightarrow> fst r \<le> of_char c \<and> of_char c \<le> snd r"

function ValidString :: "string \<Rightarrow> bool" where
  "ValidString [] = True"
| "ValidString (c # s) =
     (case utf8_tail c of
        None \<Rightarrow> False
      | Some rs \<Rightarrow> list_all2 in_range rs (take (length rs) s) \<and> ValidString (drop (length rs) s))"
  by pat_completeness auto
termination by (relation "measure length") auto

text \<open>
  A control character is a byte below 0x20, 0x7F, or the two-byte encoding of U+0080 to U+009F. Neither can
  be part of another rune, so a search over the runes of any string finds them as substrings.
\<close>

definition control_byte :: "char \<Rightarrow> bool" where
  "control_byte c \<longleftrightarrow> (of_char c :: int) < 32 \<or> (of_char c :: int) = 127"

fun has_control :: "string \<Rightarrow> bool" where
  "has_control [] = False"
| "has_control [a] = control_byte a"
| "has_control (a # b # s) =
     (control_byte a \<or> a = CHR 0xC2 \<and> in_range (128, 159) b \<or> has_control (b # s))"

section \<open>Segments\<close>

fun join :: "char \<Rightarrow> string list \<Rightarrow> string" where
  "join sep [] = []"
| "join sep [w] = w"
| "join sep (w # v # ws) = w @ sep # join sep (v # ws)"

lemma join_split_on [simp]: "join sep (split_on sep s) = s"
proof (induction s)
  case (Cons c s)
  obtain w ws where s: "split_on sep s = w # ws" by (meson neq_Nil_conv split_on_not_Nil)
  show ?case using Cons s by (cases ws) auto
qed simp

lemma split_on_append: "sep \<notin> set w \<Longrightarrow> split_on sep (w @ sep # s) = w # split_on sep s"
  by (induction w) auto

lemma split_on_join: "ws \<noteq> [] \<Longrightarrow> (\<forall>w\<in>set ws. sep \<notin> set w) \<Longrightarrow> split_on sep (join sep ws) = ws"
proof (induction ws rule: join.induct)
  case (3 sep w v ws)
  then show ?case by (simp add: split_on_append)
qed (auto simp: split_on_id)

lemma join_not_Nil: "ws \<noteq> [] \<Longrightarrow> [] \<notin> set ws \<Longrightarrow> join sep ws \<noteq> []"
  by (induction sep ws rule: join.induct) auto

lemma split_on_hd_Nil: "hd (split_on sep s) = [] \<longleftrightarrow> s = [] \<or> hd s = sep"
  by (cases s) (auto split: list.splits)

section \<open>path.Clean\<close>

text \<open>
  The loop over the elements: empty and dot elements are dropped, a dot-dot element removes the element
  before it, is dropped at the root and is kept at the start of a relative path.
\<close>

fun clean_segments :: "bool \<Rightarrow> string list \<Rightarrow> string list \<Rightarrow> string list" where
  "clean_segments rooted out [] = rev out"
| "clean_segments rooted out (w # ws) =
     (if w = [] \<or> w = ''.'' then clean_segments rooted out ws
      else if w = ''..'' then
        (case out of
           [] \<Rightarrow> clean_segments rooted (if rooted then [] else [w]) ws
         | previous # rest \<Rightarrow>
             if previous = ''..'' then clean_segments rooted (w # out) ws else clean_segments rooted rest ws)
      else clean_segments rooted (w # out) ws)"

definition path_Clean :: "string \<Rightarrow> string" where
  "path_Clean p =
     (let rooted = HasPrefix p ''/'';
          body = (if rooted then ''/'' else []) @
                 join (CHR ''/'') (clean_segments rooted [] (split_on (CHR ''/'') p))
      in if body = [] then ''.'' else body)"

definition dot_segment :: "string \<Rightarrow> bool" where
  "dot_segment w \<longleftrightarrow> w = ''.'' \<or> w = ''..''"

lemma clean_segments_plain:
  "\<forall>w\<in>set ws. \<not> dot_segment w \<Longrightarrow> clean_segments rooted out ws = rev out @ filter (\<lambda>w. w \<noteq> []) ws"
  by (induction ws arbitrary: out) (auto simp: dot_segment_def)

lemma path_Clean_plain:
  assumes "\<forall>w\<in>set (split_on (CHR ''/'') p). \<not> dot_segment w" and "\<not> HasPrefix p ''/''" and "p \<noteq> []"
  shows "path_Clean p = p \<longleftrightarrow> (\<forall>w\<in>set (split_on (CHR ''/'') p). w \<noteq> [])"
proof -
  let ?ws = "split_on (CHR ''/'') p" and ?f = "filter (\<lambda>w. w \<noteq> []) (split_on (CHR ''/'') p)"
  have "hd p \<noteq> CHR ''/''" using assms(2,3) by (cases p) auto
  then have "hd ?ws \<noteq> []" using assms(3) split_on_hd_Nil [of "CHR ''/''" p] by simp
  then have "hd ?ws \<in> set ?f" by simp
  then have f: "?f \<noteq> []" by (metis empty_iff empty_set)
  then have ne: "join (CHR ''/'') ?f \<noteq> []" by (rule join_not_Nil) simp
  then have c: "path_Clean p = join (CHR ''/'') ?f"
    using clean_segments_plain [OF assms(1), of False "[]"] assms(2) by (simp add: path_Clean_def Let_def)
  show ?thesis
  proof
    assume "path_Clean p = p"
    then have "split_on (CHR ''/'') (join (CHR ''/'') ?f) = ?ws" using c by simp
    moreover have "split_on (CHR ''/'') (join (CHR ''/'') ?f) = ?f"
      by (rule split_on_join [OF f]) (use split_on_no_sep in auto)
    ultimately have "?f = ?ws" by simp
    then show "\<forall>w\<in>set ?ws. w \<noteq> []" by (simp add: filter_id_conv)
  next
    assume "\<forall>w\<in>set ?ws. w \<noteq> []"
    then have "?f = ?ws" by (simp add: filter_id_conv)
    then show "path_Clean p = p" using c by simp
  qed
qed

text \<open>Lower case hexadecimal digits, \<open>[0-9a-f]\<close>.\<close>

definition hex_lower :: "char \<Rightarrow> bool" where
  "hex_lower c \<longleftrightarrow> is_digit c \<or> (97 \<le> (of_char c :: int) \<and> (of_char c :: int) \<le> 102)"

end
