(* ===== verification/Project_Automation.thy ===== *)
theory Project_Automation
  imports Go_Text
begin

text \<open>
  The project browser and automation contracts of \<open>src/internal/project\<close>: query validation and project
  cursors of \<open>project.go\<close>, and the automation settings, their updates and the pipeline path check of
  \<open>automation.go\<close>. Parsing and printing of identifiers belongs to the third-party package
  \<open>github.com/google/uuid\<close> and is a parameter.
\<close>

section \<open>Queries and cursors\<close>

record Query =
  q_Limit :: int
  q_Search :: string
  q_After :: string

text \<open>True when the source's method returns no error.\<close>

definition Query_Validate :: "Query \<Rightarrow> bool" where
  "Query_Validate q \<longleftrightarrow>
     \<not> (q_Limit q < 1 \<or> q_Limit q > 100 \<or> \<not> ValidString (q_Search q) \<or> length (q_Search q) > 100 \<or>
        CHR 0x00 \<in> set (q_Search q))"

definition ProjectCursor :: "(string \<Rightarrow> uuid option) \<Rightarrow> (uuid \<Rightarrow> string) \<Rightarrow> string \<Rightarrow> uuid option" where
  "ProjectCursor uuid_Parse uuid_String value =
     (if value = [] then Some uuid_Nil
      else (case uuid_Parse value of
              None \<Rightarrow> None
            | Some ident \<Rightarrow> if ident = uuid_Nil \<or> uuid_String ident \<noteq> value then None else Some ident))"

section \<open>Automation settings\<close>

definition DefaultPipelinePath :: string where
  "DefaultPipelinePath = ''.yuanci.yml''"

record AutomationSettings =
  aset_Enabled :: bool
  aset_PipelinePath :: string
  aset_TriggerPush :: bool
  aset_TriggerTag :: bool
  aset_TriggerPullRequest :: bool
  aset_CancelOlderCommits :: bool
  aset_Revision :: int

definition DefaultAutomationSettings :: AutomationSettings where
  "DefaultAutomationSettings =
     \<lparr>aset_Enabled = False, aset_PipelinePath = DefaultPipelinePath, aset_TriggerPush = True,
      aset_TriggerTag = True, aset_TriggerPullRequest = True, aset_CancelOlderCommits = True,
      aset_Revision = 0\<rparr>"

record AutomationUpdate =
  au_Enabled :: bool
  au_PipelinePath :: string
  au_TriggerPush :: bool
  au_TriggerTag :: bool
  au_TriggerPullRequest :: bool
  au_CancelOlderCommits :: bool
  au_ExpectedRevision :: int

record AutomationValidation =
  av_RepositoryID :: uuid
  av_AppRevision :: uuid
  av_SettingsRevision :: int
  av_PipelinePath :: string
  av_CommitSHA :: string
  av_ConfigSHA256 :: string
  av_PipelineName :: string
  av_ValidatedAt :: gotime

definition lowercaseHex :: "string \<Rightarrow> bool" where
  "lowercaseHex s \<longleftrightarrow> s \<noteq> [] \<and> list_all hex_lower s"

definition unsafePathSegment :: "string \<Rightarrow> bool" where
  "unsafePathSegment value \<longleftrightarrow>
     list_ex (\<lambda>segment. segment = ''.'' \<or> segment = ''..'') (split_on (CHR ''/'') value)"

text \<open>The backslash is written by its code.\<close>

definition ValidatePipelinePath :: "string \<Rightarrow> bool" where
  "ValidatePipelinePath value \<longleftrightarrow>
     \<not> (length value < 1 \<or> length value > 256 \<or>
        HasPrefix value ''/'' \<or> Contains value [CHR 0x5C] \<or>
        path_Clean value \<noteq> value \<or> unsafePathSegment value \<or>
        (\<not> HasSuffix value ''.yml'' \<and> \<not> HasSuffix value ''.yaml'') \<or>
        has_control value)"

definition AutomationValidation_Validate :: "AutomationValidation \<Rightarrow> bool" where
  "AutomationValidation_Validate v \<longleftrightarrow>
     \<not> (av_RepositoryID v = uuid_Nil \<or> av_AppRevision v = uuid_Nil \<or> av_SettingsRevision v < 0 \<or>
        \<not> ValidatePipelinePath (av_PipelinePath v) \<or> length (av_CommitSHA v) \<noteq> 40 \<or>
        \<not> lowercaseHex (av_CommitSHA v) \<or> length (av_ConfigSHA256 v) \<noteq> 64 \<or>
        \<not> lowercaseHex (av_ConfigSHA256 v) \<or> av_PipelineName v = [] \<or>
        length (av_PipelineName v) > 128 \<or> av_ValidatedAt v = time_zero)"

definition AutomationUpdate_Validate :: "AutomationUpdate \<Rightarrow> bool" where
  "AutomationUpdate_Validate u \<longleftrightarrow>
     \<not> (au_ExpectedRevision u < 0 \<or> \<not> ValidatePipelinePath (au_PipelinePath u) \<or>
        (au_Enabled u \<and> \<not> au_TriggerPush u \<and> \<not> au_TriggerTag u \<and> \<not> au_TriggerPullRequest u))"

section \<open>Properties\<close>

text \<open>
  The path check accepts exactly the relative YAML file names that stay inside the
  repository: up to 256 bytes ending in .yml or .yaml, without backslash or control character, whose
  segments between slashes are all non-empty and none of them a dot or dot-dot.
\<close>

theorem ValidatePipelinePath_exact:
  "ValidatePipelinePath p \<longleftrightarrow>
     length p \<le> 256 \<and> CHR 0x5C \<notin> set p \<and> \<not> has_control p \<and>
     (HasSuffix p ''.yml'' \<or> HasSuffix p ''.yaml'') \<and>
     list_all (\<lambda>w. w \<notin> {[], ''.'', ''..''}) (split_on (CHR ''/'') p)"
proof -
  have b: "Contains p [c] \<longleftrightarrow> c \<in> set p" for c
    by (auto simp: Contains_iff in_set_conv_decomp)
  have first: "HasPrefix p ''/'' \<Longrightarrow> [] \<in> set (split_on (CHR ''/'') p)"
    by (cases p) auto
  have empty: "p = [] \<Longrightarrow> \<not> HasSuffix p ''.yml'' \<and> \<not> HasSuffix p ''.yaml''"
    by (simp add: HasSuffix_def)
  have seg: "unsafePathSegment p \<longleftrightarrow> (\<exists>w\<in>set (split_on (CHR ''/'') p). dot_segment w)"
    by (simp add: unsafePathSegment_def dot_segment_def list_ex_iff)
  show ?thesis
  proof (cases "p = [] \<or> HasPrefix p ''/'' \<or> unsafePathSegment p")
    case True
    then show ?thesis
      unfolding ValidatePipelinePath_def b using first empty by (auto simp: seg dot_segment_def)
  next
    case False
    then have "path_Clean p = p \<longleftrightarrow> (\<forall>w\<in>set (split_on (CHR ''/'') p). w \<noteq> [])"
      by (intro path_Clean_plain) (auto simp: seg)
    then show ?thesis
      unfolding ValidatePipelinePath_def b using False by (auto simp: seg dot_segment_def not_less Suc_le_eq)
  qed
qed

text \<open>
  Project cursors are canonical: for a parser and a printer of identifiers of which the
  parser reads every printed identifier back, a cursor decodes to an identifier exactly when it is that
  identifier printed (or the empty first-page cursor), so two cursors of one position are equal.
\<close>

theorem ProjectCursor_canonical:
  assumes "\<And>ident. uuid_Parse (uuid_String ident) = Some ident" and "\<And>ident. uuid_String ident \<noteq> []"
  shows "ProjectCursor uuid_Parse uuid_String value = Some ident \<longleftrightarrow>
    (if ident = 0 then value = [] else value = uuid_String ident)"
proof (cases "uuid_Parse value")
  case None
  then have "value \<noteq> uuid_String ident" using assms(1) [of ident] by auto
  then show ?thesis using None by (auto simp: ProjectCursor_def)
next
  case (Some found)
  have "uuid_String found = value \<and> found = ident \<longleftrightarrow> value = uuid_String ident"
    using Some assms(1) [of ident] by auto
  then show ?thesis using Some assms(2) [of ident] by (auto simp: ProjectCursor_def)
qed

text \<open>
  Every accepted update keeps the automation usable: a safe pipeline path, a revision that
  is not negative, and at least one trigger when it is enabled; the default settings are such settings.
\<close>

theorem AutomationUpdate_accepts:
  "(AutomationUpdate_Validate u \<longrightarrow>
      0 \<le> au_ExpectedRevision u \<and> (HasSuffix (au_PipelinePath u) ''.yml'' \<or> HasSuffix (au_PipelinePath u) ''.yaml'') \<and>
      ''..'' \<notin> set (split_on (CHR ''/'') (au_PipelinePath u)) \<and> \<not> HasPrefix (au_PipelinePath u) ''/'' \<and>
      (au_Enabled u \<longrightarrow> au_TriggerPush u \<or> au_TriggerTag u \<or> au_TriggerPullRequest u)) \<and>
   AutomationUpdate_Validate
     \<lparr>au_Enabled = True, au_PipelinePath = aset_PipelinePath DefaultAutomationSettings,
      au_TriggerPush = aset_TriggerPush DefaultAutomationSettings,
      au_TriggerTag = aset_TriggerTag DefaultAutomationSettings,
      au_TriggerPullRequest = aset_TriggerPullRequest DefaultAutomationSettings,
      au_CancelOlderCommits = aset_CancelOlderCommits DefaultAutomationSettings,
      au_ExpectedRevision = aset_Revision DefaultAutomationSettings\<rparr>"
proof (rule conjI)
  show "AutomationUpdate_Validate u \<longrightarrow>
      0 \<le> au_ExpectedRevision u \<and> (HasSuffix (au_PipelinePath u) ''.yml'' \<or> HasSuffix (au_PipelinePath u) ''.yaml'') \<and>
      ''..'' \<notin> set (split_on (CHR ''/'') (au_PipelinePath u)) \<and> \<not> HasPrefix (au_PipelinePath u) ''/'' \<and>
      (au_Enabled u \<longrightarrow> au_TriggerPush u \<or> au_TriggerTag u \<or> au_TriggerPullRequest u)"
    by (auto simp: AutomationUpdate_Validate_def ValidatePipelinePath_def unsafePathSegment_def list_ex_iff)
qed code_simp

theorem AutomationUpdate_accepts_witness:
  "''..'' \<notin> set (split_on (CHR ''/'') ''ci/build.yml'')"
proof -
  let ?u = "\<lparr>au_Enabled = True, au_PipelinePath = ''ci/build.yml'', au_TriggerPush = True, au_TriggerTag = False,
      au_TriggerPullRequest = False, au_CancelOlderCommits = True, au_ExpectedRevision = 3\<rparr>"
  have "AutomationUpdate_Validate ?u" by code_simp
  then show ?thesis using AutomationUpdate_accepts [of ?u] by simp
qed

definition sample_print :: "uuid \<Rightarrow> string" where
  "sample_print ident = format_nat (unat ident)"

definition sample_parse :: "string \<Rightarrow> uuid option" where
  "sample_parse s = Some (of_int (digits_val s))"

theorem ProjectCursor_canonical_witness:
  "ProjectCursor sample_parse sample_print (sample_print 42) = Some 42"
proof -
  have p: "sample_parse (sample_print ident) = Some ident" for ident
    by (simp add: sample_parse_def sample_print_def)
  have "sample_print ident \<noteq> []" for ident using format_nat_digits by (simp add: sample_print_def)
  then show ?thesis using ProjectCursor_canonical [of sample_parse sample_print "sample_print 42" 42] p by simp
qed

end
