(* ===== verification/Redaction.thy ===== *)
theory Redaction
  imports Go_Std
begin

text \<open>
  The streaming secret redactor of \<open>src/internal/runner/redaction.go\<close>. The writer that receives the redacted
  output is any implementation of \<open>io.Writer\<close> and a parameter: a function from its state and the bytes to
  the new state, the count and an error. Overwriting secrets in memory has no effect on what is observed
  and is not modelled.
\<close>

record redactingWriter =
  rw_secrets :: "bytes list"
  rw_pending :: bytes
  rw_closed :: bool

datatype io_error = ErrClosedPipe | ErrShortWrite | TargetError string

type_synonym 't target = "'t \<Rightarrow> bytes \<Rightarrow> 't \<times> int \<times> io_error option"

datatype redaction_error = TooManyValues | InvalidValueBounds

section \<open>Construction\<close>

fun check_secrets :: "int \<Rightarrow> bytes list \<Rightarrow> bytes list \<Rightarrow> redaction_error + bytes list" where
  "check_secrets sum_len acc [] = Inr acc"
| "check_secrets sum_len acc (secret # rest) =
     (let sum_len' = sum_len + int (length secret) in
      if length secret = 0 \<or> length secret > 8192 \<or> sum_len' > 65536 then Inl InvalidValueBounds
      else check_secrets sum_len' (acc @ [secret]) rest)"

definition newRedactingWriter :: "bytes list \<Rightarrow> redaction_error + redactingWriter" where
  "newRedactingWriter secrets =
     (if length secrets > 64 then Inl TooManyValues
      else (case check_secrets 0 [] secrets of
              Inl e \<Rightarrow> Inl e
            | Inr ss \<Rightarrow> Inr \<lparr>rw_secrets = ss, rw_pending = [], rw_closed = False\<rparr>))"

section \<open>The drain loop\<close>

definition REDACTED :: bytes where
  "REDACTED = ''[REDACTED]''"

definition could_grow :: "bytes list \<Rightarrow> bytes \<Rightarrow> bool" where
  "could_grow secrets pending \<longleftrightarrow>
     list_ex (\<lambda>s. length pending < length s \<and> HasPrefix s pending) secrets"

definition longest_match :: "bytes list \<Rightarrow> bytes \<Rightarrow> nat" where
  "longest_match secrets pending =
     fold (\<lambda>s m. if length s \<le> length pending \<and> HasPrefix pending s then max m (length s) else m) secrets 0"

function drain :: "bytes list \<Rightarrow> bool \<Rightarrow> bytes \<Rightarrow> bytes \<Rightarrow> bytes \<times> bytes" where
  "drain secrets final out pending =
     (if pending = [] then (out, pending)
      else
        (let m = longest_match secrets pending; prefix = could_grow secrets pending in
         if prefix \<and> \<not> final then (out, pending)
         else if m > 0 then drain secrets final (out @ REDACTED) (drop m pending)
         else if prefix then drain secrets final (out @ REDACTED) (drop (length pending) pending)
         else drain secrets final (out @ [hd pending]) (drop 1 pending)))"
  by pat_completeness auto
termination
  by (relation "measure (\<lambda>(secrets, final, out, pending). length pending)") auto

declare drain.simps [simp del]

section \<open>Writing and closing\<close>

definition writeRedacted :: "'t target \<Rightarrow> 't \<Rightarrow> bytes \<Rightarrow> 't \<times> io_error option" where
  "writeRedacted write t p =
     (if length p = 0 then (t, None)
      else (case write t p of
              (t', n, err) \<Rightarrow>
                (t', if err = None \<and> n \<noteq> int (length p) then Some ErrShortWrite else err)))"

text \<open>The loop over the bytes of one call: the output is handed on whenever it reaches 16384 bytes.\<close>

fun write_loop :: "'t target \<Rightarrow> bytes list \<Rightarrow> int \<Rightarrow> bytes \<Rightarrow> bytes \<Rightarrow> 't \<Rightarrow> bytes
    \<Rightarrow> bytes \<times> bytes \<times> 't \<times> (int \<times> io_error) option" where
  "write_loop write secrets i pending out t [] = (pending, out, t, None)"
| "write_loop write secrets i pending out t (b # p) =
     (case drain secrets False out (pending @ [b]) of
        (out', pending') \<Rightarrow>
          if length out' \<ge> 16384 then
            (case writeRedacted write t out' of
               (t', Some e) \<Rightarrow> (pending', out', t', Some (i + 1, e))
             | (t', None) \<Rightarrow> write_loop write secrets (i + 1) pending' [] t' p)
          else write_loop write secrets (i + 1) pending' out' t p)"

definition Write :: "'t target \<Rightarrow> redactingWriter \<Rightarrow> 't \<Rightarrow> bytes \<Rightarrow> redactingWriter \<times> 't \<times> int \<times> io_error option" where
  "Write write w t p =
     (if rw_closed w then (w, t, 0, Some ErrClosedPipe)
      else
        (case write_loop write (rw_secrets w) 0 (rw_pending w) [] t p of
           (pending', out, t', Some (n, e)) \<Rightarrow> (w\<lparr>rw_pending := pending'\<rparr>, t', n, Some e)
         | (pending', out, t', None) \<Rightarrow>
             (case writeRedacted write t' out of
                (t'', err) \<Rightarrow> (w\<lparr>rw_pending := pending'\<rparr>, t'', int (length p), err))))"

definition Close :: "'t target \<Rightarrow> redactingWriter \<Rightarrow> 't \<Rightarrow> redactingWriter \<times> 't \<times> io_error option" where
  "Close write w t =
     (if rw_closed w then (w, t, None)
      else
        (case writeRedacted write t (fst (drain (rw_secrets w) True [] (rw_pending w))) of
           (t', err) \<Rightarrow> (\<lparr>rw_secrets = [], rw_pending = [], rw_closed = True\<rparr>, t', err)))"

section \<open>Matching\<close>

text \<open>The secrets that stand at the start of the data.\<close>

definition standing :: "bytes list \<Rightarrow> bytes \<Rightarrow> bytes set" where
  "standing secrets data = {s \<in> set secrets. s \<noteq> [] \<and> HasPrefix data s}"

lemma HasPrefix_length: "HasPrefix s p \<Longrightarrow> length p \<le> length s"
  by (auto simp: HasPrefix_iff)

lemma longest_match_fold:
  "fold (\<lambda>s m. if length s \<le> length d \<and> HasPrefix d s then max m (length s) else m) ss n =
   Max (insert n (length ` {s \<in> set ss. HasPrefix d s}))"
proof (induction ss arbitrary: n)
  case (Cons s ss)
  let ?L = "length ` {s \<in> set ss. HasPrefix d s}"
  have fin: "finite ?L" by simp
  show ?case
  proof (cases "HasPrefix d s")
    case True
    then have set: "{x \<in> set (s # ss). HasPrefix d x} = insert s {x \<in> set ss. HasPrefix d x}" by auto
    have "Max (insert (max n (length s)) ?L) = Max (insert n (insert (length s) ?L))"
      using fin by (cases "?L = {}") (simp_all only: Max_insert Max_singleton insert_not_empty finite_insert max.assoc not_False_eq_True)
    then show ?thesis
      using Cons.IH [of "max n (length s)"] True HasPrefix_length [OF True] unfolding set image_insert by simp
  next
    case False
    then have "{x \<in> set (s # ss). HasPrefix d x} = {x \<in> set ss. HasPrefix d x}" by auto
    then show ?thesis using False Cons.IH [of n] by simp
  qed
qed simp

lemma longest_match_Max: "longest_match ss d = Max (insert 0 (length ` {s \<in> set ss. HasPrefix d s}))"
  by (simp add: longest_match_def longest_match_fold)


lemma longest_match_le: "longest_match ss d \<le> length d"
  unfolding longest_match_Max by (subst Max_le_iff) (auto dest: HasPrefix_length)

lemma longest_match_pos:
  "0 < longest_match ss d \<Longrightarrow> \<exists>s\<in>set ss. HasPrefix d s \<and> length s = longest_match ss d"
proof -
  assume p: "0 < longest_match ss d"
  have "longest_match ss d \<in> insert 0 (length ` {s \<in> set ss. HasPrefix d s})"
    unfolding longest_match_Max by (rule Max_in) auto
  then show ?thesis using p by auto
qed

lemma could_grow_iff: "could_grow ss d \<longleftrightarrow> (\<exists>s\<in>set ss. \<exists>t. t \<noteq> [] \<and> s = d @ t)"
  unfolding could_grow_def list_ex_iff HasPrefix_iff by (rule bex_cong) auto

section \<open>Streaming equals batch\<close>

text \<open>What the redactor would do if it had all data at once.\<close>

definition redact :: "bytes list \<Rightarrow> bytes \<Rightarrow> bytes" where
  "redact secrets data = fst (drain secrets True [] data)"

text \<open>One iteration of the loop, by what it decides.\<close>

lemma drain_Nil [simp]: "drain ss f out [] = (out, [])"
  by (simp add: drain.simps)

lemma drain_wait: "could_grow ss d \<Longrightarrow> drain ss False out d = (out, d)"
  by (simp add: drain.simps Let_def)

lemma drain_match:
  "\<not> (could_grow ss d \<and> \<not> f) \<Longrightarrow> 0 < longest_match ss d \<Longrightarrow>
   drain ss f out d = drain ss f (out @ REDACTED) (drop (longest_match ss d) d)"
  using longest_match_le [of ss d] by (subst drain.simps) (auto simp: Let_def)

lemma drain_tail:
  "d \<noteq> [] \<Longrightarrow> longest_match ss d = 0 \<Longrightarrow> could_grow ss d \<Longrightarrow> drain ss True out d = (out @ REDACTED, [])"
  by (subst drain.simps) (simp add: Let_def)

lemma drain_lit:
  "d \<noteq> [] \<Longrightarrow> longest_match ss d = 0 \<Longrightarrow> \<not> could_grow ss d \<Longrightarrow>
   drain ss f out d = drain ss f (out @ [hd d]) (drop 1 d)"
  by (subst drain.simps) (simp add: Let_def)

lemmas drain_cases = drain_wait drain_match drain_tail drain_lit

text \<open>Data that no secret extends is treated the same, whatever follows it.\<close>

lemma longest_match_append: "\<not> could_grow ss a \<Longrightarrow> longest_match ss (a @ b) = longest_match ss a"
proof -
  assume n: "\<not> could_grow ss a"
  have "HasPrefix (a @ b) s \<longleftrightarrow> HasPrefix a s" if "s \<in> set ss" for s
  proof
    assume "HasPrefix (a @ b) s"
    then obtain t where t: "a @ b = s @ t" by (auto simp: HasPrefix_iff)
    then obtain us where "a = s @ us \<or> (s = a @ us \<and> us \<noteq> [])"
      by (metis append_eq_append_conv2 append_Nil2)
    then show "HasPrefix a s" using n that by (auto simp: could_grow_iff HasPrefix_iff)
  next
    assume "HasPrefix a s"
    then show "HasPrefix (a @ b) s" by (auto simp: HasPrefix_iff)
  qed
  then have "{s \<in> set ss. HasPrefix (a @ b) s} = {s \<in> set ss. HasPrefix a s}" by blast
  then show ?thesis by (simp add: longest_match_Max)
qed

lemma could_grow_append: "could_grow ss (a @ b) \<Longrightarrow> could_grow ss a"
  unfolding could_grow_iff append_assoc by (metis append_is_Nil_conv)

lemma drain_stream:
  "drain ss False out a = (out', a') \<Longrightarrow> drain ss True out (a @ b) = drain ss True out' (a' @ b)"
proof (induction "length a" arbitrary: out a rule: less_induct)
  case less
  show ?case
  proof (cases "a = [] \<or> could_grow ss a")
    case True
    then show ?thesis using less.prems drain_wait by auto
  next
    case False
    note m = longest_match_append [of ss a b] longest_match_le [of ss a]
    show ?thesis
    proof (cases "0 < longest_match ss a")
      case True
      then have d: "drain ss False (out @ REDACTED) (drop (longest_match ss a) a) = (out', a')"
        using less.prems False by (simp add: drain_match)
      have "drain ss True out (a @ b) = drain ss True (out @ REDACTED) (drop (longest_match ss a) a @ b)"
        using drain_match [of ss "a @ b" True out] m False True by simp
      then show ?thesis using less.hyps [OF _ d] False True by simp
    next
      case n: False
      then have d: "drain ss False (out @ [hd a]) (drop 1 a) = (out', a')"
        using less.prems False by (simp add: drain_lit)
      have "\<not> could_grow ss (a @ b)" using False could_grow_append by blast
      then have "drain ss True out (a @ b) = drain ss True (out @ [hd a]) (drop 1 a @ b)"
        using drain_lit [of "a @ b" ss True out] m False n by (cases a) simp_all
      then show ?thesis using less.hyps [OF _ d] False by simp
    qed
  qed
qed

lemma drain_pending:
  "drain ss False out a = (out', a') \<Longrightarrow> a' = [] \<or> could_grow ss a'"
proof (induction "length a" arbitrary: out a rule: less_induct)
  case less
  show ?case
  proof (cases "a = [] \<or> could_grow ss a")
    case True
    then show ?thesis using less.prems drain_wait by auto
  next
    case False
    then show ?thesis
      using less.prems less.hyps [of "drop (longest_match ss a) a" "out @ REDACTED"] less.hyps [of "drop 1 a" "out @ [hd a]"]
      by (cases "0 < longest_match ss a") (simp_all add: drain_match drain_lit)
  qed
qed

lemma drain_out: "fst (drain ss True (u @ out) d) = u @ fst (drain ss True out d)"
proof (induction "length d" arbitrary: out d rule: less_induct)
  case less
  consider "d = []" | "d \<noteq> []" "0 < longest_match ss d" | "d \<noteq> []" "longest_match ss d = 0" "could_grow ss d"
    | "d \<noteq> []" "longest_match ss d = 0" "\<not> could_grow ss d" by blast
  then show ?case
  proof cases
    case 2
    then show ?thesis using less [of "drop (longest_match ss d) d" "out @ REDACTED"] by (simp add: drain_match)
  next
    case 4
    then show ?thesis using less [of "drop 1 d" "out @ [hd d]"] by (simp add: drain_lit)
  qed (simp_all add: drain_tail)
qed

section \<open>A target that takes everything\<close>

text \<open>
  The contract of a writer that succeeds: it takes all bytes and reports their number. \<open>received\<close> is the
  bytes it got so far.
\<close>

definition accepting :: "'t target \<Rightarrow> ('t \<Rightarrow> bytes) \<Rightarrow> bool" where
  "accepting write received \<longleftrightarrow>
     (\<forall>t p. \<exists>t'. write t p = (t', int (length p), None) \<and> received t' = received t @ p)"

lemma writeRedacted_accepting:
  assumes "accepting write received"
  obtains t' where "writeRedacted write t p = (t', None)" "received t' = received t @ p"
proof (cases "p = []")
  case False
  obtain t' where "write t p = (t', int (length p), None)" "received t' = received t @ p"
    using assms unfolding accepting_def by blast
  then show thesis using that False by (simp add: writeRedacted_def)
qed (use that in \<open>simp add: writeRedacted_def\<close>)

lemma write_loop_stream:
  assumes "accepting write received"
  shows "\<exists>pending' out' t'. write_loop write ss i pending out t p = (pending', out', t', None) \<and>
    (\<forall>rest. received t' @ fst (drain ss True out' (pending' @ rest)) =
            received t @ fst (drain ss True out (pending @ p @ rest))) \<and>
    (p = [] \<and> pending' = pending \<or> pending' = [] \<or> could_grow ss pending')"
proof (induction p arbitrary: i pending out t)
  case (Cons b p)
  obtain out1 pending1 where d: "drain ss False out (pending @ [b]) = (out1, pending1)" by fastforce
  note st = drain_stream [OF d]
  obtain t1 where t1: "writeRedacted write t out1 = (t1, None)" "received t1 = received t @ out1"
    by (rule writeRedacted_accepting [OF assms])
  show ?case
  proof (cases "length out1 \<ge> 16384")
    case True
    obtain pending' out' t' where IH:
      "write_loop write ss (i + 1) pending1 [] t1 p = (pending', out', t', None)"
      "\<forall>rest. received t' @ fst (drain ss True out' (pending' @ rest)) =
              received t1 @ fst (drain ss True [] (pending1 @ p @ rest))"
      "p = [] \<and> pending' = pending1 \<or> pending' = [] \<or> could_grow ss pending'"
      using Cons.IH [of "i + 1" pending1 "[]" t1] by blast
    have "received t1 @ fst (drain ss True [] (pending1 @ p @ rest)) =
        received t @ fst (drain ss True out (pending @ (b # p) @ rest))" for rest
      using st [of "p @ rest"] drain_out [of ss out1 "[]" "pending1 @ p @ rest"] t1(2) by simp
    then show ?thesis using IH True d t1(1) drain_pending [OF d] by auto
  next
    case False
    obtain pending' out' t' where IH:
      "write_loop write ss (i + 1) pending1 out1 t p = (pending', out', t', None)"
      "\<forall>rest. received t' @ fst (drain ss True out' (pending' @ rest)) =
              received t @ fst (drain ss True out1 (pending1 @ p @ rest))"
      "p = [] \<and> pending' = pending1 \<or> pending' = [] \<or> could_grow ss pending'"
      using Cons.IH [of "i + 1" pending1 out1 t] by blast
    have "fst (drain ss True out1 (pending1 @ p @ rest)) = fst (drain ss True out (pending @ (b # p) @ rest))" for rest
      using st [of "p @ rest"] by simp
    then show ?thesis using IH False d drain_pending [OF d] by auto
  qed
qed simp

lemma Write_stream:
  assumes "accepting write received" and "\<not> rw_closed w"
  shows "\<exists>t' pending'. Write write w t p = (w\<lparr>rw_pending := pending'\<rparr>, t', int (length p), None) \<and>
    (\<forall>rest. received t' @ redact (rw_secrets w) (pending' @ rest) =
            received t @ redact (rw_secrets w) (rw_pending w @ p @ rest)) \<and>
    (p = [] \<and> pending' = rw_pending w \<or> pending' = [] \<or> could_grow (rw_secrets w) pending')"
proof -
  let ?ss = "rw_secrets w"
  obtain pending' out' t1 where l: "write_loop write ?ss 0 (rw_pending w) [] t p = (pending', out', t1, None)"
    and r: "\<And>rest. received t1 @ fst (drain ?ss True out' (pending' @ rest)) =
            received t @ fst (drain ?ss True [] (rw_pending w @ p @ rest))"
    and b: "p = [] \<and> pending' = rw_pending w \<or> pending' = [] \<or> could_grow ?ss pending'"
    using write_loop_stream [OF assms(1), of ?ss 0 "rw_pending w" "[]" t p] by blast
  obtain t2 where t2: "writeRedacted write t1 out' = (t2, None)" "received t2 = received t1 @ out'"
    by (rule writeRedacted_accepting [OF assms(1)])
  have "received t2 @ redact ?ss (pending' @ rest) = received t @ redact ?ss (rw_pending w @ p @ rest)" for rest
    using r [of rest] t2(2) drain_out [of ?ss out' "[]" "pending' @ rest"] by (simp add: redact_def)
  then show ?thesis
    using assms(2) l t2(1) b by (intro exI [of _ t2] exI [of _ pending']) (simp add: Write_def)
qed

text \<open>A whole life of the writer: some writes, then the close. The errors of the calls are collected.\<close>

fun write_all :: "'t target \<Rightarrow> redactingWriter \<Rightarrow> 't \<Rightarrow> bytes list \<Rightarrow> redactingWriter \<times> 't \<times> io_error option list" where
  "write_all write w t [] = (case Close write w t of (w', t', e) \<Rightarrow> (w', t', [e]))"
| "write_all write w t (p # ps) =
     (case Write write w t p of
        (w', t', n, e) \<Rightarrow> (case write_all write w' t' ps of (w'', t'', es) \<Rightarrow> (w'', t'', e # es)))"

lemma write_all_stream:
  assumes "accepting write received"
  shows "\<not> rw_closed w \<Longrightarrow> \<exists>w' t' es. write_all write w t ps = (w', t', es) \<and> set es = {None} \<and> rw_closed w' \<and>
    received t' = received t @ redact (rw_secrets w) (rw_pending w @ concat ps)"
proof (induction ps arbitrary: w t)
  case Nil
  obtain t' where "writeRedacted write t (fst (drain (rw_secrets w) True [] (rw_pending w))) = (t', None)"
    "received t' = received t @ fst (drain (rw_secrets w) True [] (rw_pending w))"
    by (rule writeRedacted_accepting [OF assms])
  then show ?case using Nil by (simp add: Close_def redact_def)
next
  case (Cons p ps)
  obtain t1 pending1 where w1: "Write write w t p = (w\<lparr>rw_pending := pending1\<rparr>, t1, int (length p), None)"
    "\<And>rest. received t1 @ redact (rw_secrets w) (pending1 @ rest) =
            received t @ redact (rw_secrets w) (rw_pending w @ p @ rest)"
    using Write_stream [OF assms Cons.prems, of t p] by blast
  obtain w' t' es where "write_all write (w\<lparr>rw_pending := pending1\<rparr>) t1 ps = (w', t', es)" "set es = {None}"
    "rw_closed w'" "received t' = received t1 @ redact (rw_secrets w) (pending1 @ concat ps)"
    using Cons.IH [of "w\<lparr>rw_pending := pending1\<rparr>" t1] Cons.prems by auto
  then show ?case using w1 by simp
qed

lemma check_secrets_Inr:
  "check_secrets n acc ss = Inr out \<Longrightarrow> out = acc @ ss \<and> (\<forall>s\<in>set ss. s \<noteq> [] \<and> length s \<le> 8192)"
  by (induction ss arbitrary: n acc) (fastforce simp: Let_def split: if_splits)+

lemma newRedactingWriter_Inr:
  "newRedactingWriter secrets = Inr w \<Longrightarrow>
   w = \<lparr>rw_secrets = secrets, rw_pending = [], rw_closed = False\<rparr> \<and> (\<forall>s\<in>set secrets. s \<noteq> [] \<and> length s \<le> 8192)"
  by (auto simp: newRedactingWriter_def split: if_splits sum.splits dest: check_secrets_Inr)

section \<open>What is masked\<close>











section \<open>Properties\<close>

text \<open>
  C27 (equivalence). Redaction does not depend on how the data is cut into writes: whatever the chunks, with
  a target that takes everything, no call fails and the target receives exactly the redaction of the whole
  data, followed by nothing after the close.
\<close>

theorem redaction_streaming:
  assumes "accepting write received" and "newRedactingWriter secrets = Inr w"
  shows "\<exists>w' t' es. write_all write w t chunks = (w', t', es) \<and> set es = {None} \<and> rw_closed w' \<and>
    received t' = received t @ redact secrets (concat chunks)"
  using write_all_stream [OF assms(1), of w t chunks] newRedactingWriter_Inr [OF assms(2)] by simp


definition pending_ok :: "redactingWriter \<Rightarrow> bool" where
  "pending_ok w \<longleftrightarrow> rw_pending w = [] \<or> could_grow (rw_secrets w) (rw_pending w)"

lemma write_loop_pending:
  "write_loop write ss i pending out t p = (pending', out', t', err) \<Longrightarrow>
   pending = [] \<or> could_grow ss pending \<Longrightarrow> pending' = [] \<or> could_grow ss pending'"
proof (induction p arbitrary: i pending out t)
  case (Cons b p)
  obtain out1 pending1 where d: "drain ss False out (pending @ [b]) = (out1, pending1)" by fastforce
  note ok = drain_pending [OF d]
  show ?case
    using Cons.prems(1) Cons.IH [OF _ ok] d ok
    by (auto split: if_splits prod.splits option.splits)
qed simp

text \<open>
  The writer keeps no more than a possible start of a secret: from its creation on and after
  every write, also a failed one and whatever the target does, the held back bytes are a proper prefix of a
  secret, fewer than 8192.
\<close>

theorem pending_bounded:
  "(newRedactingWriter secrets = Inr w \<longrightarrow> pending_ok w \<and> rw_secrets w = secrets) \<and>
   (pending_ok w \<and> Write write w t p = (w', t', n, e) \<longrightarrow> pending_ok w' \<and> rw_secrets w' = rw_secrets w) \<and>
   (newRedactingWriter secrets = Inr w \<and> pending_ok v \<and> rw_secrets v = secrets \<longrightarrow> length (rw_pending v) < 8192)"
proof (intro conjI impI)
  assume "newRedactingWriter secrets = Inr w"
  from newRedactingWriter_Inr [OF this] show "pending_ok w" and "rw_secrets w = secrets"
    by (simp_all add: pending_ok_def)
next
  assume a: "pending_ok w \<and> Write write w t p = (w', t', n, e)"
  obtain pending' out' t1 err where l: "write_loop write (rw_secrets w) 0 (rw_pending w) [] t p = (pending', out', t1, err)"
    by (metis prod_cases4)
  have ok: "pending' = [] \<or> could_grow (rw_secrets w) pending'"
    using write_loop_pending [OF l] a by (simp add: pending_ok_def)
  have "w' = w \<or> w' = w\<lparr>rw_pending := pending'\<rparr>"
    using a l by (auto simp: Write_def split: if_splits prod.splits option.splits)
  then show "pending_ok w'" and "rw_secrets w' = rw_secrets w" using ok a by (auto simp: pending_ok_def)
next
  assume a: "newRedactingWriter secrets = Inr w \<and> pending_ok v \<and> rw_secrets v = secrets"
  then have "\<forall>s\<in>set secrets. length s \<le> 8192" using newRedactingWriter_Inr by blast
  then show "length (rw_pending v) < 8192"
    using a unfolding pending_ok_def could_grow_def list_ex_iff by (auto dest: order.strict_trans2)
qed

section \<open>Witnesses\<close>

definition recorder :: "bytes target" where
  "recorder t p = (t @ p, int (length p), None)"

lemma recorder_accepting: "accepting recorder (\<lambda>t. t)"
  by (simp add: accepting_def recorder_def)

definition sample_secrets :: "bytes list" where
  "sample_secrets = [''key'', ''key-1234'']"

definition sample_writer :: redactingWriter where
  "sample_writer = \<lparr>rw_secrets = sample_secrets, rw_pending = [], rw_closed = False\<rparr>"

lemma sample_writer_new: "newRedactingWriter sample_secrets = Inr sample_writer"
  by code_simp

theorem redaction_streaming_witness:
  "\<exists>w' es. write_all recorder sample_writer [] [''my ke'', ''y-12'', ''34 on''] = (w', ''my [REDACTED] on'', es)"
proof -
  have "redact sample_secrets (concat [''my ke'', ''y-12'', ''34 on'']) = ''my [REDACTED] on''" by code_simp
  then show ?thesis
    using redaction_streaming [OF recorder_accepting sample_writer_new, of "[]" "[''my ke'', ''y-12'', ''34 on'']"]
    by auto
qed


theorem pending_bounded_witness:
  "length (rw_pending (fst (Write recorder sample_writer [] ''my key-12''))) < 8192"
proof -
  obtain w' t' n e where w: "Write recorder sample_writer [] ''my key-12'' = (w', t', n, e)" by (metis prod_cases4)
  have s: "pending_ok sample_writer" "rw_secrets sample_writer = sample_secrets" by code_simp+
  have "pending_ok w' \<and> rw_secrets w' = rw_secrets sample_writer"
    using pending_bounded [of sample_secrets sample_writer recorder "[]" "''my key-12''" w' t' n e] w s by blast
  then show ?thesis
    using pending_bounded [of sample_secrets sample_writer recorder "[]" "[]" w' t' n e w'] sample_writer_new w s by auto
qed

end
