(* ===== verification/Log_Stream.thy ===== *)
theory Log_Stream
  imports Run_State
begin

text \<open>
  Job logs from the runner to the database: the log buffer of \<open>src/internal/runner/logs.go\<close>, which cuts what
  a step writes into numbered chunks and waits for each to be acknowledged, and \<open>AppendLogChunk\<close> of
  \<open>src/internal/store/postgres/logs.go\<close>, which stores them.

  The waiting of the runner is resolved by two arguments: \<open>canceled k\<close> says whether the context has ended
  when the loop is entered with \<open>k\<close> chunks sent, and \<open>acked k\<close> whether chunk \<open>k\<close> is acknowledged before the
  context ends. A transaction of the store is one atomic function on its tables; a failing database rolls
  it back, which leaves the tables as they were.
\<close>

section \<open>The log buffer of the runner\<close>

text \<open>The message of the wire protocol.\<close>

record WireChunk =
  wc_Sequence :: int
  wc_StepIndex :: int
  wc_Stderr :: bool
  wc_Data :: bytes
  wc_Truncated :: bool

record logBuffer =
  lb_chunk :: "WireChunk option"
  lb_sequence :: int
  lb_total :: int
  lb_truncated :: bool

definition newLogBuffer :: logBuffer where
  "newLogBuffer = \<lparr>lb_chunk = None, lb_sequence = 0, lb_total = 0, lb_truncated = False\<rparr>"

definition ack :: "int \<Rightarrow> logBuffer \<Rightarrow> logBuffer" where
  "ack sequence b =
     (case lb_chunk b of
        Some c \<Rightarrow> if wc_Sequence c = sequence then b\<lparr>lb_chunk := None\<rparr> else b
      | None \<Rightarrow> b)"

text \<open>The size of the next chunk, and whether it is the truncation marker.\<close>

definition chunk_size :: "logBuffer \<Rightarrow> bytes \<Rightarrow> int" where
  "chunk_size b p = min (int (length p)) (min MaxLogChunkBytes (MaxJobLogBytes - lb_total b))"

definition is_marker :: "logBuffer \<Rightarrow> bytes \<Rightarrow> bool" where
  "is_marker b p \<longleftrightarrow> chunk_size b p = 0 \<or> lb_sequence b \<ge> MaxJobLogChunks - 1"

definition next_chunk :: "int \<Rightarrow> bool \<Rightarrow> logBuffer \<Rightarrow> bytes \<Rightarrow> WireChunk" where
  "next_chunk step stderr b p =
     \<lparr>wc_Sequence = lb_sequence b + 1, wc_StepIndex = step mod 2 ^ 32, wc_Stderr = stderr,
      wc_Data = (if is_marker b p then [] else take (nat (chunk_size b p)) p), wc_Truncated = is_marker b p\<rparr>"

text \<open>
  The loop of \<open>Write\<close>: the new buffer, the chunks that were handed to the transport and the outcome: the
  count, the count with the context's error, or the panic of slicing with a negative length.
\<close>

datatype write_result = Wrote int | Interrupted int | SlicePanic

function log_write :: "(int \<Rightarrow> bool) \<Rightarrow> (int \<Rightarrow> bool) \<Rightarrow> int \<Rightarrow> bool \<Rightarrow> int \<Rightarrow> int \<Rightarrow> logBuffer \<Rightarrow> bytes
    \<Rightarrow> logBuffer \<times> WireChunk list \<times> write_result" where
  "log_write canceled acked step stderr original written b p =
     (if p = [] then (b, [], Wrote original)
      else if canceled (lb_sequence b) then (b, [], Interrupted written)
      else if lb_truncated b then (b, [], Wrote original)
      else
        (let n = (if is_marker b p then 0 else chunk_size b p);
             c = next_chunk step stderr b p;
             b1 = b\<lparr>lb_chunk := Some c, lb_sequence := lb_sequence b + 1,
                    lb_truncated := lb_truncated b \<or> is_marker b p\<rparr>
         in if n < 0 then (b, [], SlicePanic)
            else if \<not> acked (lb_sequence b1) then (b1, [c], Interrupted written)
            else
              (case log_write canceled acked step stderr original (written + n)
                      ((ack (wc_Sequence c) b1)\<lparr>lb_total := lb_total b + n\<rparr>) (drop (nat n) p) of
                 (b', cs, result) \<Rightarrow> (b', c # cs, result))))"
  by pat_completeness auto
termination
proof (relation "measure (\<lambda>(canceled, acked, step, stderr, original, written, b, p).
    if lb_truncated b then 0 else Suc (length p))")
  fix canceled acked :: "int \<Rightarrow> bool" and step original written n :: int and stderr :: bool
    and b b1 :: logBuffer and p :: bytes and c
  assume p: "p \<noteq> []" and "\<not> canceled (lb_sequence b)" and t: "\<not> lb_truncated b"
    and n: "n = (if is_marker b p then 0 else chunk_size b p)" and "c = next_chunk step stderr b p"
    and b1: "b1 = b\<lparr>lb_chunk := Some c, lb_sequence := lb_sequence b + 1,
                    lb_truncated := lb_truncated b \<or> is_marker b p\<rparr>"
    and n0: "\<not> n < 0"
  have a: "lb_truncated (ack s b1) = (lb_truncated b \<or> is_marker b p)" for s
    by (simp add: ack_def b1)
  have "is_marker b p \<or> 0 < n" using n n0 by (auto simp: is_marker_def)
  then show "((canceled, acked, step, stderr, original, written + n,
          (ack (wc_Sequence c) b1)\<lparr>lb_total := lb_total b + n\<rparr>, drop (nat n) p),
         canceled, acked, step, stderr, original, written, b, p)
      \<in> measure (\<lambda>(canceled, acked, step, stderr, original, written, b, p).
          if lb_truncated b then 0 else Suc (length p))"
    using p t a by (auto simp: length_drop)
qed simp

declare log_write.simps [simp del]

definition Write_log :: "(int \<Rightarrow> bool) \<Rightarrow> (int \<Rightarrow> bool) \<Rightarrow> int \<Rightarrow> bool \<Rightarrow> logBuffer \<Rightarrow> bytes
    \<Rightarrow> logBuffer \<times> WireChunk list \<times> write_result" where
  "Write_log canceled acked step stderr b p = log_write canceled acked step stderr (int (length p)) 0 b p"

section \<open>The tables of the store\<close>

record job_row =
  jr_runner_id :: uuid
  jr_token_hash :: bytes
  jr_lease_expires :: gotime
  jr_status :: JobStatus
  jr_created_at :: gotime

record log_stream_row =
  sr_next :: int
  sr_total :: int
  sr_truncated :: bool
  sr_expires_at :: gotime

record log_chunk_row =
  cr_step :: int
  cr_stream :: string
  cr_data :: bytes
  cr_truncated :: bool

record log_tables =
  lt_jobs :: "uuid \<rightharpoonup> job_row"
  lt_streams :: "uuid \<rightharpoonup> log_stream_row"
  lt_chunks :: "uuid \<Rightarrow> int \<rightharpoonup> log_chunk_row"

datatype log_error = LogInvalidChunk | LogLeaseInvalid | LogExpired | LogSequence | LogLimit

definition sevenDays :: duration where
  "sevenDays = 7 * 24 * Hour"

text \<open>\<open>INSERT ... ON CONFLICT DO NOTHING\<close>, with the defaults of the table.\<close>

definition ensure_stream :: "uuid \<Rightarrow> job_row \<Rightarrow> log_tables \<Rightarrow> log_stream_row" where
  "ensure_stream jobID job db =
     (case lt_streams db jobID of
        Some row \<Rightarrow> row
      | None \<Rightarrow> \<lparr>sr_next = 1, sr_total = 0, sr_truncated = False, sr_expires_at = jr_created_at job + sevenDays\<rparr>)"

definition chunk_row :: "LogChunk \<Rightarrow> log_chunk_row" where
  "chunk_row c = \<lparr>cr_step = lc_Step c, cr_stream = lc_Stream c, cr_data = lc_Data c, cr_truncated = lc_Truncated c\<rparr>"

text \<open>The \<open>WHERE\<close> clause of the lease check.\<close>

definition lease_current :: "(bytes \<Rightarrow> bytes) \<Rightarrow> gotime \<Rightarrow> LeaseRequest \<Rightarrow> job_row \<Rightarrow> bool" where
  "lease_current sha now lease job \<longleftrightarrow>
     jr_runner_id job = lr_RunnerID lease \<and> jr_token_hash job = sha (lr_LeaseToken lease) \<and>
     jr_lease_expires job > now \<and> jr_status job = JobRunning"

text \<open>From reading the stream row to the commit.\<close>

definition append_to_stream :: "gotime \<Rightarrow> LogChunk \<Rightarrow> log_stream_row \<Rightarrow> log_tables \<Rightarrow> log_error + log_tables" where
  "append_to_stream now c row db =
     (let jobID = lr_JobID (lc_Lease c) in
      if sr_expires_at row \<le> now then Inl LogExpired
      else if lc_Sequence c < sr_next row then
        (case lt_chunks db jobID (lc_Sequence c) of
           None \<Rightarrow> Inl LogSequence
         | Some old \<Rightarrow> (if old \<noteq> chunk_row c then Inl LogSequence else Inr db))
      else if lc_Sequence c \<noteq> sr_next row then Inl LogSequence
      else if sr_truncated row \<or> sr_total row + int (length (lc_Data c)) > MaxJobLogBytes \<or>
              (lc_Sequence c = MaxJobLogChunks \<and> \<not> lc_Truncated c) then Inl LogLimit
      else Inr (db\<lparr>lt_chunks := (lt_chunks db)(jobID := (lt_chunks db jobID)(lc_Sequence c \<mapsto> chunk_row c)),
                   lt_streams := (lt_streams db)(jobID \<mapsto>
                     row\<lparr>sr_next := sr_next row + 1, sr_total := sr_total row + int (length (lc_Data c)),
                         sr_truncated := lc_Truncated c\<rparr>)\<rparr>))"

text \<open>
  \<open>AppendLogChunk\<close>, with the hash function and the two readings of the clock. A rejected chunk rolls back
  the transaction, so the stream row it may have created is gone as well.
\<close>

definition AppendLogChunk :: "(bytes \<Rightarrow> bytes) \<Rightarrow> gotime \<Rightarrow> gotime \<Rightarrow> LogChunk \<Rightarrow> log_tables \<Rightarrow> log_error + log_tables" where
  "AppendLogChunk sha now1 now2 c db =
     (if \<not> ValidateLogChunk c then Inl LogInvalidChunk
      else
        (let jobID = lr_JobID (lc_Lease c) in
         (case lt_jobs db jobID of
            None \<Rightarrow> Inl LogLeaseInvalid
          | Some job \<Rightarrow>
              (if \<not> lease_current sha now1 (lc_Lease c) job then Inl LogLeaseInvalid
               else
                 (let row = ensure_stream jobID job db in
                  append_to_stream now2 c row (db\<lparr>lt_streams := (lt_streams db)(jobID \<mapsto> row)\<rparr>))))))"

section \<open>Every chunk the runner sends is valid\<close>

definition buffer_inv :: "logBuffer \<Rightarrow> bool" where
  "buffer_inv b \<longleftrightarrow>
     0 \<le> lb_sequence b \<and> lb_sequence b \<le> MaxJobLogChunks \<and>
     (\<not> lb_truncated b \<longrightarrow> lb_sequence b \<le> MaxJobLogChunks - 1) \<and>
     0 \<le> lb_total b \<and> lb_total b \<le> MaxJobLogBytes"

text \<open>The conversion of \<open>handleLog\<close> of \<open>src/internal/runnergrpc/server.go\<close>.\<close>

definition stored_chunk :: "LeaseRequest \<Rightarrow> WireChunk \<Rightarrow> LogChunk" where
  "stored_chunk lease m =
     \<lparr>lc_Lease = lease, lc_Sequence = wc_Sequence m, lc_Step = wc_StepIndex m,
      lc_Stream = (if wc_Stderr m then ''stderr'' else ''stdout''), lc_Data = wc_Data m,
      lc_Truncated = wc_Truncated m\<rparr>"

definition lease_ok :: "LeaseRequest \<Rightarrow> bool" where
  "lease_ok l \<longleftrightarrow> lr_RunnerID l \<noteq> 0 \<and> lr_JobID l \<noteq> 0 \<and> lr_LeaseToken l \<noteq> [] \<and> length (lr_LeaseToken l) \<le> 512"

lemma buffer_inv_new: "buffer_inv newLogBuffer"
  by (simp add: buffer_inv_def newLogBuffer_def log_limits)

lemma ack_sel [simp]:
  "lb_sequence (ack s b) = lb_sequence b" "lb_total (ack s b) = lb_total b" "lb_truncated (ack s b) = lb_truncated b"
  by (simp_all add: ack_def split: option.split)

lemma chunk_size_bounds:
  assumes "buffer_inv b" and "p \<noteq> []"
  shows "0 \<le> chunk_size b p \<and> chunk_size b p \<le> MaxLogChunkBytes \<and> chunk_size b p \<le> int (length p) \<and>
    lb_total b + chunk_size b p \<le> MaxJobLogBytes"
  using assms by (auto simp: chunk_size_def buffer_inv_def log_limits)

lemma next_chunk_data_length:
  assumes "buffer_inv b" and "p \<noteq> []"
  shows "int (length (wc_Data (next_chunk step stderr b p))) = (if is_marker b p then 0 else chunk_size b p)"
  using chunk_size_bounds [OF assms] by (auto simp: next_chunk_def min_def)

lemma next_chunk_valid:
  assumes "buffer_inv b" and "p \<noteq> []" and "\<not> lb_truncated b" and "lease_ok lease" and "0 \<le> step" and "step \<le> 1023"
  shows "ValidateLogChunk (stored_chunk lease (next_chunk step stderr b p))"
proof -
  let ?c = "next_chunk step stderr b p"
  have step: "step mod 2 ^ 32 = step" using assms(5,6) by simp
  have len: "int (length (wc_Data ?c)) = (if is_marker b p then 0 else chunk_size b p)"
    using next_chunk_data_length [OF assms(1,2)] .
  have "0 < chunk_size b p" if "\<not> is_marker b p"
    using that chunk_size_bounds [OF assms(1,2)] by (auto simp: is_marker_def)
  then have data: "wc_Truncated ?c = (wc_Data ?c = [])" "int (length (wc_Data ?c)) \<le> MaxLogChunkBytes"
    using len chunk_size_bounds [OF assms(1,2)] by (auto simp: next_chunk_def log_limits split: if_splits)
  show ?thesis
    using assms data step
    by (auto simp: ValidateLogChunk_def stored_chunk_def next_chunk_def lease_ok_def buffer_inv_def)
qed

text \<open>The buffer after a chunk was acknowledged.\<close>

definition advance :: "int \<Rightarrow> bool \<Rightarrow> logBuffer \<Rightarrow> bytes \<Rightarrow> logBuffer" where
  "advance step stderr b p =
     (let c = next_chunk step stderr b p in
      (ack (wc_Sequence c) (b\<lparr>lb_chunk := Some c, lb_sequence := lb_sequence b + 1,
         lb_truncated := lb_truncated b \<or> is_marker b p\<rparr>))
        \<lparr>lb_total := lb_total b + (if is_marker b p then 0 else chunk_size b p)\<rparr>)"

lemma advance_sel [simp]:
  "lb_sequence (advance step stderr b p) = lb_sequence b + 1"
  "lb_truncated (advance step stderr b p) = (lb_truncated b \<or> is_marker b p)"
  "lb_total (advance step stderr b p) = lb_total b + (if is_marker b p then 0 else chunk_size b p)"
  by (simp_all add: advance_def Let_def)

lemma advance_inv:
  assumes "buffer_inv b" and "p \<noteq> []" and "\<not> lb_truncated b"
  shows "buffer_inv (advance step stderr b p)"
  using assms chunk_size_bounds [OF assms(1,2)] by (auto simp: buffer_inv_def is_marker_def)

definition sent_bytes :: "logBuffer \<Rightarrow> bytes \<Rightarrow> int" where
  "sent_bytes b p = (if is_marker b p then 0 else chunk_size b p)"

lemma log_write_cases:
  assumes "buffer_inv b"
  obtains (stop) res where "log_write canceled acked step stderr original written b p = (b, [], res)"
      "res \<noteq> SlicePanic" "p = [] \<or> canceled (lb_sequence b) \<or> lb_truncated b"
      "\<not> canceled (lb_sequence b) \<Longrightarrow> res = Wrote original"
  | (lost) b1 where "p \<noteq> []" "\<not> lb_truncated b" "\<not> acked (lb_sequence b + 1)"
      "log_write canceled acked step stderr original written b p = (b1, [next_chunk step stderr b p], Interrupted written)"
      "buffer_inv b1" "lb_sequence b1 = lb_sequence b + 1"
  | (sent) b' cs res where "p \<noteq> []" "\<not> lb_truncated b" "acked (lb_sequence b + 1)"
      "log_write canceled acked step stderr original (written + sent_bytes b p) (advance step stderr b p)
         (drop (nat (sent_bytes b p)) p) = (b', cs, res)"
      "log_write canceled acked step stderr original written b p = (b', next_chunk step stderr b p # cs, res)"
proof (cases "p = [] \<or> canceled (lb_sequence b) \<or> lb_truncated b")
  case True
  have "\<exists>res. log_write canceled acked step stderr original written b p = (b, [], res) \<and> res \<noteq> SlicePanic \<and>
      (\<not> canceled (lb_sequence b) \<longrightarrow> res = Wrote original)"
    using True by (subst log_write.simps) auto
  then show thesis using stop True by blast
next
  case False
  let ?n = "sent_bytes b p" and ?c = "next_chunk step stderr b p"
  have n: "\<not> ?n < 0" using chunk_size_bounds [OF assms, of p] False by (auto simp: sent_bytes_def)
  let ?b1 = "b\<lparr>lb_chunk := Some ?c, lb_sequence := lb_sequence b + 1,
                    lb_truncated := lb_truncated b \<or> is_marker b p\<rparr>"
  show thesis
  proof (cases "acked (lb_sequence b + 1)")
    case True
    obtain b' cs res where r: "log_write canceled acked step stderr original (written + ?n) (advance step stderr b p)
         (drop (nat ?n) p) = (b', cs, res)"
      using prod_cases3 by blast
    have "log_write canceled acked step stderr original written b p = (b', ?c # cs, res)"
      using False True n r by (subst log_write.simps) (simp add: Let_def advance_def sent_bytes_def)
    then show thesis using sent False True r by blast
  next
    case a: False
    have "log_write canceled acked step stderr original written b p = (?b1, [?c], Interrupted written)"
      using False a n by (subst log_write.simps) (simp add: Let_def sent_bytes_def)
    moreover have "buffer_inv ?b1" using assms False by (auto simp: buffer_inv_def is_marker_def)
    ultimately show thesis using lost [of ?b1] False a by simp
  qed
qed

lemma log_write_valid:
  assumes "buffer_inv b" and "lease_ok lease" and "0 \<le> step" and "step \<le> 1023"
    and "log_write canceled acked step stderr original written b p = (b', cs, res)"
  shows "buffer_inv b' \<and> res \<noteq> SlicePanic \<and> lb_sequence b' = lb_sequence b + int (length cs) \<and>
    map wc_Sequence cs = [lb_sequence b + 1 .. lb_sequence b + int (length cs)] \<and>
    (\<forall>c\<in>set cs. ValidateLogChunk (stored_chunk lease c))"
  using assms(1,5)
proof (induction "if lb_truncated b then 0 else Suc (length p)" arbitrary: b p written cs rule: less_induct)
  case less
  show ?case
  proof (rule log_write_cases [OF less.prems(1), where canceled = canceled and acked = acked and step = step
        and stderr = stderr and original = original and written = written and p = p], goal_cases stop lost sent)
    case (stop res)
    then show ?thesis using less.prems by auto
  next
    case (lost b1)
    then have "b' = b1" "cs = [next_chunk step stderr b p]" "res = Interrupted written"
      using less.prems(2) by simp_all
    moreover have "wc_Sequence (next_chunk step stderr b p) = lb_sequence b + 1" by (simp add: next_chunk_def)
    ultimately show ?thesis
      using next_chunk_valid [OF less.prems(1) lost(1,2) assms(2-4)] lost by simp
  next
    case (sent b2 cs2 res2)
    let ?b = "advance step stderr b p"
    have inv: "buffer_inv ?b" using advance_inv [OF less.prems(1) sent(1,2)] .
    have smaller: "(if lb_truncated ?b then 0 else Suc (length (drop (nat (sent_bytes b p)) p))) <
        (if lb_truncated b then 0 else Suc (length p))"
      using sent(1,2) chunk_size_bounds [OF less.prems(1) sent(1)]
      by (auto simp: sent_bytes_def is_marker_def)
    have eq: "b' = b2" "cs = next_chunk step stderr b p # cs2" "res = res2" using sent(5) less.prems(2) by simp_all
    note IH = less.hyps [OF smaller inv sent(4) [folded eq]]
    have "wc_Sequence (next_chunk step stderr b p) = lb_sequence b + 1" by (simp add: next_chunk_def)
    moreover have "[lb_sequence b + 1 .. lb_sequence b + 1 + int (length cs2)] =
        (lb_sequence b + 1) # [lb_sequence b + 1 + 1 .. lb_sequence b + 1 + int (length cs2)]"
      by (simp add: upto_rec1)
    ultimately show ?thesis
      using IH eq next_chunk_valid [OF less.prems(1) sent(1,2) assms(2-4)] by (simp add: algebra_simps)
  qed
qed

section \<open>Nothing is lost or reordered\<close>

definition always :: "int \<Rightarrow> bool" where "always k = True"
definition never :: "int \<Rightarrow> bool" where "never k = False"

lemma log_write_contents:
  assumes "buffer_inv b" and "log_write never always step stderr original written b p = (b', cs, res)"
  shows "res = Wrote original \<and> lb_total b \<le> lb_total b' \<and>
    concat (map wc_Data cs) = take (nat (lb_total b' - lb_total b)) p \<and>
    (lb_truncated b \<longrightarrow> lb_truncated b' \<and> cs = [] \<and> lb_total b' = lb_total b) \<and>
    (\<not> lb_truncated b' \<longrightarrow> lb_total b' = lb_total b + int (length p))"
  using assms
proof (induction "if lb_truncated b then 0 else Suc (length p)" arbitrary: b p written cs rule: less_induct)
  case less
  show ?case
  proof (rule log_write_cases [OF less.prems(1), where canceled = never and acked = always and step = step
        and stderr = stderr and original = original and written = written and p = p], goal_cases stop lost sent)
    case (stop res)
    then show ?thesis using less.prems by (auto simp: never_def)
  next
    case (lost b1)
    then show ?thesis by (simp add: always_def)
  next
    case (sent b2 cs2 res2)
    let ?b = "advance step stderr b p" and ?n = "sent_bytes b p"
    have inv: "buffer_inv ?b" using advance_inv [OF less.prems(1) sent(1,2)] .
    have bounds: "0 \<le> ?n" "?n \<le> int (length p)"
      using chunk_size_bounds [OF less.prems(1) sent(1)] by (auto simp: sent_bytes_def)
    have smaller: "(if lb_truncated ?b then 0 else Suc (length (drop (nat ?n) p))) <
        (if lb_truncated b then 0 else Suc (length p))"
      using sent(1,2) chunk_size_bounds [OF less.prems(1) sent(1)]
      by (auto simp: sent_bytes_def is_marker_def)
    have eq: "b' = b2" "cs = next_chunk step stderr b p # cs2" "res = res2" using sent(5) less.prems(2) by simp_all
    note IH = less.hyps [OF smaller inv sent(4) [folded eq]]
    have data: "wc_Data (next_chunk step stderr b p) = take (nat ?n) p"
      by (simp add: next_chunk_def sent_bytes_def)
    have tot: "lb_total ?b = lb_total b + ?n" by (simp add: sent_bytes_def)
    have le: "lb_total ?b \<le> lb_total b'"
      and cc: "concat (map wc_Data cs2) = take (nat (lb_total b' - lb_total ?b)) (drop (nat ?n) p)"
      and full: "\<not> lb_truncated b' \<longrightarrow> lb_total b' = lb_total ?b + int (length (drop (nat ?n) p))"
      and res: "res = Wrote original"
      using IH by blast+
    have split: "nat (lb_total b' - lb_total b) = nat ?n + nat (lb_total b' - lb_total ?b)" using le tot bounds by linarith
    have "concat (map wc_Data cs) = take (nat (lb_total b' - lb_total b)) p"
      unfolding split take_add eq(2) list.map concat.simps data cc ..
    moreover have "int (length (drop (nat ?n) p)) = int (length p) - ?n" using bounds by simp
    ultimately show ?thesis using res le full tot bounds(1) sent(2) by auto
  qed
qed

lemma log_write_total:
  assumes "buffer_inv b" and "log_write never always step stderr original written b p = (b', cs, res)"
  shows "nat (lb_total b' - lb_total b) \<le> length p"
  using assms
proof (induction "if lb_truncated b then 0 else Suc (length p)" arbitrary: b p written cs rule: less_induct)
  case less
  show ?case
  proof (rule log_write_cases [OF less.prems(1), where canceled = never and acked = always and step = step
        and stderr = stderr and original = original and written = written and p = p], goal_cases stop lost sent)
    case (stop res)
    then show ?thesis using less.prems by auto
  next
    case (lost b1)
    then show ?thesis by (simp add: always_def)
  next
    case (sent b2 cs2 res2)
    let ?b = "advance step stderr b p" and ?n = "sent_bytes b p"
    have bounds: "0 \<le> ?n" "?n \<le> int (length p)"
      using chunk_size_bounds [OF less.prems(1) sent(1)] by (auto simp: sent_bytes_def)
    have smaller: "(if lb_truncated ?b then 0 else Suc (length (drop (nat ?n) p))) <
        (if lb_truncated b then 0 else Suc (length p))"
      using sent(1,2) chunk_size_bounds [OF less.prems(1) sent(1)]
      by (auto simp: sent_bytes_def is_marker_def)
    have eq: "b' = b2" "res = res2" using sent(5) less.prems(2) by simp_all
    have "nat (lb_total b' - lb_total ?b) \<le> length (drop (nat ?n) p)"
      using less.hyps [OF smaller advance_inv [OF less.prems(1) sent(1,2)] sent(4) [folded eq]] .
    moreover have "lb_total ?b = lb_total b + ?n" by (simp add: sent_bytes_def)
    ultimately show ?thesis using bounds by auto
  qed
qed

text \<open>A sequence of writes of the steps of a job, with their step and stream.\<close>

fun log_writes :: "logBuffer \<Rightarrow> (int \<times> bool \<times> bytes) list \<Rightarrow> logBuffer \<times> WireChunk list" where
  "log_writes b [] = (b, [])"
| "log_writes b ((step, stderr, p) # ws) =
     (case Write_log never always step stderr b p of
        (b1, cs, _) \<Rightarrow> (case log_writes b1 ws of (b2, cs2) \<Rightarrow> (b2, cs @ cs2)))"

definition steps_ok :: "(int \<times> bool \<times> bytes) list \<Rightarrow> bool" where
  "steps_ok ws \<longleftrightarrow> (\<forall>(step, _, _)\<in>set ws. 0 \<le> step \<and> step \<le> 1023)"

lemma log_writes_contents:
  assumes "buffer_inv b" and "steps_ok ws" and "log_writes b ws = (b', cs)"
  shows "buffer_inv b' \<and> lb_total b \<le> lb_total b' \<and> (lb_truncated b \<longrightarrow> lb_truncated b' \<and> cs = [] \<and> lb_total b' = lb_total b) \<and>
    concat (map wc_Data cs) = take (nat (lb_total b' - lb_total b)) (concat (map (\<lambda>(_, _, p). p) ws)) \<and>
    (\<not> lb_truncated b' \<longrightarrow> lb_total b' = lb_total b + int (length (concat (map (\<lambda>(_, _, p). p) ws))))"
  using assms
proof (induction ws arbitrary: b cs)
  case (Cons w ws)
  obtain step stderr p where w: "w = (step, stderr, p)" by (metis prod_cases3)
  obtain b1 cs1 r where l: "log_write never always step stderr (int (length p)) 0 b p = (b1, cs1, r)"
    by (metis prod_cases3)
  obtain cs2 where l2: "log_writes b1 ws = (b', cs2)" "cs = cs1 @ cs2"
    using Cons.prems(3) w l by (auto simp: Write_log_def split: prod.splits)
  define lease where "lease = \<lparr>lr_RunnerID = 1, lr_JobID = 1, lr_LeaseToken = ''t''\<rparr>"
  have "lease_ok lease" by (simp add: lease_ok_def lease_def)
  then have inv: "buffer_inv b1"
    using log_write_valid [OF Cons.prems(1) _ _ _ l] Cons.prems(2) w by (auto simp: steps_ok_def)
  note c = log_write_contents [OF Cons.prems(1) l]
  have "steps_ok ws" using Cons.prems(2) by (simp add: steps_ok_def)
  note IH = Cons.IH [OF inv this l2(1)]
  let ?rest = "concat (map (\<lambda>(_, _, p). p) ws)"
  have data: "concat (map wc_Data cs) = take (nat (lb_total b1 - lb_total b)) p @ take (nat (lb_total b' - lb_total b1)) ?rest"
    using c IH l2(2) by simp
  show ?case
  proof (cases "lb_truncated b1")
    case True
    then have t: "cs2 = []" "lb_truncated b'" "lb_total b' = lb_total b1" using IH by blast+
    have "nat (lb_total b1 - lb_total b) \<le> length p" by (rule log_write_total [OF Cons.prems(1) l])
    then have "take (nat (lb_total b1 - lb_total b)) (p @ ?rest) = take (nat (lb_total b1 - lb_total b)) p" by simp
    then show ?thesis using data t IH c w l2(2) by auto
  next
    case False
    then have p: "lb_total b1 = lb_total b + int (length p)" using c by simp
    have "take (nat (lb_total b' - lb_total b)) (p @ ?rest) = p @ take (nat (lb_total b' - lb_total b1)) ?rest"
    proof -
      have "lb_total b + int (length p) \<le> lb_total b'" using IH p by linarith
      then have n: "nat (lb_total b' - lb_total b) = length p + nat (lb_total b' - lb_total b1)"
        using p by linarith
      show ?thesis unfolding n by simp
    qed
    then show ?thesis using data p IH False c w by (auto simp: algebra_simps)
  qed
qed simp

section \<open>The store accepts what the runner sends\<close>

text \<open>The job is running under the lease, and its stream is where the buffer is.\<close>

definition stream_matches :: "(bytes \<Rightarrow> bytes) \<Rightarrow> gotime \<Rightarrow> LeaseRequest \<Rightarrow> logBuffer \<Rightarrow> log_tables \<Rightarrow> bool" where
  "stream_matches sha now lease b db \<longleftrightarrow>
     (\<exists>job. lt_jobs db (lr_JobID lease) = Some job \<and> lease_current sha now lease job \<and>
        (let row = ensure_stream (lr_JobID lease) job db in
         sr_next row = lb_sequence b + 1 \<and> sr_total row = lb_total b \<and> sr_truncated row = lb_truncated b \<and>
         now < sr_expires_at row))"

fun append_all :: "(bytes \<Rightarrow> bytes) \<Rightarrow> gotime \<Rightarrow> LeaseRequest \<Rightarrow> WireChunk list \<Rightarrow> log_tables \<Rightarrow> log_error + log_tables" where
  "append_all sha now lease [] db = Inr db"
| "append_all sha now lease (c # cs) db =
     (case AppendLogChunk sha now now (stored_chunk lease c) db of
        Inl e \<Rightarrow> Inl e | Inr db' \<Rightarrow> append_all sha now lease cs db')"

lemma append_all_append:
  "append_all sha now lease (xs @ ys) db =
     (case append_all sha now lease xs db of Inl e \<Rightarrow> Inl e | Inr db' \<Rightarrow> append_all sha now lease ys db')"
  by (induction xs arbitrary: db) (auto split: sum.splits)

definition stored :: "log_tables \<Rightarrow> LeaseRequest \<Rightarrow> WireChunk \<Rightarrow> bool" where
  "stored db lease c \<longleftrightarrow> lt_chunks db (lr_JobID lease) (wc_Sequence c) = Some (chunk_row (stored_chunk lease c))"

lemma append_next:
  assumes m: "stream_matches sha now lease b db" and inv: "buffer_inv b" and p: "p \<noteq> []" "\<not> lb_truncated b"
    and l: "lease_ok lease" and st: "0 \<le> step" "step \<le> 1023"
  shows "\<exists>db'. AppendLogChunk sha now now (stored_chunk lease (next_chunk step stderr b p)) db = Inr db' \<and>
    stream_matches sha now lease (advance step stderr b p) db' \<and>
    stored db' lease (next_chunk step stderr b p) \<and>
    (\<forall>c. wc_Sequence c \<le> lb_sequence b \<longrightarrow> stored db lease c \<longrightarrow> stored db' lease c)"
proof -
  let ?c = "next_chunk step stderr b p" and ?j = "lr_JobID lease"
  let ?s = "stored_chunk lease ?c"
  obtain job where job: "lt_jobs db ?j = Some job" "lease_current sha now lease job"
    using m by (auto simp: stream_matches_def)
  define row where "row = ensure_stream ?j job db"
  have row: "sr_next row = lb_sequence b + 1" "sr_total row = lb_total b" "sr_truncated row = lb_truncated b"
    "now < sr_expires_at row"
    using m job(1) by (auto simp: stream_matches_def Let_def row_def)
  have v: "ValidateLogChunk ?s" using next_chunk_valid [OF inv p l st] .
  have s: "lc_Sequence ?s = lb_sequence b + 1" "lc_Lease ?s = lease" "lc_Truncated ?s = is_marker b p"
    "int (length (lc_Data ?s)) = sent_bytes b p"
    using next_chunk_data_length [OF inv p(1)] by (simp_all add: stored_chunk_def next_chunk_def sent_bytes_def)
  have room: "lb_total b + sent_bytes b p \<le> MaxJobLogBytes"
    using chunk_size_bounds [OF inv p(1)] inv by (auto simp: sent_bytes_def buffer_inv_def)
  have last: "lb_sequence b + 1 = MaxJobLogChunks \<longrightarrow> is_marker b p" by (auto simp: is_marker_def)
  let ?db1 = "db\<lparr>lt_streams := (lt_streams db)(?j \<mapsto> row)\<rparr>"
  let ?row = "row\<lparr>sr_next := sr_next row + 1, sr_total := sr_total row + int (length (lc_Data ?s)),
                 sr_truncated := lc_Truncated ?s\<rparr>"
  let ?db' = "?db1\<lparr>lt_chunks := (lt_chunks ?db1)(?j := (lt_chunks ?db1 ?j)(lc_Sequence ?s \<mapsto> chunk_row ?s)),
                   lt_streams := (lt_streams ?db1)(?j \<mapsto> ?row)\<rparr>"
  have "append_to_stream now ?s row ?db1 = Inr ?db'"
    using row s room last p(2) unfolding append_to_stream_def Let_def by simp
  then have a: "AppendLogChunk sha now now ?s db = Inr ?db'"
    using v job s(2) by (simp add: AppendLogChunk_def Let_def flip: row_def)
  moreover have "stream_matches sha now lease (advance step stderr b p) ?db'"
    using job row s p(2) by (auto simp: stream_matches_def ensure_stream_def sent_bytes_def)
  moreover have "stored ?db' lease ?c"
    using s(1) by (simp add: stored_def) (simp add: next_chunk_def)
  moreover have "stored ?db' lease c" if "wc_Sequence c \<le> lb_sequence b" "stored db lease c" for c
    using that s(1) by (simp add: stored_def)
  ultimately show ?thesis by blast
qed

lemma log_write_stored:
  assumes "stream_matches sha now lease b db" and "buffer_inv b" and "lease_ok lease" and "0 \<le> step" and "step \<le> 1023"
    and "log_write never always step stderr original written b p = (b', cs, res)"
  shows "\<exists>db'. append_all sha now lease cs db = Inr db' \<and> stream_matches sha now lease b' db' \<and>
    (\<forall>c\<in>set cs. stored db' lease c) \<and>
    (\<forall>c. wc_Sequence c \<le> lb_sequence b \<longrightarrow> stored db lease c \<longrightarrow> stored db' lease c)"
  using assms(1,2,6)
proof (induction "if lb_truncated b then 0 else Suc (length p)" arbitrary: b p written cs db rule: less_induct)
  case less
  show ?case
  proof (rule log_write_cases [OF less.prems(2), where canceled = never and acked = always and step = step
        and stderr = stderr and original = original and written = written and p = p], goal_cases stop lost sent)
    case (stop res)
    then show ?thesis using less.prems by auto
  next
    case (lost b1)
    then show ?thesis by (simp add: always_def)
  next
    case (sent b2 cs2 res2)
    let ?b = "advance step stderr b p" and ?c = "next_chunk step stderr b p"
    have smaller: "(if lb_truncated ?b then 0 else Suc (length (drop (nat (sent_bytes b p)) p))) <
        (if lb_truncated b then 0 else Suc (length p))"
      using sent(1,2) chunk_size_bounds [OF less.prems(2) sent(1)]
      by (auto simp: sent_bytes_def is_marker_def)
    have eq: "b' = b2" "cs = ?c # cs2" "res = res2" using sent(5) less.prems(3) by simp_all
    obtain db1 where db1: "AppendLogChunk sha now now (stored_chunk lease ?c) db = Inr db1"
      "stream_matches sha now lease ?b db1" "stored db1 lease ?c"
      "\<forall>c. wc_Sequence c \<le> lb_sequence b \<longrightarrow> stored db lease c \<longrightarrow> stored db1 lease c"
      using append_next [OF less.prems(1,2) sent(1,2) assms(3-5)] by blast
    obtain db' where db': "append_all sha now lease cs2 db1 = Inr db'" "stream_matches sha now lease b' db'"
      "\<forall>c\<in>set cs2. stored db' lease c"
      "\<forall>c. wc_Sequence c \<le> lb_sequence ?b \<longrightarrow> stored db1 lease c \<longrightarrow> stored db' lease c"
      using less.hyps [OF smaller db1(2) advance_inv [OF less.prems(2) sent(1,2)] sent(4) [folded eq]] by blast
    have "wc_Sequence ?c \<le> lb_sequence ?b" by (simp add: next_chunk_def)
    then have "stored db' lease ?c" using db'(4) db1(3) by blast
    then show ?thesis using db1 db' eq by auto
  qed
qed

lemma log_writes_stored:
  assumes "stream_matches sha now lease b db" and "buffer_inv b" and "lease_ok lease" and "steps_ok ws"
    and "log_writes b ws = (b', cs)"
  shows "\<exists>db'. append_all sha now lease cs db = Inr db' \<and> stream_matches sha now lease b' db' \<and>
    (\<forall>c\<in>set cs. stored db' lease c) \<and>
    (\<forall>c. wc_Sequence c \<le> lb_sequence b \<longrightarrow> stored db lease c \<longrightarrow> stored db' lease c)"
  using assms(1,2,4,5)
proof (induction ws arbitrary: b cs db)
  case (Cons w ws)
  obtain step stderr p where w: "w = (step, stderr, p)" by (metis prod_cases3)
  obtain b1 cs1 r where l: "log_write never always step stderr (int (length p)) 0 b p = (b1, cs1, r)"
    by (metis prod_cases3)
  obtain cs2 where l2: "log_writes b1 ws = (b', cs2)" "cs = cs1 @ cs2"
    using Cons.prems(4) w l by (auto simp: Write_log_def split: prod.splits)
  have st: "0 \<le> step" "step \<le> 1023" "steps_ok ws" using Cons.prems(3) w by (auto simp: steps_ok_def)
  note v = log_write_valid [OF Cons.prems(2) assms(3) st(1,2) l]
  obtain db1 where db1: "append_all sha now lease cs1 db = Inr db1" "stream_matches sha now lease b1 db1"
    "\<forall>c\<in>set cs1. stored db1 lease c"
    "\<forall>c. wc_Sequence c \<le> lb_sequence b \<longrightarrow> stored db lease c \<longrightarrow> stored db1 lease c"
    using log_write_stored [OF Cons.prems(1,2) assms(3) st(1,2) l] by blast
  obtain db' where db': "append_all sha now lease cs2 db1 = Inr db'" "stream_matches sha now lease b' db'"
    "\<forall>c\<in>set cs2. stored db' lease c"
    "\<forall>c. wc_Sequence c \<le> lb_sequence b1 \<longrightarrow> stored db1 lease c \<longrightarrow> stored db' lease c"
    using Cons.IH [OF db1(2) _ st(3) l2(1)] v by blast
  have "wc_Sequence c \<le> lb_sequence b1" if "c \<in> set cs1" for c
  proof -
    have "wc_Sequence c \<in> set (map wc_Sequence cs1)" using that by simp
    then show ?thesis using v by (metis atLeastAtMost_iff set_upto)
  qed
  then have "\<forall>c\<in>set cs1. stored db' lease c" using db1(3) db'(4) by blast
  then show ?case using db1 db' v l2(2) by (auto simp: append_all_append)
qed simp

section \<open>Properties\<close>


text \<open>
  C38 (roundtrip). A job's log arrives complete and in order: for any writes of the steps of a job, the
  database accepts every chunk in the order it was sent and stores it, and the stored data is the written
  data, all of it or, when the truncation marker was sent, its first part of the permitted size.
\<close>

theorem log_end_to_end:
  assumes "lease_ok lease" and "steps_ok ws" and "stream_matches sha now lease newLogBuffer db"
    and "log_writes newLogBuffer ws = (b, cs)"
  shows "\<exists>db'. append_all sha now lease cs db = Inr db' \<and> (\<forall>c\<in>set cs. stored db' lease c) \<and>
    concat (map wc_Data cs) = take (nat (lb_total b)) (concat (map (\<lambda>(_, _, p). p) ws)) \<and>
    (\<not> lb_truncated b \<longrightarrow> concat (map wc_Data cs) = concat (map (\<lambda>(_, _, p). p) ws))"
proof -
  have z: "lb_total newLogBuffer = 0" by (simp add: newLogBuffer_def)
  note c = log_writes_contents [OF buffer_inv_new assms(2,4), unfolded z]
  have "concat (map wc_Data cs) = take (nat (lb_total b)) (concat (map (\<lambda>(_, _, p). p) ws))" using c by simp
  moreover have "nat (lb_total b) = length (concat (map (\<lambda>(_, _, p). p) ws))" if "\<not> lb_truncated b"
    using c that by simp
  ultimately show ?thesis
    using log_writes_stored [OF assms(3) buffer_inv_new assms(1,2,4)] by (metis take_all_iff order_refl)
qed

text \<open>
  Redelivery is idempotent: a chunk that was just stored is accepted again, as long as the
  lease and the retention last, and changes nothing; a chunk with the same number and other contents is
  refused.
\<close>

theorem append_idempotent:
  assumes "AppendLogChunk sha t1 t2 c db = Inr db'"
    and "lt_jobs db (lr_JobID (lc_Lease c)) = Some job" and "lease_current sha t3 (lc_Lease c) job"
    and "t4 < sr_expires_at (ensure_stream (lr_JobID (lc_Lease c)) job db)"
    and "ValidateLogChunk d" and "lc_Lease d = lc_Lease c" and "lc_Sequence d = lc_Sequence c"
  shows "AppendLogChunk sha t3 t4 c db' = Inr db' \<and>
    (chunk_row d \<noteq> chunk_row c \<longrightarrow> AppendLogChunk sha t3 t4 d db' = Inl LogSequence)"
proof -
  let ?j = "lr_JobID (lc_Lease c)"
  define row where "row = ensure_stream ?j job db"
  let ?db1 = "db\<lparr>lt_streams := (lt_streams db)(?j \<mapsto> row)\<rparr>"
  have v: "ValidateLogChunk c" and a: "append_to_stream t2 c row ?db1 = Inr db'"
    using assms(1,2) by (auto simp: AppendLogChunk_def Let_def row_def split: if_splits)
  obtain row' where r: "lt_streams db' ?j = Some row'" "lc_Sequence c < sr_next row'"
    "sr_expires_at row' = sr_expires_at row" "lt_chunks db' ?j (lc_Sequence c) = Some (chunk_row c)"
    "lt_jobs db' = lt_jobs db"
    using a by (auto simp: append_to_stream_def Let_def split: if_splits option.splits)
  have "ensure_stream ?j job db' = row'" "db'\<lparr>lt_streams := (lt_streams db')(?j \<mapsto> row')\<rparr> = db'"
    using r(1) by (simp_all add: ensure_stream_def fun_upd_idem)
  then show ?thesis
    using assms(2-) r v by (auto simp: AppendLogChunk_def append_to_stream_def Let_def row_def)
qed

section \<open>Witnesses\<close>

definition sample_lease :: LeaseRequest where
  "sample_lease = \<lparr>lr_RunnerID = 3, lr_JobID = 5, lr_LeaseToken = ''tok''\<rparr>"

definition sample_log_job :: job_row where
  "sample_log_job = \<lparr>jr_runner_id = 3, jr_token_hash = ''tok'', jr_lease_expires = 100, jr_status = JobRunning, jr_created_at = 0\<rparr>"

definition sample_tables :: log_tables where
  "sample_tables = \<lparr>lt_jobs = [5 \<mapsto> sample_log_job], lt_streams = Map.empty, lt_chunks = (\<lambda>_. Map.empty)\<rparr>"

definition sample_writes :: "(int \<times> bool \<times> bytes) list" where
  "sample_writes = [(0, False, ''hello ''), (0, True, []), (1, False, ''world'')]"

lemma sample_lease_ok: "lease_ok sample_lease"
  by (simp add: lease_ok_def sample_lease_def)


theorem log_end_to_end_witness:
  "concat (map wc_Data (snd (log_writes newLogBuffer sample_writes))) = ''hello world'' \<and>
   (\<exists>db'. append_all (\<lambda>t. t) 1 sample_lease (snd (log_writes newLogBuffer sample_writes)) sample_tables = Inr db')"
proof -
  obtain b cs where l: "log_writes newLogBuffer sample_writes = (b, cs)" by fastforce
  have steps: "steps_ok sample_writes" by (simp add: steps_ok_def sample_writes_def)
  have m: "stream_matches (\<lambda>t. t) 1 sample_lease newLogBuffer sample_tables"
    by (simp add: stream_matches_def sample_tables_def sample_lease_def sample_log_job_def lease_current_def
        ensure_stream_def newLogBuffer_def sevenDays_def go_time)
  have "\<not> lb_truncated (fst (log_writes newLogBuffer sample_writes))" by code_simp
  then have "\<not> lb_truncated b" using l by simp
  then show ?thesis
    using log_end_to_end [OF sample_lease_ok steps m l] l by (auto simp: sample_writes_def)
qed

definition sample_chunk :: LogChunk where
  "sample_chunk = \<lparr>lc_Lease = sample_lease, lc_Sequence = 1, lc_Step = 0, lc_Stream = ''stdout'',
     lc_Data = ''x'', lc_Truncated = False\<rparr>"

theorem append_idempotent_witness:
  "\<exists>db'. AppendLogChunk (\<lambda>t. t) 1 1 sample_chunk sample_tables = Inr db' \<and>
     AppendLogChunk (\<lambda>t. t) 2 2 sample_chunk db' = Inr db'"
proof -
  have "case AppendLogChunk (\<lambda>t. t) 1 1 sample_chunk sample_tables of Inr _ \<Rightarrow> True | Inl _ \<Rightarrow> False" by code_simp
  then obtain db' where a: "AppendLogChunk (\<lambda>t. t) 1 1 sample_chunk sample_tables = Inr db'"
    by (auto split: sum.splits)
  have s: "lt_jobs sample_tables (lr_JobID (lc_Lease sample_chunk)) = Some sample_log_job"
    "lease_current (\<lambda>t. t) 2 (lc_Lease sample_chunk) sample_log_job"
    "2 < sr_expires_at (ensure_stream (lr_JobID (lc_Lease sample_chunk)) sample_log_job sample_tables)"
    "ValidateLogChunk sample_chunk"
    by code_simp+
  show ?thesis using append_idempotent [OF a s refl refl] a by blast
qed

end
