(* ===== verification/Lease_Queue.thy ===== *)
theory Lease_Queue
  imports Prelude
begin

text \<open>
  The contract that the two durable work queues of the server share (the commit status outbox and the
  webhook inbox of \<open>src/internal/store/postgres\<close>): a row is inserted once, is worked on under a lease, and
  ends as done or dead. The locale states what each row may go through; its lemmas hold for both queues.
\<close>

datatype phase = Absent | Ready | Working uuid gotime | Done | Dead

inductive phase_step :: "phase \<Rightarrow> phase \<Rightarrow> bool" where
  stay: "phase_step p p"
| insert: "phase_step Absent Ready"
| claim: "phase_step Ready (Working owner expires)"
| finish: "phase_step (Working owner expires) Done"
| retry: "phase_step (Working owner expires) Ready"
| give_up: "phase_step (Working owner expires) Dead"
| expire: "phase_step Ready Dead"
| replay: "phase_step Dead Ready"

inductive_cases phase_step_DoneE: "phase_step Done p"
inductive_cases phase_step_to_DoneE: "phase_step p Done"

inductive_simps phase_step_simps:
  "phase_step Absent q" "phase_step Ready q" "phase_step (Working owner expires) q" "phase_step Dead q" "phase_step Done q"

locale leased_queue =
  fixes phase_of :: "'s \<Rightarrow> uuid \<Rightarrow> phase" and ok :: "'s \<Rightarrow> bool" and init :: 's and step :: "'s \<Rightarrow> 's \<Rightarrow> bool"
  assumes init_absent: "phase_of init i = Absent"
    and init_ok: "ok init"
    and step_ok: "ok s \<Longrightarrow> step s t \<Longrightarrow> ok t"
    and step_phase: "ok s \<Longrightarrow> step s t \<Longrightarrow> phase_step (phase_of s i) (phase_of t i)"
begin

lemma steps_ok: "step\<^sup>*\<^sup>* s t \<Longrightarrow> ok s \<Longrightarrow> ok t"
  by (induction rule: rtranclp_induct) (auto intro: step_ok)

text \<open>What is done stays done: no row is worked on again after it was finished.\<close>

lemma done_forever: "step\<^sup>*\<^sup>* s t \<Longrightarrow> ok s \<Longrightarrow> phase_of s i = Done \<Longrightarrow> phase_of t i = Done"
proof (induction rule: rtranclp_induct)
  case (step t u)
  then show ?case using step_phase [of t u i] steps_ok [of s t] by (auto elim: phase_step_DoneE)
qed

text \<open>No row is lost.\<close>

lemma never_lost: "step\<^sup>*\<^sup>* s t \<Longrightarrow> ok s \<Longrightarrow> phase_of s i \<noteq> Absent \<Longrightarrow> phase_of t i \<noteq> Absent"
proof (induction rule: rtranclp_induct)
  case (step t u)
  then show ?case using step_phase [of t u i] steps_ok [of s t] by (auto elim: phase_step.cases)
qed

text \<open>A finished row was under a lease just before it was finished.\<close>

lemma done_under_lease:
  "step\<^sup>*\<^sup>* init t \<Longrightarrow> phase_of t i = Done \<Longrightarrow>
   \<exists>u v owner expires. step\<^sup>*\<^sup>* init u \<and> step u v \<and> step\<^sup>*\<^sup>* v t \<and> phase_of u i = Working owner expires \<and>
     phase_of v i = Done"
proof (induction rule: rtranclp_induct)
  case base
  then show ?case using init_absent by simp
next
  case (step t w)
  show ?case
  proof (cases "phase_of t i = Done")
    case True
    then obtain u v owner expires where "step\<^sup>*\<^sup>* init u" "step u v" "step\<^sup>*\<^sup>* v t"
      "phase_of u i = Working owner expires" "phase_of v i = Done"
      using step.IH by blast
    then show ?thesis using step.hyps(2) by (meson rtranclp.rtrancl_into_rtrancl)
  next
    case False
    then obtain owner expires where "phase_of t i = Working owner expires"
      using step_phase [OF steps_ok [OF step.hyps(1) init_ok] step.hyps(2), of i] step.prems
      by (auto elim: phase_step_to_DoneE)
    then show ?thesis using step.hyps step.prems by blast
  qed
qed

end

section \<open>Tables with a unique identifier\<close>

text \<open>The first row in the order of \<open>ORDER BY\<close>, by a key that is compared lexicographically.\<close>

fun first_by :: "('a \<Rightarrow> 'k::linorder) \<Rightarrow> 'a list \<Rightarrow> 'a option" where
  "first_by key [] = None"
| "first_by key (x # xs) =
     (case first_by key xs of
        None \<Rightarrow> Some x
      | Some y \<Rightarrow> if key x \<le> key y then Some x else Some y)"

lemma first_by_None [simp]: "first_by key xs = None \<longleftrightarrow> xs = []"
  by (cases xs) (auto split: option.splits)

lemma first_by_Some: "first_by key xs = Some x \<Longrightarrow> x \<in> set xs \<and> (\<forall>y\<in>set xs. key x \<le> key y)"
proof (induction xs arbitrary: x)
  case (Cons a xs)
  show ?case
  proof (cases "first_by key xs")
    case None
    then show ?thesis using Cons by simp
  next
    case (Some y)
    then show ?thesis using Cons by (auto split: if_splits intro: order.trans)
  qed
qed simp

text \<open>\<open>UPDATE ... WHERE id = i AND p\<close>, with the number of rows it affected.\<close>

definition update_where :: "('a \<Rightarrow> bool) \<Rightarrow> ('a \<Rightarrow> 'a) \<Rightarrow> 'a list \<Rightarrow> 'a list" where
  "update_where p f rows = map (\<lambda>r. if p r then f r else r) rows"

definition affected :: "('a \<Rightarrow> bool) \<Rightarrow> 'a list \<Rightarrow> nat" where
  "affected p rows = length (filter p rows)"

lemma map_update_where [simp]:
  "(\<And>r. g (f r) = g r) \<Longrightarrow> map g (update_where p f rows) = map g rows"
  by (simp add: update_where_def)

lemma image_update_where [simp]:
  "(\<And>r. g (f r) = g r) \<Longrightarrow> g ` set (update_where p f rows) = g ` set rows"
  by (metis list.set_map map_update_where)

lemma set_update_where: "set (update_where p f rows) = f ` {r \<in> set rows. p r} \<union> {r \<in> set rows. \<not> p r}"
  by (auto simp: update_where_def)

lemma find_SomeD: "List.find p xs = Some x \<Longrightarrow> x \<in> set xs \<and> p x"
  by (auto simp: find_Some_iff)

lemma affected_unique:
  assumes "distinct (map g rows)" and "\<And>r. p r \<Longrightarrow> g r = k"
  shows "affected p rows = 1 \<longleftrightarrow> (\<exists>r\<in>set rows. p r)"
proof
  assume "affected p rows = 1"
  then have "filter p rows \<noteq> []" by (auto simp: affected_def)
  then show "\<exists>r\<in>set rows. p r" by (auto simp: filter_empty_conv)
next
  assume ex: "\<exists>r\<in>set rows. p r"
  have d: "distinct (filter p rows)" using assms(1) by (simp add: distinct_map)
  have "card (set (filter p rows)) \<le> 1"
  proof -
    have "x = y" if "x \<in> set (filter p rows)" "y \<in> set (filter p rows)" for x y
      using that assms by (auto simp: distinct_map inj_on_def)
    then show ?thesis by (metis card_le_Suc0_iff_eq List.finite_set One_nat_def)
  qed
  moreover have "card (set (filter p rows)) > 0"
    using ex by (metis List.finite_set card_gt_0_iff filter_empty_conv set_empty)
  ultimately show "affected p rows = 1" unfolding affected_def using distinct_card [OF d] by linarith
qed

text \<open>Looking a row up by its identifier.\<close>

definition row_by :: "('a \<Rightarrow> uuid) \<Rightarrow> uuid \<Rightarrow> 'a list \<Rightarrow> 'a option" where
  "row_by g i rows = List.find (\<lambda>r. g r = i) rows"

lemma row_by_map:
  "(\<And>r. g (h r) = g r) \<Longrightarrow> row_by g i (map h rows) = map_option h (row_by g i rows)"
  unfolding row_by_def by (induction rows) auto

lemma row_by_append_new: "row_by g i (rows @ [r]) =
    (case row_by g i rows of Some x \<Rightarrow> Some x | None \<Rightarrow> if g r = i then Some r else None)"
  unfolding row_by_def by (induction rows) auto

lemma row_by_Some: "row_by g i rows = Some r \<Longrightarrow> r \<in> set rows \<and> g r = i"
  unfolding row_by_def by (auto simp: find_Some_iff)

lemma row_by_in: "distinct (map g rows) \<Longrightarrow> r \<in> set rows \<Longrightarrow> row_by g (g r) rows = Some r"
  unfolding row_by_def by (induction rows) (auto simp: rev_image_eqI)

text \<open>The phases of the rows of a table, and the statements that change rows only along the phases.\<close>

definition table_phase :: "('a \<Rightarrow> uuid) \<Rightarrow> ('a \<Rightarrow> phase) \<Rightarrow> 'a list \<Rightarrow> uuid \<Rightarrow> phase" where
  "table_phase g ph rows i = (case row_by g i rows of None \<Rightarrow> Absent | Some r \<Rightarrow> ph r)"

lemma table_phase_Nil [simp]: "table_phase g ph [] i = Absent"
  by (simp add: table_phase_def row_by_def)

lemma table_phase_in: "distinct (map g rows) \<Longrightarrow> r \<in> set rows \<Longrightarrow> table_phase g ph rows (g r) = ph r"
  by (simp add: table_phase_def row_by_in)

lemma table_phase_update:
  assumes "\<And>r. g (f r) = g r" and "\<And>r. r \<in> set rows \<Longrightarrow> p r \<Longrightarrow> phase_step (ph r) (ph (f r))"
  shows "phase_step (table_phase g ph rows i) (table_phase g ph (update_where p f rows) i)"
proof -
  have r: "row_by g i (update_where p f rows) = map_option (\<lambda>r. if p r then f r else r) (row_by g i rows)"
    unfolding update_where_def by (rule row_by_map) (simp add: assms(1))
  show ?thesis
  proof (cases "row_by g i rows")
    case None
    then show ?thesis using r by (simp add: table_phase_def phase_step.stay)
  next
    case (Some x)
    then have "x \<in> set rows" using row_by_Some by fast
    then show ?thesis using r Some assms(2) by (simp add: table_phase_def phase_step.stay)
  qed
qed

lemma table_phase_insert:
  "ph r = Ready \<Longrightarrow> phase_step (table_phase g ph rows i) (table_phase g ph (rows @ [r]) i)"
  by (auto simp: table_phase_def row_by_append_new phase_step.stay phase_step.insert split: option.splits)

lemma same_row: "distinct (map g rows) \<Longrightarrow> x \<in> set rows \<Longrightarrow> y \<in> set rows \<Longrightarrow> g x = g y \<Longrightarrow> x = y"
  by (auto simp: distinct_map inj_on_def)

text \<open>An event of the audit trail.\<close>

record AuditEvent =
  ae_actor_user_id :: "uuid option"
  ae_action :: string
  ae_resource_type :: string
  ae_resource_id :: string
  ae_metadata :: gomap

section \<open>Transactions\<close>

text \<open>A sequence of statements of which the first error rolls everything back.\<close>

definition and_then :: "'e + 'a \<Rightarrow> ('a \<Rightarrow> 'e + 'b) \<Rightarrow> 'e + 'b" where
  "and_then r k = (case r of Inl e \<Rightarrow> Inl e | Inr x \<Rightarrow> k x)"

lemma and_then_simps [simp]: "and_then (Inl e) k = Inl e" "and_then (Inr x) k = k x"
  by (simp_all add: and_then_def)

lemma and_then_Inr: "and_then r k = Inr y \<longleftrightarrow> (\<exists>x. r = Inr x \<and> k x = Inr y)"
  by (cases r) auto

lemma and_then_InrE:
  assumes "and_then r k = Inr y"
  obtains x where "r = Inr x" "k x = Inr y"
  using assms by (auto simp: and_then_Inr)

end
