(* ===== verification/Scm_Types.thy ===== *)
theory Scm_Types
  imports Go_Text
begin

text \<open>
  The provider-neutral source control types of \<open>src/internal/scm/scm.go\<close>: providers, events, repositories and
  commit statuses, and the errors of the provider adapters.
\<close>

datatype Provider = GitHub | GitLab | Gitea | Gitee | OtherProvider string

datatype EventType = EventPush | EventPullRequest | EventTag | OtherEvent string

record Repository =
  repo_ExternalID :: string
  repo_Owner :: string
  repo_Name :: string
  repo_CloneURL :: string
  repo_WebURL :: string
  repo_DefaultBranch :: string
  repo_Private :: bool

record Event =
  ev_Provider :: Provider
  ev_DeliveryID :: string
  ev_Type :: EventType
  ev_Action :: string
  ev_Repository :: Repository
  ev_Ref :: string
  ev_BeforeSHA :: string
  ev_AfterSHA :: string
  ev_Sender :: string
  ev_ReceivedAt :: gotime
  ev_Metadata :: gomap

record CommitStatus =
  cs_SHA :: string
  cs_Context :: string
  cs_State :: string
  cs_Description :: string
  cs_TargetURL :: string

datatype scm_error = ScmUnauthorized | ScmRateLimited | ScmNotFound | ScmInvalidHook | ScmUnsupportedEvent

definition provider_name :: "Provider \<Rightarrow> string" where
  "provider_name p =
     (case p of GitHub \<Rightarrow> ''github'' | GitLab \<Rightarrow> ''gitlab'' | Gitea \<Rightarrow> ''gitea'' | Gitee \<Rightarrow> ''gitee''
      | OtherProvider s \<Rightarrow> s)"

definition event_name :: "EventType \<Rightarrow> string" where
  "event_name t =
     (case t of EventPush \<Rightarrow> ''push'' | EventPullRequest \<Rightarrow> ''pull_request'' | EventTag \<Rightarrow> ''tag'' | OtherEvent s \<Rightarrow> s)"

text \<open>The pattern of a commit identifier, \<open>^[0-9a-fA-F]{40}$\<close>.\<close>

definition hex_any :: "char \<Rightarrow> bool" where
  "hex_any c \<longleftrightarrow> is_digit c \<or> (97 \<le> (of_char c :: int) \<and> (of_char c :: int) \<le> 102) \<or>
     (65 \<le> (of_char c :: int) \<and> (of_char c :: int) \<le> 70)"

definition shaPattern :: "string \<Rightarrow> bool" where
  "shaPattern s \<longleftrightarrow> length s = 40 \<and> list_all hex_any s"

end
