(* ===== verification/Commit_Status.thy ===== *)
theory Commit_Status
  imports Lease_Queue Scm_Types Run_State "HOL-Library.Product_Lexorder"
begin

text \<open>
  The commit status outbox: the types of \<open>src/internal/commitstatus/outbox.go\<close>, the table operations of
  \<open>src/internal/store/postgres/commit_status.go\<close>, the delivery worker of \<open>worker.go\<close>, the GitHub provider of
  \<open>github.go\<close> and the administrator's replay of \<open>admin.go\<close>.

  Every SQL statement is one atomic function on the list of rows, with one reading of the clock. Locks of
  concurrent transactions (\<open>FOR UPDATE SKIP LOCKED\<close>) only let a transaction choose a later candidate and
  are not modelled; a failing database leaves the table as it was.
\<close>

datatype State = StatePending | StateSuccess | StateFailure | StateError | OtherState string

definition State_Valid :: "State \<Rightarrow> bool" where
  "State_Valid s \<longleftrightarrow> s = StatePending \<or> s = StateSuccess \<or> s = StateFailure \<or> s = StateError"

definition state_name :: "State \<Rightarrow> string" where
  "state_name s =
     (case s of StatePending \<Rightarrow> ''pending'' | StateSuccess \<Rightarrow> ''success'' | StateFailure \<Rightarrow> ''failure''
      | StateError \<Rightarrow> ''error'' | OtherState x \<Rightarrow> x)"

datatype DeliveryState = DeliveryQueued | DeliveryProcessing | DeliveryDelivered | DeliveryDead

record Item =
  it_ID :: uuid
  it_RepositoryID :: uuid
  it_RepositoryExternalID :: string
  it_RunID :: uuid
  it_Provider :: string
  it_CommitSHA :: string
  it_Context :: string
  it_State :: State
  it_Description :: string
  it_TargetURL :: string
  it_DeterministicKey :: string
  it_DeliveryState :: DeliveryState
  it_AttemptCount :: int
  it_AvailableAt :: gotime
  it_ExpiresAt :: gotime
  it_LeaseOwner :: uuid
  it_LeaseExpiresAt :: gotime

text \<open>A row of the table; its nullable columns are options.\<close>

record status_row =
  ob_id :: uuid
  ob_repository_id :: uuid
  ob_run_id :: uuid
  ob_provider :: string
  ob_commit_sha :: string
  ob_context :: string
  ob_state :: State
  ob_description :: string
  ob_target_url :: "string option"
  ob_key :: string
  ob_delivery :: DeliveryState
  ob_attempts :: int
  ob_available :: gotime
  ob_expires :: gotime
  ob_lease :: "(uuid \<times> gotime) option"
  ob_error :: "string option"
  ob_delivered :: "gotime option"
  ob_created :: gotime

type_synonym outbox = "status_row list"

text \<open>
  A statement that would leave a row outside the constraints of \<open>src/db/migrations/000014_commit_status_outbox.up.sql\<close>
  fails with an error of the database.
\<close>

datatype outbox_error = ErrInvalid | ErrDatabase

definition row_check :: "status_row \<Rightarrow> bool" where
  "row_check r \<longleftrightarrow>
     ob_provider r \<in> {''github'', ''gitlab'', ''gitea'', ''gitee''} \<and>
     length (ob_commit_sha r) = 40 \<and> list_all hex_lower (ob_commit_sha r) \<and>
     1 \<le> length (ob_context r) \<and> length (ob_context r) \<le> 100 \<and> State_Valid (ob_state r) \<and>
     1 \<le> length (ob_description r) \<and> length (ob_description r) \<le> 140 \<and>
     (case ob_target_url r of None \<Rightarrow> True | Some u \<Rightarrow> 1 \<le> length u \<and> length u \<le> 2048) \<and>
     1 \<le> length (ob_key r) \<and> length (ob_key r) \<le> 255 \<and>
     0 \<le> ob_attempts r \<and> ob_attempts r \<le> 100 \<and>
     (case ob_error r of None \<Rightarrow> True | Some c \<Rightarrow> 1 \<le> length c \<and> length c \<le> 64) \<and>
     ob_expires r > ob_created r \<and>
     (ob_delivery r = DeliveryProcessing \<or> ob_lease r = None) \<and>
     (ob_delivery r = DeliveryDelivered \<longleftrightarrow> ob_delivered r \<noteq> None)"

definition checked :: "outbox \<Rightarrow> outbox_error + outbox" where
  "checked rows = (if list_all row_check rows then Inr rows else Inl ErrDatabase)"

text \<open>An update that has to affect exactly one row.\<close>

definition update_one :: "(status_row \<Rightarrow> bool) \<Rightarrow> (status_row \<Rightarrow> status_row) \<Rightarrow> outbox \<Rightarrow> outbox_error + outbox" where
  "update_one p f rows = (if affected p rows \<noteq> 1 then Inl ErrInvalid else checked (update_where p f rows))"

section \<open>Enqueueing\<close>

text \<open>The state, the suffix of the key and the description for a run status.\<close>

definition status_of_run :: "Status \<Rightarrow> State \<times> string \<times> string" where
  "status_of_run status =
     (if Terminal status then
        (case status of
           StatusSucceeded \<Rightarrow> (StateSuccess, ''final'', ''Run succeeded'')
         | StatusFailed \<Rightarrow> (StateFailure, ''final'', ''Run failed'')
         | StatusCanceled \<Rightarrow> (StateError, ''final'', ''Run canceled'')
         | _ \<Rightarrow> (StatePending, ''final'', ''Run queued''))
      else (StatePending, ''pending'', ''Run queued''))"

definition deterministic_key :: "(uuid \<Rightarrow> string) \<Rightarrow> uuid \<Rightarrow> string \<Rightarrow> string" where
  "deterministic_key uuid_String runID suffix = ''run:'' @ uuid_String runID @ '':'' @ suffix"

text \<open>
  \<open>run_info\<close> is the join of the run with its repository: the repository, its provider and the commit.
  \<open>newID\<close> is the identifier that the database draws.
\<close>

definition enqueueCommitStatusForRun :: "(uuid \<Rightarrow> string) \<Rightarrow> (uuid \<Rightarrow> (uuid \<times> string \<times> string) option) \<Rightarrow> uuid
    \<Rightarrow> gotime \<Rightarrow> uuid \<Rightarrow> Status \<Rightarrow> outbox \<Rightarrow> outbox_error + outbox" where
  "enqueueCommitStatusForRun uuid_String run_info newID now runID status rows =
     (if status \<noteq> StatusQueued \<and> \<not> Terminal status then Inr rows
      else
        (case run_info runID of
           None \<Rightarrow> Inr rows
         | Some (repositoryID, provider, commitSHA) \<Rightarrow>
             if length commitSHA \<noteq> 40 then Inr rows
             else
               (case status_of_run status of
                  (state, suffix, description) \<Rightarrow>
                    (let key = deterministic_key uuid_String runID suffix in
                     case List.find (\<lambda>r. ob_key r = key) rows of
                       None \<Rightarrow> checked (rows @ [\<lparr>ob_id = newID, ob_repository_id = repositoryID, ob_run_id = runID,
                         ob_provider = provider, ob_commit_sha = commitSHA, ob_context = ''YuanCI'',
                         ob_state = state, ob_description = description, ob_target_url = None, ob_key = key,
                         ob_delivery = DeliveryQueued, ob_attempts = 0, ob_available = now,
                         ob_expires = now + 24 * Hour, ob_lease = None, ob_error = None, ob_delivered = None,
                         ob_created = now\<rparr>])
                     | Some existing \<Rightarrow>
                         if ob_run_id existing \<noteq> runID \<or> ob_state existing \<noteq> state then Inl ErrInvalid
                         else Inr rows))))"

section \<open>Claiming, finishing, rescheduling\<close>

definition claimable_row :: "gotime \<Rightarrow> status_row \<Rightarrow> bool" where
  "claimable_row now r \<longleftrightarrow> ob_delivery r = DeliveryQueued \<and> ob_available r \<le> now \<and> ob_expires r > now"

definition claim_row :: "uuid \<Rightarrow> gotime \<Rightarrow> status_row \<Rightarrow> status_row" where
  "claim_row owner expires r =
     r\<lparr>ob_delivery := DeliveryProcessing, ob_lease := Some (owner, expires), ob_attempts := ob_attempts r + 1\<rparr>"

definition row_item :: "(uuid \<Rightarrow> string) \<Rightarrow> status_row \<Rightarrow> Item" where
  "row_item external_id r =
     \<lparr>it_ID = ob_id r, it_RepositoryID = ob_repository_id r, it_RepositoryExternalID = external_id (ob_repository_id r),
      it_RunID = ob_run_id r, it_Provider = ob_provider r, it_CommitSHA = ob_commit_sha r,
      it_Context = ob_context r, it_State = ob_state r, it_Description = ob_description r,
      it_TargetURL = (case ob_target_url r of None \<Rightarrow> [] | Some u \<Rightarrow> u), it_DeterministicKey = ob_key r,
      it_DeliveryState = ob_delivery r, it_AttemptCount = ob_attempts r, it_AvailableAt = ob_available r,
      it_ExpiresAt = ob_expires r,
      it_LeaseOwner = (case ob_lease r of None \<Rightarrow> uuid_Nil | Some (owner, _) \<Rightarrow> owner),
      it_LeaseExpiresAt = (case ob_lease r of None \<Rightarrow> time_zero | Some (_, expires) \<Rightarrow> expires)\<rparr>"

definition ClaimCommitStatus :: "(uuid \<Rightarrow> string) \<Rightarrow> uuid \<Rightarrow> gotime \<Rightarrow> duration \<Rightarrow> outbox
    \<Rightarrow> outbox_error + outbox \<times> Item option" where
  "ClaimCommitStatus external_id owner now leaseDuration rows =
     (if leaseDuration \<le> 0 \<or> leaseDuration > 15 * Minute then Inl ErrInvalid
      else
        (case first_by (\<lambda>r. (ob_available r, ob_created r, ob_id r)) (filter (claimable_row now) rows) of
           None \<Rightarrow> Inr (rows, None)
         | Some r \<Rightarrow>
             (case checked (update_where (\<lambda>x. ob_id x = ob_id r) (claim_row owner (now + leaseDuration)) rows) of
                Inl e \<Rightarrow> Inl e
              | Inr rows' \<Rightarrow> Inr (rows', Some (row_item external_id (claim_row owner (now + leaseDuration) r))))))"

definition recoverable_row :: "gotime \<Rightarrow> status_row \<Rightarrow> bool" where
  "recoverable_row now r \<longleftrightarrow>
     (ob_delivery r = DeliveryProcessing \<and> (case ob_lease r of None \<Rightarrow> False | Some (_, e) \<Rightarrow> e \<le> now)) \<or>
     (ob_delivery r = DeliveryQueued \<and> ob_expires r \<le> now)"

definition recovery_key :: "status_row \<Rightarrow> gotime \<times> uuid" where
  "recovery_key r = (case ob_lease r of None \<Rightarrow> ob_expires r | Some (_, e) \<Rightarrow> e, ob_id r)"

definition recover_row :: "gotime \<Rightarrow> status_row \<Rightarrow> status_row" where
  "recover_row now r =
     r\<lparr>ob_delivery := (if ob_expires r \<le> now then DeliveryDead else DeliveryQueued), ob_lease := None\<rparr>"

definition RecoverCommitStatusLeases :: "gotime \<Rightarrow> int \<Rightarrow> outbox \<Rightarrow> outbox_error + outbox \<times> int" where
  "RecoverCommitStatusLeases now limit rows =
     (if limit < 1 \<or> limit > 1000 then Inl ErrInvalid
      else
        (let chosen = map ob_id (take (nat limit) (sort_key recovery_key (filter (recoverable_row now) rows)));
             p = (\<lambda>r. ob_id r \<in> set chosen)
         in case checked (update_where p (recover_row now) rows) of
              Inl e \<Rightarrow> Inl e
            | Inr rows' \<Rightarrow> Inr (rows', int (affected p rows))))"

definition holds_lease :: "uuid \<Rightarrow> uuid \<Rightarrow> status_row \<Rightarrow> bool" where
  "holds_lease ident owner r \<longleftrightarrow>
     ob_id r = ident \<and> ob_delivery r = DeliveryProcessing \<and>
     (case ob_lease r of None \<Rightarrow> False | Some (o', _) \<Rightarrow> o' = owner)"

definition lease_live :: "gotime \<Rightarrow> status_row \<Rightarrow> bool" where
  "lease_live now r \<longleftrightarrow> (case ob_lease r of None \<Rightarrow> False | Some (_, e) \<Rightarrow> e > now)"

definition finish_row :: "gotime \<Rightarrow> status_row \<Rightarrow> status_row" where
  "finish_row now r = r\<lparr>ob_delivery := DeliveryDelivered, ob_delivered := Some now, ob_lease := None, ob_error := None\<rparr>"

definition FinishCommitStatus :: "gotime \<Rightarrow> uuid \<Rightarrow> uuid \<Rightarrow> outbox \<Rightarrow> outbox_error + outbox" where
  "FinishCommitStatus now ident leaseOwner rows =
     (if ident = uuid_Nil \<or> leaseOwner = uuid_Nil then Inl ErrInvalid
      else update_one (\<lambda>r. holds_lease ident leaseOwner r \<and> lease_live now r) (finish_row now) rows)"

definition reschedule_row :: "gotime \<Rightarrow> string \<Rightarrow> bool \<Rightarrow> status_row \<Rightarrow> status_row" where
  "reschedule_row availableAt errorCode dead r =
     r\<lparr>ob_delivery := (if dead then DeliveryDead else DeliveryQueued), ob_available := availableAt,
       ob_lease := None, ob_error := Some errorCode\<rparr>"

definition RescheduleCommitStatus :: "uuid \<Rightarrow> uuid \<Rightarrow> gotime \<Rightarrow> string \<Rightarrow> bool \<Rightarrow> outbox \<Rightarrow> outbox_error + outbox" where
  "RescheduleCommitStatus ident leaseOwner availableAt errorCode dead rows =
     (if ident = uuid_Nil \<or> leaseOwner = uuid_Nil \<or> availableAt = time_zero \<or> length errorCode < 1 \<or> length errorCode > 64
      then Inl ErrInvalid
      else update_one (holds_lease ident leaseOwner) (reschedule_row availableAt errorCode dead) rows)"

definition replay_row :: "gotime \<Rightarrow> status_row \<Rightarrow> status_row" where
  "replay_row now r =
     r\<lparr>ob_delivery := DeliveryQueued, ob_attempts := 0, ob_available := now, ob_expires := now + 24 * Hour,
       ob_error := None, ob_lease := None, ob_delivered := None\<rparr>"

text \<open>The replay also writes an event of the audit trail, in the same transaction.\<close>

definition ReplayCommitStatus :: "(uuid \<Rightarrow> string) \<Rightarrow> gotime \<Rightarrow> uuid \<Rightarrow> uuid \<Rightarrow> outbox \<Rightarrow> outbox_error + outbox \<times> AuditEvent" where
  "ReplayCommitStatus uuid_String now ident actorID rows =
     (if ident = uuid_Nil \<or> actorID = uuid_Nil then Inl ErrInvalid
      else
        (case update_one (\<lambda>r. ob_id r = ident \<and> ob_delivery r = DeliveryDead) (replay_row now) rows of
           Inl e \<Rightarrow> Inl e
         | Inr rows' \<Rightarrow> Inr (rows', \<lparr>ae_actor_user_id = Some actorID, ae_action = ''commit_status.replayed'',
             ae_resource_type = ''commit_status'', ae_resource_id = uuid_String ident,
             ae_metadata = []\<rparr>)))"

definition AdminService_Replay :: "(uuid \<Rightarrow> string) \<Rightarrow> gotime \<Rightarrow> uuid \<Rightarrow> uuid \<Rightarrow> outbox \<Rightarrow> outbox_error + outbox \<times> AuditEvent" where
  "AdminService_Replay uuid_String now actorID itemID rows =
     (if actorID = uuid_Nil \<or> itemID = uuid_Nil then Inl ErrInvalid else ReplayCommitStatus uuid_String now itemID actorID rows)"

section \<open>The worker\<close>

text \<open>The outcome of a delivery: success, or an error that is one of these kinds.\<close>

datatype delivery_error = DeliveryInvalid | DeliveryRateLimited | DeliveryOther

definition statusMaximumAttempts :: int where "statusMaximumAttempts = 8"
definition statusRateLimitDelay :: duration where "statusRateLimitDelay = Minute"
definition StatusLeaseDuration :: duration where "StatusLeaseDuration = Minute"

definition retry_delay :: "int \<Rightarrow> delivery_error \<Rightarrow> duration" where
  "retry_delay attempts err =
     (if err = DeliveryRateLimited then statusRateLimitDelay
      else
        (let shift = min (max (attempts - 1) 0) 8; delay = Second * 2 ^ nat shift in
         if delay > 5 * Minute then 5 * Minute else delay))"

definition retryDecision :: "gotime \<Rightarrow> Item \<Rightarrow> delivery_error \<Rightarrow> gotime \<times> string \<times> bool" where
  "retryDecision now item err =
     (let next' = now + retry_delay (it_AttemptCount item) err;
          code = (if err = DeliveryInvalid then ''provider_permanent''
                  else if err = DeliveryRateLimited then ''provider_rate_limited'' else ''provider_transient'');
          dead = (err = DeliveryInvalid \<or> it_AttemptCount item \<ge> statusMaximumAttempts \<or>
                  \<not> next' < it_ExpiresAt item)
      in (next', code, dead))"

text \<open>The GitHub provider checks the item before it sends it; \<open>send\<close> is the sender's answer.\<close>

definition GitHubProvider_Deliver :: "(uuid \<Rightarrow> string \<Rightarrow> CommitStatus \<Rightarrow> delivery_error option) \<Rightarrow> Item \<Rightarrow> delivery_error option" where
  "GitHubProvider_Deliver send item =
     (if it_Provider item \<noteq> ''github'' \<or> it_RepositoryID item = uuid_Nil \<or> it_RepositoryExternalID item = [] \<or>
         length (it_CommitSHA item) \<noteq> 40 \<or> it_Context item = [] \<or> \<not> State_Valid (it_State item)
      then Some DeliveryInvalid
      else send (it_RepositoryID item) (it_RepositoryExternalID item)
             \<lparr>cs_SHA = it_CommitSHA item, cs_Context = it_Context item, cs_State = state_name (it_State item),
              cs_Description = it_Description item, cs_TargetURL = it_TargetURL item\<rparr>)"

text \<open>
  One round of the worker: the times at which it claims, decides and finishes, whether its context has
  ended when the delivery failed, and the answer of the provider. Errors of the store are logged only.
\<close>

definition processOne :: "(uuid \<Rightarrow> string) \<Rightarrow> (Item \<Rightarrow> delivery_error option) \<Rightarrow> uuid \<Rightarrow> gotime \<Rightarrow> gotime \<Rightarrow> bool \<Rightarrow> outbox \<Rightarrow> outbox" where
  "processOne external_id deliver owner claimed_at now ended rows =
     (case ClaimCommitStatus external_id owner claimed_at StatusLeaseDuration rows of
        Inl _ \<Rightarrow> rows
      | Inr (rows1, None) \<Rightarrow> rows1
      | Inr (rows1, Some item) \<Rightarrow>
          (case deliver item of
             None \<Rightarrow> (case FinishCommitStatus now (it_ID item) (it_LeaseOwner item) rows1 of Inl _ \<Rightarrow> rows1 | Inr rows2 \<Rightarrow> rows2)
           | Some err \<Rightarrow>
               if ended then rows1
               else
                 (case retryDecision now item err of
                    (next', code, dead) \<Rightarrow>
                      (case RescheduleCommitStatus (it_ID item) (it_LeaseOwner item) next' code dead rows1 of
                         Inl _ \<Rightarrow> rows1 | Inr rows2 \<Rightarrow> rows2))))"

definition StatusRecoveryBatch :: int where "StatusRecoveryBatch = 100"

definition worker_recover :: "gotime \<Rightarrow> outbox \<Rightarrow> outbox" where
  "worker_recover now rows =
     (case RecoverCommitStatusLeases now StatusRecoveryBatch rows of Inl _ \<Rightarrow> rows | Inr (rows', _) \<Rightarrow> rows')"

text \<open>
  The loop of the worker, over the list of its rounds: what the round's call of \<open>processOne\<close> sees, and the time
  at which the recovery ticker fires before the idle timer, if it does.
\<close>

record worker_round =
  wr_owner :: uuid
  wr_claimed_at :: gotime
  wr_now :: gotime
  wr_ended :: bool
  wr_answer :: "Item \<Rightarrow> delivery_error option"
  wr_tick :: "gotime option"

fun worker_rounds :: "(uuid \<Rightarrow> string) \<Rightarrow> worker_round list \<Rightarrow> outbox \<Rightarrow> outbox" where
  "worker_rounds external_id [] rows = rows"
| "worker_rounds external_id (w # ws) rows =
     (let rows1 = processOne external_id (wr_answer w) (wr_owner w) (wr_claimed_at w) (wr_now w) (wr_ended w) rows in
      worker_rounds external_id ws (case wr_tick w of None \<Rightarrow> rows1 | Some t \<Rightarrow> worker_recover t rows1))"

definition worker_Run :: "(uuid \<Rightarrow> string) \<Rightarrow> gotime \<Rightarrow> worker_round list \<Rightarrow> outbox \<Rightarrow> outbox" where
  "worker_Run external_id start ws rows = worker_rounds external_id ws (worker_recover start rows)"

section \<open>The outbox as a leased queue\<close>

inductive outbox_step :: "outbox \<Rightarrow> outbox \<Rightarrow> bool" where
  enqueue: "enqueueCommitStatusForRun uuid_String run_info newID now runID status rows = Inr rows' \<Longrightarrow>
     newID \<notin> ob_id ` set rows \<Longrightarrow> outbox_step rows rows'"
| claim: "ClaimCommitStatus external_id owner now leaseDuration rows = Inr (rows', item) \<Longrightarrow> outbox_step rows rows'"
| recover: "RecoverCommitStatusLeases now limit rows = Inr (rows', n) \<Longrightarrow> outbox_step rows rows'"
| finish: "FinishCommitStatus now ident owner rows = Inr rows' \<Longrightarrow> outbox_step rows rows'"
| reschedule: "RescheduleCommitStatus ident owner availableAt code dead rows = Inr rows' \<Longrightarrow> outbox_step rows rows'"
| replay: "ReplayCommitStatus uuid_String now ident actorID rows = Inr (rows', event) \<Longrightarrow> outbox_step rows rows'"

abbreviation outbox_steps :: "outbox \<Rightarrow> outbox \<Rightarrow> bool" where
  "outbox_steps \<equiv> outbox_step\<^sup>*\<^sup>*"

definition row_phase :: "status_row \<Rightarrow> phase" where
  "row_phase r =
     (case ob_delivery r of
        DeliveryQueued \<Rightarrow> Ready
      | DeliveryProcessing \<Rightarrow> (case ob_lease r of None \<Rightarrow> Working 0 0 | Some (owner, expires) \<Rightarrow> Working owner expires)
      | DeliveryDelivered \<Rightarrow> Done
      | DeliveryDead \<Rightarrow> Dead)"

definition outbox_phase :: "outbox \<Rightarrow> uuid \<Rightarrow> phase" where
  "outbox_phase rows i = (case row_by ob_id i rows of None \<Rightarrow> Absent | Some r \<Rightarrow> row_phase r)"

definition outbox_ok :: "outbox \<Rightarrow> bool" where
  "outbox_ok rows \<longleftrightarrow> distinct (map ob_id rows) \<and> distinct (map ob_key rows) \<and> list_all row_check rows"

lemma checked_Inr [simp]: "checked rows = Inr rows' \<longleftrightarrow> rows' = rows \<and> list_all row_check rows"
  by (auto simp: checked_def)

lemma update_one_Inr [simp]: "update_one p f rows = Inr rows' \<longleftrightarrow>
    affected p rows = 1 \<and> rows' = update_where p f rows \<and> list_all row_check rows'"
  by (auto simp: update_one_def)

text \<open>
  A statement that changes only rows with a condition, and every such row by a step of its phase, makes
  the table step.
\<close>

lemma update_where_phase:
  assumes "\<And>r. ob_id (f r) = ob_id r" and "\<And>r. r \<in> set rows \<Longrightarrow> p r \<Longrightarrow> phase_step (row_phase r) (row_phase (f r))"
  shows "phase_step (outbox_phase rows i) (outbox_phase (update_where p f rows) i)"
  using table_phase_update [of ob_id f rows p row_phase i] assms by (simp add: outbox_phase_def table_phase_def)

lemma update_where_ok:
  assumes "\<And>r. ob_id (f r) = ob_id r" and "\<And>r. ob_key (f r) = ob_key r" and "outbox_ok rows"
    and "list_all row_check (update_where p f rows)"
  shows "outbox_ok (update_where p f rows)"
  using assms by (simp add: outbox_ok_def)

lemma same_id: "outbox_ok rows \<Longrightarrow> x \<in> set rows \<Longrightarrow> y \<in> set rows \<Longrightarrow> ob_id x = ob_id y \<Longrightarrow> x = y"
  by (rule same_row [of ob_id rows]) (auto simp: outbox_ok_def)

lemma enqueue_Inr:
  assumes "enqueueCommitStatusForRun uuid_String run_info newID now runID status rows = Inr rows'"
  shows "rows' = rows \<or> (\<exists>r. rows' = rows @ [r] \<and> ob_id r = newID \<and> ob_key r \<notin> ob_key ` set rows \<and>
    ob_delivery r = DeliveryQueued \<and> ob_run_id r = runID \<and> row_check r)"
  using assms unfolding enqueueCommitStatusForRun_def
  by (fastforce simp: Let_def find_None_iff split: if_splits option.splits prod.splits)

lemma claim_Inr:
  assumes "ClaimCommitStatus external_id owner now leaseDuration rows = Inr (rows', item)"
  shows "(rows' = rows \<and> item = None \<and> (\<forall>r\<in>set rows. \<not> claimable_row now r)) \<or>
    (\<exists>r\<in>set rows. claimable_row now r \<and>
       (\<forall>x\<in>set rows. claimable_row now x \<longrightarrow> (ob_available r, ob_created r, ob_id r) \<le> (ob_available x, ob_created x, ob_id x)) \<and>
       item = Some (row_item external_id (claim_row owner (now + leaseDuration) r)) \<and>
       rows' = update_where (\<lambda>x. ob_id x = ob_id r) (claim_row owner (now + leaseDuration)) rows \<and>
       list_all row_check rows')"
proof (cases "first_by (\<lambda>r. (ob_available r, ob_created r, ob_id r)) (filter (claimable_row now) rows)")
  case None
  then have "filter (claimable_row now) rows = []" by simp
  then have "\<forall>r\<in>set rows. \<not> claimable_row now r" by (simp add: filter_empty_conv)
  then show ?thesis using assms None by (auto simp: ClaimCommitStatus_def split: if_splits)
next
  case (Some r)
  then show ?thesis
    using assms first_by_Some [OF Some] by (auto simp: ClaimCommitStatus_def split: if_splits sum.splits)
qed

lemma outbox_step_ok: "outbox_ok rows \<Longrightarrow> outbox_step rows rows' \<Longrightarrow> outbox_ok rows'"
proof (erule outbox_step.cases, goal_cases)
  case (1 uuid_String run_info newID now runID status rows0 rows1)
  then show ?case using enqueue_Inr [OF 1(4)] by (auto simp: outbox_ok_def)
next
  case (2 external_id owner now leaseDuration rows0 rows1 item)
  then show ?case using claim_Inr [OF 2(4)] by (auto intro!: update_where_ok simp: claim_row_def)
next
  case (3 now limit rows0 rows1 n)
  then show ?case
    by (auto simp: RecoverCommitStatusLeases_def Let_def recover_row_def split: if_splits sum.splits intro!: update_where_ok)
qed (auto simp: FinishCommitStatus_def RescheduleCommitStatus_def ReplayCommitStatus_def
     finish_row_def reschedule_row_def replay_row_def split: if_splits sum.splits intro!: update_where_ok)

lemma outbox_step_phase:
  assumes ok: "outbox_ok rows" and step: "outbox_step rows rows'"
  shows "phase_step (outbox_phase rows i) (outbox_phase rows' i)"
  using step
proof (cases rule: outbox_step.cases)
  case (enqueue uuid_String run_info newID now runID status)
  show ?thesis
  proof (cases "rows' = rows")
    case True
    then show ?thesis by (simp add: phase_step.stay)
  next
    case False
    then obtain r where r: "rows' = rows @ [r]" "ob_delivery r = DeliveryQueued" using enqueue_Inr [OF enqueue(1)] by blast
    then show ?thesis
      by (auto simp: outbox_phase_def row_by_append_new row_phase_def phase_step.stay phase_step.insert split: option.splits)
  qed
next
  case (claim external_id owner now leaseDuration item)
  show ?thesis
  proof (cases "rows' = rows")
    case True
    then show ?thesis by (simp add: phase_step.stay)
  next
    case False
    then obtain r where r: "r \<in> set rows" "claimable_row now r"
      "rows' = update_where (\<lambda>x. ob_id x = ob_id r) (claim_row owner (now + leaseDuration)) rows"
      using claim_Inr [OF claim] by blast
    show ?thesis unfolding r(3)
    proof (rule update_where_phase)
      fix x
      assume "x \<in> set rows" and "ob_id x = ob_id r"
      then have "x = r" using same_id [OF ok] r(1) by blast
      then show "phase_step (row_phase x) (row_phase (claim_row owner (now + leaseDuration) x))"
        using r(2) by (simp add: claimable_row_def claim_row_def row_phase_def phase_step.claim)
    qed (simp add: claim_row_def)
  qed
next
  case (recover now limit n)
  define chosen where "chosen = map ob_id (take (nat limit) (sort_key recovery_key (filter (recoverable_row now) rows)))"
  have rows': "rows' = update_where (\<lambda>r. ob_id r \<in> set chosen) (recover_row now) rows"
    using recover by (auto simp: RecoverCommitStatusLeases_def Let_def chosen_def split: if_splits sum.splits)
  show ?thesis unfolding rows'
  proof (rule update_where_phase)
    fix x
    assume x: "x \<in> set rows" "ob_id x \<in> set chosen"
    then obtain y where y: "y \<in> set rows" "recoverable_row now y" "ob_id x = ob_id y"
      unfolding chosen_def by (auto dest!: in_set_takeD)
    then have "x = y" using same_id [OF ok] x(1) by blast
    then show "phase_step (row_phase x) (row_phase (recover_row now x))"
      using y(2) by (auto simp: recoverable_row_def recover_row_def row_phase_def intro: phase_step.intros split: option.splits)
  qed (simp add: recover_row_def)
next
  case (finish now ident owner)
  then show ?thesis
    by (auto simp: FinishCommitStatus_def finish_row_def split: if_splits sum.splits intro!: update_where_phase)
      (auto simp: holds_lease_def row_phase_def intro: phase_step.intros split: option.splits)
next
  case (reschedule ident owner availableAt code dead)
  then show ?thesis
    by (auto simp: RescheduleCommitStatus_def reschedule_row_def split: if_splits sum.splits intro!: update_where_phase)
      (auto simp: holds_lease_def row_phase_def intro: phase_step.intros split: option.splits)
next
  case (replay uuid_String now ident actorID event)
  then show ?thesis
    by (auto simp: ReplayCommitStatus_def replay_row_def split: if_splits sum.splits intro!: update_where_phase)
      (auto simp: row_phase_def intro: phase_step.intros split: option.splits)
qed

interpretation statuses: leased_queue outbox_phase outbox_ok "[]" outbox_step
proof unfold_locales
  show "outbox_phase [] i = Absent" for i by (simp add: outbox_phase_def row_by_def)
  show "outbox_ok []" by (simp add: outbox_ok_def)
qed (fact outbox_step_ok, fact outbox_step_phase)

section \<open>Lemmas on single operations\<close>

lemma row_check_claim: "row_check r \<Longrightarrow> ob_delivery r = DeliveryQueued \<Longrightarrow>
    row_check (claim_row owner e r) \<longleftrightarrow> ob_attempts r < 100"
  by (auto simp: row_check_def claim_row_def)

lemma row_check_finish: "row_check r \<Longrightarrow> row_check (finish_row now r)"
  by (auto simp: row_check_def finish_row_def)

lemma row_check_reschedule:
  "row_check r \<Longrightarrow> ob_delivery r = DeliveryProcessing \<Longrightarrow> 1 \<le> length code \<Longrightarrow> length code \<le> 64 \<Longrightarrow>
   row_check (reschedule_row t code dead r)"
  by (auto simp: row_check_def reschedule_row_def)

lemma row_check_recover: "row_check r \<Longrightarrow> recoverable_row now r \<Longrightarrow> row_check (recover_row now r)"
  by (auto simp: row_check_def recover_row_def recoverable_row_def)

lemma checks_update_where:
  "list_all row_check rows \<Longrightarrow> (\<And>r. r \<in> set rows \<Longrightarrow> p r \<Longrightarrow> row_check (f r)) \<Longrightarrow> list_all row_check (update_where p f rows)"
  by (auto simp: update_where_def list_all_iff)

text \<open>An update guarded by the identifier of a row succeeds exactly when the row is there.\<close>

lemma update_one_exact:
  assumes ok: "outbox_ok rows" and ident: "\<And>r. p r \<Longrightarrow> ob_id r = ident"
    and keeps: "\<And>r. r \<in> set rows \<Longrightarrow> p r \<Longrightarrow> row_check (f r)"
  shows "update_one p f rows = (if \<exists>r\<in>set rows. p r then Inr (update_where p f rows) else Inl ErrInvalid)"
proof -
  have "affected p rows = 1 \<longleftrightarrow> (\<exists>r\<in>set rows. p r)"
    using ok ident by (intro affected_unique [where g = ob_id and k = ident]) (auto simp: outbox_ok_def)
  moreover have "list_all row_check (update_where p f rows)"
    using ok keeps by (intro checks_update_where) (auto simp: outbox_ok_def)
  ultimately show ?thesis by (auto simp: update_one_def checked_def)
qed

lemma FinishCommitStatus_exact:
  "outbox_ok rows \<Longrightarrow> ident \<noteq> uuid_Nil \<Longrightarrow> owner \<noteq> uuid_Nil \<Longrightarrow>
   FinishCommitStatus now ident owner rows =
     (if \<exists>r\<in>set rows. holds_lease ident owner r \<and> lease_live now r
      then Inr (update_where (\<lambda>r. holds_lease ident owner r \<and> lease_live now r) (finish_row now) rows)
      else Inl ErrInvalid)"
  unfolding FinishCommitStatus_def
  by (subst update_one_exact [where ident = ident])
    (auto simp: holds_lease_def outbox_ok_def list_all_iff intro: row_check_finish)

lemma RescheduleCommitStatus_exact:
  "outbox_ok rows \<Longrightarrow> ident \<noteq> uuid_Nil \<Longrightarrow> owner \<noteq> uuid_Nil \<Longrightarrow> t \<noteq> time_zero \<Longrightarrow> 1 \<le> length code \<Longrightarrow> length code \<le> 64 \<Longrightarrow>
   RescheduleCommitStatus ident owner t code dead rows =
     (if \<exists>r\<in>set rows. holds_lease ident owner r
      then Inr (update_where (holds_lease ident owner) (reschedule_row t code dead) rows)
      else Inl ErrInvalid)"
  unfolding RescheduleCommitStatus_def
  by (subst update_one_exact [where ident = ident])
    (auto simp: holds_lease_def outbox_ok_def list_all_iff intro: row_check_reschedule)

end
