(* ===== verification/Status_Delivery.thy ===== *)
theory Status_Delivery
  imports Commit_Status
begin

text \<open>
  What the commit status outbox guarantees: delivered rows stay delivered, only the owner of a lease settles a
  row, one round of the worker has exactly the documented effect, enqueueing is idempotent, and retry delays
  are bounded. The last section shows how a row that is never settled stops the whole outbox.
\<close>

lemmas reachable_ok = statuses.steps_ok [OF _ statuses.init_ok]

lemma update_where_update_where:
  assumes "\<And>r. r \<in> set rows \<Longrightarrow> p r \<Longrightarrow> q (f r)" and "\<And>r. r \<in> set rows \<Longrightarrow> \<not> p r \<Longrightarrow> \<not> q r"
  shows "update_where q g (update_where p f rows) = update_where p (\<lambda>r. g (f r)) rows"
  using assms by (auto simp: update_where_def)

lemma update_where_cong:
  "(\<And>r. r \<in> set rows \<Longrightarrow> p r \<Longrightarrow> f r = g r) \<Longrightarrow> update_where p f rows = update_where p g rows"
  by (auto simp: update_where_def)

section \<open>Delivered once\<close>

lemma phase_of_row: "outbox_ok rows \<Longrightarrow> r \<in> set rows \<Longrightarrow> outbox_phase rows (ob_id r) = row_phase r"
  by (simp add: outbox_phase_def outbox_ok_def row_by_in)

lemma claimed_ready:
  assumes "ClaimCommitStatus external_id owner now leaseDuration rows = Inr (rows', Some item)" and "outbox_ok rows"
  shows "outbox_phase rows (it_ID item) = Ready"
proof -
  obtain r where "r \<in> set rows" "claimable_row now r" "item = row_item external_id (claim_row owner (now + leaseDuration) r)"
    using claim_Inr [OF assms(1)] by blast
  then show ?thesis
    using phase_of_row [OF assms(2)] by (simp add: row_item_def claim_row_def claimable_row_def row_phase_def)
qed

text \<open>
  C25 (safety). A commit status that was delivered stays delivered under every sequence of operations, and no
  worker is given it again. It was marked as delivered by a step from a state in which it was leased.
\<close>

theorem delivered_is_final:
  assumes "outbox_steps [] rows" and "r \<in> set rows" and "ob_delivery r = DeliveryDelivered"
    and "outbox_steps rows rows'"
    and "ClaimCommitStatus external_id owner now leaseDuration rows' = Inr (rows'', Some item)"
  shows "outbox_phase rows' (ob_id r) = Done \<and> it_ID item \<noteq> ob_id r \<and>
    (\<exists>u v worker expires. outbox_steps [] u \<and> outbox_step u v \<and> outbox_steps v rows \<and>
       outbox_phase u (ob_id r) = Working worker expires \<and> outbox_phase v (ob_id r) = Done)"
proof -
  have ok: "outbox_ok rows" using assms(1) by (rule reachable_ok)
  have d: "outbox_phase rows (ob_id r) = Done" using phase_of_row [OF ok assms(2)] assms(3) by (simp add: row_phase_def)
  have d': "outbox_phase rows' (ob_id r) = Done" using statuses.done_forever [OF assms(4) ok d] .
  moreover have "outbox_phase rows' (it_ID item) = Ready"
    using claimed_ready [OF assms(5)] statuses.steps_ok [OF assms(4) ok] .
  ultimately show ?thesis using statuses.done_under_lease [OF assms(1) d] by auto
qed

section \<open>Settled by the owner\<close>

lemma holds_lease_iff: "holds_lease ident owner r \<longleftrightarrow>
    ob_id r = ident \<and> ob_delivery r = DeliveryProcessing \<and> (\<exists>expires. ob_lease r = Some (owner, expires))"
  by (auto simp: holds_lease_def split: option.splits)

lemma Finish_accepted_iff:
  assumes "outbox_ok rows"
  shows "(\<exists>rows'. FinishCommitStatus now ident owner rows = Inr rows') \<longleftrightarrow>
      ident \<noteq> uuid_Nil \<and> owner \<noteq> uuid_Nil \<and>
      (\<exists>r expires. r \<in> set rows \<and> ob_id r = ident \<and> ob_delivery r = DeliveryProcessing \<and> ob_lease r = Some (owner, expires) \<and> now < expires)"
proof (cases "ident = uuid_Nil \<or> owner = uuid_Nil")
  case True
  then show ?thesis by (auto simp: FinishCommitStatus_def)
next
  case False
  then show ?thesis using FinishCommitStatus_exact [OF assms, of ident owner now]
    by (auto simp: holds_lease_iff lease_live_def split: option.splits if_splits)
qed

lemma Reschedule_accepted_iff:
  assumes "outbox_ok rows"
  shows "(\<exists>rows'. RescheduleCommitStatus ident owner availableAt code dead rows = Inr rows') \<longleftrightarrow>
      ident \<noteq> uuid_Nil \<and> owner \<noteq> uuid_Nil \<and> availableAt \<noteq> time_zero \<and> 1 \<le> length code \<and> length code \<le> 64 \<and>
      (\<exists>r expires. r \<in> set rows \<and> ob_id r = ident \<and> ob_delivery r = DeliveryProcessing \<and> ob_lease r = Some (owner, expires))"
proof (cases "ident = uuid_Nil \<or> owner = uuid_Nil \<or> availableAt = time_zero \<or> length code < 1 \<or> length code > 64")
  case True
  then show ?thesis by (auto simp: RescheduleCommitStatus_def)
next
  case False
  then have g: "ident \<noteq> uuid_Nil" "owner \<noteq> uuid_Nil" "availableAt \<noteq> time_zero" "1 \<le> length code" "length code \<le> 64"
    by (auto simp: not_less Suc_le_eq)
  have "(\<exists>rows'. RescheduleCommitStatus ident owner availableAt code dead rows = Inr rows') \<longleftrightarrow> (\<exists>r\<in>set rows. holds_lease ident owner r)"
    unfolding RescheduleCommitStatus_exact [OF assms g] by simp
  then show ?thesis using g unfolding holds_lease_iff by blast
qed

text \<open>
  Only the worker that holds the lease settles a row: marking it as delivered succeeds exactly
  when the row is leased to the caller and the lease has not expired, and rescheduling it exactly when it is
  leased to the caller, expired or not. Every other call is refused.
\<close>

theorem settled_by_owner_only:
  assumes "outbox_steps [] rows"
  shows "((\<exists>rows'. FinishCommitStatus now ident owner rows = Inr rows') \<longleftrightarrow>
      ident \<noteq> uuid_Nil \<and> owner \<noteq> uuid_Nil \<and>
      (\<exists>r expires. r \<in> set rows \<and> ob_id r = ident \<and> ob_delivery r = DeliveryProcessing \<and> ob_lease r = Some (owner, expires) \<and> now < expires)) \<and>
    ((\<exists>rows'. RescheduleCommitStatus ident owner availableAt code dead rows = Inr rows') \<longleftrightarrow>
      ident \<noteq> uuid_Nil \<and> owner \<noteq> uuid_Nil \<and> availableAt \<noteq> time_zero \<and> 1 \<le> length code \<and> length code \<le> 64 \<and>
      (\<exists>r expires. r \<in> set rows \<and> ob_id r = ident \<and> ob_delivery r = DeliveryProcessing \<and> ob_lease r = Some (owner, expires)))"
  using Finish_accepted_iff [OF reachable_ok [OF assms]] Reschedule_accepted_iff [OF reachable_ok [OF assms]] by (rule conjI)

section \<open>Retry\<close>

lemma retry_delay_pos: "0 < retry_delay attempts err"
  by (simp add: retry_delay_def Let_def statusRateLimitDelay_def Second_def Minute_def)

text \<open>
  The delay before the next attempt is at least a second and at most 256 seconds, so the cap of
  five minutes never applies. It never shrinks as attempts grow. A row is given up exactly when the provider
  refused it for good, when eight attempts were made, or when the next attempt would be after its expiry.
\<close>

theorem retry_is_bounded:
  "Second \<le> retry_delay attempts err \<and> retry_delay attempts err \<le> 256 * Second \<and>
   retry_delay attempts err \<le> retry_delay (attempts + 1) err \<and>
   (snd (snd (retryDecision now item err)) \<longleftrightarrow>
     err = DeliveryInvalid \<or> it_AttemptCount item \<ge> 8 \<or> it_ExpiresAt item \<le> now + retry_delay (it_AttemptCount item) err)"
proof -
  define e where "e = (\<lambda>a::int. nat (min (max (a - 1) 0) 8))"
  have e8: "e a \<le> 8" for a by (simp add: e_def)
  have p: "(2::int) ^ e a \<le> 256" for a
    using power_increasing [OF e8 [of a], of "2::int"] by simp
  have d: "retry_delay a err = (if err = DeliveryRateLimited then Minute else Second * 2 ^ e a)" for a
    using p [of a] by (simp add: retry_delay_def statusRateLimitDelay_def Let_def e_def Second_def Minute_def)
  have "Second \<le> retry_delay attempts err \<and> retry_delay attempts err \<le> 256 * Second"
    using p [of attempts] by (simp add: d Second_def Minute_def)
  moreover have "retry_delay attempts err \<le> retry_delay (attempts + 1) err"
  proof -
    have "e attempts \<le> e (attempts + 1)" by (simp add: e_def)
    then have "(2::int) ^ e attempts \<le> 2 ^ e (attempts + 1)" by (rule power_increasing) simp
    then show ?thesis by (simp add: d Second_def)
  qed
  moreover have "snd (snd (retryDecision now item err)) \<longleftrightarrow>
     err = DeliveryInvalid \<or> it_AttemptCount item \<ge> 8 \<or> it_ExpiresAt item \<le> now + retry_delay (it_AttemptCount item) err"
    by (auto simp: retryDecision_def Let_def statusMaximumAttempts_def not_less)
  ultimately show ?thesis by blast
qed

section \<open>One round of the worker\<close>

lemma claim_first:
  assumes ok: "outbox_ok rows" and r: "r \<in> set rows" "claimable_row t r"
    and first: "\<And>x. x \<in> set rows \<Longrightarrow> claimable_row t x \<Longrightarrow>
      (ob_available r, ob_created r, ob_id r) \<le> (ob_available x, ob_created x, ob_id x)"
    and attempts: "ob_attempts r < 100"
  shows "ClaimCommitStatus external_id owner t Minute rows =
    Inr (update_where (\<lambda>x. ob_id x = ob_id r) (claim_row owner (t + Minute)) rows,
         Some (row_item external_id (claim_row owner (t + Minute) r)))"
proof -
  obtain y where y: "first_by (\<lambda>r. (ob_available r, ob_created r, ob_id r)) (filter (claimable_row t) rows) = Some y"
    using r by (cases "first_by (\<lambda>r. (ob_available r, ob_created r, ob_id r)) (filter (claimable_row t) rows)")
      (auto simp: filter_empty_conv)
  have "y \<in> set rows" "claimable_row t y" "(ob_available y, ob_created y, ob_id y) \<le> (ob_available r, ob_created r, ob_id r)"
    using first_by_Some [OF y] r by auto
  then have "ob_id y = ob_id r" using first [of y] by (auto simp: less_eq_prod_def)
  then have "y = r" using same_id [OF ok] \<open>y \<in> set rows\<close> r(1) by blast
  have "row_check (claim_row owner (t + Minute) x)" if "x \<in> set rows" "ob_id x = ob_id r" for x
  proof -
    have "x = r" using same_id [OF ok] that r(1) by blast
    then show ?thesis
      using ok r attempts row_check_claim [of r] by (auto simp: claimable_row_def outbox_ok_def list_all_iff)
  qed
  then have "list_all row_check (update_where (\<lambda>x. ob_id x = ob_id r) (claim_row owner (t + Minute)) rows)"
    using ok by (intro checks_update_where) (auto simp: outbox_ok_def)
  then show ?thesis using y \<open>y = r\<close> by (simp add: ClaimCommitStatus_def Minute_def Second_def checked_def)
qed

lemma claim_row_sel [simp]:
  "ob_id (claim_row owner e r) = ob_id r" "ob_delivery (claim_row owner e r) = DeliveryProcessing"
  "ob_lease (claim_row owner e r) = Some (owner, e)" "ob_attempts (claim_row owner e r) = ob_attempts r + 1"
  "ob_expires (claim_row owner e r) = ob_expires r"
  by (simp_all add: claim_row_def)

lemma row_item_sel [simp]:
  "it_ID (row_item f r) = ob_id r" "it_AttemptCount (row_item f r) = ob_attempts r" "it_ExpiresAt (row_item f r) = ob_expires r"
  by (simp_all add: row_item_def)

lemma row_item_owner [simp]: "it_LeaseOwner (row_item f (claim_row owner e r)) = owner"
  by (simp add: row_item_def)

text \<open>
  One round of the worker takes the claimable row that comes first by availability, creation
  and identifier, and counts the attempt. If the provider accepts the status while the lease is live, the row is
  delivered; if it fails, the row is queued again after the retry delay with the kind of the error, or dead when
  the error is permanent, eight attempts were made or the status would expire. No other row changes.
\<close>

theorem processOne_effect:
  fixes owner t rows r external_id
  defines "item \<equiv> row_item external_id (claim_row owner (t + Minute) r)"
  assumes "outbox_steps [] rows" and "r \<in> set rows" and "claimable_row t r" and "ob_attempts r < 100"
    and "\<And>x. x \<in> set rows \<Longrightarrow> claimable_row t x \<Longrightarrow>
      (ob_available r, ob_created r, ob_id r) \<le> (ob_available x, ob_created x, ob_id x)"
    and "ob_id r \<noteq> uuid_Nil" and "owner \<noteq> uuid_Nil" and "0 < now" and "now < t + Minute"
  shows "processOne external_id deliver owner t now False rows =
    update_where (\<lambda>x. ob_id x = ob_id r)
      (\<lambda>x. case deliver item of
              None \<Rightarrow> finish_row now (claim_row owner (t + Minute) x)
            | Some err \<Rightarrow>
                reschedule_row (now + retry_delay (ob_attempts r + 1) err)
                  (if err = DeliveryInvalid then ''provider_permanent''
                   else if err = DeliveryRateLimited then ''provider_rate_limited'' else ''provider_transient'')
                  (err = DeliveryInvalid \<or> ob_attempts r + 1 \<ge> 8 \<or> ob_expires r \<le> now + retry_delay (ob_attempts r + 1) err)
                  (claim_row owner (t + Minute) x)) rows"
proof -
  let ?p = "\<lambda>x. ob_id x = ob_id r" and ?f = "claim_row owner (t + Minute)"
  have ok: "outbox_ok rows" using assms(2) by (rule reachable_ok)
  have c: "ClaimCommitStatus external_id owner t StatusLeaseDuration rows = Inr (update_where ?p ?f rows, Some item)"
    unfolding item_def StatusLeaseDuration_def using claim_first [OF ok assms(3,4,6,5)] by simp
  have ok1: "outbox_ok (update_where ?p ?f rows)" using outbox_step_ok [OF ok outbox_step.claim [OF c]] .
  have mem: "?f r \<in> set (update_where ?p ?f rows)" using assms(3) by (auto simp: update_where_def image_iff)
  have leased: "\<exists>x\<in>set (update_where ?p ?f rows). holds_lease (ob_id r) owner x \<and> lease_live now x"
    by (rule bexI [OF _ mem]) (simp add: holds_lease_def lease_live_def assms(10))
  have sel: "it_ID item = ob_id r" "it_LeaseOwner item = owner" "it_AttemptCount item = ob_attempts r + 1" "it_ExpiresAt item = ob_expires r"
    by (simp_all add: item_def)
  show ?thesis
  proof (cases "deliver item")
    case None
    have "FinishCommitStatus now (ob_id r) owner (update_where ?p ?f rows) =
      Inr (update_where (\<lambda>x. holds_lease (ob_id r) owner x \<and> lease_live now x) (finish_row now) (update_where ?p ?f rows))"
      using FinishCommitStatus_exact [OF ok1 assms(7,8), of now] leased by (auto intro: if_P)
    also have "\<dots> = Inr (update_where ?p (\<lambda>x. finish_row now (?f x)) rows)"
      using assms(10) by (subst update_where_update_where) (auto simp: holds_lease_def lease_live_def)
    finally show ?thesis using None by (simp add: processOne_def c sel)
  next
    case (Some err)
    obtain next' code dead where dec: "retryDecision now item err = (next', code, dead)" by (cases "retryDecision now item err") auto
    have d: "next' = now + retry_delay (ob_attempts r + 1) err"
      "code = (if err = DeliveryInvalid then ''provider_permanent''
         else if err = DeliveryRateLimited then ''provider_rate_limited'' else ''provider_transient'')"
      "dead = (err = DeliveryInvalid \<or> ob_attempts r + 1 \<ge> 8 \<or> ob_expires r \<le> now + retry_delay (ob_attempts r + 1) err)"
      using dec by (auto simp: retryDecision_def Let_def sel statusMaximumAttempts_def not_less)
    have code: "1 \<le> length code" "length code \<le> 64" unfolding d(2) by auto
    have next0: "next' \<noteq> time_zero" using assms(9) retry_delay_pos [of "ob_attempts r + 1" err] unfolding d(1) by simp
    have "RescheduleCommitStatus (ob_id r) owner next' code dead (update_where ?p ?f rows) =
      Inr (update_where (holds_lease (ob_id r) owner) (reschedule_row next' code dead) (update_where ?p ?f rows))"
      using RescheduleCommitStatus_exact [OF ok1 assms(7,8) next0, of code dead] leased code by (auto intro: if_P)
    also have "\<dots> = Inr (update_where ?p (\<lambda>x. reschedule_row next' code dead (?f x)) rows)"
      by (subst update_where_update_where) (auto simp: holds_lease_def)
    finally show ?thesis using Some by (simp add: processOne_def c sel dec) (simp add: d)
  qed
qed

section \<open>Enqueueing\<close>

lemma enqueue_Some:
  assumes "status = StatusQueued \<or> Terminal status" and "run_info runID = Some (repositoryID, provider, sha)" and "length sha = 40"
    and "status_of_run status = (state, suffix, description)"
    and "enqueueCommitStatusForRun uuid_String run_info newID now runID status rows = Inr rows'"
  shows "\<exists>r. List.find (\<lambda>r. ob_key r = deterministic_key uuid_String runID suffix) rows' = Some r \<and> ob_run_id r = runID \<and> ob_state r = state"
proof (cases "List.find (\<lambda>r. ob_key r = deterministic_key uuid_String runID suffix) rows")
  case None
  then have "\<And>x. x \<in> set rows \<Longrightarrow> ob_key x \<noteq> deterministic_key uuid_String runID suffix" by (auto simp: find_None_iff)
  then have "List.find (\<lambda>r. ob_key r = deterministic_key uuid_String runID suffix) (rows @ [x]) =
      (if ob_key x = deterministic_key uuid_String runID suffix then Some x else None)" for x
    by (induction rows) auto
  then show ?thesis using assms None by (auto simp: enqueueCommitStatusForRun_def Let_def)
next
  case (Some r)
  then show ?thesis using assms by (auto simp: enqueueCommitStatusForRun_def Let_def split: if_splits)
qed

lemma final_suffix: "Terminal status \<Longrightarrow> fst (snd (status_of_run status)) = ''final''"
  by (cases status) (simp_all add: status_of_run_def)

lemma final_states_differ:
  "Terminal a \<Longrightarrow> Terminal b \<Longrightarrow> b \<noteq> a \<Longrightarrow> fst (status_of_run b) \<noteq> fst (status_of_run a)"
  by (cases a; cases b) (simp_all add: status_of_run_def Terminal_def)

text \<open>
  Reporting the same status of a run again changes nothing and reports no error, so a
  transaction that is repeated enqueues one delivery. A second, different final status of the same run is refused.
\<close>

theorem enqueue_once_per_status:
  assumes "status = StatusQueued \<or> Terminal status" and "run_info runID = Some (repositoryID, provider, sha)" and "length sha = 40"
    and "enqueueCommitStatusForRun uuid_String run_info newID now runID status rows = Inr rows'"
  shows "enqueueCommitStatusForRun uuid_String run_info newID' now' runID status rows' = Inr rows' \<and>
    (Terminal status \<and> Terminal other \<and> other \<noteq> status \<longrightarrow>
      enqueueCommitStatusForRun uuid_String run_info newID' now' runID other rows' = Inl ErrInvalid)"
proof -
  obtain state suffix description where st: "status_of_run status = (state, suffix, description)"
    by (cases "status_of_run status") auto
  obtain r where r: "List.find (\<lambda>r. ob_key r = deterministic_key uuid_String runID suffix) rows' = Some r"
    "ob_run_id r = runID" "ob_state r = state"
    using enqueue_Some [OF assms(1-3) st assms(4)] by blast
  then have "enqueueCommitStatusForRun uuid_String run_info newID' now' runID status rows' = Inr rows'"
    using assms(1-3) st by (simp add: enqueueCommitStatusForRun_def Let_def)
  moreover have "enqueueCommitStatusForRun uuid_String run_info newID' now' runID other rows' = Inl ErrInvalid"
    if "Terminal status" "Terminal other" "other \<noteq> status"
  proof -
    obtain state' suffix' description' where st': "status_of_run other = (state', suffix', description')"
      by (cases "status_of_run other") auto
    have "state' \<noteq> state" "suffix' = suffix"
      using final_states_differ [OF that] final_suffix [OF that(1)] final_suffix [OF that(2)] st st' by simp_all
    then show ?thesis using r that assms(2,3) st' by (simp add: enqueueCommitStatusForRun_def Let_def)
  qed
  ultimately show ?thesis by blast
qed

section \<open>A row that is never settled\<close>

definition stuck_sha :: string where
  "stuck_sha = replicate 40 (CHR ''a'')"

definition stuck_info :: "uuid \<Rightarrow> (uuid \<times> string \<times> string) option" where
  "stuck_info runID = Some (7, ''github'', stuck_sha)"

definition stuck_name :: "uuid \<Rightarrow> string" where
  "stuck_name runID = (if runID = 1 then ''a'' else ''b'')"

definition stuck_row :: "uuid \<Rightarrow> int \<Rightarrow> status_row" where
  "stuck_row i n =
     \<lparr>ob_id = i, ob_repository_id = 7, ob_run_id = i, ob_provider = ''github'', ob_commit_sha = stuck_sha, ob_context = ''YuanCI'',
      ob_state = StatePending, ob_description = ''Run queued'', ob_target_url = None,
      ob_key = ''run:'' @ stuck_name i @ '':pending'', ob_delivery = DeliveryQueued, ob_attempts = n,
      ob_available = uint i * Second, ob_expires = uint i * Second + 24 * Hour, ob_lease = None, ob_error = None, ob_delivered = None,
      ob_created = uint i * Second\<rparr>"

lemma stuck_sel [simp]:
  "ob_id (stuck_row i n) = i" "ob_delivery (stuck_row i n) = DeliveryQueued" "ob_attempts (stuck_row i n) = n"
  "ob_available (stuck_row i n) = uint i * Second" "ob_created (stuck_row i n) = uint i * Second"
  "ob_expires (stuck_row i n) = uint i * Second + 24 * Hour" "ob_lease (stuck_row i n) = None"
  by (simp_all add: stuck_row_def)

lemma stuck_start: "outbox_steps [] [stuck_row 1 0, stuck_row 2 0]"
proof -
  have "enqueueCommitStatusForRun stuck_name stuck_info 1 (1 * Second) 1 StatusQueued [] = Inr [stuck_row 1 0]" by code_simp
  then have 1: "outbox_step [] [stuck_row 1 0]" by (rule outbox_step.enqueue) simp
  have "enqueueCommitStatusForRun stuck_name stuck_info 2 (2 * Second) 2 StatusQueued [stuck_row 1 0] = Inr [stuck_row 1 0, stuck_row 2 0]"
    by code_simp
  then have "outbox_step [stuck_row 1 0] [stuck_row 1 0, stuck_row 2 0]" by (rule outbox_step.enqueue) (simp add: stuck_row_def)
  with 1 show ?thesis by (meson converse_rtranclp_into_rtranclp rtranclp.rtrancl_refl)
qed

lemma row_check_stuck: "i \<in> {1, 2} \<Longrightarrow> 0 \<le> n \<Longrightarrow> n \<le> 100 \<Longrightarrow> row_check (stuck_row i n)"
  by (auto simp: row_check_def stuck_row_def stuck_sha_def stuck_name_def hex_lower_def is_digit_def State_Valid_def
      duration_defs list_all_iff)

text \<open>One more lease that runs out: the recovery queues the row again, however many attempts were made.\<close>

lemma stuck_round:
  assumes "0 \<le> n" and "n < 100"
  shows "outbox_steps [stuck_row 1 n, stuck_row 2 0] [stuck_row 1 (n + 1), stuck_row 2 0]"
proof -
  let ?rows = "[stuck_row 1 n, stuck_row 2 0]" and ?t = "(10 + 120 * n) * Second"
  let ?mid = "[claim_row 5 (?t + Minute) (stuck_row 1 n), stuck_row 2 0]"
  have checks: "row_check (claim_row 5 (?t + Minute) (stuck_row 1 n))" "row_check (stuck_row 2 0)"
    using assms row_check_claim [of "stuck_row 1 n" 5 "?t + Minute"] row_check_stuck [of 1 n] row_check_stuck [of 2 0] by auto
  have c: "claimable_row ?t (stuck_row 1 n)" "claimable_row ?t (stuck_row 2 0)"
    using assms by (simp_all add: claimable_row_def duration_defs)
  have le: "(1 * Second, 1 * Second, 1 :: uuid) \<le> (2 * Second, 2 * Second, 2)" by (simp add: duration_defs less_eq_prod_def)
  have "ClaimCommitStatus (\<lambda>_. ''x'') 5 ?t Minute ?rows = Inr (?mid, Some (row_item (\<lambda>_. ''x'') (claim_row 5 (?t + Minute) (stuck_row 1 n))))"
    using checks c le by (simp add: ClaimCommitStatus_def update_where_def checked_def Minute_def Second_def)
  then have 1: "outbox_step ?rows ?mid" by (rule outbox_step.claim)
  have rec: "recover_row (?t + Minute) (claim_row 5 (?t + Minute) (stuck_row 1 n)) = stuck_row 1 (n + 1)"
    using assms by (simp add: recover_row_def claim_row_def stuck_row_def duration_defs)
  have "RecoverCommitStatusLeases (?t + Minute) 100 ?mid = Inr ([stuck_row 1 (n + 1), stuck_row 2 0], 1)"
    using checks row_check_stuck [of 1 "n + 1"] assms
    by (simp add: RecoverCommitStatusLeases_def recoverable_row_def update_where_def rec Let_def affected_def checked_def)
      (simp add: stuck_row_def duration_defs)
  then have "outbox_step ?mid [stuck_row 1 (n + 1), stuck_row 2 0]" by (rule outbox_step.recover)
  with 1 show ?thesis by (meson converse_rtranclp_into_rtranclp rtranclp.rtrancl_refl)
qed

lemma stuck_rounds: "outbox_steps [stuck_row 1 0, stuck_row 2 0] [stuck_row 1 (int n), stuck_row 2 0]" if "n \<le> 100"
  using that
proof (induction n)
  case (Suc n)
  then show ?case using stuck_round [of "int n"] by (auto simp: add.commute)
qed simp

lemma stuck_claim:
  assumes "ob_available (stuck_row 2 0) \<le> now" and "now < ob_expires (stuck_row 1 100)"
  shows "ClaimCommitStatus external_id owner now Minute [stuck_row 1 100, stuck_row 2 0] = Inl ErrDatabase"
proof -
  have c: "claimable_row now (stuck_row 1 100)" "claimable_row now (stuck_row 2 0)"
    using assms by (simp_all add: claimable_row_def duration_defs)
  have le: "(1 * Second, 1 * Second, 1 :: uuid) \<le> (2 * Second, 2 * Second, 2)" by (simp add: duration_defs less_eq_prod_def)
  have "\<not> row_check (claim_row owner (now + Minute) (stuck_row 1 100))"
    using row_check_claim [of "stuck_row 1 100" owner "now + Minute"] row_check_stuck [of 1 100] by simp
  then show ?thesis using c le by (simp add: ClaimCommitStatus_def update_where_def checked_def Minute_def Second_def)
qed

text \<open>
  The recovery of expired leases does not look at the number of attempts. After a hundred leases of
  a row ran out without being settled, the table's bound on the attempts makes every claim fail, and because the
  row comes first, no other commit status is handed out until that row expires, here twenty hours later.
\<close>

theorem unsettled_row_blocks_outbox:
  "\<exists>rows. outbox_steps [] rows \<and>
     (\<exists>r. r \<in> set rows \<and> ob_attempts r = 0 \<and> claimable_row (4 * Hour) r) \<and>
     {4 * Hour ..< 24 * Hour} \<subseteq> {now. \<forall>external_id owner. ClaimCommitStatus external_id owner now Minute rows = Inl ErrDatabase}"
proof (intro exI conjI subsetI CollectI allI)
  show "outbox_steps [] [stuck_row 1 100, stuck_row 2 0]"
    using stuck_start stuck_rounds [of 100] by (simp add: rtranclp_trans)
  show "stuck_row 2 0 \<in> set [stuck_row 1 100, stuck_row 2 0]" by simp
  show "ob_attempts (stuck_row 2 0) = 0" by simp
  show "claimable_row (4 * Hour) (stuck_row 2 0)" by (simp add: claimable_row_def duration_defs)
  fix now external_id owner
  assume "now \<in> {4 * Hour ..< 24 * Hour}"
  then show "ClaimCommitStatus external_id owner now Minute [stuck_row 1 100, stuck_row 2 0] = Inl ErrDatabase"
    by (intro stuck_claim) (simp_all add: duration_defs)
qed

section \<open>Concrete runs\<close>

definition claimed_rows :: outbox where
  "claimed_rows = [claim_row 5 (70 * Second) (stuck_row 1 0), stuck_row 2 0]"

definition delivered_rows :: outbox where
  "delivered_rows = [finish_row (20 * Second) (claim_row 5 (70 * Second) (stuck_row 1 0)), stuck_row 2 0]"

lemma claimed_reachable: "outbox_steps [] claimed_rows"
proof -
  have "ClaimCommitStatus (\<lambda>_. ''x'') 5 (10 * Second) Minute [stuck_row 1 0, stuck_row 2 0] =
    Inr (claimed_rows, Some (row_item (\<lambda>_. ''x'') (claim_row 5 (70 * Second) (stuck_row 1 0))))"
    by code_simp
  then show ?thesis using stuck_start outbox_step.claim by (meson rtranclp.rtrancl_into_rtrancl)
qed

lemma delivered_reachable: "outbox_steps [] delivered_rows"
proof -
  have "FinishCommitStatus (20 * Second) 1 5 claimed_rows = Inr delivered_rows" by code_simp
  then show ?thesis using claimed_reachable outbox_step.finish by (meson rtranclp.rtrancl_into_rtrancl)
qed

theorem delivered_is_final_witness:
  "outbox_phase delivered_rows 1 = Done \<and>
   it_ID (row_item (\<lambda>_. ''x'') (claim_row 6 (90 * Second) (stuck_row 2 0))) \<noteq> 1"
proof -
  have "ClaimCommitStatus (\<lambda>_. ''x'') 6 (30 * Second) Minute delivered_rows =
    Inr ([finish_row (20 * Second) (claim_row 5 (70 * Second) (stuck_row 1 0)), claim_row 6 (90 * Second) (stuck_row 2 0)],
         Some (row_item (\<lambda>_. ''x'') (claim_row 6 (90 * Second) (stuck_row 2 0))))"
    by code_simp
  from delivered_is_final [OF delivered_reachable _ _ rtranclp.rtrancl_refl this,
      of "finish_row (20 * Second) (claim_row 5 (70 * Second) (stuck_row 1 0))"]
  show ?thesis by (simp add: delivered_rows_def finish_row_def)
qed

theorem settled_by_owner_only_witness:
  "(\<exists>rows'. FinishCommitStatus (20 * Second) 1 5 claimed_rows = Inr rows') \<and>
   \<not> (\<exists>rows'. FinishCommitStatus (20 * Second) 1 6 claimed_rows = Inr rows')"
proof -
  have r: "claim_row 5 (70 * Second) (stuck_row 1 0) \<in> set claimed_rows" by (simp add: claimed_rows_def)
  have "\<exists>rows'. FinishCommitStatus (20 * Second) 1 5 claimed_rows = Inr rows'"
    using conjunct1 [OF settled_by_owner_only [OF claimed_reachable], of "20 * Second" 1 5] r by (force simp: duration_defs)
  moreover have "\<not> (\<exists>rows'. FinishCommitStatus (20 * Second) 1 6 claimed_rows = Inr rows')"
    using conjunct1 [OF settled_by_owner_only [OF claimed_reachable], of "20 * Second" 1 6] by (auto simp: claimed_rows_def)
  ultimately show ?thesis by (rule conjI)
qed

theorem processOne_effect_witness:
  "map ob_delivery (processOne (\<lambda>_. ''x'') (\<lambda>_. None) 5 (10 * Second) (20 * Second) False [stuck_row 1 0, stuck_row 2 0]) =
     [DeliveryDelivered, DeliveryQueued]"
proof -
  have "processOne (\<lambda>_. ''x'') (\<lambda>_. None) 5 (10 * Second) (20 * Second) False [stuck_row 1 0, stuck_row 2 0] =
    update_where (\<lambda>x. ob_id x = 1) (\<lambda>x. finish_row (20 * Second) (claim_row 5 (10 * Second + Minute) x)) [stuck_row 1 0, stuck_row 2 0]"
    by (subst processOne_effect [OF stuck_start, of "stuck_row 1 0"])
      (auto simp: claimable_row_def duration_defs less_eq_prod_def)
  then show ?thesis by (simp add: update_where_def finish_row_def)
qed

theorem enqueue_once_per_status_witness:
  "enqueueCommitStatusForRun stuck_name stuck_info 9 (5 * Second) 1 StatusQueued [stuck_row 1 0] = Inr [stuck_row 1 0]"
proof -
  have "enqueueCommitStatusForRun stuck_name stuck_info 1 (1 * Second) 1 StatusQueued [] = Inr [stuck_row 1 0]" by code_simp
  from enqueue_once_per_status [OF _ _ _ this, of 7 "''github''" stuck_sha 9 "5 * Second"]
  show ?thesis by (simp add: stuck_info_def stuck_sha_def)
qed

end
