(* ===== verification/Base64.thy ===== *)
theory Base64
  imports Go_Text
begin

text \<open>
  Go's \<open>encoding/base64\<close> as the source uses it: the URL alphabet without padding (\<open>RawURLEncoding\<close>), encoding and
  strict decoding. Bytes and sextets are natural numbers; a decoder skips carriage returns and line feeds,
  and in strict mode the unused bits of the last character have to be zero.
\<close>

fun sextets :: "nat list \<Rightarrow> nat list" where
  "sextets (a # b # c # bs) =
     a div 4 # ((a mod 4) * 16 + b div 16) # ((b mod 16) * 4 + c div 64) # c mod 64 # sextets bs"
| "sextets [a, b] = [a div 4, (a mod 4) * 16 + b div 16, (b mod 16) * 4]"
| "sextets [a] = [a div 4, (a mod 4) * 16]"
| "sextets [] = []"

fun octets :: "nat list \<Rightarrow> nat list option" where
  "octets (p # q # r # s # ss) =
     map_option (\<lambda>bs. (p * 4 + q div 16) # ((q mod 16) * 16 + r div 4) # ((r mod 4) * 64 + s) # bs) (octets ss)"
| "octets [p, q, r] =
     (if r mod 4 = 0 then Some [p * 4 + q div 16, (q mod 16) * 16 + r div 4] else None)"
| "octets [p, q] = (if q mod 16 = 0 then Some [p * 4 + q div 16] else None)"
| "octets [p] = None"
| "octets [] = Some []"

definition url_alphabet :: string where
  "url_alphabet = ''ABCDEFGHIJKLMNOPQRSTUVWXYZabcdefghijklmnopqrstuvwxyz0123456789-_''"

definition url_value :: "char \<Rightarrow> nat option" where
  "url_value c = List.find (\<lambda>i. url_alphabet ! i = c) [0..<64]"

definition rawurl_encode :: "bytes \<Rightarrow> string" where
  "rawurl_encode bs = map ((!) url_alphabet) (sextets (map of_char bs))"

definition rawurl_decode :: "string \<Rightarrow> bytes option" where
  "rawurl_decode s =
     (case those (map url_value (filter (\<lambda>c. c \<noteq> CHR 0x0D \<and> c \<noteq> CHR 0x0A) s)) of
        None \<Rightarrow> None
      | Some ss \<Rightarrow> map_option (map char_of) (octets ss))"

section \<open>Round trips\<close>

lemma octets_sextets: "list_all (\<lambda>b. b < 256) bs \<Longrightarrow> octets (sextets bs) = Some bs"
proof (induction bs rule: sextets.induct)
  case (1 a b c bs)
  have "a div 4 * 4 + (a mod 4 * 16 + b div 16) div 16 = a" using 1 by (simp add: div_less_dividend less_mult_imp_div_less)
  moreover have "(a mod 4 * 16 + b div 16) mod 16 = b div 16" using 1 by (simp add: less_mult_imp_div_less)
  moreover have "(b mod 16 * 4 + c div 64) div 4 = b mod 16" using 1 by (simp add: less_mult_imp_div_less)
  moreover have "(b mod 16 * 4 + c div 64) mod 4 = c div 64" using 1 by (simp add: less_mult_imp_div_less)
  ultimately show ?case using 1 by (simp add: div_mult_mod_eq)
next
  case (2 a b)
  then show ?case by (simp add: less_mult_imp_div_less)
qed simp_all

text \<open>Strict decoding accepts one text only for each value.\<close>

lemma sextets_octets: "octets ss = Some bs \<Longrightarrow> list_all (\<lambda>x. x < 64) ss \<Longrightarrow> sextets bs = ss"
proof (induction ss arbitrary: bs rule: octets.induct)
  case (1 p q r s ss)
  then obtain cs where cs: "octets ss = Some cs" "bs = (p * 4 + q div 16) # ((q mod 16) * 16 + r div 4) # ((r mod 4) * 64 + s) # cs"
    by auto
  have "(p * 4 + q div 16) div 4 = p" "(p * 4 + q div 16) mod 4 = q div 16" using 1 by (simp_all add: less_mult_imp_div_less)
  moreover have "(q mod 16 * 16 + r div 4) div 16 = q mod 16" "(q mod 16 * 16 + r div 4) mod 16 = r div 4"
    using 1 by (simp_all add: less_mult_imp_div_less)
  moreover have "(r mod 4 * 64 + s) div 64 = r mod 4" "(r mod 4 * 64 + s) mod 64 = s" using 1 by simp_all
  ultimately show ?case using 1 cs by simp
next
  case (2 p q r)
  then have "bs = [p * 4 + q div 16, (q mod 16) * 16 + r div 4]" "r mod 4 = 0" by (auto split: if_splits)
  moreover have "(p * 4 + q div 16) div 4 = p" "(p * 4 + q div 16) mod 4 = q div 16" using 2 by (simp_all add: less_mult_imp_div_less)
  moreover have "(q mod 16 * 16 + r div 4) div 16 = q mod 16" "(q mod 16 * 16 + r div 4) mod 16 = r div 4"
    using 2 by (simp_all add: less_mult_imp_div_less)
  moreover have "r div 4 * 4 = r" using \<open>r mod 4 = 0\<close> by auto
  ultimately show ?case by simp
next
  case (3 p q)
  then have "bs = [p * 4 + q div 16]" "q mod 16 = 0" by (auto split: if_splits)
  moreover have "(p * 4 + q div 16) div 4 = p" "(p * 4 + q div 16) mod 4 = q div 16" using 3 by (simp_all add: less_mult_imp_div_less)
  moreover have "q div 16 * 16 = q" using \<open>q mod 16 = 0\<close> by auto
  ultimately show ?case by simp
qed auto

lemma length_octets: "octets ss = Some bs \<Longrightarrow> length bs = length ss * 3 div 4"
  by (induction ss arbitrary: bs rule: octets.induct) (auto split: if_splits)

lemma length_sextets: "length (sextets bs) = (length bs * 4 + 2) div 3"
  by (induction bs rule: sextets.induct) auto

lemma sextets_small: "list_all (\<lambda>b. b < 256) bs \<Longrightarrow> list_all (\<lambda>x. x < 64) (sextets bs)"
  by (induction bs rule: sextets.induct) auto

lemma alphabet_facts: "length url_alphabet = 64" "distinct url_alphabet"
  "CHR 0x0D \<notin> set url_alphabet" "CHR 0x0A \<notin> set url_alphabet"
  by code_simp+

lemma url_value_iff: "url_value c = Some i \<longleftrightarrow> i < 64 \<and> url_alphabet ! i = c"
proof
  show "url_value c = Some i \<Longrightarrow> i < 64 \<and> url_alphabet ! i = c" by (auto simp: url_value_def find_Some_iff)
next
  assume i: "i < 64 \<and> url_alphabet ! i = c"
  then obtain j where j: "url_value c = Some j"
    by (cases "url_value c") (auto simp: url_value_def find_None_iff)
  then have "j < 64" "url_alphabet ! j = c" by (auto simp: url_value_def find_Some_iff)
  then have "j = i" using i alphabet_facts nth_eq_iff_index_eq by metis
  then show "url_value c = Some i" using j by simp
qed

lemma those_map_url: "list_all (\<lambda>x. x < 64) ss \<Longrightarrow> those (map url_value (map ((!) url_alphabet) ss)) = Some ss"
  by (induction ss) (auto simp: url_value_iff [THEN iffD2])

lemma those_map_url_Some: "those (map url_value cs) = Some ss \<Longrightarrow> list_all (\<lambda>x. x < 64) ss \<and> map ((!) url_alphabet) ss = cs"
  by (induction cs arbitrary: ss) (auto split: option.splits simp: url_value_iff)

lemma small_of_char: "list_all (\<lambda>b. b < 256) (map of_char (bs :: bytes) :: nat list)"
  by (simp add: list_all_iff of_char_of)

lemma rawurl_roundtrip: "rawurl_decode (rawurl_encode bs) = Some bs"
proof -
  let ?ss = "sextets (map of_char bs)"
  have small: "list_all (\<lambda>x. x < 64) ?ss" using sextets_small [OF small_of_char] .
  have "set (rawurl_encode bs) \<subseteq> set url_alphabet"
  proof
    fix c
    assume "c \<in> set (rawurl_encode bs)"
    then obtain i where "i \<in> set ?ss" "c = url_alphabet ! i" by (auto simp: rawurl_encode_def)
    then show "c \<in> set url_alphabet" using small alphabet_facts(1) by (simp add: list_all_iff)
  qed
  then have "filter (\<lambda>c. c \<noteq> CHR 0x0D \<and> c \<noteq> CHR 0x0A) (rawurl_encode bs) = rawurl_encode bs"
    using alphabet_facts(3,4) by (intro filter_True) blast
  then have "those (map url_value (filter (\<lambda>c. c \<noteq> CHR 0x0D \<and> c \<noteq> CHR 0x0A) (rawurl_encode bs))) = Some ?ss"
    using those_map_url [OF small] by (simp only: rawurl_encode_def)
  then show ?thesis using octets_sextets [OF small_of_char [of bs]] by (simp add: rawurl_decode_def comp_def)
qed

lemma length_rawurl_encode: "length (rawurl_encode bs) = (length bs * 4 + 2) div 3"
  by (simp add: rawurl_encode_def length_sextets)

end
