(* ===== verification/Identity_Store.thy ===== *)
theory Identity_Store
  imports Authorization_Policy Base64 Lease_Queue
begin

text \<open>
  Browser sessions and access decisions of the server: the tokens of \<open>src/internal/identity/session.go\<close> and the
  transactions of \<open>src/internal/store/postgres/identity.go\<close>. Each transaction is one atomic function on the
  tables with one reading of the clock; a failing database leaves the tables as they were. SHA-256 and HMAC are
  parameters, as are the identifiers and tokens that are drawn at random.
\<close>

section \<open>Tokens\<close>

record Session =
  se_ID :: uuid
  se_UserID :: uuid
  se_DisplayName :: string
  se_ExpiresAt :: gotime

definition NewToken :: "bytes \<Rightarrow> string" where
  "NewToken value = rawurl_encode value"

definition TokenDigest :: "(bytes \<Rightarrow> bytes) \<Rightarrow> string \<Rightarrow> bytes option" where
  "TokenDigest sha256 token =
     (if length token \<noteq> 43 then None
      else
        (case rawurl_decode token of
           None \<Rightarrow> None
         | Some value \<Rightarrow> if length value \<noteq> 32 then None else Some (sha256 token)))"

definition CSRFToken :: "(bytes \<Rightarrow> bytes \<Rightarrow> bytes) \<Rightarrow> string \<Rightarrow> string" where
  "CSRFToken hmac token = rawurl_encode (hmac token ''yuanci:browser-csrf:v1'')"

definition ValidCSRF :: "(bytes \<Rightarrow> bytes) \<Rightarrow> (bytes \<Rightarrow> bytes \<Rightarrow> bytes) \<Rightarrow> string \<Rightarrow> string \<Rightarrow> bool" where
  "ValidCSRF sha256 hmac token provided \<longleftrightarrow>
     (if TokenDigest sha256 token = None \<or> length provided \<noteq> 43 then False else CSRFToken hmac token = provided)"

section \<open>The tables\<close>

record user_row =
  us_id :: uuid
  us_display_name :: string
  us_active :: bool

record session_row =
  ss_id :: uuid
  ss_user :: uuid
  ss_token_hash :: bytes
  ss_created :: gotime
  ss_expires :: gotime
  ss_revoked :: "gotime option"

record membership_row =
  mb_id :: uuid
  mb_user :: uuid
  mb_role :: Role
  mb_scope :: Scope

record repository_row =
  rp_id :: uuid
  rp_organization :: uuid
  rp_active :: bool

record environment_row =
  en_id :: uuid
  en_repository :: uuid
  en_protected :: bool

record identity_db =
  db_instance :: "uuid option"
  db_organizations :: "uuid list"
  db_repositories :: "repository_row list"
  db_environments :: "environment_row list"
  db_users :: "user_row list"
  db_sessions :: "session_row list"
  db_memberships :: "membership_row list"
  db_audit :: "AuditEvent list"

datatype access_error = ErrUnauthenticated | ErrForbidden | ErrSessionLifetime | ErrStore

definition appendAudit :: "(uuid \<Rightarrow> string) \<Rightarrow> uuid \<Rightarrow> string \<Rightarrow> string \<Rightarrow> uuid \<Rightarrow> AuditEvent" where
  "appendAudit uuid_String userID action resource ident =
     \<lparr>ae_actor_user_id = Some userID, ae_action = action, ae_resource_type = resource,
      ae_resource_id = uuid_String ident, ae_metadata = []\<rparr>"

section \<open>Sessions\<close>

text \<open>The pair of the row that is written and the session that is handed out.\<close>

definition issueSession :: "(uuid \<Rightarrow> string) \<Rightarrow> (bytes \<Rightarrow> bytes) \<Rightarrow> bytes \<Rightarrow> uuid \<Rightarrow> gotime \<Rightarrow> uuid \<Rightarrow> duration
    \<Rightarrow> identity_db \<Rightarrow> access_error + identity_db \<times> string \<times> Session" where
  "issueSession uuid_String sha256 random newID now userID ttl db =
     (case List.find (\<lambda>u. us_id u = userID \<and> us_active u) (db_users db) of
        None \<Rightarrow> Inl ErrUnauthenticated
      | Some u \<Rightarrow>
          (let token = NewToken random;
               digest = (case TokenDigest sha256 token of None \<Rightarrow> replicate 32 (CHR 0x00) | Some d \<Rightarrow> d)
           in if list_ex (\<lambda>s. ss_id s = newID \<or> ss_token_hash s = digest) (db_sessions db) \<or> length digest \<noteq> 32
              then Inl ErrStore
              else Inr (db\<lparr>db_sessions := db_sessions db @
                             [\<lparr>ss_id = newID, ss_user = userID, ss_token_hash = digest, ss_created = now, ss_expires = now + ttl, ss_revoked = None\<rparr>],
                           db_audit := db_audit db @ [appendAudit uuid_String userID ''session.created'' ''session'' newID]\<rparr>,
                        token,
                        \<lparr>se_ID = newID, se_UserID = userID, se_DisplayName = us_display_name u, se_ExpiresAt = now + ttl\<rparr>)))"

definition IssueSession :: "(uuid \<Rightarrow> string) \<Rightarrow> (bytes \<Rightarrow> bytes) \<Rightarrow> bytes \<Rightarrow> uuid \<Rightarrow> gotime \<Rightarrow> uuid \<Rightarrow> duration
    \<Rightarrow> identity_db \<Rightarrow> access_error + identity_db \<times> string \<times> Session" where
  "IssueSession uuid_String sha256 random newID now userID ttl db =
     (if ttl < Minute \<or> ttl > 24 * Hour then Inl ErrSessionLifetime
      else issueSession uuid_String sha256 random newID now userID ttl db)"

definition sessionLive :: "gotime \<Rightarrow> Session \<Rightarrow> bool" where
  "sessionLive now session \<longleftrightarrow> se_ExpiresAt session > now"

text \<open>The join of the sessions with the active users.\<close>

definition session_user :: "bytes \<Rightarrow> identity_db \<Rightarrow> (session_row \<times> user_row) option" where
  "session_user digest db =
     (case List.find (\<lambda>s. ss_token_hash s = digest \<and> ss_revoked s = None) (db_sessions db) of
        None \<Rightarrow> None
      | Some s \<Rightarrow>
          (case List.find (\<lambda>u. us_id u = ss_user s \<and> us_active u) (db_users db) of
             None \<Rightarrow> None
           | Some u \<Rightarrow> Some (s, u)))"

definition authenticateSession :: "(bytes \<Rightarrow> bytes) \<Rightarrow> gotime \<Rightarrow> string \<Rightarrow> identity_db \<Rightarrow> access_error + Session" where
  "authenticateSession sha256 now token db =
     (case TokenDigest sha256 token of
        None \<Rightarrow> Inl ErrUnauthenticated
      | Some digest \<Rightarrow>
          (case session_user digest db of
             None \<Rightarrow> Inl ErrUnauthenticated
           | Some (s, u) \<Rightarrow>
               (let session = \<lparr>se_ID = ss_id s, se_UserID = us_id u, se_DisplayName = us_display_name u, se_ExpiresAt = ss_expires s\<rparr>
                in if sessionLive now session then Inr session else Inl ErrUnauthenticated)))"

definition AuthenticateSession :: "(bytes \<Rightarrow> bytes) \<Rightarrow> gotime \<Rightarrow> string \<Rightarrow> identity_db \<Rightarrow> access_error + Session" where
  "AuthenticateSession = authenticateSession"

definition RevokeSession :: "(uuid \<Rightarrow> string) \<Rightarrow> (bytes \<Rightarrow> bytes) \<Rightarrow> gotime \<Rightarrow> string \<Rightarrow> identity_db \<Rightarrow> access_error + identity_db" where
  "RevokeSession uuid_String sha256 now token db =
     (case TokenDigest sha256 token of
        None \<Rightarrow> Inl ErrUnauthenticated
      | Some digest \<Rightarrow>
          (let p = (\<lambda>s. ss_token_hash s = digest \<and> ss_revoked s = None) in
           case List.find p (db_sessions db) of
             None \<Rightarrow> Inl ErrUnauthenticated
           | Some s \<Rightarrow>
               Inr (db\<lparr>db_sessions := update_where p (\<lambda>s. s\<lparr>ss_revoked := Some now\<rparr>) (db_sessions db),
                       db_audit := db_audit db @ [appendAudit uuid_String (ss_user s) ''session.revoked'' ''session'' (ss_id s)]\<rparr>)))"

section \<open>Access decisions\<close>

definition active_repository :: "uuid \<Rightarrow> identity_db \<Rightarrow> repository_row option" where
  "active_repository ident db =
     (case List.find (\<lambda>r. rp_id r = ident) (db_repositories db) of
        None \<Rightarrow> None
      | Some r \<Rightarrow> if rp_active r \<and> rp_organization r \<in> set (db_organizations db) then Some r else None)"

text \<open>The organization, the project and the protection of a target, where it has them.\<close>

definition scope_owner :: "uuid \<Rightarrow> Scope \<Rightarrow> identity_db \<Rightarrow> (uuid \<times> uuid \<times> bool) option" where
  "scope_owner instanceID scope db =
     (case sc_Kind scope of
        Instance \<Rightarrow> if sc_ID scope \<noteq> instanceID then None else Some (uuid_Nil, uuid_Nil, False)
      | Organization \<Rightarrow> if sc_ID scope \<in> set (db_organizations db) then Some (sc_ID scope, uuid_Nil, False) else None
      | Project \<Rightarrow> map_option (\<lambda>r. (rp_organization r, rp_id r, False)) (active_repository (sc_ID scope) db)
      | Environment \<Rightarrow>
          (case List.find (\<lambda>e. en_id e = sc_ID scope) (db_environments db) of
             None \<Rightarrow> None
           | Some e \<Rightarrow> map_option (\<lambda>r. (rp_organization r, rp_id r, en_protected e)) (active_repository (en_repository e) db))
      | OtherKind _ \<Rightarrow> None)"

definition scopeResource :: "Scope \<Rightarrow> identity_db \<Rightarrow> access_error + Resource" where
  "scopeResource scope db =
     (case db_instance db of
        None \<Rightarrow> Inl ErrStore
      | Some instanceID \<Rightarrow>
          (case scope_owner instanceID scope db of
             None \<Rightarrow> Inl ErrForbidden
           | Some (organizationID, projectID, protected) \<Rightarrow>
               (let path = [\<lparr>sc_Kind = Instance, sc_ID = instanceID\<rparr>] @
                      (if organizationID \<noteq> uuid_Nil then [\<lparr>sc_Kind = Organization, sc_ID = organizationID\<rparr>] else []) @
                      (if projectID \<noteq> uuid_Nil then [\<lparr>sc_Kind = Project, sc_ID = projectID\<rparr>] else [])
                in if sc_Kind scope = Environment
                   then Inr \<lparr>rs_Path = path @ [scope], rs_Protection = (if protected then Protected else Unprotected)\<rparr>
                   else Inr \<lparr>rs_Path = path, rs_Protection = NoProtection\<rparr>)))"

definition user_grants :: "uuid \<Rightarrow> identity_db \<Rightarrow> Grant list" where
  "user_grants userID db =
     map (\<lambda>m. \<lparr>gr_SubjectID = userID, gr_Scope = mb_scope m, gr_Role = mb_role m\<rparr>)
       (filter (\<lambda>m. mb_user m = userID) (db_memberships db))"

definition authorize :: "Session \<Rightarrow> Scope \<Rightarrow> Action \<Rightarrow> identity_db \<Rightarrow> access_error option" where
  "authorize session scope action db =
     (case scopeResource scope db of
        Inl e \<Rightarrow> Some e
      | Inr resource \<Rightarrow>
          if \<not> Allowed \<lparr>pr_ID = se_UserID session, pr_Active = True\<rparr>
               \<lparr>rq_Action = action, rq_Resource = resource, rq_RequestedBy = uuid_Nil\<rparr> (user_grants (se_UserID session) db)
          then Some ErrForbidden else None)"

section \<open>Changing memberships\<close>

definition grantable :: "Scope \<Rightarrow> Role \<Rightarrow> bool" where
  "grantable scope role =
     (case role of
        Viewer \<Rightarrow> True | Developer \<Rightarrow> True | Maintainer \<Rightarrow> True | Admin \<Rightarrow> True
      | Deployer \<Rightarrow> sc_Kind scope = Environment | Approver \<Rightarrow> sc_Kind scope = Environment
      | OtherRole _ \<Rightarrow> False)"

definition known_kind :: "ScopeKind \<Rightarrow> bool" where
  "known_kind k \<longleftrightarrow> k = Instance \<or> k = Organization \<or> k = Project \<or> k = Environment"

definition membership_is :: "uuid \<Rightarrow> Role \<Rightarrow> Scope \<Rightarrow> membership_row \<Rightarrow> bool" where
  "membership_is subjectID role scope m \<longleftrightarrow> mb_user m = subjectID \<and> mb_role m = role \<and> mb_scope m = scope"

text \<open>\<open>meta\<close> is the text of the subject, the scope and the role in the event of the audit trail.\<close>

definition ChangeMembership :: "(uuid \<Rightarrow> string) \<Rightarrow> (bytes \<Rightarrow> bytes) \<Rightarrow> (Scope \<Rightarrow> Role \<Rightarrow> gomap) \<Rightarrow> uuid \<Rightarrow> gotime \<Rightarrow> string
    \<Rightarrow> uuid \<Rightarrow> Scope \<Rightarrow> Role \<Rightarrow> bool \<Rightarrow> identity_db \<Rightarrow> access_error + identity_db" where
  "ChangeMembership uuid_String sha256 meta newID now token subjectID scope role add db =
     (if \<not> known_kind (sc_Kind scope) \<or> subjectID = uuid_Nil \<or> sc_ID scope = uuid_Nil then Inl ErrForbidden
      else if \<not> grantable scope role then Inl ErrForbidden
      else
        (case authenticateSession sha256 now token db of
           Inl e \<Rightarrow> Inl e
         | Inr session \<Rightarrow>
             if se_UserID session = subjectID then Inl ErrForbidden
             else
               (case authorize session scope MembersManage db of
                  Some e \<Rightarrow> Inl e
                | None \<Rightarrow>
                    (case List.find (\<lambda>u. us_id u = subjectID) (db_users db) of
                       None \<Rightarrow> Inl ErrForbidden
                     | Some u \<Rightarrow>
                         if add \<and> \<not> us_active u then Inl ErrForbidden
                         else if \<not> sessionLive now session then Inl ErrUnauthenticated
                         else
                           (let event = (\<lambda>action ident. \<lparr>ae_actor_user_id = Some (se_UserID session), ae_action = action,
                                  ae_resource_type = ''membership'', ae_resource_id = uuid_String ident,
                                  ae_metadata = (''subject_id'', uuid_String subjectID) # meta scope role\<rparr>)
                            in case List.find (membership_is subjectID role scope) (db_memberships db) of
                                 None \<Rightarrow>
                                   if add
                                   then if list_ex (\<lambda>m. mb_id m = newID) (db_memberships db) then Inl ErrStore
                                        else Inr (db\<lparr>db_memberships := db_memberships db @
                                               [\<lparr>mb_id = newID, mb_user = subjectID, mb_role = role, mb_scope = scope\<rparr>],
                                             db_audit := db_audit db @ [event ''membership.granted'' newID]\<rparr>)
                                   else Inr db
                               | Some m \<Rightarrow>
                                   if add then Inr db
                                   else Inr (db\<lparr>db_memberships := filter (\<lambda>m. \<not> membership_is subjectID role scope m) (db_memberships db),
                                             db_audit := db_audit db @ [event ''membership.revoked'' (mb_id m)]\<rparr>))))))"

end
