(* ===== verification/Pg_Store.thy ===== *)
theory Pg_Store
  imports Memory_Store Commit_Status Identity_Store
begin

text \<open>
  The PostgreSQL run store of \<open>src/internal/store/postgres\<close>: \<open>store.go\<close>, \<open>runner_jobs.go\<close>, \<open>runner_recovery.go\<close>,
  \<open>authorized_runs.go\<close>, \<open>run_actions.go\<close> and \<open>run_rerun.go\<close>.

  A transaction is one atomic function on the tables, with one reading of the clock: locks only delay other
  transactions, and \<open>SKIP LOCKED\<close> only lets a transaction choose a later row. An error rolls the transaction
  back. The empty string stands for a NULL of the text columns that the source reads with \<open>COALESCE\<close> and writes
  with \<open>NULLIF\<close>. The JSON codec of plans and job specifications, SHA-256 and the text form of an identifier are
  parameters (\<open>pg_env\<close>), and so are the identifiers and tokens that are drawn at random.
\<close>

section \<open>The tables\<close>

record pg_env =
  env_String :: "uuid \<Rightarrow> string"
  env_sha :: "bytes \<Rightarrow> bytes"
  env_marshal :: "PlanJob \<Rightarrow> bytes option"
  env_unmarshal :: "bytes \<Rightarrow> PlanJob option"
  env_plan :: "bytes \<Rightarrow> Plan option"

record run_row =
  rw_rec :: Record
  rw_rerun :: "(uuid \<times> string) option"

record pg_job =
  jb_id :: uuid
  jb_run :: uuid
  jb_runner :: "uuid option"
  jb_stage :: string
  jb_name :: string
  jb_key :: string
  jb_deps :: "string list"
  jb_spec :: bytes
  jb_status :: JobStatus
  jb_attempt :: int
  jb_hash :: "bytes option"
  jb_expires :: "gotime option"
  jb_accepted :: "gotime option"
  jb_renewed :: "gotime option"
  jb_created :: gotime
  jb_started :: "gotime option"
  jb_finished :: "gotime option"
  jb_failure :: "string option"
  jb_pool :: string
  jb_os :: string
  jb_arch :: string
  jb_executor :: string
  jb_labels :: gomap
  jb_disk :: int
  jb_reused :: "uuid option"

record runner_row =
  rn_id :: uuid
  rn_pool :: string
  rn_status :: string
  rn_os :: string
  rn_arch :: string
  rn_executor :: string
  rn_isolation :: string
  rn_labels :: gomap
  rn_capacity :: int
  rn_disk :: int
  rn_protocol :: "int option"
  rn_seen :: "gotime option"

record source_repo =
  sr_id :: uuid
  sr_provider :: string
  sr_instance :: string
  sr_external :: string
  sr_owner :: string
  sr_name :: string
  sr_branch :: string
  sr_clone_url :: string
  sr_installation :: "int option"
  sr_grant :: "uuid option"

record pg_db =
  pg_identity :: identity_db
  pg_repos :: "source_repo list"
  pg_runs :: "run_row list"
  pg_jobs :: "pg_job list"
  pg_runners :: "runner_row list"
  pg_outbox :: outbox

datatype pg_error =
    PgLeaseInvalid | PgInvalidRunnerRequest | PgInvalidTerminal | PgInvalidRecoveryLimit | PgDecode | PgEncode
  | PgDatabase | PgInvalidLogRange | PgIncompleteSource | PgConflict | PgDetailLimit | PgStatus outbox_error | PgAccess access_error

abbreviation rw_id :: "run_row \<Rightarrow> uuid" where
  "rw_id r \<equiv> rec_ID (rw_rec r)"

abbreviation rw_status :: "run_row \<Rightarrow> Status" where
  "rw_status r \<equiv> rec_Status (rw_rec r)"

definition coalesce :: "'a option \<Rightarrow> 'a \<Rightarrow> 'a" where
  "coalesce x y = (case x of None \<Rightarrow> y | Some z \<Rightarrow> z)"

definition write_event :: "AuditEvent \<Rightarrow> pg_db \<Rightarrow> pg_db" where
  "write_event e db = db\<lparr>pg_identity := (pg_identity db)\<lparr>db_audit := db_audit (pg_identity db) @ [e]\<rparr>\<rparr>"

definition update_jobs :: "(pg_job \<Rightarrow> bool) \<Rightarrow> (pg_job \<Rightarrow> pg_job) \<Rightarrow> pg_db \<Rightarrow> pg_db" where
  "update_jobs p f db = db\<lparr>pg_jobs := update_where p f (pg_jobs db)\<rparr>"

definition update_runs :: "(run_row \<Rightarrow> bool) \<Rightarrow> (Record \<Rightarrow> Record) \<Rightarrow> pg_db \<Rightarrow> pg_db" where
  "update_runs p f db = db\<lparr>pg_runs := update_where p (\<lambda>r. r\<lparr>rw_rec := f (rw_rec r)\<rparr>) (pg_runs db)\<rparr>"

text \<open>An update of the jobs that has to affect one row.\<close>

definition lease_update :: "(pg_job \<Rightarrow> bool) \<Rightarrow> (pg_job \<Rightarrow> pg_job) \<Rightarrow> pg_db \<Rightarrow> pg_error + pg_db" where
  "lease_update p f db = (if affected p (pg_jobs db) \<noteq> 1 then Inl PgLeaseInvalid else Inr (update_jobs p f db))"

section \<open>Commit statuses of a run\<close>

text \<open>The join of a run with its repository.\<close>

definition repo_of :: "pg_db \<Rightarrow> Record \<Rightarrow> source_repo option" where
  "repo_of db r = (case rec_ProjectID r of None \<Rightarrow> None | Some p \<Rightarrow> List.find (\<lambda>s. sr_id s = p) (pg_repos db))"

definition run_source :: "pg_db \<Rightarrow> uuid \<Rightarrow> (uuid \<times> string \<times> string) option" where
  "run_source db runID =
     (case List.find (\<lambda>r. rw_id r = runID) (pg_runs db) of
        None \<Rightarrow> None
      | Some r \<Rightarrow> map_option (\<lambda>s. (sr_id s, sr_provider s, rec_CommitSHA (rw_rec r))) (repo_of db (rw_rec r)))"

definition report_status :: "pg_env \<Rightarrow> uuid \<Rightarrow> gotime \<Rightarrow> uuid \<Rightarrow> Status \<Rightarrow> pg_db \<Rightarrow> pg_error + pg_db" where
  "report_status env statusID now runID status db =
     (case enqueueCommitStatusForRun (env_String env) (run_source db) statusID now runID status (pg_outbox db) of
        Inl e \<Rightarrow> Inl (PgStatus e)
      | Inr outbox \<Rightarrow> Inr (db\<lparr>pg_outbox := outbox\<rparr>))"

section \<open>Creating and listing runs\<close>

definition new_row :: "pg_env \<Rightarrow> uuid \<Rightarrow> PlanStage list \<Rightarrow> gotime \<Rightarrow> uuid \<times> PlanStage \<times> PlanJob \<Rightarrow> pg_job option" where
  "new_row env runID stages now p =
     (case p of (jobID, stage, job) \<Rightarrow>
        (let dependencies = job_dependencies stages stage job in
         map_option (\<lambda>spec.
           \<lparr>jb_id = jobID, jb_run = runID, jb_runner = None, jb_stage = ps_Name stage, jb_name = pj_Name job,
            jb_key = job_key (ps_Name stage) (pj_Name job), jb_deps = dependencies, jb_spec = spec,
            jb_status = (if dependencies = [] then JobQueued else JobBlocked), jb_attempt = 1, jb_hash = None,
            jb_expires = None, jb_accepted = None, jb_renewed = None, jb_created = now, jb_started = None,
            jb_finished = None, jb_failure = None, jb_pool = ''standard'', jb_os = req_OS (pj_RunsOn job),
            jb_arch = req_Architecture (pj_RunsOn job), jb_executor = req_Executor (pj_RunsOn job),
            jb_labels = (case req_Labels (pj_RunsOn job) of None \<Rightarrow> [] | Some labels \<Rightarrow> labels),
            jb_disk = pj_RequiredDiskBytes job, jb_reused = None\<rparr>) (env_marshal env job)))"

definition new_rows :: "pg_env \<Rightarrow> (nat \<Rightarrow> uuid) \<Rightarrow> uuid \<Rightarrow> PlanStage list \<Rightarrow> gotime \<Rightarrow> pg_job list option" where
  "new_rows env newID runID stages now =
     those (map (\<lambda>(i, p). new_row env runID stages now (newID i, p)) (enumerate 0 (plan_pairs stages)))"

definition run_taken :: "Record \<Rightarrow> run_row \<Rightarrow> bool" where
  "run_taken record r \<longleftrightarrow>
     rw_id r = rec_ID record \<or>
     (rec_IdempotencyKey record \<noteq> [] \<and> rec_IdempotencyKey (rw_rec r) = rec_IdempotencyKey record)"

definition insertRun :: "pg_env \<Rightarrow> (nat \<Rightarrow> uuid) \<Rightarrow> uuid \<Rightarrow> gotime \<Rightarrow> Record \<Rightarrow> pg_db \<Rightarrow> pg_error + pg_db" where
  "insertRun env newID statusID now record db =
     (if list_ex (run_taken record) (pg_runs db) \<or> (rec_ProjectID record \<noteq> None \<and> repo_of db record = None)
      then Inl PgDatabase
      else
        (case env_plan env (rec_Plan record) of
           None \<Rightarrow> Inl PgDecode
         | Some plan \<Rightarrow>
             (case new_rows env newID (rec_ID record) (plan_Stages plan) now of
                None \<Rightarrow> Inl PgEncode
              | Some rows \<Rightarrow>
                  if \<not> distinct (map jb_key rows) \<or> \<not> distinct (map jb_id (pg_jobs db @ rows)) then Inl PgDatabase
                  else report_status env statusID now (rec_ID record) (rec_Status record)
                         (db\<lparr>pg_runs := pg_runs db @
                               [\<lparr>rw_rec = record\<lparr>rec_StartedAt := None, rec_FinishedAt := None\<rparr>, rw_rerun = None\<rparr>],
                             pg_jobs := pg_jobs db @ rows\<rparr>))))"

definition Store_Create :: "pg_env \<Rightarrow> (nat \<Rightarrow> uuid) \<Rightarrow> uuid \<Rightarrow> gotime \<Rightarrow> Record \<Rightarrow> pg_db \<Rightarrow> pg_error + pg_db \<times> Record" where
  "Store_Create env newID statusID now record db =
     and_then (insertRun env newID statusID now record db) (\<lambda>db'. Inr (db', record))"

text \<open>The columns that are read back.\<close>

definition scan_run :: "Record \<Rightarrow> Record" where
  "scan_run r = r\<lparr>rec_PipelineVersionID := None, rec_IdempotencyKey := []\<rparr>"

definition latest :: "int \<Rightarrow> run_row list \<Rightarrow> Record list" where
  "latest limit rows =
     map (\<lambda>r. scan_run (rw_rec r))
       (take (nat (if limit \<le> 0 \<or> limit > 200 then 50 else limit))
         (rev (sort_key (\<lambda>r. (rec_CreatedAt (rw_rec r), rw_id r)) rows)))"

definition Store_List :: "int \<Rightarrow> pg_db \<Rightarrow> Record list" where
  "Store_List limit db = latest limit (pg_runs db)"

section \<open>Leases without a runner\<close>

definition open_run :: "run_row \<Rightarrow> bool" where
  "open_run r \<longleftrightarrow> rw_status r = StatusQueued \<or> rw_status r = StatusRunning"

definition first_run :: "(pg_job \<Rightarrow> run_row \<Rightarrow> bool) \<Rightarrow> pg_db \<Rightarrow> run_row option" where
  "first_run p db =
     first_by (\<lambda>r. (rec_CreatedAt (rw_rec r), rw_id r))
       (filter (\<lambda>r. open_run r \<and> list_ex (\<lambda>j. jb_run j = rw_id r \<and> jb_status j = JobQueued \<and> p j r) (pg_jobs db)) (pg_runs db))"

definition first_job :: "(pg_job \<Rightarrow> bool) \<Rightarrow> uuid \<Rightarrow> pg_db \<Rightarrow> pg_job option" where
  "first_job p runID db =
     first_by (\<lambda>j. (jb_created j, jb_id j)) (filter (\<lambda>j. jb_run j = runID \<and> jb_status j = JobQueued \<and> p j) (pg_jobs db))"

definition start_run :: "gotime \<Rightarrow> uuid \<Rightarrow> pg_db \<Rightarrow> pg_db" where
  "start_run now runID db =
     update_runs (\<lambda>r. rw_id r = runID \<and> rw_status r = StatusQueued)
       (\<lambda>r. r\<lparr>rec_Status := StatusRunning, rec_StartedAt := Some (coalesce (rec_StartedAt r) now)\<rparr>) db"

definition assignment_of :: "pg_job \<Rightarrow> PlanJob \<Rightarrow> string \<Rightarrow> gotime \<Rightarrow> SourceCheckout option \<Rightarrow> Assignment" where
  "assignment_of j spec token expires source =
     \<lparr>as_JobID = jb_id j, as_RunID = jb_run j, as_StageName = jb_stage j, as_JobName = jb_name j, as_Attempt = jb_attempt j,
      as_LeaseToken = token, as_LeaseExpires = expires, as_Spec = spec, as_Source = source\<rparr>"

definition claim_duration :: "PlanJob \<Rightarrow> duration" where
  "claim_duration spec = max (int64 (pj_Timeout spec + 5 * Minute)) (10 * Minute)"

definition Store_ClaimJob :: "pg_env \<Rightarrow> string \<Rightarrow> gotime \<Rightarrow> pg_db \<Rightarrow> pg_error + pg_db \<times> Assignment option" where
  "Store_ClaimJob env token now db =
     (case first_run (\<lambda>_ _. True) db of
        None \<Rightarrow> Inr (db, None)
      | Some r \<Rightarrow>
          (case first_job (\<lambda>_. True) (rw_id r) db of
             None \<Rightarrow> Inr (db, None)
           | Some j \<Rightarrow>
               (case env_unmarshal env (jb_spec j) of
                  None \<Rightarrow> Inl PgDecode
                | Some spec \<Rightarrow>
                    (let expires = now + claim_duration spec in
                     and_then (lease_update (\<lambda>x. jb_id x = jb_id j \<and> jb_status x = JobQueued)
                         (\<lambda>x. x\<lparr>jb_status := JobAssigned, jb_hash := Some (env_sha env token), jb_expires := Some expires\<rparr>) db)
                       (\<lambda>db1. Inr (start_run now (rw_id r) db1, Some (assignment_of j spec token expires None)))))))"

definition has_lease :: "pg_env \<Rightarrow> gotime \<Rightarrow> string \<Rightarrow> pg_job \<Rightarrow> bool" where
  "has_lease env now token j \<longleftrightarrow>
     jb_hash j = Some (env_sha env token) \<and> (case jb_expires j of None \<Rightarrow> False | Some e \<Rightarrow> e > now)"

definition Store_StartJob :: "pg_env \<Rightarrow> gotime \<Rightarrow> uuid \<Rightarrow> string \<Rightarrow> pg_db \<Rightarrow> pg_error + pg_db" where
  "Store_StartJob env now ident token db =
     lease_update (\<lambda>j. jb_id j = ident \<and> jb_status j = JobAssigned \<and> has_lease env now token j)
       (\<lambda>j. j\<lparr>jb_status := JobRunning, jb_started := Some (coalesce (jb_started j) now)\<rparr>) db"

section \<open>Completing jobs\<close>

definition dependency_done :: "pg_job list \<Rightarrow> uuid \<Rightarrow> string \<Rightarrow> bool" where
  "dependency_done rows runID d \<longleftrightarrow>
     list_ex (\<lambda>x. jb_run x = runID \<and> jb_key x = d \<and> jb_status x = JobSucceeded) rows"

definition unblock_rows :: "uuid \<Rightarrow> pg_db \<Rightarrow> pg_db" where
  "unblock_rows runID db =
     update_jobs (\<lambda>j. jb_run j = runID \<and> jb_status j = JobBlocked \<and>
         list_all (dependency_done (pg_jobs db) (jb_run j)) (jb_deps j))
       (\<lambda>j. j\<lparr>jb_status := JobQueued\<rparr>) db"

definition skip_rows :: "(pg_job \<Rightarrow> gotime) \<Rightarrow> uuid \<Rightarrow> pg_db \<Rightarrow> pg_db" where
  "skip_rows finished runID db =
     update_jobs (\<lambda>j. jb_run j = runID \<and> (jb_status j = JobBlocked \<or> jb_status j = JobQueued))
       (\<lambda>j. j\<lparr>jb_status := JobSkipped, jb_finished := Some (finished j)\<rparr>) db"

definition run_job_statuses :: "uuid \<Rightarrow> pg_db \<Rightarrow> JobStatus list" where
  "run_job_statuses runID db = map jb_status (filter (\<lambda>j. jb_run j = runID) (pg_jobs db))"

definition finish_run_row :: "gotime \<Rightarrow> Status \<Rightarrow> uuid \<Rightarrow> pg_db \<Rightarrow> pg_db" where
  "finish_run_row now status runID db =
     update_runs (\<lambda>r. rw_id r = runID) (\<lambda>r. r\<lparr>rec_Status := status, rec_FinishedAt := Some now\<rparr>) db"

definition final_status :: "JobStatus list \<Rightarrow> Status" where
  "final_status statuses =
     (if JobFailed \<in> set statuses then StatusFailed else if JobCanceled \<in> set statuses then StatusCanceled else StatusSucceeded)"

definition finalizeRunJobs :: "pg_env \<Rightarrow> uuid \<Rightarrow> gotime \<Rightarrow> uuid \<Rightarrow> JobStatus \<Rightarrow> pg_db \<Rightarrow> pg_error + pg_db" where
  "finalizeRunJobs env statusID now runID status db =
     (let db1 = (if status = JobSucceeded then unblock_rows runID db
                 else if status = JobFailed \<or> status = JobCanceled then skip_rows (\<lambda>_. now) runID db else db);
          statuses = run_job_statuses runID db1
      in if list_ex job_active statuses then Inr db1
         else report_status env statusID now runID (final_status statuses)
                (finish_run_row now (final_status statuses) runID db1))"

text \<open>The shared end of both completions: the guarded update of the job, then the rest of its run.\<close>

definition complete_row :: "JobStatus \<Rightarrow> gotime \<Rightarrow> pg_job \<Rightarrow> pg_job" where
  "complete_row status now j = j\<lparr>jb_status := status, jb_finished := Some now, jb_hash := None, jb_expires := None\<rparr>"

definition Store_CompleteJob :: "pg_env \<Rightarrow> uuid \<Rightarrow> gotime \<Rightarrow> uuid \<Rightarrow> string \<Rightarrow> JobStatus \<Rightarrow> pg_db \<Rightarrow> pg_error + pg_db" where
  "Store_CompleteJob env statusID now ident token status db =
     (if \<not> terminal_request status then Inl PgInvalidTerminal
      else
        (case List.find (\<lambda>j. jb_id j = ident) (pg_jobs db) of
           None \<Rightarrow> Inl PgLeaseInvalid
         | Some j \<Rightarrow>
             and_then (lease_update (\<lambda>x. jb_id x = ident \<and> job_leased (jb_status x) \<and> has_lease env now token x)
                 (complete_row status now) db)
               (finalizeRunJobs env statusID now (jb_run j) status)))"

section \<open>Leases of runners\<close>

definition labels_contained :: "gomap \<Rightarrow> gomap \<Rightarrow> bool" where
  "labels_contained required labels \<longleftrightarrow> list_all (\<lambda>(k, v). map_of labels k = Some v) required"

definition runner_fits :: "runner_row \<Rightarrow> pg_job \<Rightarrow> bool" where
  "runner_fits n j \<longleftrightarrow>
     jb_pool j = rn_pool n \<and> jb_os j = rn_os n \<and> (jb_arch j = [] \<or> jb_arch j = rn_arch n) \<and>
     jb_executor j = rn_executor n \<and> labels_contained (jb_labels j) (rn_labels n) \<and> jb_disk j \<le> rn_disk n"

definition source_supported :: "int \<Rightarrow> Record \<Rightarrow> bool" where
  "source_supported protocol r \<longleftrightarrow> protocol \<ge> 2 \<or> rec_ProjectID r = None \<or> rec_CommitSHA r = []"

text \<open>The checkout of a claimed job: none, complete, or incomplete metadata.\<close>

definition checkout_of :: "pg_db \<Rightarrow> Record \<Rightarrow> pg_error + SourceCheckout option" where
  "checkout_of db r =
     (case repo_of db r of
        None \<Rightarrow> if rec_CommitSHA r = [] then Inr None else Inl PgIncompleteSource
      | Some s \<Rightarrow>
          if rec_CommitSHA r = [] then Inl PgIncompleteSource
          else Inr (Some \<lparr>src_RepositoryUUID = sr_id s, src_Provider = sr_provider s, src_RepositoryID = sr_external s,
                          src_CloneURL = sr_clone_url s, src_CommitSHA = rec_CommitSHA r\<rparr>))"

definition enabled_runner :: "uuid \<Rightarrow> pg_db \<Rightarrow> runner_row option" where
  "enabled_runner runnerID db = List.find (\<lambda>n. rn_id n = runnerID \<and> rn_status n \<noteq> ''disabled'') (pg_runners db)"

definition active_leases :: "gotime \<Rightarrow> uuid \<Rightarrow> pg_db \<Rightarrow> nat" where
  "active_leases now runnerID db =
     affected (\<lambda>j. jb_runner j = Some runnerID \<and> job_leased (jb_status j) \<and>
       (case jb_expires j of None \<Rightarrow> False | Some e \<Rightarrow> e > now)) (pg_jobs db)"

definition bind_lease :: "pg_env \<Rightarrow> gotime \<Rightarrow> uuid \<Rightarrow> string \<Rightarrow> pg_job \<Rightarrow> pg_job" where
  "bind_lease env now runnerID token x =
     x\<lparr>jb_status := JobAssigned, jb_runner := Some runnerID, jb_hash := Some (env_sha env token), jb_accepted := None,
       jb_renewed := Some now, jb_expires := Some (now + 30 * Second)\<rparr>"

text \<open>From the choice of the run to the commit, for a runner with free capacity.\<close>

definition claim_for :: "pg_env \<Rightarrow> string \<Rightarrow> gotime \<Rightarrow> runner_row \<Rightarrow> int \<Rightarrow> pg_db \<Rightarrow> pg_error + pg_db \<times> Assignment option" where
  "claim_for env token now n protocol db =
     (case first_run (\<lambda>j r. runner_fits n j \<and> source_supported protocol (rw_rec r)) db of
        None \<Rightarrow> Inr (db, None)
      | Some r \<Rightarrow>
          (case first_job (\<lambda>j. runner_fits n j \<and> source_supported protocol (rw_rec r)) (rw_id r) db of
             None \<Rightarrow> Inr (db, None)
           | Some j \<Rightarrow>
               (case env_unmarshal env (jb_spec j) of
                  None \<Rightarrow> Inl PgDecode
                | Some spec \<Rightarrow>
                    and_then (checkout_of db (rw_rec r)) (\<lambda>source.
                      and_then (lease_update (\<lambda>x. jb_id x = jb_id j \<and> jb_status x = JobQueued) (bind_lease env now (rn_id n) token) db)
                        (\<lambda>db1. Inr (start_run now (rw_id r) db1, Some (assignment_of j spec token (now + 30 * Second) source)))))))"

definition Store_ClaimRunnerJob :: "pg_env \<Rightarrow> string \<Rightarrow> gotime \<Rightarrow> uuid \<Rightarrow> pg_db \<Rightarrow> pg_error + pg_db \<times> Assignment option" where
  "Store_ClaimRunnerJob env token now runnerID db =
     (if runnerID = uuid_Nil then Inl PgInvalidRunnerRequest
      else
        (case enabled_runner runnerID db of
           None \<Rightarrow> Inl PgInvalidRunnerRequest
         | Some n \<Rightarrow>
             (case rn_protocol n of
                None \<Rightarrow> Inl PgDatabase
              | Some protocol \<Rightarrow>
                  if rn_os n = [] \<or> rn_arch n = [] \<or> rn_executor n = [] then Inl PgInvalidRunnerRequest
                  else if int (active_leases now runnerID db) \<ge> rn_capacity n then Inr (db, None)
                  else claim_for env token now n protocol db)))"

text \<open>The \<open>WHERE\<close> clause of the requests that a runner makes about its lease.\<close>

definition runner_lease :: "pg_env \<Rightarrow> gotime \<Rightarrow> LeaseRequest \<Rightarrow> pg_job \<Rightarrow> bool" where
  "runner_lease env now request j \<longleftrightarrow>
     jb_id j = lr_JobID request \<and> jb_runner j = Some (lr_RunnerID request) \<and> has_lease env now (lr_LeaseToken request) j"

definition Store_ReleaseRunnerJob :: "pg_env \<Rightarrow> gotime \<Rightarrow> LeaseRequest \<Rightarrow> pg_db \<Rightarrow> pg_error + pg_db" where
  "Store_ReleaseRunnerJob env now request db =
     (if \<not> validateLeaseRequest request then Inl PgInvalidRunnerRequest
      else lease_update (\<lambda>j. runner_lease env now request j \<and> jb_status j = JobAssigned \<and> jb_accepted j = None)
             (\<lambda>j. j\<lparr>jb_status := JobQueued, jb_runner := None, jb_accepted := None, jb_hash := None, jb_renewed := None,
                    jb_expires := None\<rparr>) db)"

definition lease_state_of :: "uuid \<Rightarrow> pg_db \<Rightarrow> LeaseState" where
  "lease_state_of jobID db =
     \<lparr>ls_JobID = jobID, ls_LeaseExpires =
        (case List.find (\<lambda>j. jb_id j = jobID) (pg_jobs db) of None \<Rightarrow> time_zero | Some j \<Rightarrow> coalesce (jb_expires j) time_zero)\<rparr>"

definition Store_AcknowledgeRunnerJob :: "pg_env \<Rightarrow> gotime \<Rightarrow> LeaseRequest \<Rightarrow> pg_db \<Rightarrow> pg_error + pg_db \<times> LeaseState" where
  "Store_AcknowledgeRunnerJob env now request db =
     (if \<not> validateLeaseRequest request then Inl PgInvalidRunnerRequest
      else and_then (lease_update (\<lambda>j. runner_lease env now request j \<and> job_leased (jb_status j))
             (\<lambda>j. j\<lparr>jb_accepted := Some (coalesce (jb_accepted j) now)\<rparr>) db)
           (\<lambda>db1. Inr (db1, lease_state_of (lr_JobID request) db1)))"

definition Store_StartRunnerJob :: "pg_env \<Rightarrow> gotime \<Rightarrow> LeaseRequest \<Rightarrow> pg_db \<Rightarrow> pg_error + pg_db \<times> LeaseState" where
  "Store_StartRunnerJob env now request db =
     (if \<not> validateLeaseRequest request then Inl PgInvalidRunnerRequest
      else and_then (lease_update (\<lambda>j. runner_lease env now request j \<and> job_leased (jb_status j) \<and> jb_accepted j \<noteq> None)
             (\<lambda>j. j\<lparr>jb_status := JobRunning, jb_started := Some (coalesce (jb_started j) now)\<rparr>) db)
           (\<lambda>db1. Inr (db1, lease_state_of (lr_JobID request) db1)))"

text \<open>One iteration of the heartbeat loop.\<close>

definition renew_row :: "pg_env \<Rightarrow> gotime \<Rightarrow> uuid \<Rightarrow> ActiveLease \<Rightarrow> pg_db \<times> LeaseResult list \<Rightarrow> pg_db \<times> LeaseResult list" where
  "renew_row env now runnerID active acc =
     (case acc of (db, results) \<Rightarrow>
        (let p = (\<lambda>j. jb_id j = al_JobID active \<and> jb_runner j = Some runnerID \<and> job_leased (jb_status j) \<and>
                    has_lease env now (al_LeaseToken active) j);
             expires = now + 30 * Second
         in (update_jobs p (\<lambda>j. j\<lparr>jb_renewed := Some now, jb_expires := Some expires\<rparr>) db,
             results @ [if affected p (pg_jobs db) = 1
                        then \<lparr>res_JobID = al_JobID active, res_Renewed = True, res_LeaseExpires = expires, res_CancelReason = []\<rparr>
                        else \<lparr>res_JobID = al_JobID active, res_Renewed = False, res_LeaseExpires = time_zero,
                              res_CancelReason = ''lease_invalid''\<rparr>])))"

definition heartbeat_runner :: "gotime \<Rightarrow> RunnerDescriptor \<Rightarrow> runner_row \<Rightarrow> runner_row" where
  "heartbeat_runner now d n =
     n\<lparr>rn_status := ''online'', rn_seen := Some now, rn_os := rd_OS d, rn_arch := rd_Architecture d, rn_executor := rd_Executor d,
       rn_isolation := rd_PoolType d, rn_labels := rd_Labels d, rn_capacity := rd_Capacity d, rn_disk := rd_AvailableDiskBytes d\<rparr>"

definition Store_RenewRunnerLeases :: "pg_env \<Rightarrow> gotime \<Rightarrow> HeartbeatRequest \<Rightarrow> pg_db \<Rightarrow> pg_error + pg_db \<times> HeartbeatResult" where
  "Store_RenewRunnerLeases env now request db =
     (let d = hb_Runner request in
      if \<not> ValidateHeartbeatRequest request then Inl PgInvalidRunnerRequest
      else
        (case enabled_runner (rd_ID d) db of
           None \<Rightarrow> Inl PgInvalidRunnerRequest
         | Some n \<Rightarrow>
             if rn_pool n \<noteq> rd_PoolType d then Inl PgInvalidRunnerRequest
             else
               (let db1 = db\<lparr>pg_runners := update_where (\<lambda>n. rn_id n = rd_ID d) (heartbeat_runner now d) (pg_runners db)\<rparr> in
                case fold (renew_row env now (rd_ID d)) (hb_ActiveJobs request) (db1, []) of
                  (db2, results) \<Rightarrow> Inr (db2, \<lparr>hr_LeaseExpires = now + 30 * Second, hr_Jobs = results\<rparr>))))"

definition Store_CompleteRunnerJob :: "pg_env \<Rightarrow> uuid \<Rightarrow> gotime \<Rightarrow> RunnerCompletion \<Rightarrow> pg_db \<Rightarrow> pg_error + pg_db" where
  "Store_CompleteRunnerJob env statusID now request db =
     (if rc_RunnerID request = uuid_Nil \<or> rc_JobID request = uuid_Nil \<or> rc_LeaseToken request = [] then Inl PgInvalidRunnerRequest
      else if \<not> terminal_request (rc_Status request) then Inl PgInvalidTerminal
      else
        (case List.find (\<lambda>j. jb_id j = rc_JobID request) (pg_jobs db) of
           None \<Rightarrow> Inl PgLeaseInvalid
         | Some j \<Rightarrow>
             and_then (lease_update (\<lambda>x. jb_id x = rc_JobID request \<and> jb_runner x = Some (rc_RunnerID request) \<and>
                   job_leased (jb_status x) \<and> has_lease env now (rc_LeaseToken request) x)
                 (complete_row (rc_Status request) now) db)
               (finalizeRunJobs env statusID now (jb_run j) (rc_Status request))))"

section \<open>Recovery of expired leases\<close>

definition lease_over :: "gotime \<Rightarrow> pg_job \<Rightarrow> bool" where
  "lease_over now j \<longleftrightarrow> (case jb_expires j of None \<Rightarrow> False | Some e \<Rightarrow> e \<le> now)"

definition expired_job :: "gotime \<Rightarrow> pg_job \<Rightarrow> bool" where
  "expired_job now j \<longleftrightarrow> job_leased (jb_status j) \<and> lease_over now j"

text \<open>\<open>GROUP BY run_id ORDER BY min(lease_expires_at), run_id\<close>: the runs in the order of their first expired lease.\<close>

definition expired_runs :: "gotime \<Rightarrow> int \<Rightarrow> pg_db \<Rightarrow> uuid list" where
  "expired_runs now limit db =
     take (nat limit) (rev (remdups (rev (map jb_run
       (sort_key (\<lambda>j. (coalesce (jb_expires j) now, jb_run j)) (filter (expired_job now) (pg_jobs db)))))))"

definition expired_batch :: "gotime \<Rightarrow> uuid \<Rightarrow> int \<Rightarrow> pg_db \<Rightarrow> pg_job list" where
  "expired_batch now runID limit db =
     take (nat limit) (sort_key (\<lambda>j. (coalesce (jb_expires j) now, jb_id j))
       (filter (\<lambda>j. jb_run j = runID \<and> expired_job now j) (pg_jobs db)))"

definition appendRunnerAudit :: "pg_env \<Rightarrow> uuid option \<Rightarrow> string \<Rightarrow> string \<Rightarrow> uuid \<Rightarrow> gomap \<Rightarrow> pg_db \<Rightarrow> pg_db" where
  "appendRunnerAudit env actor action resource ident metadata =
     write_event \<lparr>ae_actor_user_id = actor, ae_action = action, ae_resource_type = resource,
       ae_resource_id = env_String env ident, ae_metadata = metadata\<rparr>"

definition recovery_metadata :: "pg_env \<Rightarrow> string \<Rightarrow> uuid option \<Rightarrow> gomap" where
  "recovery_metadata env outcome runner =
     (''outcome'', outcome) # (case runner of None \<Rightarrow> [] | Some r \<Rightarrow> [(''runner_id'', env_String env r)])"

definition requeue_row :: "pg_job \<Rightarrow> pg_job" where
  "requeue_row j = j\<lparr>jb_status := JobQueued, jb_runner := None, jb_hash := None, jb_expires := None, jb_accepted := None,
     jb_renewed := None\<rparr>"

definition lost_row :: "gotime \<Rightarrow> pg_job \<Rightarrow> pg_job" where
  "lost_row now j = j\<lparr>jb_status := JobFailed, jb_failure := Some ''runner_lost'', jb_finished := Some now, jb_hash := None,
     jb_expires := None, jb_renewed := None\<rparr>"

text \<open>One job of the batch: the tables, whether the run failed, the number of handled leases and the counters.\<close>

type_synonym recovery_state = "pg_db \<times> bool \<times> int \<times> RecoveryResult"

definition recover_job :: "pg_env \<Rightarrow> gotime \<Rightarrow> uuid \<Rightarrow> pg_job \<Rightarrow> recovery_state \<Rightarrow> recovery_state" where
  "recover_job env now runID job acc =
     (case acc of (db, failed, processed, result) \<Rightarrow>
        (let p = (\<lambda>s j. jb_id j = jb_id job \<and> jb_status j = s \<and> lease_over now j);
             audit = (\<lambda>outcome. appendRunnerAudit env None ''runner_lease.recovered'' ''job'' (jb_id job)
                        (recovery_metadata env outcome (jb_runner job)))
         in if jb_status job = JobAssigned
            then if affected (p JobAssigned) (pg_jobs db) \<noteq> 1 then acc
                 else (audit ''assigned_requeued'' (update_jobs (p JobAssigned) requeue_row db), failed, processed + 1,
                       result\<lparr>rr_Requeued := rr_Requeued result + 1\<rparr>)
            else if affected (p JobRunning) (pg_jobs db) \<noteq> 1 then acc
                 else (audit ''running_failed'' (skip_rows (\<lambda>j. coalesce (jb_finished j) now) runID
                         (update_jobs (p JobRunning) (lost_row now) db)), True, processed + 1,
                       result\<lparr>rr_Failed := rr_Failed result + 1\<rparr>)))"

definition fail_lost_run :: "gotime \<Rightarrow> uuid \<Rightarrow> pg_db \<Rightarrow> pg_db" where
  "fail_lost_run now runID db =
     update_runs (\<lambda>r. rw_id r = runID)
       (\<lambda>r. r\<lparr>rec_Status := StatusFailed, rec_FinishedAt := Some (coalesce (rec_FinishedAt r) now)\<rparr>) db"

definition requeue_run :: "uuid \<Rightarrow> pg_db \<Rightarrow> pg_db" where
  "requeue_run runID db =
     (if list_ex (\<lambda>s. s = JobRunning \<or> s = JobSucceeded \<or> s = JobFailed \<or> s = JobCanceled) (run_job_statuses runID db) then db
      else update_runs (\<lambda>r. rw_id r = runID)
             (\<lambda>r. r\<lparr>rec_Status := StatusQueued, rec_StartedAt := None, rec_FinishedAt := None\<rparr>) db)"

definition recover_run :: "pg_env \<Rightarrow> (uuid \<Rightarrow> uuid) \<Rightarrow> gotime \<Rightarrow> int \<Rightarrow> uuid \<Rightarrow> pg_db \<times> int \<times> RecoveryResult
    \<Rightarrow> pg_error + pg_db \<times> int \<times> RecoveryResult" where
  "recover_run env statusID now limit runID acc =
     (case acc of (db, processed, result) \<Rightarrow>
        (if \<not> list_ex (\<lambda>r. rw_id r = runID) (pg_runs db) then Inr acc
         else
           (let jobs = expired_batch now runID (limit - processed) db in
            case fold (recover_job env now runID) jobs (db, False, processed, result) of
              (db1, failed, processed1, result1) \<Rightarrow>
                if failed
                then and_then (report_status env (statusID runID) now runID StatusFailed (fail_lost_run now runID db1))
                       (\<lambda>db2. Inr (db2, processed1, result1))
                else Inr (if jobs = [] then db1 else requeue_run runID db1, processed1, result1))))"

fun recover_runs :: "pg_env \<Rightarrow> (uuid \<Rightarrow> uuid) \<Rightarrow> gotime \<Rightarrow> int \<Rightarrow> uuid list \<Rightarrow> pg_db \<times> int \<times> RecoveryResult
    \<Rightarrow> pg_error + pg_db \<times> int \<times> RecoveryResult" where
  "recover_runs env statusID now limit [] acc = Inr acc"
| "recover_runs env statusID now limit (runID # rest) acc =
     (if fst (snd acc) \<ge> limit then Inr acc
      else and_then (recover_run env statusID now limit runID acc) (recover_runs env statusID now limit rest))"

definition Store_RecoverExpiredRunnerLeases :: "pg_env \<Rightarrow> (uuid \<Rightarrow> uuid) \<Rightarrow> gotime \<Rightarrow> int \<Rightarrow> pg_db \<Rightarrow> pg_error + pg_db \<times> RecoveryResult" where
  "Store_RecoverExpiredRunnerLeases env statusID now limit db =
     (if limit < 1 \<or> limit > MaximumRecoveryBatch then Inl PgInvalidRecoveryLimit
      else and_then (recover_runs env statusID now limit (expired_runs now limit db)
               (db, 0, \<lparr>rr_Requeued = 0, rr_Failed = 0\<rparr>))
             (\<lambda>(db', _, result). Inr (db', result)))"

end
