(* ===== verification/Run_Access.thy ===== *)
theory Run_Access
  imports Pg_Store Log_Stream
begin

text \<open>
  What a signed-in user does with the runs of a project: \<open>authorized_runs.go\<close>, \<open>run_actions.go\<close> and
  \<open>run_rerun.go\<close> of \<open>src/internal/store/postgres\<close>. Every operation authenticates the session and checks the
  permission in the transaction that does the work.
\<close>

section \<open>Authorization of an operation on a project\<close>

definition project_scope :: "uuid \<Rightarrow> Scope" where
  "project_scope projectID = \<lparr>sc_Kind = Project, sc_ID = projectID\<rparr>"

definition project_session :: "pg_env \<Rightarrow> gotime \<Rightarrow> string \<Rightarrow> uuid \<Rightarrow> Action \<Rightarrow> pg_db \<Rightarrow> pg_error + Session" where
  "project_session env now token projectID action db =
     (case authenticateSession (env_sha env) now token (pg_identity db) of
        Inl e \<Rightarrow> Inl (PgAccess e)
      | Inr session \<Rightarrow>
          (case authorize session (project_scope projectID) action (pg_identity db) of
             Some e \<Rightarrow> Inl (PgAccess e)
           | None \<Rightarrow> Inr session))"

definition require_live :: "gotime \<Rightarrow> Session \<Rightarrow> pg_error + Session" where
  "require_live now session = (if sessionLive now session then Inr session else Inl (PgAccess ErrUnauthenticated))"

definition lockAuthorizedRun :: "pg_env \<Rightarrow> gotime \<Rightarrow> string \<Rightarrow> uuid \<Rightarrow> uuid \<Rightarrow> Action \<Rightarrow> pg_db \<Rightarrow> pg_error + Session \<times> Record" where
  "lockAuthorizedRun env now token projectID runID action db =
     and_then (project_session env now token projectID action db) (\<lambda>session.
       case List.find (\<lambda>r. rw_id r = runID \<and> rec_ProjectID (rw_rec r) = Some projectID) (pg_runs db) of
         None \<Rightarrow> Inl (PgAccess ErrForbidden)
       | Some r \<Rightarrow> and_then (require_live now session) (\<lambda>_. Inr (session, scan_run (rw_rec r))))"

section \<open>Creating and listing the runs of a project\<close>

definition CreateAuthorizedRun :: "pg_env \<Rightarrow> (nat \<Rightarrow> uuid) \<Rightarrow> uuid \<Rightarrow> gotime \<Rightarrow> string \<Rightarrow> uuid \<Rightarrow> Record \<Rightarrow> pg_db
    \<Rightarrow> pg_error + pg_db \<times> Record" where
  "CreateAuthorizedRun env newID statusID now token projectID record db =
     and_then (project_session env now token projectID RunCreate db) (\<lambda>session.
       (let record = record\<lparr>rec_ProjectID := Some projectID, rec_CreatedBy := Some (se_UserID session)\<rparr> in
        and_then (require_live now session) (\<lambda>_.
          and_then (insertRun env newID statusID now record db) (\<lambda>db1.
            Inr (write_event (appendAudit (env_String env) (se_UserID session) ''run.created'' ''run'' (rec_ID record)) db1,
                 record)))))"

definition ListAuthorizedRuns :: "pg_env \<Rightarrow> gotime \<Rightarrow> string \<Rightarrow> uuid \<Rightarrow> int \<Rightarrow> pg_db \<Rightarrow> pg_error + Record list" where
  "ListAuthorizedRuns env now token projectID limit db =
     and_then (project_session env now token projectID RunRead db) (\<lambda>session.
       and_then (require_live now session) (\<lambda>_.
         Inr (latest limit (filter (\<lambda>r. rec_ProjectID (rw_rec r) = Some projectID) (pg_runs db)))))"

section \<open>Reading a run and its logs\<close>

record JobDetail =
  jd_ID :: uuid
  jd_StageName :: string
  jd_JobName :: string
  jd_Status :: JobStatus
  jd_Spec :: PlanJob
  jd_StartedAt :: "gotime option"
  jd_FinishedAt :: "gotime option"
  jd_ReusedFrom :: "uuid option"

record Detail =
  dt_Run :: Record
  dt_Jobs :: "JobDetail list"

record LogPage =
  lp_Items :: "(int \<times> log_chunk_row) list"
  lp_NextSequence :: int
  lp_Expired :: bool

definition job_detail :: "pg_env \<Rightarrow> pg_job \<Rightarrow> JobDetail option" where
  "job_detail env j =
     map_option (\<lambda>spec. \<lparr>jd_ID = jb_id j, jd_StageName = jb_stage j, jd_JobName = jb_name j, jd_Status = jb_status j,
       jd_Spec = spec, jd_StartedAt = jb_started j, jd_FinishedAt = jb_finished j, jd_ReusedFrom = jb_reused j\<rparr>)
       (env_unmarshal env (jb_spec j))"

definition GetAuthorizedRun :: "pg_env \<Rightarrow> gotime \<Rightarrow> string \<Rightarrow> uuid \<Rightarrow> uuid \<Rightarrow> pg_db \<Rightarrow> pg_error + Detail" where
  "GetAuthorizedRun env now token projectID runID db =
     and_then (lockAuthorizedRun env now token projectID runID RunRead db) (\<lambda>(_, record).
       (case those (map (job_detail env) (take 1025
               (sort_key (\<lambda>j. (jb_created j, jb_id j)) (filter (\<lambda>j. jb_run j = runID) (pg_jobs db))))) of
          None \<Rightarrow> Inl PgDecode
        | Some jobs \<Rightarrow>
            if length jobs > 1024 then Inl PgDetailLimit
            else Inr \<lparr>dt_Run = record\<lparr>rec_Plan := []\<rparr>, dt_Jobs = jobs\<rparr>))"

text \<open>The sequence numbers of a stream lie between 1 and \<open>MaxJobLogChunks\<close> (a check of the table).\<close>

definition log_page :: "uuid \<Rightarrow> int \<Rightarrow> log_tables \<Rightarrow> (int \<times> log_chunk_row) list" where
  "log_page jobID after logs =
     take 16 (List.map_filter (\<lambda>n. map_option (Pair n) (lt_chunks logs jobID n)) [after + 1..MaxJobLogChunks])"

definition ReadAuthorizedLogs :: "pg_env \<Rightarrow> gotime \<Rightarrow> string \<Rightarrow> uuid \<Rightarrow> uuid \<Rightarrow> uuid \<Rightarrow> int \<Rightarrow> log_tables \<Rightarrow> pg_db
    \<Rightarrow> pg_error + LogPage" where
  "ReadAuthorizedLogs env now token projectID runID jobID after logs db =
     (if after < 0 \<or> after > MaxJobLogChunks then Inl PgInvalidLogRange
      else
        and_then (lockAuthorizedRun env now token projectID runID RunRead db) (\<lambda>_.
          (case List.find (\<lambda>j. jb_id j = jobID \<and> jb_run j = runID) (pg_jobs db) of
             None \<Rightarrow> Inl (PgAccess ErrForbidden)
           | Some j \<Rightarrow>
               (let expires = (case lt_streams logs jobID of None \<Rightarrow> jb_created j + sevenDays | Some s \<Rightarrow> sr_expires_at s);
                    items = log_page jobID after logs
                in if expires \<le> now then Inr \<lparr>lp_Items = [], lp_NextSequence = after, lp_Expired = True\<rparr>
                   else Inr \<lparr>lp_Items = items, lp_NextSequence = (if items = [] then after else fst (last items)),
                             lp_Expired = False\<rparr>))))"

section \<open>Canceling and repeating a run\<close>

definition cancel_rows :: "gotime \<Rightarrow> uuid \<Rightarrow> pg_db \<Rightarrow> pg_db" where
  "cancel_rows now runID db =
     update_jobs (\<lambda>j. jb_run j = runID \<and> job_active (jb_status j))
       (\<lambda>j. j\<lparr>jb_status := JobCanceled, jb_finished := Some now, jb_hash := None, jb_expires := None\<rparr>) db"

definition CancelAuthorizedRun :: "pg_env \<Rightarrow> uuid \<Rightarrow> gotime \<Rightarrow> string \<Rightarrow> uuid \<Rightarrow> uuid \<Rightarrow> pg_db \<Rightarrow> pg_error + pg_db \<times> Status" where
  "CancelAuthorizedRun env statusID now token projectID runID db =
     and_then (lockAuthorizedRun env now token projectID runID RunCancel db) (\<lambda>(session, record).
       if Terminal (rec_Status record) then Inr (db, rec_Status record)
       else
         and_then (report_status env statusID now runID StatusCanceled
             (finish_run_row now StatusCanceled runID (cancel_rows now runID db))) (\<lambda>db1.
           Inr (write_event (appendAudit (env_String env) (se_UserID session) ''run.canceled'' ''run'' runID) db1,
                StatusCanceled)))"

definition rerun_key :: "pg_env \<Rightarrow> uuid \<Rightarrow> uuid \<Rightarrow> string \<Rightarrow> uuid \<Rightarrow> string" where
  "rerun_key env runID userID mode requestID =
     ''rerun:'' @ env_String env runID @ '':'' @ env_String env userID @ '':'' @ mode @ '':'' @ env_String env requestID"

text \<open>The jobs of the new run whose counterpart in the old run succeeded are taken over.\<close>

definition reuse_row :: "gotime \<Rightarrow> uuid \<Rightarrow> uuid \<Rightarrow> pg_job list \<Rightarrow> pg_job \<Rightarrow> pg_job" where
  "reuse_row now newRun oldRun rows j =
     (if jb_run j \<noteq> newRun then j
      else
        (case List.find (\<lambda>x. jb_run x = oldRun \<and> jb_key x = jb_key j \<and> jb_status x = JobSucceeded) rows of
           None \<Rightarrow> j
         | Some x \<Rightarrow> j\<lparr>jb_status := JobSucceeded, jb_finished := Some now, jb_reused := Some (jb_id x)\<rparr>))"

definition reuse_rows :: "gotime \<Rightarrow> uuid \<Rightarrow> uuid \<Rightarrow> pg_db \<Rightarrow> pg_db" where
  "reuse_rows now newRun oldRun db = db\<lparr>pg_jobs := map (reuse_row now newRun oldRun (pg_jobs db)) (pg_jobs db)\<rparr>"

definition rerun_record :: "uuid \<Rightarrow> uuid \<Rightarrow> gotime \<Rightarrow> string \<Rightarrow> Record \<Rightarrow> uuid option \<Rightarrow> Record" where
  "rerun_record newRun userID now key original version =
     original\<lparr>rec_ID := newRun, rec_Status := StatusQueued, rec_CreatedAt := now, rec_StartedAt := None, rec_FinishedAt := None,
       rec_CreatedBy := Some userID, rec_IdempotencyKey := key, rec_PipelineVersionID := version\<rparr>"

definition pipeline_version :: "uuid \<Rightarrow> pg_db \<Rightarrow> uuid option" where
  "pipeline_version runID db =
     (case List.find (\<lambda>r. rw_id r = runID) (pg_runs db) of None \<Rightarrow> None | Some r \<Rightarrow> rec_PipelineVersionID (rw_rec r))"

definition mark_rerun :: "uuid \<Rightarrow> uuid \<Rightarrow> string \<Rightarrow> pg_db \<Rightarrow> pg_db" where
  "mark_rerun newRun runID mode db =
     db\<lparr>pg_runs := update_where (\<lambda>r. rw_id r = newRun) (\<lambda>r. r\<lparr>rw_rerun := Some (runID, mode)\<rparr>) (pg_runs db)\<rparr>"

definition RerunAuthorizedRun :: "pg_env \<Rightarrow> (nat \<Rightarrow> uuid) \<Rightarrow> uuid \<Rightarrow> uuid \<Rightarrow> gotime \<Rightarrow> string \<Rightarrow> uuid \<Rightarrow> uuid \<Rightarrow> string
    \<Rightarrow> uuid \<Rightarrow> pg_db \<Rightarrow> pg_error + pg_db \<times> Record" where
  "RerunAuthorizedRun env newID newRun statusID now token projectID runID mode requestID db =
     (if (mode \<noteq> ''full'' \<and> mode \<noteq> ''failed'') \<or> requestID = uuid_Nil then Inl PgConflict
      else
        and_then (lockAuthorizedRun env now token projectID runID RunCreate db) (\<lambda>(session, original).
          if \<not> Terminal (rec_Status original) \<or> (mode = ''failed'' \<and> rec_Status original \<noteq> StatusFailed)
          then Inl PgConflict
          else
            (let key = rerun_key env runID (se_UserID session) mode requestID in
             case List.find (\<lambda>r. rec_IdempotencyKey (rw_rec r) = key) (pg_runs db) of
               Some previous \<Rightarrow> Inr (db, scan_run (rw_rec previous))
             | None \<Rightarrow>
                 if \<not> list_ex (\<lambda>j. jb_run j = runID) (pg_jobs db) then Inl PgConflict
                 else
                   (let next = rerun_record newRun (se_UserID session) now key original (pipeline_version runID db) in
                    and_then (insertRun env newID statusID now next db) (\<lambda>db1.
                      (let db2 = mark_rerun newRun runID mode db1;
                           db3 = (if mode = ''failed'' then unblock_rows newRun (reuse_rows now newRun runID db2) else db2)
                       in Inr (write_event (appendAudit (env_String env) (se_UserID session) ''run.rerun'' ''run'' newRun) db3,
                               next)))))))"

end
