(* ===== verification/Provider_Identity.thy ===== *)
theory Provider_Identity
  imports Base64
begin

text \<open>
  The identities that providers vouch for (\<open>src/internal/identity/oauth.go\<close>): which providers are known, what their
  subjects look like, the user that a login returns, and the PKCE values of a login. SHA-256 and HMAC are parameters.
\<close>

text \<open>\<open>strings.ContainsAny\<close>, and the characters that no name may contain.\<close>

definition ContainsAny :: "string \<Rightarrow> string \<Rightarrow> bool" where
  "ContainsAny s chars \<longleftrightarrow> list_ex (\<lambda>c. c \<in> set chars) s"

definition line_breaks :: string where
  "line_breaks = [CHR 0x0D, CHR 0x0A, CHR 0x00]"

definition GitHubInstance :: string where "GitHubInstance = ''https://github.com''"
definition GiteeInstance :: string where "GiteeInstance = ''https://gitee.com''"

definition ValidProviderInstance :: "string \<Rightarrow> string \<Rightarrow> bool" where
  "ValidProviderInstance provider inst =
     (if provider = ''github'' then inst = GitHubInstance
      else if provider = ''gitee'' then inst = GiteeInstance else False)"

definition ValidGitHubSubject :: "string \<Rightarrow> bool" where
  "ValidGitHubSubject subject \<longleftrightarrow> (case ParseInt subject of None \<Rightarrow> False | Some n \<Rightarrow> n > 0 \<and> FormatInt n = subject)"

record ExternalUser =
  xu_Provider :: string
  xu_Instance :: string
  xu_Subject :: string
  xu_Login :: string
  xu_Name :: string

definition ExternalUser_Valid :: "ExternalUser \<Rightarrow> bool" where
  "ExternalUser_Valid user \<longleftrightarrow>
     ValidProviderInstance (xu_Provider user) (xu_Instance user) \<and> ValidGitHubSubject (xu_Subject user) \<and>
     length (xu_Login user) > 0 \<and> length (xu_Login user) \<le> 100 \<and> length (xu_Name user) \<le> 256 \<and>
     \<not> ContainsAny (xu_Login user @ xu_Name user) line_breaks"

definition PKCEVerifier :: "(bytes \<Rightarrow> bytes \<Rightarrow> bytes) \<Rightarrow> string \<Rightarrow> string \<Rightarrow> string" where
  "PKCEVerifier hmac state nonce = rawurl_encode (hmac nonce (''yuanci:oauth:pkce:v1:'' @ state))"

definition PKCEChallenge :: "(bytes \<Rightarrow> bytes) \<Rightarrow> string \<Rightarrow> string" where
  "PKCEChallenge sha verifier = rawurl_encode (sha verifier)"

end
