(* ===== verification/Webhook_Inbox.thy ===== *)
theory Webhook_Inbox
  imports Lease_Queue Scm_Types Provider_Identity "HOL-Library.Product_Lexorder"
begin

text \<open>
  The durable inbox of webhook deliveries: the types of \<open>src/internal/githubhook/service.go\<close>, the table
  \<open>webhook_deliveries\<close> with the operations of \<open>src/internal/store/postgres/webhook_inbox.go\<close>, and the statements by
  which \<open>github_ci.go\<close> settles a delivery together with its run.

  The JSON codec of the normalized event is a parameter (\<open>event_codec\<close>); the application and the database read one
  clock. An empty \<open>error_code\<close> or \<open>error_summary\<close> stands for NULL.
\<close>

section \<open>Types\<close>

datatype hook_error = HookInvalidRequest | HookConflict | HookRateLimited | HookNoDelivery | HookLeaseInvalid | HookDecode | HookDatabase

record Delivery =
  dl_Provider :: string
  dl_ProviderInstance :: string
  dl_DeliveryID :: string
  dl_EventType :: string
  dl_PayloadSHA256 :: string
  dl_NormalizedEvent :: bytes
  dl_ReceivedAt :: gotime

record Receipt =
  rcp_ID :: uuid
  rcp_Duplicate :: bool

record WorkItem =
  wi_ID :: uuid
  wi_LeaseID :: uuid
  wi_Event :: Event
  wi_Attempt :: int
  wi_LeaseExpires :: gotime

datatype FinalState = FinalProcessed | FinalIgnored | FinalRetry | FinalDead | OtherFinal string

record Finalize =
  fn_ID :: uuid
  fn_LeaseID :: uuid
  fn_State :: FinalState
  fn_NextAttempt :: gotime
  fn_ErrorCode :: string
  fn_ErrorSummary :: string

definition MaxAttempts :: int where "MaxAttempts = 12"

datatype hook_status = Received | Processing | Processed | Ignored | DeadLetter

record webhook_row =
  wh_id :: uuid
  wh_provider :: string
  wh_instance :: string
  wh_delivery :: string
  wh_type :: string
  wh_sha :: string
  wh_event :: bytes
  wh_received :: gotime
  wh_status :: hook_status
  wh_attempts :: int
  wh_next :: gotime
  wh_lease :: "(uuid \<times> gotime) option"
  wh_processed :: "gotime option"
  wh_code :: string
  wh_summary :: string
  wh_repository :: "uuid option"
  wh_run :: "uuid option"

type_synonym inbox = "webhook_row list"

text \<open>
  The JSON codec of events, and what PostgreSQL says of \<open>jsonb\<close> values: whether one is an object, and whether two are
  the same value.
\<close>

record event_codec =
  ec_marshal :: "Event \<Rightarrow> bytes option"
  ec_unmarshal :: "bytes \<Rightarrow> Event option"
  ec_object :: "bytes \<Rightarrow> bool"
  ec_same :: "bytes \<Rightarrow> bytes \<Rightarrow> bool"

section \<open>Receiving\<close>

abbreviation wh_key :: "webhook_row \<Rightarrow> string \<times> string \<times> string" where
  "wh_key r \<equiv> (wh_provider r, wh_instance r, wh_delivery r)"

abbreviation dl_key :: "Delivery \<Rightarrow> string \<times> string \<times> string" where
  "dl_key d \<equiv> (dl_Provider d, dl_ProviderInstance d, dl_DeliveryID d)"

definition new_delivery :: "uuid \<Rightarrow> Delivery \<Rightarrow> webhook_row" where
  "new_delivery newID d =
     \<lparr>wh_id = newID, wh_provider = dl_Provider d, wh_instance = dl_ProviderInstance d, wh_delivery = dl_DeliveryID d,
      wh_type = dl_EventType d, wh_sha = dl_PayloadSHA256 d, wh_event = dl_NormalizedEvent d, wh_received = dl_ReceivedAt d,
      wh_status = Received, wh_attempts = 0, wh_next = dl_ReceivedAt d, wh_lease = None, wh_processed = None, wh_code = [],
      wh_summary = [], wh_repository = None, wh_run = None\<rparr>"

definition conflict_event :: "Delivery \<Rightarrow> AuditEvent" where
  "conflict_event d =
     \<lparr>ae_actor_user_id = None, ae_action = ''webhook.delivery_conflict'', ae_resource_type = ''webhook_delivery'',
      ae_resource_id = dl_DeliveryID d,
      ae_metadata = [(''provider'', dl_Provider d), (''event_type'', dl_EventType d), (''payload_sha256'', dl_PayloadSHA256 d)]\<rparr>"

text \<open>The table afterwards, the event of the audit trail if one is written, and the answer.\<close>

definition ReceiveWebhook :: "event_codec \<Rightarrow> uuid \<Rightarrow> Delivery \<Rightarrow> inbox \<Rightarrow> inbox \<times> AuditEvent option \<times> (hook_error + Receipt)" where
  "ReceiveWebhook codec newID d rows =
     (if \<not> ValidProviderInstance (dl_Provider d) (dl_ProviderInstance d) \<or> dl_DeliveryID d = [] \<or> dl_EventType d = [] \<or>
         length (dl_PayloadSHA256 d) \<noteq> 64 \<or> dl_NormalizedEvent d = [] \<or> dl_ReceivedAt d = time_zero
      then (rows, None, Inl HookInvalidRequest)
      else
        (case List.find (\<lambda>r. wh_key r = dl_key d) rows of
           None \<Rightarrow>
             if newID \<in> wh_id ` set rows \<or> \<not> ec_object codec (dl_NormalizedEvent d) then (rows, None, Inl HookDatabase)
             else (rows @ [new_delivery newID d], None, Inr \<lparr>rcp_ID = newID, rcp_Duplicate = False\<rparr>)
         | Some r \<Rightarrow>
             if wh_type r \<noteq> dl_EventType d \<or> wh_sha r \<noteq> dl_PayloadSHA256 d then (rows, Some (conflict_event d), Inl HookConflict)
             else (rows, None, Inr \<lparr>rcp_ID = wh_id r, rcp_Duplicate = True\<rparr>)))"

section \<open>Claiming, finalizing and recovering\<close>

definition claimable_hook :: "gotime \<Rightarrow> webhook_row \<Rightarrow> bool" where
  "claimable_hook now r \<longleftrightarrow> wh_status r = Received \<and> wh_next r \<le> now"

definition claim_hook :: "uuid \<Rightarrow> gotime \<Rightarrow> webhook_row \<Rightarrow> webhook_row" where
  "claim_hook owner expires r =
     r\<lparr>wh_status := Processing, wh_attempts := wh_attempts r + 1, wh_lease := Some (owner, expires)\<rparr>"

text \<open>The claim is committed before the event is decoded.\<close>

definition ClaimWebhook :: "event_codec \<Rightarrow> uuid \<Rightarrow> gotime \<Rightarrow> duration \<Rightarrow> inbox \<Rightarrow> inbox \<times> (hook_error + WorkItem)" where
  "ClaimWebhook codec leaseID now leaseDuration rows =
     (if leaseDuration < Second \<or> leaseDuration > 10 * Minute then (rows, Inl HookLeaseInvalid)
      else
        (case first_by (\<lambda>r. (wh_next r, wh_received r, wh_id r)) (filter (claimable_hook now) rows) of
           None \<Rightarrow> (rows, Inl HookNoDelivery)
         | Some r \<Rightarrow>
             (update_where (\<lambda>x. wh_id x = wh_id r) (claim_hook leaseID (now + leaseDuration)) rows,
              case ec_unmarshal codec (wh_event r) of
                None \<Rightarrow> Inl HookDecode
              | Some event \<Rightarrow>
                  Inr \<lparr>wi_ID = wh_id r, wi_LeaseID = leaseID, wi_Event = event, wi_Attempt = wh_attempts r + 1,
                       wi_LeaseExpires = now + leaseDuration\<rparr>)))"

definition hook_lease :: "uuid \<Rightarrow> uuid \<Rightarrow> webhook_row \<Rightarrow> bool" where
  "hook_lease ident owner r \<longleftrightarrow>
     wh_id r = ident \<and> wh_status r = Processing \<and> (case wh_lease r of None \<Rightarrow> False | Some (o', _) \<Rightarrow> o' = owner)"

definition hook_lease_live :: "gotime \<Rightarrow> webhook_row \<Rightarrow> bool" where
  "hook_lease_live now r \<longleftrightarrow> (case wh_lease r of None \<Rightarrow> False | Some (_, e) \<Rightarrow> e > now)"

definition final_hook_status :: "FinalState \<Rightarrow> hook_status option" where
  "final_hook_status s =
     (case s of FinalProcessed \<Rightarrow> Some Processed | FinalIgnored \<Rightarrow> Some Ignored | FinalRetry \<Rightarrow> Some Received
      | FinalDead \<Rightarrow> Some DeadLetter | OtherFinal _ \<Rightarrow> None)"

definition finalize_hook :: "gotime \<Rightarrow> Finalize \<Rightarrow> hook_status \<Rightarrow> webhook_row \<Rightarrow> webhook_row" where
  "finalize_hook now request status r =
     (let processed = (fn_State request \<noteq> FinalRetry) in
      r\<lparr>wh_status := status, wh_lease := None, wh_next := (if processed then wh_next r else fn_NextAttempt request),
        wh_processed := (if processed then Some now else None), wh_code := fn_ErrorCode request,
        wh_summary := fn_ErrorSummary request\<rparr>)"

definition FinalizeWebhook :: "gotime \<Rightarrow> Finalize \<Rightarrow> inbox \<Rightarrow> hook_error + inbox" where
  "FinalizeWebhook now request rows =
     (if fn_ID request = uuid_Nil \<or> fn_LeaseID request = uuid_Nil \<or> length (fn_ErrorCode request) > 64 \<or>
         int (length (fn_ErrorSummary request)) > 1024
      then Inl HookLeaseInvalid
      else if fn_State request = FinalRetry \<and> \<not> fn_NextAttempt request > now then Inl HookLeaseInvalid
      else
        (case final_hook_status (fn_State request) of
           None \<Rightarrow> Inl HookLeaseInvalid
         | Some status \<Rightarrow>
             (let p = (\<lambda>r. hook_lease (fn_ID request) (fn_LeaseID request) r \<and> hook_lease_live now r) in
              if affected p rows \<noteq> 1 then Inl HookLeaseInvalid
              else Inr (update_where p (finalize_hook now request status) rows))))"

definition expired_hook :: "gotime \<Rightarrow> webhook_row \<Rightarrow> bool" where
  "expired_hook now r \<longleftrightarrow> wh_status r = Processing \<and> (case wh_lease r of None \<Rightarrow> False | Some (_, e) \<Rightarrow> e \<le> now)"

definition hook_recovery_key :: "webhook_row \<Rightarrow> gotime \<times> uuid" where
  "hook_recovery_key r = (case wh_lease r of None \<Rightarrow> 0 | Some (_, e) \<Rightarrow> e, wh_id r)"

definition recover_hook :: "gotime \<Rightarrow> webhook_row \<Rightarrow> webhook_row" where
  "recover_hook now r =
     (let exhausted = (wh_attempts r \<ge> MaxAttempts) in
      r\<lparr>wh_status := (if exhausted then DeadLetter else Received), wh_lease := None, wh_next := now,
        wh_processed := (if exhausted then Some now else None),
        wh_code := (if exhausted then ''lease_recovery_exhausted'' else wh_code r),
        wh_summary := (if exhausted then ''Webhook processing repeatedly lost its worker lease'' else wh_summary r)\<rparr>)"

definition RecoverWebhookLeases :: "gotime \<Rightarrow> int \<Rightarrow> inbox \<Rightarrow> hook_error + inbox \<times> int" where
  "RecoverWebhookLeases now limit rows =
     (if limit < 1 \<or> limit > 1000 then Inl HookLeaseInvalid
      else
        (let chosen = map wh_id (take (nat limit) (sort_key hook_recovery_key (filter (expired_hook now) rows)));
             p = (\<lambda>r. wh_id r \<in> set chosen)
         in Inr (update_where p (recover_hook now) rows, int (affected p rows))))"

section \<open>Settling a delivery with its run\<close>

definition settle_hook :: "gotime \<Rightarrow> uuid \<Rightarrow> uuid \<Rightarrow> string \<Rightarrow> string \<Rightarrow> webhook_row \<Rightarrow> webhook_row" where
  "settle_hook now repository run code summary r =
     r\<lparr>wh_status := Processed, wh_processed := Some now, wh_repository := Some repository, wh_run := Some run,
       wh_lease := None, wh_code := code, wh_summary := summary\<rparr>"

text \<open>The update at the end of both transactions that store a run; a run without an error writes no code.\<close>

definition settleDelivery :: "gotime \<Rightarrow> uuid \<Rightarrow> uuid \<Rightarrow> uuid \<Rightarrow> uuid \<Rightarrow> string \<Rightarrow> string \<Rightarrow> inbox \<Rightarrow> hook_error + inbox" where
  "settleDelivery now ident lease repository run code summary rows =
     (if affected (hook_lease ident lease) rows \<noteq> 1 then Inl HookLeaseInvalid
      else Inr (update_where (hook_lease ident lease) (settle_hook now repository run code summary) rows))"

section \<open>The inbox as a leased queue\<close>

inductive hook_step :: "event_codec \<Rightarrow> inbox \<Rightarrow> inbox \<Rightarrow> bool" for codec where
  receive: "ReceiveWebhook codec newID d rows = (rows', event, answer) \<Longrightarrow> hook_step codec rows rows'"
| claim: "ClaimWebhook codec leaseID now leaseDuration rows = (rows', item) \<Longrightarrow> hook_step codec rows rows'"
| finalize: "FinalizeWebhook now request rows = Inr rows' \<Longrightarrow> hook_step codec rows rows'"
| recover: "RecoverWebhookLeases now limit rows = Inr (rows', n) \<Longrightarrow> hook_step codec rows rows'"
| settle: "settleDelivery now ident lease repository run code summary rows = Inr rows' \<Longrightarrow> hook_step codec rows rows'"

abbreviation hook_steps :: "event_codec \<Rightarrow> inbox \<Rightarrow> inbox \<Rightarrow> bool" where
  "hook_steps codec \<equiv> (hook_step codec)\<^sup>*\<^sup>*"

definition hook_row_phase :: "webhook_row \<Rightarrow> phase" where
  "hook_row_phase r =
     (case wh_status r of
        Received \<Rightarrow> Ready
      | Processing \<Rightarrow> (case wh_lease r of None \<Rightarrow> Working 0 0 | Some (owner, expires) \<Rightarrow> Working owner expires)
      | Processed \<Rightarrow> Done
      | Ignored \<Rightarrow> Done
      | DeadLetter \<Rightarrow> Dead)"

abbreviation hook_phase :: "inbox \<Rightarrow> uuid \<Rightarrow> phase" where
  "hook_phase \<equiv> table_phase wh_id hook_row_phase"

text \<open>
  The constraints of the table, and what they leave open: a delivery is under a lease exactly while it is
  processed, it is settled at a time exactly when it is settled, and only a processed delivery names a run.
\<close>

definition hook_row_ok :: "webhook_row \<Rightarrow> bool" where
  "hook_row_ok r \<longleftrightarrow>
     (wh_lease r \<noteq> None \<longleftrightarrow> wh_status r = Processing) \<and>
     (wh_processed r \<noteq> None \<longleftrightarrow> wh_status r \<in> {Processed, Ignored, DeadLetter}) \<and>
     (wh_run r \<noteq> None \<longrightarrow> wh_status r = Processed) \<and> (wh_repository r = None \<longleftrightarrow> wh_run r = None) \<and> 0 \<le> wh_attempts r"

definition inbox_ok :: "inbox \<Rightarrow> bool" where
  "inbox_ok rows \<longleftrightarrow> distinct (map wh_id rows) \<and> distinct (map (\<lambda>r. wh_key r) rows) \<and> list_all hook_row_ok rows"

lemmas hook_updates = claim_hook_def finalize_hook_def recover_hook_def settle_hook_def Let_def

lemma hook_update_keeps [simp]:
  "wh_id (claim_hook owner expires r) = wh_id r" "wh_id (finalize_hook now request status r) = wh_id r"
  "wh_id (recover_hook now r) = wh_id r" "wh_id (settle_hook now repository run code summary r) = wh_id r"
  "wh_key (claim_hook owner expires r) = wh_key r" "wh_key (finalize_hook now request status r) = wh_key r"
  "wh_key (recover_hook now r) = wh_key r" "wh_key (settle_hook now repository run code summary r) = wh_key r"
  by (simp_all add: hook_updates)

lemma same_delivery: "inbox_ok rows \<Longrightarrow> x \<in> set rows \<Longrightarrow> y \<in> set rows \<Longrightarrow> wh_id x = wh_id y \<Longrightarrow> x = y"
  by (rule same_row [of wh_id rows]) (auto simp: inbox_ok_def)

text \<open>Each statement inserts one new delivery, or updates rows that it selects.\<close>

lemma receive_rows:
  assumes "ReceiveWebhook codec newID d rows = (rows', event, answer)"
  shows "rows' = rows \<or> (rows' = rows @ [new_delivery newID d] \<and> newID \<notin> wh_id ` set rows \<and> dl_key d \<notin> wh_key ` set rows \<and>
    answer = Inr \<lparr>rcp_ID = newID, rcp_Duplicate = False\<rparr>)"
  using assms by (fastforce simp: ReceiveWebhook_def find_None_iff split: if_splits option.splits)

lemma claim_rows:
  assumes "ClaimWebhook codec leaseID now leaseDuration rows = (rows', item)"
  shows "(rows' = rows \<and> isl item) \<or>
    (\<exists>r\<in>set rows. claimable_hook now r \<and>
       rows' = update_where (\<lambda>x. wh_id x = wh_id r) (claim_hook leaseID (now + leaseDuration)) rows \<and>
       (\<forall>work. item = Inr work \<longrightarrow> wi_ID work = wh_id r \<and> wi_LeaseID work = leaseID \<and> wi_Attempt work = wh_attempts r + 1 \<and>
          wi_LeaseExpires work = now + leaseDuration \<and> ec_unmarshal codec (wh_event r) = Some (wi_Event work)))"
proof (cases "first_by (\<lambda>r. (wh_next r, wh_received r, wh_id r)) (filter (claimable_hook now) rows)")
  case None
  then show ?thesis using assms by (auto simp: ClaimWebhook_def split: if_splits)
next
  case (Some r)
  then have "r \<in> set rows" "claimable_hook now r" using first_by_Some [OF Some] by auto
  then show ?thesis using assms Some by (auto simp: ClaimWebhook_def split: if_splits option.splits)
qed

lemma recover_rows:
  assumes "RecoverWebhookLeases now limit rows = Inr (rows', n)" and "inbox_ok rows"
  obtains p where "rows' = update_where p (recover_hook now) rows" "\<And>x. x \<in> set rows \<Longrightarrow> p x \<Longrightarrow> expired_hook now x"
proof -
  define chosen where "chosen = map wh_id (take (nat limit) (sort_key hook_recovery_key (filter (expired_hook now) rows)))"
  have "rows' = update_where (\<lambda>r. wh_id r \<in> set chosen) (recover_hook now) rows"
    using assms(1) by (auto simp: RecoverWebhookLeases_def Let_def chosen_def split: if_splits)
  moreover have "expired_hook now x" if x: "x \<in> set rows" "wh_id x \<in> set chosen" for x
  proof -
    obtain y where "y \<in> set rows" "expired_hook now y" "wh_id x = wh_id y"
      using x(2) unfolding chosen_def by (auto dest!: in_set_takeD)
    then show ?thesis using same_delivery [OF assms(2) x(1)] by blast
  qed
  ultimately show ?thesis using that by blast
qed

lemma finalize_rows:
  assumes "FinalizeWebhook now request rows = Inr rows'"
  obtains status where "final_hook_status (fn_State request) = Some status"
    "rows' = update_where (\<lambda>r. hook_lease (fn_ID request) (fn_LeaseID request) r \<and> hook_lease_live now r)
      (finalize_hook now request status) rows"
    "affected (\<lambda>r. hook_lease (fn_ID request) (fn_LeaseID request) r \<and> hook_lease_live now r) rows = 1"
  using assms by (auto simp: FinalizeWebhook_def Let_def split: if_splits option.splits)

lemma settle_rows:
  assumes "settleDelivery now ident lease repository run code summary rows = Inr rows'"
  shows "affected (hook_lease ident lease) rows = 1"
    "rows' = update_where (hook_lease ident lease) (settle_hook now repository run code summary) rows"
  using assms by (auto simp: settleDelivery_def split: if_splits)

lemma inbox_update_ok:
  assumes "inbox_ok rows" and "\<And>r. wh_id (f r) = wh_id r" and "\<And>r. wh_key (f r) = wh_key r"
    and "\<And>r. r \<in> set rows \<Longrightarrow> p r \<Longrightarrow> hook_row_ok r \<Longrightarrow> hook_row_ok (f r)"
  shows "inbox_ok (update_where p f rows)"
proof -
  have "list_all hook_row_ok (update_where p f rows)"
    using assms(1,4) by (auto simp: inbox_ok_def list_all_iff set_update_where)
  then show ?thesis using assms(1-3) by (simp add: inbox_ok_def)
qed

lemma hook_step_ok:
  assumes "inbox_ok rows" and "hook_step codec rows rows'"
  shows "inbox_ok rows'"
  using assms(2)
proof (cases rule: hook_step.cases)
  case (receive newID d event answer)
  then show ?thesis
    using receive_rows [OF receive] assms(1) by (auto simp: inbox_ok_def new_delivery_def hook_row_ok_def)
next
  case (claim leaseID now leaseDuration item)
  show ?thesis
  proof (cases "rows' = rows")
    case False
    then obtain r where r: "r \<in> set rows" "claimable_hook now r"
      "rows' = update_where (\<lambda>x. wh_id x = wh_id r) (claim_hook leaseID (now + leaseDuration)) rows"
      using claim_rows [OF claim] by blast
    show ?thesis unfolding r(3)
    proof (rule inbox_update_ok [OF assms(1)])
      fix x
      assume x: "x \<in> set rows" "wh_id x = wh_id r" "hook_row_ok x"
      then have "x = r" using same_delivery [OF assms(1) _ r(1)] by blast
      then show "hook_row_ok (claim_hook leaseID (now + leaseDuration) x)"
        using r(2) x(3) by (auto simp: hook_row_ok_def claim_hook_def claimable_hook_def)
    qed simp_all
  qed (use assms(1) in simp)
next
  case (finalize now request)
  then show ?thesis
  proof (rule finalize_rows)
    fix status
    assume s: "final_hook_status (fn_State request) = Some status"
      "rows' = update_where (\<lambda>r. hook_lease (fn_ID request) (fn_LeaseID request) r \<and> hook_lease_live now r)
        (finalize_hook now request status) rows"
    show ?thesis unfolding s(2)
      by (rule inbox_update_ok [OF assms(1)])
        (use s(1) in \<open>auto simp: hook_row_ok_def finalize_hook_def final_hook_status_def hook_lease_def Let_def split: FinalState.splits\<close>)
  qed
next
  case (recover now limit n)
  then obtain p where p: "rows' = update_where p (recover_hook now) rows" "\<And>x. x \<in> set rows \<Longrightarrow> p x \<Longrightarrow> expired_hook now x"
    using recover_rows [OF recover assms(1)] by metis
  show ?thesis unfolding p(1)
    by (rule inbox_update_ok [OF assms(1)]) (use p(2) in \<open>auto simp: hook_row_ok_def recover_hook_def expired_hook_def Let_def\<close>)
next
  case (settle now ident lease repository run code summary)
  show ?thesis unfolding settle_rows(2) [OF settle]
    by (rule inbox_update_ok [OF assms(1)]) (auto simp: hook_row_ok_def settle_hook_def hook_lease_def)
qed

lemma hook_step_phase:
  assumes "inbox_ok rows" and "hook_step codec rows rows'"
  shows "phase_step (hook_phase rows i) (hook_phase rows' i)"
  using assms(2)
proof (cases rule: hook_step.cases)
  case (receive newID d event answer)
  have "hook_row_phase (new_delivery newID d) = Ready" by (simp add: hook_row_phase_def new_delivery_def)
  then show ?thesis
    using receive_rows [OF receive] table_phase_insert [of hook_row_phase "new_delivery newID d"] by (auto simp: phase_step.stay)
next
  case (claim leaseID now leaseDuration item)
  show ?thesis
  proof (cases "rows' = rows")
    case False
    then obtain r where r: "r \<in> set rows" "claimable_hook now r"
      "rows' = update_where (\<lambda>x. wh_id x = wh_id r) (claim_hook leaseID (now + leaseDuration)) rows"
      using claim_rows [OF claim] by blast
    show ?thesis unfolding r(3)
    proof (rule table_phase_update)
      fix x
      assume "x \<in> set rows" "wh_id x = wh_id r"
      then have "x = r" using same_delivery [OF assms(1) _ r(1)] by blast
      then show "phase_step (hook_row_phase x) (hook_row_phase (claim_hook leaseID (now + leaseDuration) x))"
        using r(2) by (auto simp: claim_hook_def claimable_hook_def hook_row_phase_def phase_step.claim)
    qed simp
  qed (simp add: phase_step.stay)
next
  case (finalize now request)
  then show ?thesis
  proof (rule finalize_rows)
    fix status
    assume s: "final_hook_status (fn_State request) = Some status"
      "rows' = update_where (\<lambda>r. hook_lease (fn_ID request) (fn_LeaseID request) r \<and> hook_lease_live now r)
        (finalize_hook now request status) rows"
    show ?thesis unfolding s(2)
      by (rule table_phase_update)
        (use s(1) in \<open>auto simp: finalize_hook_def final_hook_status_def hook_lease_def hook_row_phase_def Let_def
          intro: phase_step.intros split: FinalState.splits option.splits\<close>)
  qed
next
  case (recover now limit n)
  then obtain p where p: "rows' = update_where p (recover_hook now) rows" "\<And>x. x \<in> set rows \<Longrightarrow> p x \<Longrightarrow> expired_hook now x"
    using recover_rows [OF recover assms(1)] by metis
  show ?thesis unfolding p(1)
    by (rule table_phase_update)
      (use p(2) in \<open>fastforce simp: recover_hook_def expired_hook_def hook_row_phase_def Let_def
        intro: phase_step.intros split: option.splits\<close>)+
next
  case (settle now ident lease repository run code summary)
  show ?thesis unfolding settle_rows(2) [OF settle]
    by (rule table_phase_update)
      (auto simp: settle_hook_def hook_lease_def hook_row_phase_def intro: phase_step.intros split: option.splits)
qed

interpretation hooks: leased_queue hook_phase inbox_ok "[]" "hook_step codec" for codec
proof
  show "hook_phase [] i = Absent" for i by simp
  show "inbox_ok []" by (simp add: inbox_ok_def)
  show "inbox_ok t" if "inbox_ok s" "hook_step codec s t" for s t using that by (rule hook_step_ok)
  show "phase_step (hook_phase s i) (hook_phase t i)" if "inbox_ok s" "hook_step codec s t" for s t i
    using that by (rule hook_step_phase)
qed

end
