(* ===== verification/Login_Store.thy ===== *)
theory Login_Store
  imports Identity_Store Provider_Identity
begin

text \<open>
  Signing in with a provider and configuring the provider: \<open>oauth.go\<close> and \<open>provisioning.go\<close> of
  \<open>src/internal/store/postgres\<close>. The first administrator is made by a login of the bootstrap subject, either configured
  by the operator or verified through a setup session; login configurations are candidates until a login with them
  succeeds. The encrypted client secret is kept as the JSON text of its envelope, and \<open>le_envelope\<close> says which texts
  decode. Each transaction is atomic with one reading of the clock.
\<close>

section \<open>The tables\<close>

record login_config =
  lc_id :: uuid
  lc_provider :: string
  lc_instance :: string
  lc_client :: string
  lc_secret :: bytes
  lc_subject :: string
  lc_status :: string
  lc_created :: gotime
  lc_expires :: gotime
  lc_expected :: "uuid option"
  lc_created_by :: "uuid option"
  lc_setup :: "bytes option"

record external_identity =
  xi_id :: uuid
  xi_user :: uuid
  xi_provider :: string
  xi_instance :: string
  xi_external :: string
  xi_login :: string

record oauth_flow =
  fw_state :: bytes
  fw_browser :: bytes
  fw_link :: "uuid option"
  fw_completion :: "bytes option"
  fw_expires :: gotime
  fw_config :: "uuid option"
  fw_verify :: "uuid option"
  fw_setup :: "bytes option"

record oauth_bootstrap =
  bt_provider :: string
  bt_instance :: string
  bt_subject :: string
  bt_consumed :: "gotime option"
  bt_user :: "uuid option"

record auth_setup =
  au_code :: "bytes option"
  au_code_expires :: "gotime option"
  au_session :: "bytes option"
  au_session_expires :: "gotime option"
  au_finished :: "gotime option"
  au_master :: "bytes option"

record login_db =
  lg_identity :: identity_db
  lg_identities :: "external_identity list"
  lg_configs :: "login_config list"
  lg_flows :: "oauth_flow list"
  lg_bootstrap :: "oauth_bootstrap option"
  lg_setup :: auth_setup

record login_env =
  le_String :: "uuid \<Rightarrow> string"
  le_sha :: "bytes \<Rightarrow> bytes"
  le_envelope :: "bytes \<Rightarrow> bool"

datatype login_error =
    LoginFlow | LoginConflict | LoginBootstrap | LoginCapacity | SetupInvalid | ConfigInvalid | ConfigConflict
  | LoginAccess access_error | LoginDatabase

definition login_digest :: "login_env \<Rightarrow> login_error \<Rightarrow> string \<Rightarrow> login_error + bytes" where
  "login_digest env err token = (case TokenDigest (le_sha env) token of None \<Rightarrow> Inl err | Some d \<Rightarrow> Inr d)"

definition login_audit :: "AuditEvent \<Rightarrow> login_db \<Rightarrow> login_db" where
  "login_audit event db = db\<lparr>lg_identity := (lg_identity db)\<lparr>db_audit := db_audit (lg_identity db) @ [event]\<rparr>\<rparr>"

definition login_session :: "login_env \<Rightarrow> gotime \<Rightarrow> string \<Rightarrow> login_db \<Rightarrow> login_error + Session" where
  "login_session env now token db =
     (case authenticateSession (le_sha env) now token (lg_identity db) of Inl e \<Rightarrow> Inl (LoginAccess e) | Inr s \<Rightarrow> Inr s)"

section \<open>Flows\<close>

definition FlowTTL :: duration where "FlowTTL = 5 * Minute"
definition DefaultTTL :: duration where "DefaultTTL = 8 * Hour"

definition flowLive :: "gotime \<Rightarrow> gotime \<Rightarrow> bool" where
  "flowLive now expiry \<longleftrightarrow> expiry > now"

definition recentSession :: "gotime \<Rightarrow> uuid \<Rightarrow> login_db \<Rightarrow> login_error option" where
  "recentSession now ident db =
     (case List.find (\<lambda>s. ss_id s = ident) (db_sessions (lg_identity db)) of
        None \<Rightarrow> Some LoginDatabase
      | Some s \<Rightarrow> if ss_created s > now - 10 * Minute then None else Some (LoginAccess ErrUnauthenticated))"

definition instance_admin :: "identity_db \<Rightarrow> bool" where
  "instance_admin db \<longleftrightarrow> list_ex (\<lambda>m. sc_Kind (mb_scope m) = Instance \<and> mb_role m = Admin) (db_memberships db)"

definition ConfigureGitHubBootstrap :: "string \<Rightarrow> login_db \<Rightarrow> login_error + login_db" where
  "ConfigureGitHubBootstrap subject db =
     (if \<not> ValidGitHubSubject subject then Inl LoginBootstrap
      else
        (case lg_bootstrap db of
           Some b \<Rightarrow> if bt_subject b \<noteq> subject then Inl LoginBootstrap else Inr db
         | None \<Rightarrow>
             if instance_admin (lg_identity db) then Inl LoginBootstrap
             else Inr (db\<lparr>lg_bootstrap := Some \<lparr>bt_provider = ''github'', bt_instance = GitHubInstance, bt_subject = subject,
                                                bt_consumed = None, bt_user = None\<rparr>\<rparr>)))"

text \<open>The session that a flow links to the identity, if the user asked for that.\<close>

definition link_session :: "login_env \<Rightarrow> gotime \<Rightarrow> string \<Rightarrow> login_db \<Rightarrow> login_error + uuid option" where
  "link_session env now linkToken db =
     (if linkToken = [] then Inr None
      else
        and_then (login_session env now linkToken db) (\<lambda>session.
          case recentSession now (se_ID session) db of Some e \<Rightarrow> Inl e | None \<Rightarrow> Inr (Some (se_ID session))))"

definition insert_flow :: "gotime \<Rightarrow> bytes \<Rightarrow> bytes \<Rightarrow> uuid option \<Rightarrow> uuid option \<Rightarrow> uuid option \<Rightarrow> bytes option \<Rightarrow> login_db \<Rightarrow> login_error + login_db" where
  "insert_flow now state browser link config verify setup db =
     (let flows = filter (\<lambda>f. fw_expires f > now) (lg_flows db) in
      if int (length flows) \<ge> 1000 then Inl LoginCapacity
      else if list_ex (\<lambda>f. fw_state f = state) flows \<or> length state \<noteq> 32 \<or> length browser \<noteq> 32 then Inl LoginDatabase
      else Inr (db\<lparr>lg_flows := flows @ [\<lparr>fw_state = state, fw_browser = browser, fw_link = link, fw_completion = None,
             fw_expires = now + FlowTTL, fw_config = config, fw_verify = verify, fw_setup = setup\<rparr>]\<rparr>))"

definition BeginOAuth :: "login_env \<Rightarrow> gotime \<Rightarrow> string \<Rightarrow> string \<Rightarrow> string \<Rightarrow> login_db \<Rightarrow> login_error + login_db" where
  "BeginOAuth env now state nonce linkToken db =
     and_then (login_digest env LoginFlow state) (\<lambda>stateHash.
     and_then (login_digest env LoginFlow nonce) (\<lambda>browserHash.
     and_then (link_session env now linkToken db) (\<lambda>link.
     insert_flow now stateHash browserHash link None None None db)))"

text \<open>The ticket is drawn at random; its digest replaces the state as the key of the flow.\<close>

definition consumable :: "gotime \<Rightarrow> bytes \<Rightarrow> bytes \<Rightarrow> oauth_flow \<Rightarrow> bool" where
  "consumable now state browser f \<longleftrightarrow>
     fw_state f = state \<and> fw_browser f = browser \<and> fw_completion f = None \<and> fw_expires f > now"

definition ConsumeOAuth :: "login_env \<Rightarrow> bytes \<Rightarrow> gotime \<Rightarrow> string \<Rightarrow> string \<Rightarrow> login_db \<Rightarrow> login_error + login_db \<times> string" where
  "ConsumeOAuth env random now state nonce db =
     and_then (login_digest env LoginFlow state) (\<lambda>stateHash.
     and_then (login_digest env LoginFlow nonce) (\<lambda>browserHash.
       let ticket = NewToken random;
           ticketHash = (case TokenDigest (le_sha env) ticket of None \<Rightarrow> replicate 32 (CHR 0x00) | Some d \<Rightarrow> d) in
       case List.find (consumable now stateHash browserHash) (lg_flows db) of
         None \<Rightarrow> Inl LoginFlow
       | Some f \<Rightarrow>
           if list_ex (\<lambda>g. fw_completion g = Some ticketHash) (lg_flows db) \<or> length ticketHash \<noteq> 32 then Inl LoginDatabase
           else if \<not> flowLive now (fw_expires f) then Inl LoginFlow
           else Inr (db\<lparr>lg_flows := update_where (consumable now stateHash browserHash)
                         (\<lambda>f. f\<lparr>fw_completion := Some ticketHash\<rparr>) (lg_flows db)\<rparr>, ticket)))"

section \<open>Setup codes and the master key\<close>

definition CodeTTL :: duration where "CodeTTL = 15 * Minute"
definition SetupTTL :: duration where "SetupTTL = 30 * Minute"

definition BindManagedMasterKey :: "login_env \<Rightarrow> bytes \<Rightarrow> login_db \<Rightarrow> login_error + login_db" where
  "BindManagedMasterKey env key db =
     (if length key \<noteq> 32 then Inl ConfigInvalid
      else
        (let digest = le_sha env key; existing = au_master (lg_setup db) in
         if existing \<noteq> None \<and> existing \<noteq> Some [] \<and> existing \<noteq> Some digest then Inl ConfigInvalid
         else if length digest \<noteq> 32 then Inl LoginDatabase
         else Inr (db\<lparr>lg_setup := (lg_setup db)\<lparr>au_master := Some digest\<rparr>\<rparr>)))"

record provisioning_Status =
  pst_Provider :: string
  pst_Initialized :: bool
  pst_Configured :: bool

definition ProvisioningStatus :: "login_db \<Rightarrow> provisioning_Status" where
  "ProvisioningStatus db =
     (let active = List.find (\<lambda>c. lc_status c = ''active'') (lg_configs db) in
      \<lparr>pst_Provider = (case active of None \<Rightarrow> [] | Some c \<Rightarrow> lc_provider c),
       pst_Initialized = (case lg_bootstrap db of None \<Rightarrow> False | Some b \<Rightarrow> bt_consumed b \<noteq> None),
       pst_Configured = (active \<noteq> None)\<rparr>)"

definition setupAudit :: "string \<Rightarrow> login_db \<Rightarrow> login_db" where
  "setupAudit action = login_audit \<lparr>ae_actor_user_id = None, ae_action = action, ae_resource_type = ''auth_setup'',
     ae_resource_id = ''singleton'', ae_metadata = []\<rparr>"

definition retire_where :: "(login_config \<Rightarrow> bool) \<Rightarrow> login_db \<Rightarrow> login_db" where
  "retire_where p db = db\<lparr>lg_configs := update_where p (\<lambda>c. c\<lparr>lc_status := ''retired''\<rparr>) (lg_configs db)\<rparr>"

definition IssueSetupCode :: "login_env \<Rightarrow> gotime \<Rightarrow> string \<Rightarrow> login_db \<Rightarrow> login_error + login_db" where
  "IssueSetupCode env now code db =
     and_then (login_digest env SetupInvalid code) (\<lambda>digest.
       if au_finished (lg_setup db) \<noteq> None \<or> lg_bootstrap db \<noteq> None \<or> instance_admin (lg_identity db) then Inl SetupInvalid
       else if length digest \<noteq> 32 then Inl LoginDatabase
       else Inr (setupAudit ''setup.code_issued'' (retire_where (\<lambda>c. lc_setup c \<noteq> None \<and> lc_status c = ''candidate'')
              (db\<lparr>lg_setup := (lg_setup db)\<lparr>au_code := Some digest, au_code_expires := Some (now + CodeTTL),
                                           au_session := None, au_session_expires := None\<rparr>\<rparr>))))"

definition unexpired :: "gotime \<Rightarrow> gotime option \<Rightarrow> bool" where
  "unexpired now t \<longleftrightarrow> (case t of None \<Rightarrow> False | Some e \<Rightarrow> e > now)"

definition ExchangeSetupCode :: "login_env \<Rightarrow> gotime \<Rightarrow> string \<Rightarrow> string \<Rightarrow> login_db \<Rightarrow> login_error + login_db" where
  "ExchangeSetupCode env now code token db =
     and_then (login_digest env SetupInvalid code) (\<lambda>digest.
     and_then (login_digest env SetupInvalid token) (\<lambda>tokenHash.
       let a = lg_setup db in
       if au_code a = Some digest \<and> unexpired now (au_code_expires a) \<and> au_finished a = None \<and> lg_bootstrap db = None
       then if length tokenHash \<noteq> 32 then Inl LoginDatabase
            else Inr (setupAudit ''setup.code_redeemed'' (db\<lparr>lg_setup := a\<lparr>au_code := None, au_code_expires := None,
                   au_session := Some tokenHash, au_session_expires := Some (now + SetupTTL)\<rparr>\<rparr>))
       else Inl SetupInvalid))"

section \<open>Who may change the login settings\<close>

record provisioning_Access =
  pa_SessionToken :: string
  pa_SetupToken :: string

text \<open>An administrator, or the holder of the setup session before there is one.\<close>

record settingsActor =
  sa_session :: "Session option"
  sa_setup :: "bytes option"

definition admin_session :: "login_env \<Rightarrow> gotime \<Rightarrow> string \<Rightarrow> bool \<Rightarrow> login_db \<Rightarrow> login_error + Session" where
  "admin_session env now token recent db =
     and_then (login_session env now token db) (\<lambda>session.
       case db_instance (lg_identity db) of
         None \<Rightarrow> Inl LoginDatabase
       | Some inst \<Rightarrow>
           (case authorize session \<lparr>sc_Kind = Instance, sc_ID = inst\<rparr> InstanceManage (lg_identity db) of
              Some e \<Rightarrow> Inl (LoginAccess e)
            | None \<Rightarrow>
                (case (if recent then recentSession now (se_ID session) db else None) of
                   Some e \<Rightarrow> Inl e
                 | None \<Rightarrow> if sessionLive now session then Inr session else Inl (LoginAccess ErrUnauthenticated))))"

definition settingsAccess :: "login_env \<Rightarrow> gotime \<Rightarrow> provisioning_Access \<Rightarrow> bool \<Rightarrow> login_db \<Rightarrow> login_error + settingsActor" where
  "settingsAccess env now access recent db =
     (if (pa_SessionToken access = []) = (pa_SetupToken access = []) then Inl (LoginAccess ErrUnauthenticated)
      else if pa_SessionToken access \<noteq> []
      then and_then (admin_session env now (pa_SessionToken access) recent db) (\<lambda>session.
             Inr \<lparr>sa_session = Some session, sa_setup = None\<rparr>)
      else
        and_then (login_digest env SetupInvalid (pa_SetupToken access)) (\<lambda>digest.
          let a = lg_setup db in
          if au_session a = Some digest \<and> au_finished a = None \<and>
             \<not> (case lg_bootstrap db of None \<Rightarrow> False | Some b \<Rightarrow> bt_consumed b \<noteq> None) \<and> unexpired now (au_session_expires a)
          then Inr \<lparr>sa_session = None, sa_setup = Some digest\<rparr> else Inl SetupInvalid))"

definition actorOwner :: "settingsActor \<Rightarrow> uuid option" where
  "actorOwner actor =
     (case sa_session actor of None \<Rightarrow> None | Some s \<Rightarrow> if se_UserID s = uuid_Nil then None else Some (se_UserID s))"

text \<open>Comparisons of SQL: \<open>NULL\<close> on one side gives \<open>NULL\<close>, and \<open>OR\<close> is \<open>NULL\<close> unless one side is true or both are false.\<close>

definition sql_eq :: "'a option \<Rightarrow> 'a option \<Rightarrow> bool option" where
  "sql_eq x y = (case (x, y) of (Some u, Some v) \<Rightarrow> Some (u = v) | _ \<Rightarrow> None)"

definition sql_or :: "bool option \<Rightarrow> bool option \<Rightarrow> bool option" where
  "sql_or x y = (if x = Some True \<or> y = Some True then Some True else if x = None \<or> y = None then None else Some False)"

definition owns :: "settingsActor \<Rightarrow> login_config \<Rightarrow> bool option" where
  "owns actor c = sql_or (sql_eq (lc_created_by c) (actorOwner actor)) (sql_eq (lc_setup c) (sa_setup actor))"

abbreviation owned_by :: "settingsActor \<Rightarrow> login_config \<Rightarrow> bool" where
  "owned_by actor c \<equiv> owns actor c = Some True"

section \<open>Login configurations\<close>

record provisioning_Config =
  cf_ID :: uuid
  cf_Provider :: string
  cf_Instance :: string
  cf_ClientID :: string
  cf_BootstrapSubject :: string
  cf_Status :: string
  cf_CreatedAt :: gotime
  cf_ExpiresAt :: gotime
  cf_Encrypted :: bytes
  cf_ExpectedActive :: "uuid option"

definition configRow :: "login_env \<Rightarrow> login_config option \<Rightarrow> login_error + provisioning_Config" where
  "configRow env row =
     (case row of
        None \<Rightarrow> Inl ConfigConflict
      | Some c \<Rightarrow>
          if \<not> le_envelope env (lc_secret c) then Inl ConfigInvalid
          else Inr \<lparr>cf_ID = lc_id c, cf_Provider = lc_provider c, cf_Instance = lc_instance c, cf_ClientID = lc_client c,
                    cf_BootstrapSubject = lc_subject c, cf_Status = lc_status c, cf_CreatedAt = lc_created c,
                    cf_ExpiresAt = lc_expires c, cf_Encrypted = lc_secret c, cf_ExpectedActive = lc_expected c\<rparr>)"

definition active_config :: "login_db \<Rightarrow> login_config option" where
  "active_config db = List.find (\<lambda>c. lc_status c = ''active'') (lg_configs db)"

definition activeID :: "login_db \<Rightarrow> uuid option" where
  "activeID db = map_option lc_id (active_config db)"

definition config_of :: "uuid \<Rightarrow> login_db \<Rightarrow> login_config option" where
  "config_of ident db = List.find (\<lambda>c. lc_id c = ident) (lg_configs db)"

text \<open>The youngest live candidate of the actor.\<close>

definition candidate_of :: "gotime \<Rightarrow> settingsActor \<Rightarrow> login_db \<Rightarrow> login_config option" where
  "candidate_of now actor db =
     (case sort_key (\<lambda>c. - lc_created c)
             (filter (\<lambda>c. lc_status c = ''candidate'' \<and> lc_expires c > now \<and> owned_by actor c) (lg_configs db)) of
        [] \<Rightarrow> None
      | c # _ \<Rightarrow> Some c)"

definition optional_config :: "login_error + provisioning_Config \<Rightarrow> login_error + provisioning_Config option" where
  "optional_config r = (case r of Inl e \<Rightarrow> if e = ConfigConflict then Inr None else Inl e | Inr c \<Rightarrow> Inr (Some c))"

definition LoginSettings :: "login_env \<Rightarrow> gotime \<Rightarrow> provisioning_Access \<Rightarrow> login_db
    \<Rightarrow> login_error + provisioning_Config option \<times> provisioning_Config option" where
  "LoginSettings env now access db =
     and_then (settingsAccess env now access False db) (\<lambda>actor.
     and_then (optional_config (configRow env (active_config db))) (\<lambda>active.
     and_then (optional_config (configRow env (candidate_of now actor db))) (\<lambda>candidate.
     Inr (active, candidate))))"

definition with_defaults :: "provisioning_Config \<Rightarrow> provisioning_Config" where
  "with_defaults c =
     (if cf_Provider c = [] \<and> cf_Instance c = [] then c\<lparr>cf_Provider := ''github'', cf_Instance := GitHubInstance\<rparr> else c)"

text \<open>An administrator cannot change whose login made the first administrator.\<close>

definition bootstrap_kept :: "settingsActor \<Rightarrow> provisioning_Config \<Rightarrow> login_db \<Rightarrow> login_error option" where
  "bootstrap_kept actor config db =
     (if actorOwner actor = None then None
      else
        (case lg_bootstrap db of
           None \<Rightarrow> Some ConfigConflict
         | Some b \<Rightarrow>
             if bt_consumed b = None then Some ConfigConflict
             else if cf_Provider config \<noteq> bt_provider b \<or> cf_Instance config \<noteq> bt_instance b \<or> cf_BootstrapSubject config \<noteq> bt_subject b
             then Some ConfigInvalid else None))"

definition new_candidate :: "gotime \<Rightarrow> settingsActor \<Rightarrow> provisioning_Config \<Rightarrow> login_config" where
  "new_candidate now actor config =
     \<lparr>lc_id = cf_ID config, lc_provider = cf_Provider config, lc_instance = cf_Instance config, lc_client = cf_ClientID config,
      lc_secret = cf_Encrypted config, lc_subject = cf_BootstrapSubject config, lc_status = ''candidate'', lc_created = now,
      lc_expires = now + 30 * Minute, lc_expected = cf_ExpectedActive config, lc_created_by = actorOwner actor,
      lc_setup = sa_setup actor\<rparr>"

definition SaveLoginCandidate :: "login_env \<Rightarrow> gotime \<Rightarrow> provisioning_Access \<Rightarrow> provisioning_Config \<Rightarrow> login_db \<Rightarrow> login_error + login_db" where
  "SaveLoginCandidate env now access config0 db =
     (let config = with_defaults config0 in
      if cf_ID config = uuid_Nil \<or> \<not> ValidProviderInstance (cf_Provider config) (cf_Instance config) \<or>
         \<not> ValidGitHubSubject (cf_BootstrapSubject config)
      then Inl ConfigInvalid
      else
        and_then (settingsAccess env now access True db) (\<lambda>actor.
          if activeID db \<noteq> cf_ExpectedActive config then Inl ConfigConflict
          else
            (case bootstrap_kept actor config db of
               Some e \<Rightarrow> Inl e
             | None \<Rightarrow>
                 (let db1 = retire_where (\<lambda>c. lc_status c = ''candidate'' \<and> (lc_expires c \<le> now \<or> owned_by actor c)) db in
                  if length (filter (\<lambda>c. lc_status c = ''candidate'') (lg_configs db1)) \<ge> 100 then Inl LoginCapacity
                  else if list_ex (\<lambda>c. lc_id c = cf_ID config) (lg_configs db1) \<or>
                          (actorOwner actor \<noteq> None) = (sa_setup actor \<noteq> None) then Inl LoginDatabase
                  else Inr (login_audit \<lparr>ae_actor_user_id = actorOwner actor, ae_action = ''login_config.candidate_saved'',
                              ae_resource_type = ''login_config'', ae_resource_id = le_String env (cf_ID config), ae_metadata = []\<rparr>
                         (db1\<lparr>lg_configs := lg_configs db1 @ [new_candidate now actor config]\<rparr>))))))"

definition checkCandidate :: "gotime \<Rightarrow> provisioning_Config \<Rightarrow> settingsActor \<Rightarrow> login_db \<Rightarrow> login_error option" where
  "checkCandidate now config actor db =
     (if cf_Status config \<noteq> ''candidate'' then Some ConfigConflict
      else if \<not> flowLive now (cf_ExpiresAt config) then Some ConfigConflict
      else if activeID db \<noteq> cf_ExpectedActive config then Some ConfigConflict
      else
        (case config_of (cf_ID config) db of
           None \<Rightarrow> Some ConfigConflict
         | Some c \<Rightarrow>
             (case owns actor c of
                None \<Rightarrow> Some ConfigConflict
              | Some True \<Rightarrow> None
              | Some False \<Rightarrow> Some (LoginAccess ErrForbidden))))"

definition BeginManagedOAuth :: "login_env \<Rightarrow> gotime \<Rightarrow> string \<Rightarrow> string \<Rightarrow> string \<Rightarrow> uuid \<Rightarrow> provisioning_Access \<Rightarrow> login_db
    \<Rightarrow> login_error + login_db \<times> provisioning_Config" where
  "BeginManagedOAuth env now state nonce linkToken candidate access db =
     and_then (login_digest env LoginFlow state) (\<lambda>stateHash.
     and_then (login_digest env LoginFlow nonce) (\<lambda>browserHash.
     if candidate \<noteq> uuid_Nil
     then
       and_then (settingsAccess env now access True db) (\<lambda>actor.
       and_then (configRow env (config_of candidate db)) (\<lambda>config.
         case checkCandidate now config actor db of
           Some e \<Rightarrow> Inl e
         | None \<Rightarrow>
             and_then (insert_flow now stateHash browserHash None (Some (cf_ID config))
                 (case sa_session actor of None \<Rightarrow> None | Some s \<Rightarrow> if se_ID s = uuid_Nil then None else Some (se_ID s))
                 (sa_setup actor) db) (\<lambda>db1. Inr (db1, config))))
     else
       and_then (configRow env (active_config db)) (\<lambda>config.
       and_then (link_session env now linkToken db) (\<lambda>link.
       and_then (insert_flow now stateHash browserHash link (Some (cf_ID config)) None None db) (\<lambda>db1. Inr (db1, config))))))"

definition ManagedFlowConfig :: "login_env \<Rightarrow> gotime \<Rightarrow> string \<Rightarrow> login_db \<Rightarrow> login_error + provisioning_Config" where
  "ManagedFlowConfig env now ticket db =
     and_then (login_digest env LoginFlow ticket) (\<lambda>digest.
       configRow env
         (case List.find (\<lambda>f. fw_completion f = Some digest \<and> fw_expires f > now) (lg_flows db) of
            None \<Rightarrow> None
          | Some f \<Rightarrow> (case fw_config f of None \<Rightarrow> None | Some c \<Rightarrow> config_of c db)))"

section \<open>Finishing a login\<close>

definition bound_user :: "ExternalUser \<Rightarrow> login_db \<Rightarrow> uuid option" where
  "bound_user user db =
     map_option xi_user (List.find (\<lambda>x. xi_provider x = xu_Provider user \<and> xi_instance x = xu_Instance user \<and>
       xi_external x = xu_Subject user) (lg_identities db))"

text \<open>
  The checks of the configuration that the flow was started with. The result is the configuration to activate, if the
  login verifies a candidate, and the user who asked for it (\<open>uuid_Nil\<close> for the setup session).
\<close>

definition prepareManagedCompletion :: "login_env \<Rightarrow> gotime \<Rightarrow> oauth_flow \<Rightarrow> ExternalUser \<Rightarrow> string \<Rightarrow> string \<Rightarrow> login_db
    \<Rightarrow> login_error + login_db \<times> provisioning_Config option \<times> uuid" where
  "prepareManagedCompletion env now flow user currentToken setupToken db =
     (case fw_config flow of
        None \<Rightarrow> Inr (db, None, uuid_Nil)
      | Some configID \<Rightarrow>
          and_then (configRow env (config_of configID db)) (\<lambda>config.
            if fw_verify flow = None \<and> (fw_setup flow = None \<or> fw_setup flow = Some [])
            then if xu_Provider user \<noteq> cf_Provider config \<or> xu_Instance user \<noteq> cf_Instance config then Inl (LoginAccess ErrForbidden)
                 else if cf_Status config \<noteq> ''active'' then Inl ConfigConflict
                 else Inr (db, None, uuid_Nil)
            else
              and_then (settingsAccess env now
                  (if fw_verify flow \<noteq> None then \<lparr>pa_SessionToken = currentToken, pa_SetupToken = []\<rparr>
                   else \<lparr>pa_SessionToken = [], pa_SetupToken = setupToken\<rparr>) True db) (\<lambda>actor.
                if fw_verify flow \<noteq> None \<and> map_option se_ID (sa_session actor) \<noteq> fw_verify flow then Inl (LoginAccess ErrUnauthenticated)
                else if fw_setup flow \<noteq> None \<and> fw_setup flow \<noteq> Some [] \<and> sa_setup actor \<noteq> fw_setup flow then Inl SetupInvalid
                else
                  (case checkCandidate now config actor db of
                     Some e \<Rightarrow> Inl e
                   | None \<Rightarrow>
                       if xu_Provider user \<noteq> cf_Provider config \<or> xu_Instance user \<noteq> cf_Instance config then Inl (LoginAccess ErrForbidden)
                       else if fw_verify flow = None
                       then if xu_Subject user \<noteq> cf_BootstrapSubject config then Inl (LoginAccess ErrForbidden)
                            else if lg_bootstrap db \<noteq> None then Inl ConfigConflict
                            else Inr (db\<lparr>lg_bootstrap := Some \<lparr>bt_provider = cf_Provider config, bt_instance = cf_Instance config,
                                   bt_subject = cf_BootstrapSubject config, bt_consumed = None, bt_user = None\<rparr>\<rparr>, Some config, uuid_Nil)
                       else
                         (case bound_user user db of
                            None \<Rightarrow> Inl (LoginAccess ErrForbidden)
                          | Some owner \<Rightarrow>
                              if map_option se_UserID (sa_session actor) \<noteq> Some owner then Inl (LoginAccess ErrForbidden)
                              else Inr (db, Some config, owner))))))"

definition activateLoginConfig :: "login_env \<Rightarrow> gotime \<Rightarrow> provisioning_Config \<Rightarrow> uuid \<Rightarrow> login_db \<Rightarrow> login_db" where
  "activateLoginConfig env now config owner db =
     (let db1 = retire_where (\<lambda>c. lc_status c = ''active'') db;
          db2 = db1\<lparr>lg_configs := update_where (\<lambda>c. lc_id c = cf_ID config) (\<lambda>c. c\<lparr>lc_status := ''active''\<rparr>) (lg_configs db1),
                    lg_setup := (lg_setup db1)\<lparr>au_finished := (if au_finished (lg_setup db1) = None then Some now else au_finished (lg_setup db1)),
                                              au_code := None, au_code_expires := None, au_session := None, au_session_expires := None\<rparr>\<rparr>
      in login_audit (appendAudit (le_String env) owner ''login_config.activated'' ''login_config'' (cf_ID config)) db2)"

record login_ids =
  li_user :: uuid
  li_binding :: uuid
  li_member :: uuid
  li_session :: uuid
  li_random :: bytes

definition create_user :: "uuid \<Rightarrow> ExternalUser \<Rightarrow> login_db \<Rightarrow> login_error + login_db" where
  "create_user newID user db =
     (if list_ex (\<lambda>u. us_id u = newID) (db_users (lg_identity db)) then Inl LoginDatabase
      else Inr (db\<lparr>lg_identity := (lg_identity db)\<lparr>db_users := db_users (lg_identity db) @
             [\<lparr>us_id = newID, us_display_name = (if xu_Name user = [] then xu_Login user else xu_Name user), us_active = True\<rparr>]\<rparr>\<rparr>))"

definition bind_identity :: "login_env \<Rightarrow> uuid \<Rightarrow> uuid \<Rightarrow> ExternalUser \<Rightarrow> login_db \<Rightarrow> login_error + login_db" where
  "bind_identity env newID owner user db =
     (if list_ex (\<lambda>x. xi_id x = newID) (lg_identities db) \<or> bound_user user db \<noteq> None then Inl LoginDatabase
      else Inr (login_audit (appendAudit (le_String env) owner ''identity.linked'' ''identity'' newID)
             (db\<lparr>lg_identities := lg_identities db @ [\<lparr>xi_id = newID, xi_user = owner, xi_provider = xu_Provider user,
                xi_instance = xu_Instance user, xi_external = xu_Subject user, xi_login = xu_Login user\<rparr>]\<rparr>)))"

text \<open>The first login of the bootstrap subject makes the administrator of the instance.\<close>

definition make_admin :: "login_env \<Rightarrow> uuid \<Rightarrow> gotime \<Rightarrow> uuid \<Rightarrow> oauth_bootstrap \<Rightarrow> login_db \<Rightarrow> login_error + login_db" where
  "make_admin env newID now owner b db =
     (case db_instance (lg_identity db) of
        None \<Rightarrow> Inl LoginDatabase
      | Some inst \<Rightarrow>
          if instance_admin (lg_identity db) then Inl LoginBootstrap
          else if list_ex (\<lambda>m. mb_id m = newID) (db_memberships (lg_identity db)) then Inl LoginDatabase
          else Inr (login_audit (appendAudit (le_String env) owner ''instance.bootstrapped'' ''instance'' inst)
                 (db\<lparr>lg_identity := (lg_identity db)\<lparr>db_memberships := db_memberships (lg_identity db) @
                       [\<lparr>mb_id = newID, mb_user = owner, mb_role = Admin, mb_scope = \<lparr>sc_Kind = Instance, sc_ID = inst\<rparr>\<rparr>]\<rparr>,
                     lg_bootstrap := Some (b\<lparr>bt_consumed := Some now, bt_user := Some owner\<rparr>)\<rparr>)))"

definition revoke_current :: "login_env \<Rightarrow> gotime \<Rightarrow> string \<Rightarrow> login_db \<Rightarrow> login_db" where
  "revoke_current env now currentToken db =
     (case RevokeSession (le_String env) (le_sha env) now currentToken (lg_identity db) of
        Inl _ \<Rightarrow> db
      | Inr ident \<Rightarrow> db\<lparr>lg_identity := ident\<rparr>)"

text \<open>The user of the flow: the one who links an identity, else the one who verifies a candidate.\<close>

definition linked_owner :: "login_env \<Rightarrow> gotime \<Rightarrow> oauth_flow \<Rightarrow> string \<Rightarrow> uuid \<Rightarrow> login_db \<Rightarrow> login_error + uuid" where
  "linked_owner env now flow currentToken owner db =
     (case fw_link flow of
        None \<Rightarrow> Inr owner
      | Some linkID \<Rightarrow>
          and_then (login_session env now currentToken db) (\<lambda>session.
            if se_ID session \<noteq> linkID then Inl (LoginAccess ErrUnauthenticated)
            else (case recentSession now (se_ID session) db of Some e \<Rightarrow> Inl e | None \<Rightarrow> Inr (se_UserID session))))"

text \<open>From the owner to the new session: the account, its identity and, once, the administrator.\<close>

definition admit_user :: "login_env \<Rightarrow> login_ids \<Rightarrow> gotime \<Rightarrow> ExternalUser \<Rightarrow> uuid \<Rightarrow> bool \<Rightarrow> oauth_bootstrap \<Rightarrow> login_db
    \<Rightarrow> login_error + login_db \<times> uuid" where
  "admit_user env ids now user owner0 newBinding b db =
     (let owner = (if owner0 = uuid_Nil then li_user ids else owner0) in
      and_then (if owner0 = uuid_Nil then create_user owner user db else Inr db) (\<lambda>db1.
        case List.find (\<lambda>u. us_id u = owner) (db_users (lg_identity db1)) of
          None \<Rightarrow> Inl LoginDatabase
        | Some u \<Rightarrow>
            if \<not> us_active u then Inl (LoginAccess ErrUnauthenticated)
            else
              and_then (if newBinding then bind_identity env (li_binding ids) owner user db1 else Inr db1) (\<lambda>db2.
              and_then (if bt_consumed b = None then make_admin env (li_member ids) now owner b db2 else Inr db2) (\<lambda>db3.
              Inr (db3, owner)))))"

definition finishOAuth :: "login_env \<Rightarrow> login_ids \<Rightarrow> gotime \<Rightarrow> string \<Rightarrow> ExternalUser \<Rightarrow> string \<Rightarrow> string \<Rightarrow> login_db
    \<Rightarrow> login_error + login_db \<times> string \<times> Session" where
  "finishOAuth env ids now ticket user currentToken setupToken db =
     (if \<not> ExternalUser_Valid user then Inl (LoginAccess ErrUnauthenticated)
      else
        and_then (login_digest env LoginFlow ticket) (\<lambda>ticketHash.
        let this = (\<lambda>f. fw_completion f = Some ticketHash \<and> fw_expires f > now) in
        case List.find this (lg_flows db) of
          None \<Rightarrow> Inl LoginFlow
        | Some flow \<Rightarrow>
            and_then (prepareManagedCompletion env now flow user currentToken setupToken
                (db\<lparr>lg_flows := filter (\<lambda>f. \<not> this f) (lg_flows db)\<rparr>)) (\<lambda>(db1, activation, owner0).
            and_then (linked_owner env now flow currentToken owner0 db1) (\<lambda>owner1.
            let existing = bound_user user db1 in
            if existing \<noteq> None \<and> owner1 \<noteq> uuid_Nil \<and> Some owner1 \<noteq> existing then Inl LoginConflict
            else
              (case lg_bootstrap db1 of
                 None \<Rightarrow> Inl LoginBootstrap
               | Some b \<Rightarrow>
                   if bt_consumed b = None \<and> (xu_Provider user \<noteq> bt_provider b \<or> xu_Instance user \<noteq> bt_instance b \<or>
                      xu_Subject user \<noteq> bt_subject b)
                   then Inl (LoginAccess ErrForbidden)
                   else
                     and_then (admit_user env ids now user (case existing of None \<Rightarrow> owner1 | Some x \<Rightarrow> x) (existing = None) b db1)
                       (\<lambda>(db2, owner).
                     if \<not> flowLive now (fw_expires flow) then Inl LoginFlow
                     else
                       (case issueSession (le_String env) (le_sha env) (li_random ids) (li_session ids) now owner DefaultTTL (lg_identity db2) of
                          Inl e \<Rightarrow> Inl (LoginAccess e)
                        | Inr (identity, token, session) \<Rightarrow>
                            (let db3 = db2\<lparr>lg_identity := identity\<rparr>;
                                 db4 = (case activation of None \<Rightarrow> db3 | Some config \<Rightarrow> activateLoginConfig env now config owner db3)
                             in Inr (revoke_current env now currentToken db4, token, session)))))))))"

definition FinishOAuth :: "login_env \<Rightarrow> login_ids \<Rightarrow> gotime \<Rightarrow> string \<Rightarrow> ExternalUser \<Rightarrow> string \<Rightarrow> login_db
    \<Rightarrow> login_error + login_db \<times> string \<times> Session" where
  "FinishOAuth env ids now ticket user currentToken db = finishOAuth env ids now ticket user currentToken [] db"

definition FinishManagedOAuth :: "login_env \<Rightarrow> login_ids \<Rightarrow> gotime \<Rightarrow> string \<Rightarrow> ExternalUser \<Rightarrow> string \<Rightarrow> string \<Rightarrow> login_db
    \<Rightarrow> login_error + login_db \<times> string \<times> Session" where
  "FinishManagedOAuth = finishOAuth"

end
