(* ===== verification/Automation_Store.thy ===== *)
theory Automation_Store
  imports Run_Access Project_Automation Webhook_Inbox Login_Store
begin

text \<open>
  The automation settings of a project in PostgreSQL: \<open>project_automation.go\<close> and \<open>gitee_automation.go\<close> of
  \<open>src/internal/store/postgres\<close>. The database of the run store is extended by the webhook inbox and by the tables that
  decide whether the automation of a repository may be switched on: settings, validation proofs, the GitHub App and its
  installations, and the grants and webhooks of Gitee. The codec of the encrypted webhook secret is a parameter.
\<close>

section \<open>The tables\<close>

record github_app =
  ga_id :: uuid
  ga_app_id :: int
  ga_login :: uuid

record github_installation =
  gi_id :: int
  gi_app_id :: int

record gitee_grant =
  gg_id :: uuid
  gg_user :: uuid
  gg_login :: uuid
  gg_subject :: string
  gg_revision :: uuid
  gg_expires :: gotime
  gg_status :: string

record gitee_account =
  gc_account :: string
  gc_organization :: uuid

record gitee_webhook =
  gw_repository :: uuid
  gw_revision :: int
  gw_secret :: bytes

record gitee_validation =
  gv_repository :: uuid
  gv_grant_revision :: uuid
  gv_webhook_revision :: int
  gv_settings_revision :: int
  gv_path :: string
  gv_commit :: string
  gv_config :: string

record pipeline_definition =
  pd_id :: uuid
  pd_repository :: uuid
  pd_name :: string
  pd_path :: string

record pipeline_version_row =
  pv_id :: uuid
  pv_pipeline :: uuid
  pv_sha :: string
  pv_source :: bytes
  pv_plan :: bytes

record ci_db =
  ci_pg :: pg_db
  ci_hooks :: inbox
  ci_settings :: "(uuid \<times> AutomationSettings) list"
  ci_validations :: "(uuid \<times> AutomationValidation) list"
  ci_apps :: "github_app list"
  ci_installations :: "github_installation list"
  ci_logins :: "login_config list"
  ci_identities :: "external_identity list"
  ci_grants :: "gitee_grant list"
  ci_accounts :: "gitee_account list"
  ci_gitee_hooks :: "gitee_webhook list"
  ci_gitee_validations :: "gitee_validation list"
  ci_definitions :: "pipeline_definition list"
  ci_versions :: "pipeline_version_row list"

datatype automation_error = AutoInvalid | AutoConflict | AutoNotReady | AutoStale | AutoForbidden | AutoStore pg_error

definition map_error :: "('e \<Rightarrow> 'f) \<Rightarrow> 'e + 'a \<Rightarrow> 'f + 'a" where
  "map_error f r = (case r of Inl e \<Rightarrow> Inl (f e) | Inr x \<Rightarrow> Inr x)"

lemma map_error_simps [simp]: "map_error f (Inl e) = Inl (f e)" "map_error f (Inr x) = Inr x"
  by (simp_all add: map_error_def)

lemma map_error_Inr [simp]: "map_error f r = Inr x \<longleftrightarrow> r = Inr x"
  by (cases r) auto

section \<open>Reading the settings\<close>

definition repository_active :: "uuid \<Rightarrow> pg_db \<Rightarrow> bool" where
  "repository_active ident db \<longleftrightarrow> list_ex (\<lambda>r. rp_id r = ident \<and> rp_active r) (db_repositories (pg_identity db))"

definition find_repo :: "(source_repo \<Rightarrow> bool) \<Rightarrow> ci_db \<Rightarrow> source_repo option" where
  "find_repo p db = List.find (\<lambda>r. p r \<and> repository_active (sr_id r) (ci_pg db)) (pg_repos (ci_pg db))"

text \<open>A repository without a row has the default settings.\<close>

definition settings_of :: "uuid \<Rightarrow> ci_db \<Rightarrow> AutomationSettings" where
  "settings_of ident db = map_get DefaultAutomationSettings (ci_settings db) ident"

definition automation_session :: "pg_env \<Rightarrow> gotime \<Rightarrow> string \<Rightarrow> uuid \<Rightarrow> Action \<Rightarrow> ci_db \<Rightarrow> automation_error + Session" where
  "automation_session env now token ident action db =
     map_error AutoStore (and_then (project_session env now token ident action (ci_pg db)) (require_live now))"

definition GetProjectAutomation :: "pg_env \<Rightarrow> gotime \<Rightarrow> string \<Rightarrow> uuid \<Rightarrow> ci_db \<Rightarrow> automation_error + AutomationSettings" where
  "GetProjectAutomation env now token ident db =
     and_then (automation_session env now token ident ResourceRead db) (\<lambda>_. Inr (settings_of ident db))"

section \<open>Live grants of Gitee\<close>

definition liveGiteeGrant :: "gitee_grant \<Rightarrow> ci_db \<Rightarrow> bool" where
  "liveGiteeGrant g db \<longleftrightarrow>
     list_ex (\<lambda>l. lc_id l = gg_login g \<and> lc_status l = ''active'' \<and> lc_provider l = ''gitee'' \<and> lc_instance l = GiteeInstance) (ci_logins db) \<and>
     list_ex (\<lambda>u. us_id u = gg_user g \<and> us_active u) (db_users (pg_identity (ci_pg db))) \<and>
     list_ex (\<lambda>m. mb_user m = gg_user g \<and> sc_Kind (mb_scope m) = Instance \<and> mb_role m = Admin) (db_memberships (pg_identity (ci_pg db))) \<and>
     list_ex (\<lambda>e. xi_user e = gg_user g \<and> xi_provider e = ''gitee'' \<and> xi_instance e = GiteeInstance \<and> xi_external e = gg_subject g)
       (ci_identities db)"

definition grant_of :: "source_repo \<Rightarrow> ci_db \<Rightarrow> gitee_grant option" where
  "grant_of r db = (case sr_grant r of None \<Rightarrow> None | Some i \<Rightarrow> List.find (\<lambda>g. gg_id g = i) (ci_grants db))"

definition hook_of :: "uuid \<Rightarrow> ci_db \<Rightarrow> gitee_webhook option" where
  "hook_of ident db = List.find (\<lambda>h. gw_repository h = ident) (ci_gitee_hooks db)"

definition grant_usable :: "gotime \<Rightarrow> gitee_grant \<Rightarrow> ci_db \<Rightarrow> bool" where
  "grant_usable now g db \<longleftrightarrow> gg_status g = ''active'' \<and> gg_expires g > now \<and> liveGiteeGrant g db"

section \<open>Changing the settings\<close>

text \<open>The App that is installed for a repository, with an active login configuration.\<close>

definition app_of :: "source_repo \<Rightarrow> ci_db \<Rightarrow> github_app option" where
  "app_of r db =
     (case sr_installation r of
        None \<Rightarrow> None
      | Some i \<Rightarrow>
          List.find (\<lambda>a. list_ex (\<lambda>n. gi_id n = i \<and> gi_app_id n = ga_app_id a) (ci_installations db) \<and>
              list_ex (\<lambda>l. lc_id l = ga_login a \<and> lc_status l = ''active'') (ci_logins db)) (ci_apps db))"

definition github_ready :: "uuid \<Rightarrow> int \<Rightarrow> string \<Rightarrow> ci_db \<Rightarrow> bool" where
  "github_ready ident revision path db \<longleftrightarrow>
     (case find_repo (\<lambda>r. sr_id r = ident \<and> sr_provider r = ''github'') db of
        None \<Rightarrow> False
      | Some r \<Rightarrow>
          (case (app_of r db, map_of (ci_validations db) ident) of
             (Some a, Some v) \<Rightarrow> ga_id a = av_AppRevision v \<and> av_SettingsRevision v = revision \<and> av_PipelinePath v = path
           | _ \<Rightarrow> False))"

definition gitee_ready :: "gotime \<Rightarrow> uuid \<Rightarrow> int \<Rightarrow> string \<Rightarrow> ci_db \<Rightarrow> bool" where
  "gitee_ready now ident revision path db \<longleftrightarrow>
     (case find_repo (\<lambda>r. sr_id r = ident \<and> sr_provider r = ''gitee'') db of
        None \<Rightarrow> False
      | Some r \<Rightarrow>
          (case (grant_of r db, hook_of ident db, List.find (\<lambda>v. gv_repository v = ident) (ci_gitee_validations db)) of
             (Some g, Some h, Some v) \<Rightarrow>
               gw_revision h = gv_webhook_revision v \<and> gg_revision g = gv_grant_revision v \<and> grant_usable now g db \<and>
               gv_settings_revision v = revision \<and> gv_path v = path
           | _ \<Rightarrow> False))"

definition updated_settings :: "AutomationUpdate \<Rightarrow> int \<Rightarrow> AutomationSettings" where
  "updated_settings u revision =
     \<lparr>aset_Enabled = au_Enabled u, aset_PipelinePath = au_PipelinePath u, aset_TriggerPush = au_TriggerPush u,
      aset_TriggerTag = au_TriggerTag u, aset_TriggerPullRequest = au_TriggerPullRequest u,
      aset_CancelOlderCommits = au_CancelOlderCommits u, aset_Revision = revision\<rparr>"

definition bool_text :: "bool \<Rightarrow> string" where
  "bool_text b = (if b then ''true'' else ''false'')"

definition audit_automation :: "pg_env \<Rightarrow> uuid \<Rightarrow> string \<Rightarrow> uuid \<Rightarrow> gomap \<Rightarrow> ci_db \<Rightarrow> ci_db" where
  "audit_automation env actor action ident metadata db =
     db\<lparr>ci_pg := write_event \<lparr>ae_actor_user_id = Some actor, ae_action = action, ae_resource_type = ''repository'',
       ae_resource_id = env_String env ident, ae_metadata = metadata\<rparr> (ci_pg db)\<rparr>"

definition settings_metadata :: "AutomationSettings \<Rightarrow> gomap" where
  "settings_metadata s =
     [(''enabled'', bool_text (aset_Enabled s)), (''pipeline_path'', aset_PipelinePath s),
      (''trigger_push'', bool_text (aset_TriggerPush s)), (''trigger_tag'', bool_text (aset_TriggerTag s)),
      (''trigger_pull_request'', bool_text (aset_TriggerPullRequest s)),
      (''cancel_older_commits'', bool_text (aset_CancelOlderCommits s)), (''revision'', FormatInt (aset_Revision s))]"

definition UpdateProjectAutomation :: "pg_env \<Rightarrow> gotime \<Rightarrow> string \<Rightarrow> uuid \<Rightarrow> AutomationUpdate \<Rightarrow> ci_db
    \<Rightarrow> automation_error + ci_db \<times> AutomationSettings" where
  "UpdateProjectAutomation env now token ident update db =
     (if \<not> AutomationUpdate_Validate update then Inl AutoInvalid
      else
        and_then (automation_session env now token ident RepositoryManage db) (\<lambda>session.
          (let current = aset_Revision (settings_of ident db) in
           if current \<noteq> au_ExpectedRevision update then Inl AutoConflict
           else if au_Enabled update \<and> \<not> github_ready ident current (au_PipelinePath update) db \<and>
                   \<not> gitee_ready now ident current (au_PipelinePath update) db
           then Inl AutoNotReady
           else
             (let settings = updated_settings update (current + 1) in
              Inr (audit_automation env (se_UserID session) ''repository.automation_updated'' ident (settings_metadata settings)
                     (db\<lparr>ci_settings := map_put ident settings (ci_settings db)\<rparr>), settings)))))"

section \<open>Validation proofs of GitHub\<close>

record AutomationValidationTarget =
  vt_Provider :: string
  vt_RepositoryExternalID :: string
  vt_PipelinePath :: string
  vt_SettingsRevision :: int

definition GetProjectAutomationValidationTarget :: "pg_env \<Rightarrow> gotime \<Rightarrow> string \<Rightarrow> uuid \<Rightarrow> int \<Rightarrow> ci_db
    \<Rightarrow> automation_error + AutomationValidationTarget" where
  "GetProjectAutomationValidationTarget env now token ident expectedRevision db =
     (if ident = uuid_Nil \<or> expectedRevision < 0 then Inl AutoInvalid
      else
        and_then (automation_session env now token ident RepositoryManage db) (\<lambda>_.
          (case find_repo (\<lambda>r. sr_id r = ident \<and> (sr_provider r = ''github'' \<or> sr_provider r = ''gitee'')) db of
             None \<Rightarrow> Inl AutoForbidden
           | Some r \<Rightarrow>
               (let settings = settings_of ident db in
                if aset_Revision settings \<noteq> expectedRevision then Inl AutoConflict
                else Inr \<lparr>vt_Provider = sr_provider r, vt_RepositoryExternalID = sr_external r,
                          vt_PipelinePath = aset_PipelinePath settings, vt_SettingsRevision = aset_Revision settings\<rparr>))))"

definition RecordProjectAutomationValidation :: "pg_env \<Rightarrow> gotime \<Rightarrow> string \<Rightarrow> AutomationValidation \<Rightarrow> ci_db \<Rightarrow> automation_error + ci_db" where
  "RecordProjectAutomationValidation env now token v db =
     (if \<not> AutomationValidation_Validate v then Inl AutoInvalid
      else
        (let ident = av_RepositoryID v in
         and_then (automation_session env now token ident RepositoryManage db) (\<lambda>session.
           (case find_repo (\<lambda>r. sr_id r = ident \<and> sr_provider r = ''github'') db of
              None \<Rightarrow> Inl AutoNotReady
            | Some r \<Rightarrow>
                (case app_of r db of
                   None \<Rightarrow> Inl AutoNotReady
                 | Some a \<Rightarrow>
                     (let settings = settings_of ident db in
                      if aset_Revision settings \<noteq> av_SettingsRevision v \<or> aset_PipelinePath settings \<noteq> av_PipelinePath v \<or>
                         ga_id a \<noteq> av_AppRevision v
                      then Inl AutoConflict
                      else Inr (audit_automation env (se_UserID session) ''repository.automation_validated'' ident
                        [(''settings_revision'', FormatInt (av_SettingsRevision v)), (''pipeline_path'', av_PipelinePath v),
                         (''app_revision'', env_String env (av_AppRevision v)), (''commit_sha'', av_CommitSHA v),
                         (''config_sha256'', av_ConfigSHA256 v), (''pipeline_name'', av_PipelineName v)]
                        (db\<lparr>ci_validations := map_put ident v (ci_validations db)\<rparr>))))))))"

section \<open>Webhooks and validation proofs of Gitee\<close>

record Binding =
  bd_ProjectID :: uuid
  bd_ID :: string
  bd_Owner :: string
  bd_Name :: string
  bd_DefaultBranch :: string
  bd_AccountID :: string
  bd_GrantID :: uuid
  bd_HookRevision :: int
  bd_HookSecret :: "bytes option"

definition binding_of :: "(bytes \<Rightarrow> bool) \<Rightarrow> source_repo \<Rightarrow> ci_db \<Rightarrow> Binding option" where
  "binding_of decodes r db =
     (if sr_provider r \<noteq> ''gitee'' \<or> sr_instance r \<noteq> GiteeInstance then None
      else
        (case (grant_of r db,
               List.find (\<lambda>c. list_ex (\<lambda>x. rp_id x = sr_id r \<and> rp_organization x = gc_organization c)
                   (db_repositories (pg_identity (ci_pg db)))) (ci_accounts db)) of
           (Some g, Some c) \<Rightarrow>
             (if gg_status g = ''revoked'' \<or> \<not> liveGiteeGrant g db then None
              else
                (let b = (\<lambda>revision secret.
                       \<lparr>bd_ProjectID = sr_id r, bd_ID = sr_external r, bd_Owner = sr_owner r, bd_Name = sr_name r,
                        bd_DefaultBranch = sr_branch r, bd_AccountID = gc_account c, bd_GrantID = gg_id g,
                        bd_HookRevision = revision, bd_HookSecret = secret\<rparr>)
                 in case hook_of (sr_id r) db of
                      None \<Rightarrow> Some (b 0 None)
                    | Some h \<Rightarrow> if gw_secret h = [] then Some (b (gw_revision h) None)
                        else if decodes (gw_secret h) then Some (b (gw_revision h) (Some (gw_secret h))) else None))
         | _ \<Rightarrow> None))"

text \<open>
  Every operation runs in a transaction that authenticates the session, takes the lock of the repository and reads its
  binding; \<open>body\<close> is what the operation does with it.
\<close>

definition giteeProjectTx :: "pg_env \<Rightarrow> (bytes \<Rightarrow> bool) \<Rightarrow> gotime \<Rightarrow> string \<Rightarrow> uuid \<Rightarrow> (Session \<Rightarrow> Binding \<Rightarrow> automation_error + 'a) \<Rightarrow> ci_db
    \<Rightarrow> automation_error + 'a" where
  "giteeProjectTx env decodes now token ident body db =
     and_then (automation_session env now token ident RepositoryManage db) (\<lambda>session.
       (case find_repo (\<lambda>r. sr_id r = ident) db of
          None \<Rightarrow> Inl AutoStale
        | Some r \<Rightarrow> (case binding_of decodes r db of None \<Rightarrow> Inl AutoStale | Some b \<Rightarrow> body session b)))"

definition ResolveGiteeRepository :: "(bytes \<Rightarrow> bool) \<Rightarrow> string \<Rightarrow> ci_db \<Rightarrow> automation_error + Binding" where
  "ResolveGiteeRepository decodes external db =
     (if \<not> ValidGitHubSubject external then Inl AutoStale
      else
        (case find_repo (\<lambda>r. sr_external r = external \<and> sr_provider r = ''gitee'' \<and> sr_instance r = GiteeInstance) db of
           None \<Rightarrow> Inl AutoStale
         | Some r \<Rightarrow> (case binding_of decodes r db of None \<Rightarrow> Inl AutoStale | Some b \<Rightarrow> Inr b)))"

definition GiteeProject :: "pg_env \<Rightarrow> (bytes \<Rightarrow> bool) \<Rightarrow> gotime \<Rightarrow> string \<Rightarrow> uuid \<Rightarrow> ci_db \<Rightarrow> automation_error + Binding" where
  "GiteeProject env decodes now token ident db = giteeProjectTx env decodes now token ident (\<lambda>_ b. Inr b) db"

definition put_hook :: "uuid \<Rightarrow> bytes \<Rightarrow> gitee_webhook list \<Rightarrow> gitee_webhook list" where
  "put_hook ident encrypted hooks =
     (if list_ex (\<lambda>h. gw_repository h = ident) hooks
      then update_where (\<lambda>h. gw_repository h = ident) (\<lambda>h. h\<lparr>gw_revision := gw_revision h + 1, gw_secret := encrypted\<rparr>) hooks
      else hooks @ [\<lparr>gw_repository = ident, gw_revision = 1, gw_secret = encrypted\<rparr>])"

definition audit_gitee :: "pg_env \<Rightarrow> Session \<Rightarrow> string \<Rightarrow> uuid \<Rightarrow> ci_db \<Rightarrow> ci_db" where
  "audit_gitee env session action ident db =
     db\<lparr>ci_pg := write_event (appendAudit (env_String env) (se_UserID session) action ''repository'' ident) (ci_pg db)\<rparr>"

definition SaveGiteeWebhook :: "pg_env \<Rightarrow> (bytes \<Rightarrow> bool) \<Rightarrow> gotime \<Rightarrow> string \<Rightarrow> Binding \<Rightarrow> bytes \<Rightarrow> ci_db \<Rightarrow> automation_error + ci_db" where
  "SaveGiteeWebhook env decodes now token expected encoded db =
     giteeProjectTx env decodes now token (bd_ProjectID expected) (\<lambda>session current.
       if bd_HookRevision current \<noteq> bd_HookRevision expected \<or> bd_ID current \<noteq> bd_ID expected then Inl AutoConflict
       else Inr (audit_gitee env session ''gitee.webhook_configured'' (bd_ProjectID current)
                   (db\<lparr>ci_gitee_hooks := put_hook (bd_ProjectID current) encoded (ci_gitee_hooks db)\<rparr>))) db"

definition GiteeValidationTarget :: "pg_env \<Rightarrow> (bytes \<Rightarrow> bool) \<Rightarrow> gotime \<Rightarrow> string \<Rightarrow> uuid \<Rightarrow> int \<Rightarrow> ci_db
    \<Rightarrow> automation_error + Binding \<times> AutomationSettings" where
  "GiteeValidationTarget env decodes now token ident revision db =
     giteeProjectTx env decodes now token ident (\<lambda>_ b.
       (let settings = settings_of ident db in
        if aset_Revision settings \<noteq> revision then Inl AutoConflict
        else if bd_HookRevision b = 0 then Inl AutoNotReady else Inr (b, settings))) db"

record ValidationProof =
  vp_RepositoryID :: uuid
  vp_AppRevision :: uuid
  vp_CommitSHA :: string
  vp_ConfigSHA256 :: string

definition put_validation :: "gitee_validation \<Rightarrow> gitee_validation list \<Rightarrow> gitee_validation list" where
  "put_validation v rows =
     (if list_ex (\<lambda>x. gv_repository x = gv_repository v) rows
      then update_where (\<lambda>x. gv_repository x = gv_repository v) (\<lambda>_. v) rows else rows @ [v])"

text \<open>The hexadecimal checks of the columns \<open>commit_sha\<close> and \<open>config_sha256\<close> are those of the table.\<close>

definition RecordGiteeValidation :: "pg_env \<Rightarrow> (bytes \<Rightarrow> bool) \<Rightarrow> gotime \<Rightarrow> string \<Rightarrow> Binding \<Rightarrow> AutomationSettings \<Rightarrow> ValidationProof \<Rightarrow> ci_db
    \<Rightarrow> automation_error + ci_db" where
  "RecordGiteeValidation env decodes now token expected settings proof' db =
     (if vp_RepositoryID proof' \<noteq> bd_ProjectID expected \<or> vp_AppRevision proof' = uuid_Nil \<or> length (vp_CommitSHA proof') \<noteq> 40 \<or>
         length (vp_ConfigSHA256 proof') \<noteq> 64
      then Inl AutoInvalid
      else
        giteeProjectTx env decodes now token (bd_ProjectID expected) (\<lambda>session b.
          (let current = settings_of (bd_ProjectID b) db in
           if bd_HookRevision b \<noteq> bd_HookRevision expected \<or> bd_GrantID b \<noteq> bd_GrantID expected \<or>
              aset_Revision current \<noteq> aset_Revision settings \<or> aset_PipelinePath current \<noteq> aset_PipelinePath settings
           then Inl AutoConflict
           else
             (case List.find (\<lambda>g. gg_id g = bd_GrantID b \<and> gg_status g = ''active'' \<and> gg_expires g > now) (ci_grants db) of
                None \<Rightarrow> Inl AutoStale
              | Some g \<Rightarrow>
                  if gg_revision g \<noteq> vp_AppRevision proof' then Inl AutoConflict
                  else if \<not> list_all hex_lower (vp_CommitSHA proof') \<or> \<not> list_all hex_lower (vp_ConfigSHA256 proof')
                  then Inl (AutoStore PgDatabase)
                  else Inr (audit_gitee env session ''gitee.automation_validated'' (bd_ProjectID b)
                         (db\<lparr>ci_gitee_validations := put_validation
                            \<lparr>gv_repository = bd_ProjectID b, gv_grant_revision = gg_revision g, gv_webhook_revision = bd_HookRevision b,
                             gv_settings_revision = aset_Revision current, gv_path = aset_PipelinePath current,
                             gv_commit = vp_CommitSHA proof', gv_config = vp_ConfigSHA256 proof'\<rparr> (ci_gitee_validations db)\<rparr>))))) db)"

end
