(* ===== verification/Github_Ci.thy ===== *)
theory Github_Ci
  imports Automation_Store Pipeline_Compile
begin

text \<open>
  From a webhook delivery to a run: \<open>github_ci.go\<close> of \<open>src/internal/store/postgres\<close> (the transactions that store a
  run and settle its delivery together), and the orchestrator and the worker of \<open>src/internal/githubci\<close>.

  Parameters are the JSON codecs and SHA-256 (\<open>ci_env\<close>), the identifiers that are drawn at random (\<open>ci_ids\<close>), and the
  answer of the pipeline fetcher, which reads the file from the provider. Processing one delivery reads the clock once.
\<close>

record ci_env =
  ce_pg :: pg_env
  ce_codec :: event_codec
  ce_runtime :: runtime
  ce_plan :: "Plan \<Rightarrow> bytes option"

record ci_ids =
  ids_run :: uuid
  ids_definition :: uuid
  ids_version :: uuid
  ids_jobs :: "nat \<Rightarrow> uuid"
  ids_status :: uuid

text \<open>The errors of the packages that take part, as far as the failure classes tell them apart.\<close>

datatype ci_error =
    CiScm scm_error | CiInterrupted | CiCredentialUnavailable | CiInvalidPipeline | CiRepositoryMismatch | CiRepositoryUnavailable
  | CiInvalidDelivery | CiInvalidCommit | CiInvalidEvent | CiExternalFork | CiAutomationInvalid | CiAutomationNotReady
  | CiHook hook_error | CiStore pg_error

record RunCommit =
  cm_Delivery :: WorkItem
  cm_RepositoryID :: uuid
  cm_PipelinePath :: string
  cm_PipelineSource :: bytes
  cm_Plan :: Plan
  cm_CreatedAt :: gotime

record FailedRunCommit =
  fc_Delivery :: WorkItem
  fc_RepositoryID :: uuid
  fc_PipelinePath :: string
  fc_ConfigSHA256 :: string
  fc_ErrorCode :: string
  fc_ErrorSummary :: string
  fc_CreatedAt :: gotime

record RunResult =
  rt_ID :: uuid
  rt_Created :: bool

section \<open>Settings at run time\<close>

definition RuntimeAutomation :: "uuid \<Rightarrow> ci_db \<Rightarrow> ci_error + AutomationSettings" where
  "RuntimeAutomation repositoryID db =
     (if repositoryID = uuid_Nil then Inl CiInvalidCommit
      else
        (case find_repo (\<lambda>r. sr_id r = repositoryID) db of
           None \<Rightarrow> Inl CiRepositoryUnavailable
         | Some r \<Rightarrow> Inr (settings_of repositoryID db)))"

definition RuntimeAutomationForProvider :: "Provider \<Rightarrow> string \<Rightarrow> ci_db \<Rightarrow> ci_error + uuid \<times> AutomationSettings" where
  "RuntimeAutomationForProvider provider externalID db =
     (if provider \<noteq> Gitee \<and> provider \<noteq> GitHub then Inl CiRepositoryUnavailable
      else
        (let inst = (if provider = Gitee then GiteeInstance else GitHubInstance) in
         if \<not> ValidGitHubSubject externalID then Inl CiRepositoryUnavailable
         else
           (case find_repo (\<lambda>r. sr_provider r = provider_name provider \<and> sr_instance r = inst \<and> sr_external r = externalID) db of
              None \<Rightarrow> Inl CiRepositoryUnavailable
            | Some r \<Rightarrow> Inr (sr_id r, settings_of (sr_id r) db))))"

definition RuntimeAutomationForGitHub :: "string \<Rightarrow> ci_db \<Rightarrow> ci_error + uuid \<times> AutomationSettings" where
  "RuntimeAutomationForGitHub = RuntimeAutomationForProvider GitHub"

section \<open>Storing the run of a delivery\<close>

definition ci_delivery_ok :: "WorkItem \<Rightarrow> uuid \<Rightarrow> bool" where
  "ci_delivery_ok item repositoryID \<longleftrightarrow>
     \<not> (wi_ID item = uuid_Nil \<or> wi_LeaseID item = uuid_Nil \<or> repositoryID = uuid_Nil \<or>
        (ev_Provider (wi_Event item) \<noteq> GitHub \<and> ev_Provider (wi_Event item) \<noteq> Gitee) \<or>
        ev_DeliveryID (wi_Event item) = [] \<or> ev_AfterSHA (wi_Event item) = [])"

definition validateWebhookRunCommit :: "RunCommit \<Rightarrow> bool" where
  "validateWebhookRunCommit request \<longleftrightarrow>
     \<not> (\<not> ci_delivery_ok (cm_Delivery request) (cm_RepositoryID request) \<or>
        plan_Version (cm_Plan request) \<noteq> APIVersion \<or> plan_Name (cm_Plan request) = [] \<or>
        length (plan_ConfigSHA256 (cm_Plan request)) \<noteq> 64 \<or> cm_PipelineSource request = [] \<or>
        int (length (cm_PipelineSource request)) > 1048576 \<or> cm_CreatedAt request = time_zero \<or>
        \<not> ValidatePipelinePath (cm_PipelinePath request))"

definition validateWebhookFailedRunCommit :: "FailedRunCommit \<Rightarrow> bool" where
  "validateWebhookFailedRunCommit request \<longleftrightarrow>
     \<not> (\<not> ci_delivery_ok (fc_Delivery request) (fc_RepositoryID request) \<or> length (fc_ConfigSHA256 request) \<noteq> 64 \<or>
        fc_CreatedAt request = time_zero \<or>
        (fc_ErrorCode request \<noteq> ''pipeline_not_found'' \<and> fc_ErrorCode request \<noteq> ''pipeline_invalid'') \<or>
        fc_ErrorSummary request = [] \<or> int (length (fc_ErrorSummary request)) > 1024 \<or>
        \<not> ValidatePipelinePath (fc_PipelinePath request)) \<and>
     (case hex_decode (fc_ConfigSHA256 request) of None \<Rightarrow> False | Some decoded \<Rightarrow> length decoded = 32)"

text \<open>The delivery under the lease of the worker, locked for the transaction.\<close>

definition locked_delivery :: "gotime \<Rightarrow> WorkItem \<Rightarrow> ci_db \<Rightarrow> ci_error + webhook_row" where
  "locked_delivery now item db =
     (case List.find (\<lambda>r. hook_lease (wi_ID item) (wi_LeaseID item) r \<and> hook_lease_live now r) (ci_hooks db) of
        None \<Rightarrow> Inl (CiHook HookLeaseInvalid)
      | Some r \<Rightarrow> Inr r)"

definition trigger_enabled_for :: "string \<Rightarrow> AutomationSettings \<Rightarrow> bool" where
  "trigger_enabled_for event_type s \<longleftrightarrow>
     (event_type = ''push'' \<and> aset_TriggerPush s) \<or> (event_type = ''tag'' \<and> aset_TriggerTag s) \<or>
     (event_type = ''pull_request'' \<and> aset_TriggerPullRequest s)"

text \<open>A Gitee delivery is checked again in the transaction, against the grant, the webhook and the settings.\<close>

definition lockGiteeDelivery :: "ci_env \<Rightarrow> gotime \<Rightarrow> WorkItem \<Rightarrow> uuid \<Rightarrow> string \<Rightarrow> ci_db \<Rightarrow> bool" where
  "lockGiteeDelivery ce now item ident path db \<longleftrightarrow>
     \<not> (ev_Type (wi_Event item) = EventPullRequest \<and> map_get [] (ev_Metadata (wi_Event item)) ''fork'' \<noteq> ''false'') \<and>
     (case (ec_marshal (ce_codec ce) (wi_Event item), find_repo (\<lambda>r. sr_id r = ident) db, hook_of ident db,
            map_of (ci_settings db) ident, List.find (\<lambda>d. wh_id d = wi_ID item) (ci_hooks db)) of
        (Some normalized, Some r, Some h, Some s, Some d) \<Rightarrow>
          sr_provider r = ''gitee'' \<and> sr_instance r = GiteeInstance \<and>
          (case grant_of r db of None \<Rightarrow> False | Some g \<Rightarrow> grant_usable now g db) \<and> aset_Enabled s \<and>
          wh_provider d = ''gitee'' \<and> ec_same (ce_codec ce) (wh_event d) normalized \<and>
          (case ec_unmarshal (ce_codec ce) (wh_event d) of
             None \<Rightarrow> False
           | Some e \<Rightarrow> sr_external r = repo_ExternalID (ev_Repository e) \<and>
               map_of (ev_Metadata e) ''webhook_revision'' = Some (FormatInt (gw_revision h))) \<and>
          aset_PipelinePath s = path \<and> trigger_enabled_for (wh_type d) s
      | _ \<Rightarrow> False)"

definition idempotency_key :: "ci_env \<Rightarrow> WorkItem \<Rightarrow> string" where
  "idempotency_key ce item = provider_name (ev_Provider (wi_Event item)) @ ''-webhook:'' @ env_String (ce_pg ce) (wi_ID item)"

definition same_run :: "uuid \<Rightarrow> Event \<Rightarrow> string \<Rightarrow> string \<Rightarrow> Record \<Rightarrow> bool" where
  "same_run repositoryID event name config r \<longleftrightarrow>
     rec_ProjectID r = Some repositoryID \<and> rec_CommitSHA r = ev_AfterSHA event \<and> rec_Event r = event_name (ev_Type event) \<and>
     rec_PipelineName r = name \<and> rec_ConfigSHA256 r = config"

definition put_definition :: "uuid \<Rightarrow> uuid \<Rightarrow> string \<Rightarrow> string \<Rightarrow> pipeline_definition list \<Rightarrow> pipeline_definition list \<times> uuid" where
  "put_definition newID repositoryID name path rows =
     (case List.find (\<lambda>d. pd_repository d = repositoryID \<and> pd_name d = name) rows of
        None \<Rightarrow> (rows @ [\<lparr>pd_id = newID, pd_repository = repositoryID, pd_name = name, pd_path = path\<rparr>], newID)
      | Some d \<Rightarrow>
          (update_where (\<lambda>d. pd_repository d = repositoryID \<and> pd_name d = name) (\<lambda>d. d\<lparr>pd_path := path\<rparr>) rows, pd_id d))"

definition put_version :: "uuid \<Rightarrow> uuid \<Rightarrow> string \<Rightarrow> bytes \<Rightarrow> bytes \<Rightarrow> pipeline_version_row list \<Rightarrow> pipeline_version_row list \<times> uuid" where
  "put_version newID definitionID sha source plan rows =
     (case List.find (\<lambda>v. pv_pipeline v = definitionID \<and> pv_sha v = sha) rows of
        None \<Rightarrow> (rows @ [\<lparr>pv_id = newID, pv_pipeline = definitionID, pv_sha = sha, pv_source = source, pv_plan = plan\<rparr>], newID)
      | Some v \<Rightarrow> (rows, pv_id v))"

definition webhook_record :: "ci_env \<Rightarrow> uuid \<Rightarrow> WorkItem \<Rightarrow> uuid \<Rightarrow> uuid option \<Rightarrow> string \<Rightarrow> string \<Rightarrow> Status \<Rightarrow> bytes \<Rightarrow> gotime \<Rightarrow> gotime option \<Rightarrow> Record" where
  "webhook_record ce runID item repositoryID versionID name config status plan created finished =
     \<lparr>rec_ID = runID, rec_ProjectID = Some repositoryID, rec_CreatedBy = None, rec_PipelineVersionID = versionID,
      rec_IdempotencyKey = idempotency_key ce item, rec_PipelineName = name, rec_Event = event_name (ev_Type (wi_Event item)),
      rec_Ref = ev_Ref (wi_Event item), rec_CommitSHA = ev_AfterSHA (wi_Event item), rec_Status = status, rec_ConfigSHA256 = config,
      rec_Plan = plan, rec_CreatedAt = created, rec_StartedAt = None, rec_FinishedAt = finished\<rparr>"

definition run_event :: "ci_env \<Rightarrow> string \<Rightarrow> uuid \<Rightarrow> string \<Rightarrow> uuid \<Rightarrow> string \<Rightarrow> gomap \<Rightarrow> ci_db \<Rightarrow> ci_db" where
  "run_event ce action runID deliveryID repositoryID sha extra db =
     db\<lparr>ci_pg := write_event \<lparr>ae_actor_user_id = None, ae_action = action, ae_resource_type = ''run'',
       ae_resource_id = env_String (ce_pg ce) runID,
       ae_metadata = [(''delivery_id'', deliveryID), (''repository_id'', env_String (ce_pg ce) repositoryID), (''commit_sha'', sha)] @ extra\<rparr>
       (ci_pg db)\<rparr>"

definition settle :: "gotime \<Rightarrow> WorkItem \<Rightarrow> uuid \<Rightarrow> uuid \<Rightarrow> string \<Rightarrow> string \<Rightarrow> ci_db \<Rightarrow> ci_error + ci_db" where
  "settle now item repositoryID runID code summary db =
     and_then (map_error CiHook (settleDelivery now (wi_ID item) (wi_LeaseID item) repositoryID runID code summary (ci_hooks db)))
       (\<lambda>rows. Inr (db\<lparr>ci_hooks := rows\<rparr>))"

definition insert_run :: "ci_env \<Rightarrow> ci_ids \<Rightarrow> gotime \<Rightarrow> Record \<Rightarrow> ci_db \<Rightarrow> ci_error + ci_db" where
  "insert_run ce ids now record db =
     and_then (map_error CiStore (insertRun (ce_pg ce) (ids_jobs ids) (ids_status ids) now record (ci_pg db)))
       (\<lambda>pg. Inr (db\<lparr>ci_pg := pg\<rparr>))"

text \<open>The pipeline and its version, which the run refers to; a missing repository violates a foreign key.\<close>

definition store_version :: "ci_ids \<Rightarrow> RunCommit \<Rightarrow> bytes \<Rightarrow> ci_db \<Rightarrow> ci_error + ci_db \<times> uuid" where
  "store_version ids request plan db =
     (if \<not> list_ex (\<lambda>r. sr_id r = cm_RepositoryID request) (pg_repos (ci_pg db)) then Inl (CiStore PgDatabase)
      else
        (case put_definition (ids_definition ids) (cm_RepositoryID request) (plan_Name (cm_Plan request)) (cm_PipelinePath request)
             (ci_definitions db) of
           (definitions, definitionID) \<Rightarrow>
             (case put_version (ids_version ids) definitionID (plan_ConfigSHA256 (cm_Plan request)) (cm_PipelineSource request) plan
                  (ci_versions db) of
                (versions, versionID) \<Rightarrow> Inr (db\<lparr>ci_definitions := definitions, ci_versions := versions\<rparr>, versionID))))"

text \<open>From the pipeline definition to the end of the transaction, for a delivery that has no run yet.\<close>

definition create_run :: "ci_env \<Rightarrow> ci_ids \<Rightarrow> gotime \<Rightarrow> RunCommit \<Rightarrow> bytes \<Rightarrow> string \<Rightarrow> ci_db \<Rightarrow> ci_error + ci_db \<times> RunResult" where
  "create_run ce ids now request planJSON deliveryID db =
     (let item = cm_Delivery request; repositoryID = cm_RepositoryID request; plan = cm_Plan request in
      and_then (store_version ids request planJSON db) (\<lambda>(db1, versionID).
        and_then (insert_run ce ids now (webhook_record ce (ids_run ids) item repositoryID (Some versionID) (plan_Name plan)
            (plan_ConfigSHA256 plan) StatusQueued planJSON (cm_CreatedAt request) None) db1) (\<lambda>db2.
          and_then (settle now item repositoryID (ids_run ids) [] [] db2) (\<lambda>db3.
            Inr (run_event ce ''webhook.run_created'' (ids_run ids) deliveryID repositoryID (ev_AfterSHA (wi_Event item)) [] db3,
                 \<lparr>rt_ID = ids_run ids, rt_Created = True\<rparr>)))))"

definition CommitWebhookRun :: "ci_env \<Rightarrow> ci_ids \<Rightarrow> gotime \<Rightarrow> RunCommit \<Rightarrow> ci_db \<Rightarrow> ci_error + ci_db \<times> RunResult" where
  "CommitWebhookRun ce ids now request db =
     (if \<not> validateWebhookRunCommit request then Inl CiInvalidCommit
      else
        (case ce_plan ce (cm_Plan request) of
           None \<Rightarrow> Inl CiInvalidCommit
         | Some planJSON \<Rightarrow>
             (let item = cm_Delivery request; event = wi_Event item; repositoryID = cm_RepositoryID request;
                  plan = cm_Plan request in
              and_then (locked_delivery now item db) (\<lambda>delivery.
                if ev_Provider event = Gitee \<and> \<not> lockGiteeDelivery ce now item repositoryID (cm_PipelinePath request) db
                then Inl CiInvalidCommit
                else
                  (case List.find (\<lambda>r. rec_IdempotencyKey (rw_rec r) = idempotency_key ce item) (pg_runs (ci_pg db)) of
                     Some existing \<Rightarrow>
                       if \<not> same_run repositoryID event (plan_Name plan) (plan_ConfigSHA256 plan) (rw_rec existing)
                       then Inl CiInvalidCommit
                       else and_then (settle now item repositoryID (rw_id existing) [] [] db) (\<lambda>db1.
                              Inr (db1, \<lparr>rt_ID = rw_id existing, rt_Created = False\<rparr>))
                   | None \<Rightarrow>
                       create_run ce ids now request planJSON (wh_delivery delivery) db)))))"

definition failed_plan :: "FailedRunCommit \<Rightarrow> Plan" where
  "failed_plan request =
     \<lparr>plan_Version = APIVersion, plan_Name = fc_PipelinePath request, plan_ConfigSHA256 = fc_ConfigSHA256 request,
      plan_CompiledAt = fc_CreatedAt request, plan_Stages = []\<rparr>"

definition finish_failed :: "uuid \<Rightarrow> gotime \<Rightarrow> ci_db \<Rightarrow> ci_db" where
  "finish_failed runID finished db =
     db\<lparr>ci_pg := update_runs (\<lambda>r. rw_id r = runID) (\<lambda>r. r\<lparr>rec_FinishedAt := Some finished\<rparr>) (ci_pg db)\<rparr>"

definition create_failed_run :: "ci_env \<Rightarrow> ci_ids \<Rightarrow> gotime \<Rightarrow> FailedRunCommit \<Rightarrow> bytes \<Rightarrow> string \<Rightarrow> ci_db \<Rightarrow> ci_error + ci_db \<times> RunResult" where
  "create_failed_run ce ids now request planJSON deliveryID db =
     (let item = fc_Delivery request; repositoryID = fc_RepositoryID request; created = fc_CreatedAt request in
      and_then (insert_run ce ids now (webhook_record ce (ids_run ids) item repositoryID None (fc_PipelinePath request)
          (fc_ConfigSHA256 request) StatusFailed planJSON created (Some created)) db) (\<lambda>db1.
        and_then (settle now item repositoryID (ids_run ids) (fc_ErrorCode request) (fc_ErrorSummary request)
            (finish_failed (ids_run ids) created db1)) (\<lambda>db2.
          Inr (run_event ce ''webhook.run_failed'' (ids_run ids) deliveryID repositoryID (ev_AfterSHA (wi_Event item))
                 [(''error_code'', fc_ErrorCode request)] db2, \<lparr>rt_ID = ids_run ids, rt_Created = True\<rparr>))))"

definition CommitWebhookFailedRun :: "ci_env \<Rightarrow> ci_ids \<Rightarrow> gotime \<Rightarrow> FailedRunCommit \<Rightarrow> ci_db \<Rightarrow> ci_error + ci_db \<times> RunResult" where
  "CommitWebhookFailedRun ce ids now request db =
     (if \<not> validateWebhookFailedRunCommit request then Inl CiInvalidCommit
      else
        (case ce_plan ce (failed_plan request) of
           None \<Rightarrow> Inl CiInvalidCommit
         | Some planJSON \<Rightarrow>
             (let item = fc_Delivery request; event = wi_Event item; repositoryID = fc_RepositoryID request in
              and_then (locked_delivery now item db) (\<lambda>delivery.
                if ev_Provider event = Gitee \<and> \<not> lockGiteeDelivery ce now item repositoryID (fc_PipelinePath request) db
                then Inl CiInvalidCommit
                else
                  (case List.find (\<lambda>r. rec_IdempotencyKey (rw_rec r) = idempotency_key ce item) (pg_runs (ci_pg db)) of
                     Some existing \<Rightarrow>
                       if \<not> same_run repositoryID event (fc_PipelinePath request) (fc_ConfigSHA256 request) (rw_rec existing) \<or>
                          rw_status existing \<noteq> StatusFailed
                       then Inl CiInvalidCommit
                       else and_then (settle now item repositoryID (rw_id existing) (fc_ErrorCode request) (fc_ErrorSummary request) db)
                              (\<lambda>db1. Inr (db1, \<lparr>rt_ID = rw_id existing, rt_Created = False\<rparr>))
                   | None \<Rightarrow>
                       create_failed_run ce ids now request planJSON (wh_delivery delivery) db)))))"

section \<open>The orchestrator\<close>

datatype Outcome =
    OutcomeIgnoredDisabled | OutcomeIgnoredFork | OutcomeIgnoredTrigger | OutcomeRunCreated | OutcomeRunReused
  | OutcomeFailedRunCreated | OutcomeFailedRunReused | OutcomeRetryScheduled | OutcomeDeadLettered

record failureClass =
  fl_transient :: bool
  fl_code :: string
  fl_summary :: string

definition classifyFailure :: "ci_error \<Rightarrow> failureClass" where
  "classifyFailure err =
     (case err of
        CiScm ScmRateLimited \<Rightarrow> \<lparr>fl_transient = True, fl_code = ''github_rate_limited'',
          fl_summary = ''GitHub API rate limit delayed delivery processing''\<rparr>
      | CiInterrupted \<Rightarrow> \<lparr>fl_transient = True, fl_code = ''processing_interrupted'',
          fl_summary = ''GitHub delivery processing was interrupted''\<rparr>
      | CiScm ScmUnauthorized \<Rightarrow> \<lparr>fl_transient = False, fl_code = ''credential_unavailable'',
          fl_summary = ''GitHub repository credential is unavailable''\<rparr>
      | CiCredentialUnavailable \<Rightarrow> \<lparr>fl_transient = False, fl_code = ''credential_unavailable'',
          fl_summary = ''GitHub repository credential is unavailable''\<rparr>
      | CiScm ScmNotFound \<Rightarrow> \<lparr>fl_transient = False, fl_code = ''pipeline_not_found'',
          fl_summary = ''Pipeline configuration was not found at the event commit''\<rparr>
      | CiInvalidPipeline \<Rightarrow> \<lparr>fl_transient = False, fl_code = ''pipeline_invalid'',
          fl_summary = ''Pipeline configuration is invalid''\<rparr>
      | CiRepositoryMismatch \<Rightarrow> \<lparr>fl_transient = False, fl_code = ''repository_mismatch'',
          fl_summary = ''GitHub repository identity changed during delivery processing''\<rparr>
      | CiRepositoryUnavailable \<Rightarrow> \<lparr>fl_transient = False, fl_code = ''repository_unavailable'',
          fl_summary = ''GitHub repository is unavailable for automation''\<rparr>
      | CiHook _ \<Rightarrow> \<lparr>fl_transient = True, fl_code = ''processing_unavailable'',
          fl_summary = ''GitHub delivery processing is temporarily unavailable''\<rparr>
      | CiStore _ \<Rightarrow> \<lparr>fl_transient = True, fl_code = ''processing_unavailable'',
          fl_summary = ''GitHub delivery processing is temporarily unavailable''\<rparr>
      | CiScm ScmUnsupportedEvent \<Rightarrow> \<lparr>fl_transient = True, fl_code = ''processing_unavailable'',
          fl_summary = ''GitHub delivery processing is temporarily unavailable''\<rparr>
      | _ \<Rightarrow> \<lparr>fl_transient = False, fl_code = ''delivery_invalid'',
          fl_summary = ''GitHub delivery cannot be processed safely''\<rparr>)"

definition retryBaseDelay :: duration where "retryBaseDelay = 5 * Second"
definition retryMaxDelay :: duration where "retryMaxDelay = 15 * Minute"

text \<open>The loop of \<open>retryDelay\<close>, with its counter.\<close>

function retry_loop :: "int \<Rightarrow> int \<Rightarrow> duration \<Rightarrow> duration" where
  "retry_loop attempt current delay =
     (if current < attempt \<and> delay < retryMaxDelay
      then (let doubled = int64 (delay * 2) in
            retry_loop attempt (current + 1) (if doubled > retryMaxDelay then retryMaxDelay else doubled))
      else delay)"
  by pat_completeness auto

termination by (relation "measure (\<lambda>(attempt, current, delay). nat (attempt - current))") auto

declare retry_loop.simps [simp del]

definition retryDelay :: "int \<Rightarrow> duration" where
  "retryDelay attempt = retry_loop attempt 1 retryBaseDelay"

definition triggerEnabled :: "AutomationSettings \<Rightarrow> EventType \<Rightarrow> bool" where
  "triggerEnabled settings event =
     (case event of
        EventPush \<Rightarrow> aset_TriggerPush settings
      | EventTag \<Rightarrow> aset_TriggerTag settings
      | EventPullRequest \<Rightarrow> aset_TriggerPullRequest settings
      | OtherEvent _ \<Rightarrow> False)"

definition finalize_delivery :: "gotime \<Rightarrow> WorkItem \<Rightarrow> FinalState \<Rightarrow> gotime \<Rightarrow> string \<Rightarrow> string \<Rightarrow> ci_db \<Rightarrow> ci_error + ci_db" where
  "finalize_delivery now item state next' code summary db =
     and_then (map_error CiHook (FinalizeWebhook now
         \<lparr>fn_ID = wi_ID item, fn_LeaseID = wi_LeaseID item, fn_State = state, fn_NextAttempt = next', fn_ErrorCode = code,
          fn_ErrorSummary = summary\<rparr> (ci_hooks db)))
       (\<lambda>rows. Inr (db\<lparr>ci_hooks := rows\<rparr>))"

definition ignore :: "gotime \<Rightarrow> WorkItem \<Rightarrow> Outcome \<Rightarrow> string \<Rightarrow> string \<Rightarrow> ci_db \<Rightarrow> ci_error + ci_db \<times> Outcome" where
  "ignore now item outcome code summary db =
     and_then (finalize_delivery now item FinalIgnored time_zero code summary db) (\<lambda>db1. Inr (db1, outcome))"

definition commitConfigurationFailure :: "ci_env \<Rightarrow> ci_ids \<Rightarrow> gotime \<Rightarrow> WorkItem \<Rightarrow> uuid \<Rightarrow> string \<Rightarrow> bytes \<Rightarrow> failureClass \<Rightarrow> ci_db
    \<Rightarrow> ci_error + ci_db \<times> Outcome" where
  "commitConfigurationFailure ce ids now item repositoryID path source failure db =
     and_then (CommitWebhookFailedRun ce ids now
         \<lparr>fc_Delivery = item, fc_RepositoryID = repositoryID, fc_PipelinePath = path,
          fc_ConfigSHA256 = hex_encode (sha256 (ce_runtime ce) source), fc_ErrorCode = fl_code failure,
          fc_ErrorSummary = fl_summary failure, fc_CreatedAt = now\<rparr> db)
       (\<lambda>(db1, result). Inr (db1, if rt_Created result then OutcomeFailedRunCreated else OutcomeFailedRunReused))"

type_synonym fetcher = "Event \<Rightarrow> string \<Rightarrow> ci_error + uuid \<times> bytes"

definition run_pipeline :: "ci_env \<Rightarrow> ci_ids \<Rightarrow> gotime \<Rightarrow> WorkItem \<Rightarrow> uuid \<Rightarrow> string \<Rightarrow> bytes \<Rightarrow> ci_db \<Rightarrow> ci_error + ci_db \<times> Outcome" where
  "run_pipeline ce ids now item repositoryID path source db =
     (case Compile (ce_runtime ce) source now of
        Inl _ \<Rightarrow> commitConfigurationFailure ce ids now item repositoryID path source (classifyFailure CiInvalidPipeline) db
      | Inr plan \<Rightarrow>
          and_then (CommitWebhookRun ce ids now
              \<lparr>cm_Delivery = item, cm_RepositoryID = repositoryID, cm_PipelinePath = path, cm_PipelineSource = source,
               cm_Plan = plan, cm_CreatedAt = now\<rparr> db)
            (\<lambda>(db1, result). Inr (db1, if rt_Created result then OutcomeRunCreated else OutcomeRunReused)))"

definition process :: "ci_env \<Rightarrow> ci_ids \<Rightarrow> gotime \<Rightarrow> fetcher \<Rightarrow> WorkItem \<Rightarrow> ci_db \<Rightarrow> ci_error + ci_db \<times> Outcome" where
  "process ce ids now fetch item db =
     (let event = wi_Event item in
      if wi_ID item = uuid_Nil \<or> wi_LeaseID item = uuid_Nil \<or> (ev_Provider event \<noteq> GitHub \<and> ev_Provider event \<noteq> Gitee) \<or>
         repo_ExternalID (ev_Repository event) = [] \<or> wi_Attempt item < 1
      then Inl CiInvalidDelivery
      else
        and_then (if ev_Provider event = Gitee then RuntimeAutomationForProvider Gitee (repo_ExternalID (ev_Repository event)) db
                  else RuntimeAutomationForGitHub (repo_ExternalID (ev_Repository event)) db) (\<lambda>(repositoryID, settings).
          if \<not> aset_Enabled settings
          then ignore now item OutcomeIgnoredDisabled ''automation_disabled'' ''Project automation is disabled'' db
          else if ev_Type event = EventPullRequest \<and> map_get [] (ev_Metadata event) ''fork'' \<noteq> ''false''
          then ignore now item OutcomeIgnoredFork ''external_fork'' ''External fork pull request is not trusted'' db
          else if \<not> triggerEnabled settings (ev_Type event)
          then ignore now item OutcomeIgnoredTrigger ''trigger_disabled'' ''Event type is not enabled for this project'' db
          else
            (case fetch event (aset_PipelinePath settings) of
               Inl e \<Rightarrow>
                 if e = CiScm ScmNotFound
                 then commitConfigurationFailure ce ids now item repositoryID (aset_PipelinePath settings) [] (classifyFailure e) db
                 else Inl e
             | Inr (repository, source) \<Rightarrow>
                 if repository \<noteq> repositoryID then Inl CiRepositoryMismatch
                 else run_pipeline ce ids now item repositoryID (aset_PipelinePath settings) source db)))"

definition finalizeFailure :: "gotime \<Rightarrow> WorkItem \<Rightarrow> ci_error \<Rightarrow> ci_db \<Rightarrow> ci_error + ci_db \<times> Outcome" where
  "finalizeFailure now item err db =
     (let failure = classifyFailure err in
      if fl_transient failure \<and> wi_Attempt item < MaxAttempts
      then and_then (finalize_delivery now item FinalRetry (now + retryDelay (wi_Attempt item)) (fl_code failure) (fl_summary failure) db)
             (\<lambda>db1. Inr (db1, OutcomeRetryScheduled))
      else and_then (finalize_delivery now item FinalDead time_zero
               (if fl_transient failure then ''retry_exhausted'' else fl_code failure)
               (if fl_transient failure then ''GitHub delivery processing failed after the retry limit'' else fl_summary failure) db)
             (\<lambda>db1. Inr (db1, OutcomeDeadLettered)))"

definition Process :: "ci_env \<Rightarrow> ci_ids \<Rightarrow> gotime \<Rightarrow> fetcher \<Rightarrow> WorkItem \<Rightarrow> ci_db \<Rightarrow> ci_error + ci_db \<times> Outcome" where
  "Process ce ids now fetch item db =
     (case process ce ids now fetch item db of
        Inr result \<Rightarrow> Inr result
      | Inl err \<Rightarrow>
          if wi_ID item = uuid_Nil \<or> wi_LeaseID item = uuid_Nil then Inl CiInvalidDelivery
          else finalizeFailure now item err db)"

section \<open>The worker\<close>

definition WebhookLeaseDuration :: duration where "WebhookLeaseDuration = Minute"
definition WebhookRecoveryBatch :: int where "WebhookRecoveryBatch = 100"

definition recover_hooks :: "gotime \<Rightarrow> ci_db \<Rightarrow> ci_db" where
  "recover_hooks now db =
     (case RecoverWebhookLeases now WebhookRecoveryBatch (ci_hooks db) of
        Inl _ \<Rightarrow> db
      | Inr (rows, _) \<Rightarrow> db\<lparr>ci_hooks := rows\<rparr>)"

text \<open>
  One round of the worker claims a delivery and processes it; errors are only logged. \<open>hr_tick\<close> is the time at which
  the recovery ticker fires before the idle timer, if it does.
\<close>

record hook_round =
  hr_lease :: uuid
  hr_claimed_at :: gotime
  hr_now :: gotime
  hr_ids :: ci_ids
  hr_fetch :: fetcher
  hr_tick :: "gotime option"

definition claim_and_process :: "ci_env \<Rightarrow> hook_round \<Rightarrow> ci_db \<Rightarrow> ci_db" where
  "claim_and_process ce w db =
     (case ClaimWebhook (ce_codec ce) (hr_lease w) (hr_claimed_at w) WebhookLeaseDuration (ci_hooks db) of
        (rows, item) \<Rightarrow>
          (let db1 = db\<lparr>ci_hooks := rows\<rparr> in
           case item of
             Inl _ \<Rightarrow> db1
           | Inr work \<Rightarrow> (case Process ce (hr_ids w) (hr_now w) (hr_fetch w) work db1 of Inl _ \<Rightarrow> db1 | Inr (db2, _) \<Rightarrow> db2)))"

fun hook_rounds :: "ci_env \<Rightarrow> hook_round list \<Rightarrow> ci_db \<Rightarrow> ci_db" where
  "hook_rounds ce [] db = db"
| "hook_rounds ce (w # ws) db =
     (let db1 = claim_and_process ce w db in
      hook_rounds ce ws (case hr_tick w of None \<Rightarrow> db1 | Some t \<Rightarrow> recover_hooks t db1))"

definition hook_worker_Run :: "ci_env \<Rightarrow> gotime \<Rightarrow> hook_round list \<Rightarrow> ci_db \<Rightarrow> ci_db" where
  "hook_worker_Run ce start ws db = hook_rounds ce ws (recover_hooks start db)"

end
