(* ===== verification/Pg_Refine.thy ===== *)
theory Pg_Refine
  imports Run_Access Run_Machine Pipeline_Compile
begin

text \<open>
  The PostgreSQL store implements the run machine too, now with cancellation and with reruns that take over
  succeeded jobs. \<open>pg_step\<close> is the store as a transition system: one rule per transaction, with any arguments.
  Runs that were stored without jobs (files that could not be compiled) are not part of the abstract view.
  The store is the second interpretation of the contract \<open>run_store\<close>.
\<close>

section \<open>The store as a transition system\<close>

text \<open>
  The last two rules are for the other components: they may record a run that has no jobs, and change anything
  outside the tables of runs and jobs (sessions, members, runners, repositories, the outbox).
\<close>

inductive pg_step :: "pg_env \<Rightarrow> pg_db \<Rightarrow> pg_db \<Rightarrow> bool" for env where
  create: "Store_Create env newID sid now record db = Inr (db', out) \<Longrightarrow> rec_Status record = StatusQueued \<Longrightarrow> pg_step env db db'"
| claim: "Store_ClaimJob env token now db = Inr (db', out) \<Longrightarrow> pg_step env db db'"
| start: "Store_StartJob env now job token db = Inr db' \<Longrightarrow> pg_step env db db'"
| complete: "Store_CompleteJob env sid now job token status db = Inr db' \<Longrightarrow> pg_step env db db'"
| claim_runner: "Store_ClaimRunnerJob env token now runner db = Inr (db', out) \<Longrightarrow> pg_step env db db'"
| release: "Store_ReleaseRunnerJob env now request db = Inr db' \<Longrightarrow> pg_step env db db'"
| acknowledge: "Store_AcknowledgeRunnerJob env now request db = Inr (db', state) \<Longrightarrow> pg_step env db db'"
| start_runner: "Store_StartRunnerJob env now request db = Inr (db', state) \<Longrightarrow> pg_step env db db'"
| renew: "Store_RenewRunnerLeases env now heartbeat db = Inr (db', answer) \<Longrightarrow> pg_step env db db'"
| complete_runner: "Store_CompleteRunnerJob env sid now completion db = Inr db' \<Longrightarrow> pg_step env db db'"
| recover: "Store_RecoverExpiredRunnerLeases env sids now limit db = Inr (db', counts) \<Longrightarrow> pg_step env db db'"
| create_authorized: "CreateAuthorizedRun env newID sid now session project record db = Inr (db', out) \<Longrightarrow>
     rec_Status record = StatusQueued \<Longrightarrow> pg_step env db db'"
| cancel: "CancelAuthorizedRun env sid now session project run db = Inr (db', answer) \<Longrightarrow> pg_step env db db'"
| rerun: "RerunAuthorizedRun env newID newRun sid now session project run mode request db = Inr (db', out) \<Longrightarrow> pg_step env db db'"
| record_run: "pg_runs db' = pg_runs db @ [r] \<Longrightarrow> rw_id r \<notin> rw_id ` set (pg_runs db) \<Longrightarrow> pg_jobs db' = pg_jobs db \<Longrightarrow>
     pg_step env db db'"
| elsewhere: "pg_runs db' = pg_runs db \<Longrightarrow> pg_jobs db' = pg_jobs db \<Longrightarrow> pg_step env db db'"

abbreviation pg_steps :: "pg_env \<Rightarrow> pg_db \<Rightarrow> pg_db \<Rightarrow> bool" where
  "pg_steps env \<equiv> (pg_step env)\<^sup>*\<^sup>*"

definition empty_identity :: identity_db where
  "empty_identity = \<lparr>db_instance = None, db_organizations = [], db_repositories = [], db_environments = [], db_users = [],
     db_sessions = [], db_memberships = [], db_audit = []\<rparr>"

definition empty_db :: pg_db where
  "empty_db = \<lparr>pg_identity = empty_identity, pg_repos = [], pg_runs = [], pg_jobs = [], pg_runners = [], pg_outbox = []\<rparr>"

section \<open>The abstract view\<close>

definition row_view :: "pg_job \<Rightarrow> job_view" where
  "row_view j = \<lparr>jv_run = jb_run j, jv_key = jb_key j, jv_deps = jb_deps j, jv_status = jb_status j\<rparr>"

definition row_info :: "run_row \<Rightarrow> Status \<times> gotime option" where
  "row_info r = (rw_status r, rec_FinishedAt (rw_rec r))"

definition pg_views :: "pg_db \<Rightarrow> job_view list" where
  "pg_views db = map row_view (pg_jobs db)"

definition run_infos :: "run_row list \<Rightarrow> run_table" where
  "run_infos rows = map_of (map (\<lambda>r. (rw_id r, row_info r)) rows)"

definition pg_table :: "pg_db \<Rightarrow> run_table" where
  "pg_table db = run_infos (pg_runs db) |` (jb_run ` set (pg_jobs db))"

definition pg_view :: "pg_db \<Rightarrow> store_view" where
  "pg_view db = (pg_views db, pg_table db)"

text \<open>The keys and dependencies of the jobs that a plan describes, and of the jobs of a run.\<close>

definition plan_graph :: "pg_env \<Rightarrow> bytes \<Rightarrow> (string \<times> string list) set" where
  "plan_graph env plan =
     (case env_plan env plan of
        None \<Rightarrow> {}
      | Some p \<Rightarrow> (\<lambda>(stage, job). (job_key (ps_Name stage) (pj_Name job), job_dependencies (plan_Stages p) stage job)) `
                   set (plan_pairs (plan_Stages p)))"

definition row_graph :: "uuid \<Rightarrow> pg_job list \<Rightarrow> (string \<times> string list) set" where
  "row_graph r rows = {x. (r, x) \<in> (\<lambda>j. (jb_run j, jb_key j, jb_deps j)) ` set rows}"

text \<open>The constraints of the tables, and that the jobs of a run are those of its plan.\<close>

definition pg_wf :: "pg_env \<Rightarrow> pg_db \<Rightarrow> bool" where
  "pg_wf env db \<longleftrightarrow>
     distinct (map rw_id (pg_runs db)) \<and> distinct (map jb_id (pg_jobs db)) \<and>
     distinct (map (\<lambda>j. (jb_run j, jb_key j)) (pg_jobs db)) \<and>
     jb_run ` set (pg_jobs db) \<subseteq> rw_id ` set (pg_runs db) \<and>
     (\<forall>r\<in>set (pg_runs db). row_graph (rw_id r) (pg_jobs db) = {} \<or>
        row_graph (rw_id r) (pg_jobs db) = plan_graph env (rec_Plan (rw_rec r)))"

definition pg_ok :: "pg_env \<Rightarrow> pg_db \<Rightarrow> bool" where
  "pg_ok env db \<longleftrightarrow> pg_wf env db \<and> store_inv True (pg_view db)"

section \<open>Updates of rows on the abstract view\<close>

lemma row_view_sel [simp]:
  "jv_run (row_view j) = jb_run j" "jv_key (row_view j) = jb_key j" "jv_deps (row_view j) = jb_deps j"
  "jv_status (row_view j) = jb_status j"
  by (simp_all add: row_view_def)

lemma length_pg_views [simp]: "length (pg_views db) = length (pg_jobs db)"
  by (simp add: pg_views_def)

lemma nth_pg_views [simp]: "i < length (pg_jobs db) \<Longrightarrow> pg_views db ! i = row_view (pg_jobs db ! i)"
  by (simp add: pg_views_def)

lemma pg_view_cong: "pg_runs db' = pg_runs db \<Longrightarrow> pg_jobs db' = pg_jobs db \<Longrightarrow> pg_view db' = pg_view db"
  by (simp add: pg_view_def pg_views_def pg_table_def)

lemma pg_wf_cong: "pg_runs db' = pg_runs db \<Longrightarrow> pg_jobs db' = pg_jobs db \<Longrightarrow> pg_wf env db' \<longleftrightarrow> pg_wf env db"
  by (simp add: pg_wf_def)

lemma update_jobs_sel [simp]: "pg_runs (update_jobs p f db) = pg_runs db" "pg_jobs (update_jobs p f db) = update_where p f (pg_jobs db)"
  "pg_outbox (update_jobs p f db) = pg_outbox db" "pg_runners (update_jobs p f db) = pg_runners db" "pg_repos (update_jobs p f db) = pg_repos db"
  by (simp_all add: update_jobs_def)

lemma update_runs_sel [simp]: "pg_jobs (update_runs p f db) = pg_jobs db"
  "pg_runs (update_runs p f db) = update_where p (\<lambda>r. r\<lparr>rw_rec := f (rw_rec r)\<rparr>) (pg_runs db)"
  "pg_outbox (update_runs p f db) = pg_outbox db" "pg_runners (update_runs p f db) = pg_runners db" "pg_repos (update_runs p f db) = pg_repos db"
  by (simp_all add: update_runs_def)

lemma write_event_sel [simp]: "pg_runs (write_event e db) = pg_runs db" "pg_jobs (write_event e db) = pg_jobs db"
  "pg_outbox (write_event e db) = pg_outbox db" "pg_repos (write_event e db) = pg_repos db"
  by (simp_all add: write_event_def)

text \<open>A statement that affected one row replaced the row at one place.\<close>

lemma affected_one:
  assumes "affected p rows = 1"
  obtains k where "k < length rows" "p (rows ! k)" "\<And>f. update_where p f rows = rows[k := f (rows ! k)]"
proof -
  have "\<exists>k<length rows. p (rows ! k) \<and> (\<forall>f. update_where p f rows = rows[k := f (rows ! k)])"
    using assms
  proof (induction rows)
    case (Cons x rows)
    show ?case
    proof (cases "p x")
      case True
      then have "filter p rows = []" using Cons.prems by (simp add: affected_def)
      then have "update_where p f rows = rows" for f by (auto simp: update_where_def filter_empty_conv intro: map_idI)
      then show ?thesis using True by (intro exI [of _ 0]) (simp add: update_where_def)
    next
      case False
      then obtain k where "k < length rows" "p (rows ! k)" "\<forall>f. update_where p f rows = rows[k := f (rows ! k)]"
        using Cons by (auto simp: affected_def)
      then show ?thesis using False by (intro exI [of _ "Suc k"]) (simp add: update_where_def)
    qed
  qed (simp add: affected_def)
  then show ?thesis using that by blast
qed

text \<open>An update that leaves the run, the key and the dependencies of a row, and gives it the status \<open>s\<close>.\<close>

definition gives :: "JobStatus \<Rightarrow> (pg_job \<Rightarrow> pg_job) \<Rightarrow> bool" where
  "gives s f \<longleftrightarrow> (\<forall>j. jb_id (f j) = jb_id j \<and> row_view (f j) = (row_view j)\<lparr>jv_status := s\<rparr>)"

definition keeps_rows :: "(pg_job \<Rightarrow> pg_job) \<Rightarrow> bool" where
  "keeps_rows f \<longleftrightarrow> (\<forall>j. jb_id (f j) = jb_id j \<and> jb_run (f j) = jb_run j \<and> jb_key (f j) = jb_key j \<and> jb_deps (f j) = jb_deps j)"

lemma gives_keeps: "gives s f \<Longrightarrow> keeps_rows f"
  by (simp add: gives_def keeps_rows_def row_view_def)

lemma lease_update_at:
  assumes "lease_update p f db = Inr db'"
  obtains k where "k < length (pg_jobs db)" "p (pg_jobs db ! k)" "db' = update_jobs p f db"
    "pg_jobs db' = (pg_jobs db)[k := f (pg_jobs db ! k)]"
proof -
  have a: "affected p (pg_jobs db) = 1" and d: "db' = update_jobs p f db"
    using assms by (simp_all add: lease_update_def split: if_splits)
  obtain k where "k < length (pg_jobs db)" "p (pg_jobs db ! k)" "\<And>f. update_where p f (pg_jobs db) = (pg_jobs db)[k := f (pg_jobs db ! k)]"
    using affected_one [OF a] by metis
  then show ?thesis using that d by simp
qed

lemma pg_views_set:
  assumes "k < length (pg_jobs db)" "pg_jobs db' = (pg_jobs db)[k := f (pg_jobs db ! k)]" "gives s f"
  shows "pg_views db' = set_status k s (pg_views db)"
  using assms by (simp add: pg_views_def set_status_def map_update gives_def)

lemma runs_update: "keeps_rows f \<Longrightarrow> jb_run ` set (update_where p f rows) = jb_run ` set rows"
  by (simp add: keeps_rows_def)

lemma pg_table_jobs: "keeps_rows f \<Longrightarrow> pg_table (update_jobs p f db) = pg_table db"
  by (simp add: pg_table_def runs_update)

lemma row_graph_update: "keeps_rows f \<Longrightarrow> row_graph r (update_where p f rows) = row_graph r rows"
  by (simp add: row_graph_def keeps_rows_def)

lemma pg_wf_update_jobs: "keeps_rows f \<Longrightarrow> pg_wf env db \<Longrightarrow> pg_wf env (update_jobs p f db)"
  by (simp add: pg_wf_def row_graph_update) (simp add: keeps_rows_def)

section \<open>Updates of runs on the abstract view\<close>

lemma map_of_update_where:
  assumes "\<And>r. k (f r) = k r" and "\<And>r. k r = i \<Longrightarrow> g (f r) = h (g r)"
  shows "map_of (map (\<lambda>r. (k r, g r)) (update_where (\<lambda>r. k r = i) f rows)) = update_run i h (map_of (map (\<lambda>r. (k r, g r)) rows))"
  using assms by (induction rows) (auto simp: fun_eq_iff update_run_def update_where_def)

lemma run_infos_update:
  assumes "\<And>x. rec_ID (f x) = rec_ID x" "\<And>x. (rec_Status (f x), rec_FinishedAt (f x)) = h (rec_Status x, rec_FinishedAt x)"
  shows "run_infos (update_where (\<lambda>r. rw_id r = i) (\<lambda>r. r\<lparr>rw_rec := f (rw_rec r)\<rparr>) rows) = update_run i h (run_infos rows)"
  unfolding run_infos_def by (rule map_of_update_where) (use assms in \<open>simp_all add: row_info_def\<close>)

lemma update_run_restrict: "update_run i h (t |` D) = update_run i h t |` D"
  by (auto simp: update_run_def restrict_map_def fun_eq_iff)

lemma pg_table_update:
  assumes "\<And>x. rec_ID (f x) = rec_ID x" "\<And>x. (rec_Status (f x), rec_FinishedAt (f x)) = h (rec_Status x, rec_FinishedAt x)"
  shows "pg_table (update_runs (\<lambda>r. rw_id r = i) f db) = update_run i h (pg_table db)"
  using run_infos_update [OF assms, of i "pg_runs db"] by (simp add: pg_table_def update_run_restrict)

lemma update_where_conj: "update_where (\<lambda>r. a r \<and> b r) f rows = update_where a (\<lambda>r. if b r then f r else r) rows"
  by (simp add: update_where_def)

lemma pg_wf_update_runs:
  assumes "\<And>x. rec_ID (f x) = rec_ID x \<and> rec_Plan (f x) = rec_Plan x" and "pg_wf env db"
  shows "pg_wf env (update_runs p f db)"
proof -
  have m: "map rw_id (update_where p (\<lambda>r. r\<lparr>rw_rec := f (rw_rec r)\<rparr>) (pg_runs db)) = map rw_id (pg_runs db)"
    using assms(1) by simp
  have "rw_id ` set (update_where p (\<lambda>r. r\<lparr>rw_rec := f (rw_rec r)\<rparr>) (pg_runs db)) = rw_id ` set (pg_runs db)"
    using assms(1) by (intro image_update_where) simp
  moreover have "\<exists>y\<in>set (pg_runs db). rw_id x = rw_id y \<and> rec_Plan (rw_rec x) = rec_Plan (rw_rec y)"
    if x: "x \<in> set (update_where p (\<lambda>r. r\<lparr>rw_rec := f (rw_rec r)\<rparr>) (pg_runs db))" for x
  proof -
    obtain y where "y \<in> set (pg_runs db)" "x = y\<lparr>rw_rec := f (rw_rec y)\<rparr> \<or> x = y"
      using x unfolding set_update_where by blast
    then show ?thesis using assms(1) by auto
  qed
  ultimately show ?thesis using m assms(2) unfolding pg_wf_def update_runs_sel by fastforce
qed

lemma start_run_table:
  "pg_table (start_run now i db) = update_run i (\<lambda>(st, fin). (if st = StatusQueued then StatusRunning else st, fin)) (pg_table db)"
proof -
  have "start_run now i db = update_runs (\<lambda>r. rw_id r = i)
      (\<lambda>r. if rec_Status r = StatusQueued
           then r\<lparr>rec_Status := StatusRunning, rec_StartedAt := Some (coalesce (rec_StartedAt r) now)\<rparr> else r) db"
    by (simp add: start_run_def update_runs_def update_where_def)
  then show ?thesis by (simp add: pg_table_update)
qed

lemma start_run_sel [simp]: "pg_jobs (start_run now i db) = pg_jobs db"
  by (simp add: start_run_def)

lemma start_run_wf: "pg_wf env db \<Longrightarrow> pg_wf env (start_run now i db)"
  unfolding start_run_def by (rule pg_wf_update_runs) simp_all

lemma finish_run_row_table:
  "pg_table (finish_run_row now s i db) = update_run i (\<lambda>_. (s, Some now)) (pg_table db)"
  unfolding finish_run_row_def by (rule pg_table_update) simp_all

lemma finish_run_row_sel [simp]: "pg_jobs (finish_run_row now s i db) = pg_jobs db"
  by (simp add: finish_run_row_def)

lemma finish_run_row_wf: "pg_wf env db \<Longrightarrow> pg_wf env (finish_run_row now s i db)"
  unfolding finish_run_row_def by (rule pg_wf_update_runs) simp_all

text \<open>Reporting a status touches only the outbox.\<close>

lemma report_status_same:
  assumes "report_status env sid now r s db = Inr db'"
  shows "pg_runs db' = pg_runs db" "pg_jobs db' = pg_jobs db" "pg_repos db' = pg_repos db" "pg_runners db' = pg_runners db"
    "pg_identity db' = pg_identity db"
  using assms by (auto simp: report_status_def split: sum.splits)

lemma report_status_view:
  assumes "report_status env sid now r s db = Inr db'"
  shows "pg_view db' = pg_view db" "pg_wf env' db' \<longleftrightarrow> pg_wf env' db"
  using pg_view_cong pg_wf_cong report_status_same(1,2) [OF assms] by blast+

section \<open>Simulation of the leases\<close>

definition simulates :: "pg_env \<Rightarrow> pg_db \<Rightarrow> pg_db \<Rightarrow> bool" where
  "simulates env db db' \<longleftrightarrow> pg_wf env db' \<and> run_steps True (pg_view db) (pg_view db')"

lemma simulates_refl: "pg_wf env db' \<Longrightarrow> pg_view db' = pg_view db \<Longrightarrow> simulates env db db'"
  by (simp add: simulates_def)

lemma simulates_step: "pg_wf env db' \<Longrightarrow> run_step True (pg_view db) (pg_view db') \<Longrightarrow> simulates env db db'"
  by (simp add: simulates_def)

lemma simulates_trans: "simulates env a b \<Longrightarrow> simulates env b d \<Longrightarrow> simulates env a d"
  by (auto simp: simulates_def)

lemma simulates_same:
  assumes "simulates env db db1" "pg_runs db' = pg_runs db1" "pg_jobs db' = pg_jobs db1"
  shows "simulates env db db'"
  using assms pg_view_cong [of db' db1] pg_wf_cong [of db' db1] by (simp add: simulates_def)

text \<open>An update that does not show.\<close>

lemma update_hidden:
  assumes "\<And>j. jb_id (f j) = jb_id j \<and> row_view (f j) = row_view j" and "pg_wf env db"
  shows "simulates env db (update_jobs p f db)"
proof (rule simulates_refl)
  have k: "keeps_rows f" using assms(1) by (simp add: keeps_rows_def row_view_def)
  then show "pg_wf env (update_jobs p f db)" using assms(2) by (rule pg_wf_update_jobs)
  have "pg_views (update_jobs p f db) = pg_views db" using assms(1) by (simp add: pg_views_def)
  then show "pg_view (update_jobs p f db) = pg_view db"
    using k by (simp add: pg_view_def pg_table_jobs)
qed

lemma lease_update_view:
  assumes "lease_update p f db = Inr db'" "gives s f" "pg_wf env db"
  obtains k where "k < length (pg_jobs db)" "p (pg_jobs db ! k)" "pg_view db' = (set_status k s (pg_views db), pg_table db)"
    "pg_wf env db'"
proof -
  obtain k where k: "k < length (pg_jobs db)" "p (pg_jobs db ! k)" "db' = update_jobs p f db"
    "pg_jobs db' = (pg_jobs db)[k := f (pg_jobs db ! k)]"
    using lease_update_at [OF assms(1)] .
  have f: "keeps_rows f" using assms(2) by (rule gives_keeps)
  have "pg_table db' = pg_table db" using k(3) f by (simp add: pg_table_jobs)
  then show ?thesis
    using that k pg_views_set [OF k(1,4) assms(2)] pg_wf_update_jobs [OF f assms(3)] by (simp add: pg_view_def)
qed

lemma row_at:
  assumes "pg_wf env db" "k < length (pg_jobs db)" "j \<in> set (pg_jobs db)" "jb_id (pg_jobs db ! k) = jb_id j"
  shows "pg_jobs db ! k = j"
  using assms by (auto simp: pg_wf_def distinct_map inj_on_def)

lemma run_infos_in: "distinct (map rw_id rows) \<Longrightarrow> r \<in> set rows \<Longrightarrow> run_infos rows (rw_id r) = Some (row_info r)"
  unfolding run_infos_def by (rule map_of_is_SomeI) (auto simp: comp_def)

lemma table_in:
  assumes "pg_wf env db" "r \<in> set (pg_runs db)" "rw_id r \<in> jb_run ` set (pg_jobs db)"
  shows "pg_table db (rw_id r) = Some (row_info r)"
  using assms run_infos_in by (simp add: pg_table_def pg_wf_def)

lemma update_run_cong: "(\<And>x. t i = Some x \<Longrightarrow> f x = g x) \<Longrightarrow> update_run i f t = update_run i g t"
  by (cases "t i") (simp_all add: update_run_def)

lemma claim_simulates:
  assumes wf: "pg_wf env db" and r: "first_run q db = Some r" and j: "first_job q' (rw_id r) db = Some j"
    and u: "lease_update (\<lambda>x. jb_id x = jb_id j \<and> jb_status x = JobQueued) f db = Inr db1" and f: "gives JobAssigned f"
  shows "simulates env db (start_run now (rw_id r) db1)"
proof -
  have rr: "r \<in> set (pg_runs db)" "open_run r" using r by (auto simp: first_run_def dest!: first_by_Some)
  have jj: "j \<in> set (pg_jobs db)" "jb_run j = rw_id r" using j by (auto simp: first_job_def dest!: first_by_Some)
  obtain k where k: "k < length (pg_jobs db)" "jb_id (pg_jobs db ! k) = jb_id j" "jb_status (pg_jobs db ! k) = JobQueued"
    "pg_view db1 = (set_status k JobAssigned (pg_views db), pg_table db)" "pg_wf env db1"
    using lease_update_view [OF u f wf] by metis
  have kj: "pg_jobs db ! k = j" using row_at [OF wf k(1) jj(1) k(2)] .
  have info: "pg_table db (rw_id r) = Some (row_info r)" using table_in [OF wf rr(1)] jj by force
  then have op: "\<forall>st fin. pg_table db (rw_id r) = Some (st, fin) \<longrightarrow> \<not> Terminal st"
    using rr(2) by (auto simp: row_info_def open_run_def Terminal_def)
  from info have t: "update_run (rw_id r) (\<lambda>(st, fin). (if st = StatusQueued then StatusRunning else st, fin)) (pg_table db) =
      update_run (rw_id r) (\<lambda>(_, fin). (StatusRunning, fin)) (pg_table db)"
    using rr(2) by (intro update_run_cong) (auto simp: row_info_def open_run_def)
  have v: "pg_view (start_run now (rw_id r) db1) =
      (set_status k JobAssigned (pg_views db), update_run (rw_id r) (\<lambda>(_, fin). (StatusRunning, fin)) (pg_table db))"
    using k(4) t by (simp add: pg_view_def start_run_table) (simp add: pg_views_def)
  have "run_step True (pg_view db) (pg_view (start_run now (rw_id r) db1))"
    using run_step.assign [of k "pg_views db" True "pg_table db"] k kj jj v op by (simp add: pg_view_def)
  then show ?thesis using start_run_wf [OF k(5)] by (intro simulates_step)
qed

section \<open>Simulation of a completion\<close>

lemma dependency_done_iff:
  assumes "distinct (map (\<lambda>j. (jb_run j, jb_key j)) rows)"
  shows "dependency_done rows r d \<longleftrightarrow> view_states r (map row_view rows) d = Some JobSucceeded"
  using assms
proof (induction rows)
  case (Cons x rows)
  have n: "view_states r (map row_view rows) d = None" if "jb_run x = r" "jb_key x = d"
  proof -
    have "d \<notin> jb_key ` {j \<in> set rows. jb_run j = r}" using Cons.prems that by (auto simp: image_iff)
    then show ?thesis by (auto simp: view_states_def map_of_eq_None_iff image_iff)
  qed
  show ?case using Cons n by (auto simp: dependency_done_def view_states_Cons split: option.splits)
qed (simp add: dependency_done_def)

lemma unblock_rows_view:
  assumes "pg_wf env db"
  shows "pg_view (unblock_rows r db) = (release_deps r (pg_views db), pg_table db)" "pg_wf env (unblock_rows r db)"
proof -
  have k: "keeps_rows (\<lambda>j. j\<lparr>jb_status := JobQueued\<rparr>)" by (simp add: keeps_rows_def)
  show "pg_wf env (unblock_rows r db)" unfolding unblock_rows_def using k assms by (rule pg_wf_update_jobs)
  have d: "list_all (dependency_done (pg_jobs db) (jb_run j)) (jb_deps j) = deps_met (pg_views db) (row_view j)" for j
    using dependency_done_iff [of "pg_jobs db"] assms by (simp add: deps_met_def list_all_iff pg_wf_def pg_views_def)
  let ?p = "\<lambda>j. jb_run j = r \<and> jb_status j = JobBlocked \<and> list_all (dependency_done (pg_jobs db) (jb_run j)) (jb_deps j)"
  have "row_view (if ?p j then j\<lparr>jb_status := JobQueued\<rparr> else j) = release_view r (pg_views db) (row_view j)" for j
    unfolding d release_view_def by (auto simp: row_view_def)
  then have "map (\<lambda>j. row_view (if ?p j then j\<lparr>jb_status := JobQueued\<rparr> else j)) (pg_jobs db) = release_deps r (pg_views db)"
    unfolding release_deps_def by (simp add: pg_views_def [of db])
  then have "pg_views (unblock_rows r db) = release_deps r (pg_views db)"
    by (simp add: unblock_rows_def pg_views_def [of "update_jobs _ _ _"] update_where_def comp_def)
  then show "pg_view (unblock_rows r db) = (release_deps r (pg_views db), pg_table db)"
    using k by (simp add: pg_view_def unblock_rows_def pg_table_jobs)
qed

lemma skip_rows_view:
  assumes "pg_wf env db"
  shows "pg_view (skip_rows t r db) = (skip_views r (pg_views db), pg_table db)" "pg_wf env (skip_rows t r db)"
proof -
  have k: "keeps_rows (\<lambda>j. j\<lparr>jb_status := JobSkipped, jb_finished := Some (t j)\<rparr>)" by (simp add: keeps_rows_def)
  show "pg_wf env (skip_rows t r db)" unfolding skip_rows_def using k assms by (rule pg_wf_update_jobs)
  have "row_view (if jb_run j = r \<and> (jb_status j = JobBlocked \<or> jb_status j = JobQueued)
      then j\<lparr>jb_status := JobSkipped, jb_finished := Some (t j)\<rparr> else j) = skip_view r (row_view j)" for j
    unfolding skip_view_def by (auto simp: row_view_def)
  then have "pg_views (skip_rows t r db) = skip_views r (pg_views db)"
    by (simp add: skip_rows_def pg_views_def update_where_def skip_views_def)
  then show "pg_view (skip_rows t r db) = (skip_views r (pg_views db), pg_table db)"
    using k by (simp add: pg_view_def skip_rows_def pg_table_jobs)
qed

lemma run_job_statuses_set: "set (run_job_statuses r db) = run_statuses r (pg_views db)"
proof -
  have "{v \<in> set (pg_views db). jv_run v = r} = row_view ` {j \<in> set (pg_jobs db). jb_run j = r}" by (auto simp: pg_views_def)
  then show ?thesis by (auto simp: run_job_statuses_def run_statuses_def image_image)
qed

lemma active_not_final: "job_active s \<longleftrightarrow> \<not> job_final s"
  by (cases s) (simp_all add: job_active_def job_final_def)

lemma final_status_outcome: "final_status xs = outcome (set xs)"
  by (simp add: final_status_def outcome_def)

definition settled_views :: "JobStatus \<Rightarrow> uuid \<Rightarrow> job_view list \<Rightarrow> job_view list" where
  "settled_views status r vs = (if status = JobSucceeded then release_deps r vs else skip_views r vs)"

lemma finalize_view:
  assumes "finalizeRunJobs env sid now r status db = Inr db'" and "terminal_request status" and "pg_wf env db"
  shows "pg_view db' = (settled_views status r (pg_views db), finish_run now r (settled_views status r (pg_views db)) (pg_table db))"
    and "pg_wf env db'"
proof -
  define db1 where "db1 = (if status = JobSucceeded then unblock_rows r db else skip_rows (\<lambda>_. now) r db)"
  have f: "(if list_ex job_active (run_job_statuses r db1) then Inr db1
      else report_status env sid now r (final_status (run_job_statuses r db1))
             (finish_run_row now (final_status (run_job_statuses r db1)) r db1)) = Inr db'"
    using assms(1,2) unfolding finalizeRunJobs_def db1_def terminal_request_def Let_def by (auto split: if_splits)
  have v: "pg_view db1 = (settled_views status r (pg_views db), pg_table db)" and w: "pg_wf env db1"
    using unblock_rows_view [OF assms(3)] skip_rows_view [OF assms(3)] by (simp_all add: db1_def settled_views_def)
  have v2: "pg_views db1 = settled_views status r (pg_views db)" "pg_table db1 = pg_table db"
    using v by (simp_all add: pg_view_def)
  have "pg_view db' = (pg_views db1, finish_run now r (pg_views db1) (pg_table db1)) \<and> pg_wf env db'"
  proof (cases "list_ex job_active (run_job_statuses r db1)")
    case True
    then have "\<not> (\<forall>s\<in>run_statuses r (pg_views db1). job_final s)"
      using run_job_statuses_set [of r db1] by (auto simp: list_ex_iff active_not_final)
    then have "finish_run now r (pg_views db1) (pg_table db1) = pg_table db1" unfolding finish_run_def by (rule if_not_P)
    then show ?thesis using f True w by (simp add: pg_view_def)
  next
    case False
    then have a: "\<forall>s\<in>run_statuses r (pg_views db1). job_final s"
      using run_job_statuses_set [of r db1] by (auto simp: list_ex_iff active_not_final)
    have rs: "report_status env sid now r (final_status (run_job_statuses r db1))
             (finish_run_row now (final_status (run_job_statuses r db1)) r db1) = Inr db'" using f False by simp
    show ?thesis
      using report_status_view [OF rs] finish_run_row_wf [OF w] a
      by (simp add: pg_view_def finish_run_row_table finish_run_def final_status_outcome run_job_statuses_set)
        (simp add: pg_views_def)
  qed
  then show "pg_view db' = (settled_views status r (pg_views db), finish_run now r (settled_views status r (pg_views db)) (pg_table db))"
    and "pg_wf env db'" using v2 by simp_all
qed

lemma complete_simulates:
  assumes wf: "pg_wf env db" and t: "terminal_request status" and j: "List.find (\<lambda>j. jb_id j = i) (pg_jobs db) = Some j"
    and u: "lease_update p (complete_row status now) db = Inr db1"
    and p: "\<And>x. p x \<Longrightarrow> jb_id x = i \<and> job_leased (jb_status x)"
    and f: "finalizeRunJobs env sid now (jb_run j) status db1 = Inr db'"
  shows "simulates env db db'"
proof -
  have jj: "j \<in> set (pg_jobs db)" "jb_id j = i" using find_SomeD [OF j] by auto
  have g: "gives status (complete_row status now)" by (simp add: gives_def complete_row_def row_view_def)
  obtain k where k: "k < length (pg_jobs db)" "p (pg_jobs db ! k)"
    "pg_view db1 = (set_status k status (pg_views db), pg_table db)" "pg_wf env db1"
    using lease_update_view [OF u g wf] by metis
  have kj: "pg_jobs db ! k = j" using row_at [OF wf k(1) jj(1)] p [OF k(2)] jj(2) by simp
  have l: "job_leased (jv_status (pg_views db ! k))" "jv_run (pg_views db ! k) = jb_run j"
    using p [OF k(2)] k(1) kj by simp_all
  let ?ws = "settled_views status (jb_run j) (set_status k status (pg_views db))"
  have v: "pg_view db' = (?ws, finish_run now (jb_run j) ?ws (pg_table db))"
    using finalize_view(1) [OF f t k(4)] k(3) by (simp add: pg_view_def)
  have "run_step True (pg_views db, pg_table db) (?ws, finish_run now (jb_run j) ?ws (pg_table db))"
  proof (cases "status = JobSucceeded")
    case True
    then show ?thesis
      using run_step.succeed [of k "pg_views db" ?ws True "pg_table db" now] l k(1) by (simp add: settled_views_def)
  next
    case False
    then show ?thesis
      using run_step.fail [of k "pg_views db" status ?ws True "pg_table db" now] l k(1) t
      by (simp add: settled_views_def terminal_request_def)
  qed
  then show ?thesis using v finalize_view(2) [OF f t k(4)] by (simp add: simulates_step pg_view_def)
qed

section \<open>Simulation of the recovery\<close>

lemma only_row:
  assumes "pg_wf env db" "job \<in> set (pg_jobs db)" "q job"
  shows "affected (\<lambda>j. jb_id j = jb_id job \<and> q j) (pg_jobs db) = 1"
  using affected_unique [of jb_id "pg_jobs db" "\<lambda>j. jb_id j = jb_id job \<and> q j" "jb_id job"] assms by (auto simp: pg_wf_def)

lemma update_row_view:
  assumes wf: "pg_wf env db" and j: "job \<in> set (pg_jobs db)" "q job" and g: "gives s f"
  obtains k where "k < length (pg_jobs db)" "pg_jobs db ! k = job"
    "pg_view (update_jobs (\<lambda>j. jb_id j = jb_id job \<and> q j) f db) = (set_status k s (pg_views db), pg_table db)"
    "pg_wf env (update_jobs (\<lambda>j. jb_id j = jb_id job \<and> q j) f db)"
proof -
  have u: "lease_update (\<lambda>j. jb_id j = jb_id job \<and> q j) f db = Inr (update_jobs (\<lambda>j. jb_id j = jb_id job \<and> q j) f db)"
    using only_row [of env db job q, OF wf j] by (simp add: lease_update_def)
  show ?thesis
    by (rule lease_update_view [OF u g wf], rule that) (use row_at [OF wf _ j(1)] in \<open>simp_all add: pg_view_def\<close>)
qed

lemma other_rows_stay: "x \<in> set rows \<Longrightarrow> \<not> p x \<Longrightarrow> x \<in> set (update_where p f rows)"
  by (simp add: set_update_where)

lemma appendRunnerAudit_sel [simp]: "pg_runs (appendRunnerAudit env a b d i m db) = pg_runs db"
  "pg_jobs (appendRunnerAudit env a b d i m db) = pg_jobs db"
  by (simp_all add: appendRunnerAudit_def)

lemma gives_recovery: "gives JobQueued requeue_row" "gives JobFailed (lost_row now)"
  by (simp_all add: gives_def requeue_row_def lost_row_def row_view_def)

lemma recover_assigned:
  assumes wf: "pg_wf env db" and j: "job \<in> set (pg_jobs db)" "expired_job now job" "jb_status job = JobAssigned"
    and r: "recover_job env now r job (db, failed, n, res) = (db', failed', n', res')"
  obtains k where "k < length (pg_jobs db)" "pg_jobs db ! k = job" "failed' = failed" "n' = n + 1"
    "pg_view db' = (set_status k JobQueued (pg_views db), pg_table db)" "pg_wf env db'" "pg_runs db' = pg_runs db"
    "\<And>x. x \<in> set (pg_jobs db) \<Longrightarrow> jb_id x \<noteq> jb_id job \<Longrightarrow> x \<in> set (pg_jobs db')"
    "res' = res\<lparr>rr_Requeued := rr_Requeued res + 1\<rparr>"
proof -
  let ?q = "\<lambda>j. jb_status j = JobAssigned \<and> lease_over now j"
  let ?p = "\<lambda>j. jb_id j = jb_id job \<and> ?q j"
  have q: "?q job" using j by (simp add: expired_job_def)
  obtain k where k: "k < length (pg_jobs db)" "pg_jobs db ! k = job"
    "pg_view (update_jobs ?p requeue_row db) = (set_status k JobQueued (pg_views db), pg_table db)"
    "pg_wf env (update_jobs ?p requeue_row db)"
    using update_row_view [where q = ?q, OF wf j(1) q gives_recovery(1)] .
  have a: "affected ?p (pg_jobs db) = 1" using only_row [where q = ?q, OF wf j(1) q] .
  have e: "db' = appendRunnerAudit env None ''runner_lease.recovered'' ''job'' (jb_id job)
      (recovery_metadata env ''assigned_requeued'' (jb_runner job)) (update_jobs ?p requeue_row db)"
    "failed' = failed" "n' = n + 1" "res' = res\<lparr>rr_Requeued := rr_Requeued res + 1\<rparr>"
    using r j(3) a by (simp_all add: recover_job_def Let_def)
  show ?thesis
    by (rule that [OF k(1,2) e(2,3)])
      (use k(3,4) e(1,4) pg_view_cong [of db' "update_jobs ?p requeue_row db"] pg_wf_cong [of db' "update_jobs ?p requeue_row db"]
       in \<open>simp_all add: other_rows_stay\<close>)
qed

lemma recover_running:
  assumes wf: "pg_wf env db" and j: "job \<in> set (pg_jobs db)" "expired_job now job" "jb_status job \<noteq> JobAssigned"
    and r: "recover_job env now r job (db, failed, n, res) = (db', failed', n', res')"
  obtains k where "k < length (pg_jobs db)" "pg_jobs db ! k = job" "failed'" "n' = n + 1" "jb_status job = JobRunning"
    "pg_view db' = (skip_views r (set_status k JobFailed (pg_views db)), pg_table db)" "pg_wf env db'" "pg_runs db' = pg_runs db"
    "\<And>x. x \<in> set (pg_jobs db) \<Longrightarrow> jb_id x \<noteq> jb_id job \<Longrightarrow> job_leased (jb_status x) \<Longrightarrow> x \<in> set (pg_jobs db')"
    "res' = res\<lparr>rr_Failed := rr_Failed res + 1\<rparr>"
proof -
  let ?q = "\<lambda>j. jb_status j = JobRunning \<and> lease_over now j"
  let ?p = "\<lambda>j. jb_id j = jb_id job \<and> ?q j"
  have q: "?q job" using j by (simp add: expired_job_def)
  let ?d = "update_jobs ?p (lost_row now) db"
  let ?s = "skip_rows (\<lambda>j. coalesce (jb_finished j) now) r ?d"
  obtain k where k: "k < length (pg_jobs db)" "pg_jobs db ! k = job"
    "pg_view ?d = (set_status k JobFailed (pg_views db), pg_table db)" "pg_wf env ?d"
    using update_row_view [where q = ?q, OF wf j(1) q gives_recovery(2)] .
  have a: "affected ?p (pg_jobs db) = 1" using only_row [where q = ?q, OF wf j(1) q] .
  have e: "db' = appendRunnerAudit env None ''runner_lease.recovered'' ''job'' (jb_id job)
      (recovery_metadata env ''running_failed'' (jb_runner job)) ?s" "failed'" "n' = n + 1"
      "res' = res\<lparr>rr_Failed := rr_Failed res + 1\<rparr>"
    using r j(3) a by (simp_all add: recover_job_def Let_def)
  have s: "pg_view ?s = (skip_views r (set_status k JobFailed (pg_views db)), pg_table db)" "pg_wf env ?s" "pg_runs ?s = pg_runs db"
    using skip_rows_view [OF k(4)] k(3) by (simp_all add: pg_view_def skip_rows_def)
  have m: "x \<in> set (pg_jobs db')" if "x \<in> set (pg_jobs db)" "jb_id x \<noteq> jb_id job" "job_leased (jb_status x)" for x
    unfolding e(1) skip_rows_def appendRunnerAudit_sel update_jobs_sel
    by (intro other_rows_stay) (use that in auto)
  show ?thesis
    by (rule that [OF k(1,2) e(2,3)])
      (use q s m e(1,4) pg_view_cong [of db' ?s] pg_wf_cong [of db' ?s] in \<open>simp_all\<close>)
qed

text \<open>The table of runs as it will be once the run of the batch is marked as failed.\<close>

definition marked :: "bool \<Rightarrow> gotime \<Rightarrow> uuid \<Rightarrow> run_table \<Rightarrow> run_table" where
  "marked failed t r runs = (if failed then update_run r (\<lambda>_. (StatusFailed, Some t)) runs else runs)"

lemma marked_again: "update_run r (\<lambda>_. (StatusFailed, Some t)) (marked failed t r runs) = marked True t r runs"
  by (cases "runs r") (simp_all add: marked_def update_run_def fun_eq_iff)

text \<open>The rows that the rest of a batch is about.\<close>

definition batch :: "gotime \<Rightarrow> uuid \<Rightarrow> pg_db \<Rightarrow> pg_job list \<Rightarrow> bool" where
  "batch now r db jobs \<longleftrightarrow> distinct (map jb_id jobs) \<and>
     (\<forall>j\<in>set jobs. j \<in> set (pg_jobs db) \<and> jb_run j = r \<and> expired_job now j)"

lemma recover_job_step:
  assumes wf: "pg_wf env db" and b: "batch now r db (job # jobs)"
    and r: "recover_job env now r job (db, failed, n, res) = (db', failed', n', res')"
  shows "run_step True (pg_views db, marked failed t r (pg_table db)) (pg_views db', marked failed' t r (pg_table db)) \<and>
    pg_wf env db' \<and> pg_runs db' = pg_runs db \<and> pg_table db' = pg_table db \<and> batch now r db' jobs \<and> n' = n + 1 \<and>
    (failed' \<longleftrightarrow> failed \<or> jb_status job \<noteq> JobAssigned)"
proof -
  have j: "job \<in> set (pg_jobs db)" "jb_run job = r" "expired_job now job" using b by (simp_all add: batch_def)
  have i: "jb_id job \<notin> jb_id ` set jobs" using b by (simp add: batch_def)
  have l: "jb_id x \<noteq> jb_id job" "job_leased (jb_status x)" if "x \<in> set jobs" for x
  proof -
    show "jb_id x \<noteq> jb_id job" using i that imageI [of x "set jobs" jb_id] by metis
    show "job_leased (jb_status x)" using b that by (simp add: batch_def expired_job_def)
  qed
  show ?thesis
  proof (cases "jb_status job = JobAssigned")
    case True
    then obtain k where k: "k < length (pg_jobs db)" "pg_jobs db ! k = job" "failed' = failed" "n' = n + 1"
      "pg_view db' = (set_status k JobQueued (pg_views db), pg_table db)" "pg_wf env db'" "pg_runs db' = pg_runs db"
      "\<And>x. x \<in> set (pg_jobs db) \<Longrightarrow> jb_id x \<noteq> jb_id job \<Longrightarrow> x \<in> set (pg_jobs db')"
      using recover_assigned [OF wf j(1,3) True r] by blast
    have "batch now r db' jobs" using b k(8) l by (auto simp: batch_def)
    moreover have "run_step True (pg_views db, marked failed t r (pg_table db)) (pg_views db', marked failed' t r (pg_table db))"
      using run_step.release [of k "pg_views db" True "marked failed t r (pg_table db)"] k True by (simp add: pg_view_def)
    ultimately show ?thesis using k True by (simp add: pg_view_def)
  next
    case False
    then obtain k where k: "k < length (pg_jobs db)" "pg_jobs db ! k = job" "failed'" "n' = n + 1" "jb_status job = JobRunning"
      "pg_view db' = (skip_views r (set_status k JobFailed (pg_views db)), pg_table db)" "pg_wf env db'" "pg_runs db' = pg_runs db"
      "\<And>x. x \<in> set (pg_jobs db) \<Longrightarrow> jb_id x \<noteq> jb_id job \<Longrightarrow> job_leased (jb_status x) \<Longrightarrow> x \<in> set (pg_jobs db')"
      using recover_running [OF wf j(1,3) False r] by blast
    have "batch now r db' jobs" using b k(9) l by (auto simp: batch_def)
    moreover have "run_step True (pg_views db, marked failed t r (pg_table db)) (pg_views db', marked failed' t r (pg_table db))"
      using run_step.expire [of k "pg_views db" True "marked failed t r (pg_table db)" t] k j(2)
      by (simp add: pg_view_def marked_again)
    ultimately show ?thesis using k by (simp add: pg_view_def)
  qed
qed

lemma recover_batch:
  assumes "pg_wf env db" and "batch now r db (jobs @ rest)"
    and "fold (recover_job env now r) jobs (db, failed, n, res) = (db', failed', n', res')"
  shows "run_steps True (pg_views db, marked failed t r (pg_table db)) (pg_views db', marked failed' t r (pg_table db)) \<and>
    pg_wf env db' \<and> pg_runs db' = pg_runs db \<and> pg_table db' = pg_table db \<and> n' = n + int (length jobs) \<and> batch now r db' rest \<and>
    (failed' \<longleftrightarrow> failed \<or> (\<exists>j\<in>set jobs. jb_status j \<noteq> JobAssigned))"
  using assms
proof (induction jobs arbitrary: db failed n res)
  case (Cons job jobs)
  obtain db1 failed1 n1 res1 where e: "recover_job env now r job (db, failed, n, res) = (db1, failed1, n1, res1)"
    by (metis prod_cases4)
  have b: "batch now r db (job # jobs @ rest)" using Cons.prems(2) by simp
  note s = recover_job_step [OF Cons.prems(1) b e, of t]
  have "fold (recover_job env now r) jobs (db1, failed1, n1, res1) = (db', failed', n', res')"
    using Cons.prems(3) e by simp
  from Cons.IH [OF _ _ this] s show ?case by (auto intro: converse_rtranclp_into_rtranclp)
qed simp

lemma requeue_run_view: "pg_view (requeue_run r db) = (pg_views db, reset_run r (pg_views db) (pg_table db))"
proof -
  have "pg_table (update_runs (\<lambda>x. rw_id x = r)
      (\<lambda>x. x\<lparr>rec_Status := StatusQueued, rec_StartedAt := None, rec_FinishedAt := None\<rparr>) db) =
      update_run r (\<lambda>_. (StatusQueued, None)) (pg_table db)" (is "pg_table ?d = _")
    by (rule pg_table_update) simp_all
  moreover have "pg_views ?d = pg_views db" by (simp add: pg_views_def)
  moreover have "list_ex (\<lambda>s. s = JobRunning \<or> s = JobSucceeded \<or> s = JobFailed \<or> s = JobCanceled) (run_job_statuses r db) \<longleftrightarrow>
      run_statuses r (pg_views db) \<inter> {JobRunning, JobSucceeded, JobFailed, JobCanceled} \<noteq> {}"
    unfolding list_ex_iff run_job_statuses_set by blast
  ultimately show ?thesis unfolding requeue_run_def reset_run_def pg_view_def by simp
qed

lemma requeue_run_wf: "pg_wf env db \<Longrightarrow> pg_wf env (requeue_run r db)"
  unfolding requeue_run_def by (cases "list_ex (\<lambda>s. s = JobRunning \<or> s = JobSucceeded \<or> s = JobFailed \<or> s = JobCanceled) (run_job_statuses r db)")
    (simp_all add: pg_wf_update_runs)

lemma fail_lost_run_view:
  "pg_views (fail_lost_run now r db) = pg_views db"
  "pg_table (fail_lost_run now r db) = update_run r (\<lambda>(_, fin). (StatusFailed, Some (coalesce fin now))) (pg_table db)"
  unfolding fail_lost_run_def by (simp add: pg_views_def) (rule pg_table_update, simp_all)

lemma fail_lost_run_wf: "pg_wf env db \<Longrightarrow> pg_wf env (fail_lost_run now r db)"
  unfolding fail_lost_run_def by (rule pg_wf_update_runs) simp_all

lemma expired_batch_batch:
  assumes "pg_wf env db"
  shows "batch now r db (expired_batch now r limit db)"
proof -
  let ?xs = "sort_key (\<lambda>j. (coalesce (jb_expires j) now, jb_id j)) (filter (\<lambda>j. jb_run j = r \<and> expired_job now j) (pg_jobs db))"
  have "distinct (map jb_id ?xs)" using assms by (simp add: pg_wf_def distinct_map inj_on_def)
  then have "distinct (map jb_id (expired_batch now r limit db))"
    by (simp add: expired_batch_def take_map [symmetric])
  then show ?thesis by (auto simp: batch_def expired_batch_def dest: in_set_takeD)
qed

lemma recover_run_simulates:
  assumes wf: "pg_wf env db" and r: "recover_run env sids now limit r (db, n, res) = Inr (db', n', res')"
  shows "simulates env db db'"
proof (cases "list_ex (\<lambda>x. rw_id x = r) (pg_runs db)")
  case False
  then show ?thesis using wf r by (simp add: recover_run_def simulates_refl)
next
  case True
  let ?jobs = "expired_batch now r (limit - n) db"
  note b = expired_batch_batch [OF wf, of now r "limit - n"]
  then have b0: "batch now r db (?jobs @ [])" by simp
  obtain db1 failed n1 res1 where f: "fold (recover_job env now r) ?jobs (db, False, n, res) = (db1, failed, n1, res1)"
    by (metis prod_cases4)
  show ?thesis
  proof (cases failed)
    case True
    then have rs: "report_status env (sids r) now r StatusFailed (fail_lost_run now r db1) = Inr db'"
      using r f \<open>list_ex _ _\<close> by (auto simp: recover_run_def and_then_Inr)
    define t where "t = (case pg_table db r of None \<Rightarrow> now | Some (_, fin) \<Rightarrow> coalesce fin now)"
    note s = recover_batch [OF wf b0 f, of t]
    have "update_run r (\<lambda>(_, fin). (StatusFailed, Some (coalesce fin now))) (pg_table db) = marked failed t r (pg_table db)"
      unfolding marked_def if_P [OF True] by (rule update_run_cong) (auto simp: t_def)
    then have "pg_view (fail_lost_run now r db1) = (pg_views db1, marked failed t r (pg_table db))"
      using s by (simp add: pg_view_def fail_lost_run_view)
    then have "pg_view db' = (pg_views db1, marked failed t r (pg_table db))" using report_status_view(1) [OF rs] by simp
    moreover have "pg_wf env db'" using report_status_view(2) [OF rs] fail_lost_run_wf s by blast
    ultimately show ?thesis using conjunct1 [OF s] by (simp add: simulates_def pg_view_def [of db] marked_def [of False])
  next
    case False
    then have d: "db' = (if ?jobs = [] then db1 else requeue_run r db1)"
      using r f \<open>list_ex _ _\<close> by (auto simp: recover_run_def)
    show ?thesis
    proof (cases ?jobs rule: rev_cases)
      case Nil
      then show ?thesis using wf d f by (simp add: simulates_refl)
    next
      case (snoc xs x)
      obtain db2 failed2 n2 res2 where f2: "fold (recover_job env now r) xs (db, False, n, res) = (db2, failed2, n2, res2)"
        by (metis prod_cases4)
      have b2: "batch now r db (xs @ [x])" using b snoc by simp
      have as: "\<forall>j\<in>set ?jobs. jb_status j = JobAssigned"
        using recover_batch [OF wf b0 f, of now] False by blast
      note s2 = recover_batch [OF wf b2 f2, of now]
      have n2: "\<not> failed2" using s2 as snoc by simp
      have f3: "recover_job env now r x (db2, failed2, n2, res2) = (db1, failed, n1, res1)" using f f2 snoc by simp
      have x: "x \<in> set (pg_jobs db2)" "expired_job now x" "jb_status x = JobAssigned" "jb_run x = r"
        using s2 as snoc by (simp_all add: batch_def)
      obtain k where k: "k < length (pg_jobs db2)" "pg_jobs db2 ! k = x"
        "pg_view db1 = (set_status k JobQueued (pg_views db2), pg_table db2)" "pg_wf env db1"
        using recover_assigned [OF _ x(1-3) f3] s2 by blast
      have v: "pg_views db1 = set_status k JobQueued (pg_views db2)" "pg_table db1 = pg_table db2"
        using k(3) by (simp_all add: pg_view_def)
      have "run_step True (pg_view db2) (pg_view db')"
        using run_step.requeue [of k "pg_views db2" "pg_views db1" True "pg_table db2"] k(1,2) x v d snoc
        by (simp add: requeue_run_view) (simp add: pg_view_def)
      moreover have "run_steps True (pg_view db) (pg_view db2)" using s2 n2 by (simp add: marked_def pg_view_def)
      moreover have "pg_wf env db'" using d snoc k(4) by (simp add: requeue_run_wf)
      ultimately show ?thesis by (simp add: simulates_def)
    qed
  qed
qed

lemma recover_runs_simulates:
  "pg_wf env db \<Longrightarrow> recover_runs env sids now limit rs (db, n, res) = Inr (db', n', res') \<Longrightarrow> simulates env db db'"
proof (induction rs arbitrary: db n res)
  case Nil
  then show ?case by (simp add: simulates_refl)
next
  case (Cons r rs)
  show ?case
  proof (cases "n \<ge> limit")
    case True
    then show ?thesis using Cons.prems by (simp add: simulates_refl)
  next
    case False
    then obtain db1 n1 res1 where "recover_run env sids now limit r (db, n, res) = Inr (db1, n1, res1)"
      "recover_runs env sids now limit rs (db1, n1, res1) = Inr (db', n', res')"
      using Cons.prems(2) by (auto simp: and_then_Inr)
    then show ?thesis
      using recover_run_simulates [OF Cons.prems(1)] Cons.IH simulates_trans by (metis simulates_def)
  qed
qed

section \<open>Simulation of a submission\<close>

lemma run_infos_append:
  assumes "rw_id r \<notin> rw_id ` set rows"
  shows "rw_id r \<notin> D \<Longrightarrow> run_infos (rows @ [r]) |` D = run_infos rows |` D"
    and "run_infos (rows @ [r]) |` insert (rw_id r) D = (run_infos rows |` D)(rw_id r \<mapsto> row_info r)"
proof -
  have "run_infos rows (rw_id r) = None" using assms by (auto simp: run_infos_def map_of_eq_None_iff)
  then have "run_infos (rows @ [r]) = (run_infos rows)(rw_id r \<mapsto> row_info r)"
    by (auto simp: run_infos_def map_add_def fun_eq_iff split: option.splits)
  then show "rw_id r \<notin> D \<Longrightarrow> run_infos (rows @ [r]) |` D = run_infos rows |` D"
    and "run_infos (rows @ [r]) |` insert (rw_id r) D = (run_infos rows |` D)(rw_id r \<mapsto> row_info r)"
    by (auto simp: restrict_map_def fun_eq_iff)
qed

lemma row_graph_append: "row_graph r (rows @ new) = row_graph r rows \<union> row_graph r new"
  by (auto simp: row_graph_def)

lemma row_graph_none: "r \<notin> jb_run ` set rows \<Longrightarrow> row_graph r rows = {}"
  by (auto simp: row_graph_def image_iff)

lemma submitted_wf:
  assumes wf: "pg_wf env db" and r: "pg_runs db' = pg_runs db @ [r]" "rw_id r \<notin> rw_id ` set (pg_runs db)"
    and j: "pg_jobs db' = pg_jobs db @ rows" "distinct (map jb_id (pg_jobs db @ rows))" "distinct (map jb_key rows)"
    and n: "\<And>x. x \<in> set rows \<Longrightarrow> jb_run x = rw_id r"
    and g: "row_graph (rw_id r) rows = {} \<or> row_graph (rw_id r) rows = plan_graph env (rec_Plan (rw_rec r))"
  shows "pg_wf env db'"
proof -
  have old: "rw_id r \<notin> jb_run ` set (pg_jobs db)" using wf r(2) by (auto simp: pg_wf_def)
  have pairs: "distinct (map (\<lambda>j. (jb_run j, jb_key j)) (pg_jobs db @ rows))"
  proof -
    have "inj_on (\<lambda>j. (jb_run j, jb_key j)) (set rows)" "distinct rows"
      using j(3) by (auto simp: distinct_map inj_on_def)
    moreover have "(\<lambda>j. (jb_run j, jb_key j)) ` set (pg_jobs db) \<inter> (\<lambda>j. (jb_run j, jb_key j)) ` set rows = {}"
      using old n by force
    ultimately show ?thesis using wf by (simp add: pg_wf_def distinct_map)
  qed
  have runs: "jb_run ` set rows \<subseteq> {rw_id r}" using n by auto
  have graph: "row_graph (rw_id x) (pg_jobs db @ rows) = {} \<or> row_graph (rw_id x) (pg_jobs db @ rows) = plan_graph env (rec_Plan (rw_rec x))"
    if "x \<in> set (pg_runs db) \<or> x = r" for x
  proof (cases "x \<in> set (pg_runs db)")
    case True
    then have "rw_id x \<noteq> rw_id r" using r(2) by (auto simp: image_iff)
    then have "row_graph (rw_id x) rows = {}" using row_graph_none runs by blast
    then show ?thesis using wf True by (simp add: pg_wf_def row_graph_append)
  next
    case False
    then show ?thesis using that g row_graph_none [OF old] by (simp add: row_graph_append)
  qed
  have "jb_run ` set (pg_jobs db) \<union> jb_run ` set rows \<subseteq> insert (rw_id r) (rw_id ` set (pg_runs db))"
    using wf runs by (auto simp: pg_wf_def)
  then show ?thesis
    using wf r j(1,2) pairs graph unfolding pg_wf_def by (simp add: image_Un)
qed

lemma submit_simulates:
  assumes wf: "pg_wf env db" and r: "pg_runs db' = pg_runs db @ [r]" "rw_id r \<notin> rw_id ` set (pg_runs db)"
    and j: "pg_jobs db' = pg_jobs db @ rows" "distinct (map jb_id (pg_jobs db @ rows))" "distinct (map jb_key rows)"
    and n: "\<And>x. x \<in> set rows \<Longrightarrow> jb_run x = rw_id r"
    and g: "row_graph (rw_id r) rows = {} \<or> row_graph (rw_id r) rows = plan_graph env (rec_Plan (rw_rec r))"
    and f: "rows \<noteq> [] \<Longrightarrow> rw_status r = StatusQueued \<and> fresh_views (rw_id r) (map row_view rows)"
  shows "simulates env db db'"
proof -
  have old: "rw_id r \<notin> jb_run ` set (pg_jobs db)" using wf r(2) by (auto simp: pg_wf_def)
  have wf': "pg_wf env db'" using submitted_wf [OF wf r j n g] .
  have v: "pg_views db' = pg_views db @ map row_view rows" using j(1) by (simp add: pg_views_def)
  show ?thesis
  proof (cases "rows = []")
    case True
    then have "pg_table db' = pg_table db"
      using run_infos_append(1) [OF r(2) old] r(1) j(1) by (simp add: pg_table_def)
    then show ?thesis using v True by (intro simulates_refl [OF wf']) (simp add: pg_view_def)
  next
    case False
    have "jb_run ` set rows = {rw_id r}" using n False by (auto simp: image_iff neq_Nil_conv)
    then have "jb_run ` set (pg_jobs db') = insert (rw_id r) (jb_run ` set (pg_jobs db))" using j(1) by (simp add: image_Un)
    then have t: "pg_table db' = (pg_table db)(rw_id r \<mapsto> (StatusQueued, rec_FinishedAt (rw_rec r)))"
      using run_infos_append(2) [OF r(2)] r(1) f [OF False] by (simp add: pg_table_def row_info_def)
    have "pg_table db (rw_id r) = None" using old by (simp add: pg_table_def)
    then have "run_step True (pg_view db) (pg_view db')"
      using run_step.submit [of "pg_table db" "rw_id r" "map row_view rows" True "pg_views db"] f [OF False] v t
      by (simp add: pg_view_def)
    then show ?thesis using wf' by (rule simulates_step [rotated])
  qed
qed

lemma those_Some: "those (map f xs) = Some ys \<longleftrightarrow> map f xs = map Some ys"
proof (induction xs arbitrary: ys)
  case (Cons x xs)
  then show ?case by (cases ys) (auto split: option.splits)
qed auto

lemma new_rows_Some:
  assumes "new_rows env newID runID stages now = Some rows"
  shows "map (\<lambda>j. (jb_run j, jb_key j, jb_deps j, jb_status j)) rows =
    map (\<lambda>(stage, job). (runID, job_key (ps_Name stage) (pj_Name job), job_dependencies stages stage job,
      if job_dependencies stages stage job = [] then JobQueued else JobBlocked)) (plan_pairs stages)"
proof -
  have "those (map (\<lambda>(i, p). new_row env runID stages now (newID i, p)) (enumerate n ps)) = Some rows \<Longrightarrow>
      map (\<lambda>j. (jb_run j, jb_key j, jb_deps j, jb_status j)) rows =
      map (\<lambda>(stage, job). (runID, job_key (ps_Name stage) (pj_Name job), job_dependencies stages stage job,
        if job_dependencies stages stage job = [] then JobQueued else JobBlocked)) ps" for n ps rows
  proof (induction ps arbitrary: n rows)
    case (Cons x ps)
    then obtain stage job spec rest where x: "x = (stage, job)" "env_marshal env job = Some spec"
      "those (map (\<lambda>(i, p). new_row env runID stages now (newID i, p)) (enumerate (Suc n) ps)) = Some rest"
      by (cases x) (auto simp: new_row_def Let_def split: option.splits)
    then show ?case using Cons by (auto simp: new_row_def Let_def)
  qed simp
  then show ?thesis using assms by (simp add: new_rows_def)
qed

lemma new_rows_graph:
  assumes "new_rows env newID runID (plan_Stages p) now = Some rows" "env_plan env plan = Some p"
  shows "row_graph runID rows = plan_graph env plan" "\<And>x. x \<in> set rows \<Longrightarrow> jb_run x = runID"
    "\<And>x. x \<in> set rows \<Longrightarrow> jb_status x = (if jb_deps x = [] then JobQueued else JobBlocked)"
proof -
  let ?pairs = "plan_pairs (plan_Stages p)" and ?deps = "\<lambda>stage job. job_dependencies (plan_Stages p) stage job"
  have e: "(\<lambda>j. (jb_run j, jb_key j, jb_deps j, jb_status j)) ` set rows =
      (\<lambda>(stage, job). (runID, job_key (ps_Name stage) (pj_Name job), ?deps stage job,
        if ?deps stage job = [] then JobQueued else JobBlocked)) ` set ?pairs"
    using arg_cong [OF new_rows_Some [OF assms(1)], of set] by simp
  have x: "\<exists>(stage, job)\<in>set ?pairs. (jb_run x, jb_key x, jb_deps x, jb_status x) =
      (runID, job_key (ps_Name stage) (pj_Name job), ?deps stage job, if ?deps stage job = [] then JobQueued else JobBlocked)"
    if x: "x \<in> set rows" for x
    using imageI [OF x, of "\<lambda>j. (jb_run j, jb_key j, jb_deps j, jb_status j)"] unfolding e by (auto simp: image_iff)
  then show "\<And>x. x \<in> set rows \<Longrightarrow> jb_run x = runID"
    "\<And>x. x \<in> set rows \<Longrightarrow> jb_status x = (if jb_deps x = [] then JobQueued else JobBlocked)"
    by fastforce+
  have "(\<lambda>(a, b, c, d). (a, b, c)) ` (\<lambda>j. (jb_run j, jb_key j, jb_deps j, jb_status j)) ` set rows =
      (\<lambda>(a, b, c, d). (a, b, c)) ` (\<lambda>(stage, job). (runID, job_key (ps_Name stage) (pj_Name job), ?deps stage job,
        if ?deps stage job = [] then JobQueued else JobBlocked)) ` set ?pairs"
    by (simp only: e)
  then have t: "(\<lambda>j. (jb_run j, jb_key j, jb_deps j)) ` set rows =
      (\<lambda>x. (runID, (\<lambda>(stage, job). (job_key (ps_Name stage) (pj_Name job), ?deps stage job)) x)) ` set ?pairs"
    by (simp add: image_image case_prod_unfold)
  have "{x. (runID, x) \<in> (\<lambda>x. (runID, g x)) ` P} = g ` P" for g :: "PlanStage \<times> PlanJob \<Rightarrow> string \<times> string list" and P by auto
  then show "row_graph runID rows = plan_graph env plan"
    unfolding row_graph_def t plan_graph_def assms(2) by simp
qed

lemma insertRun_rows:
  assumes "insertRun env newID sid now rcd db = Inr db'"
  obtains plan rows r where "env_plan env (rec_Plan rcd) = Some plan" "new_rows env newID (rec_ID rcd) (plan_Stages plan) now = Some rows"
    "r = \<lparr>rw_rec = rcd\<lparr>rec_StartedAt := None, rec_FinishedAt := None\<rparr>, rw_rerun = None\<rparr>"
    "pg_runs db' = pg_runs db @ [r]" "rw_id r \<notin> rw_id ` set (pg_runs db)" "pg_jobs db' = pg_jobs db @ rows"
    "distinct (map jb_id (pg_jobs db @ rows))" "distinct (map jb_key rows)"
proof -
  have t: "\<not> list_ex (run_taken rcd) (pg_runs db)" "\<not> (rec_ProjectID rcd \<noteq> None \<and> repo_of db rcd = None)"
    using assms by (auto simp: insertRun_def split: if_splits)
  obtain plan rows where p: "env_plan env (rec_Plan rcd) = Some plan" "new_rows env newID (rec_ID rcd) (plan_Stages plan) now = Some rows"
    "distinct (map jb_key rows)" "distinct (map jb_id (pg_jobs db @ rows))"
    "report_status env sid now (rec_ID rcd) (rec_Status rcd)
       (db\<lparr>pg_runs := pg_runs db @ [\<lparr>rw_rec = rcd\<lparr>rec_StartedAt := None, rec_FinishedAt := None\<rparr>, rw_rerun = None\<rparr>],
           pg_jobs := pg_jobs db @ rows\<rparr>) = Inr db'"
    using assms t unfolding insertRun_def by (auto split: if_splits option.splits)
  have "rec_ID rcd \<notin> rw_id ` set (pg_runs db)" using t(1) by (auto simp: list_ex_iff run_taken_def)
  then show ?thesis
    by (intro that [OF p(1,2) refl _ _ _ p(4,3)]) (use report_status_same(1,2) [OF p(5)] in simp_all)
qed

lemma insertRun_simulates:
  assumes wf: "pg_wf env db" and i: "insertRun env newID sid now rcd db = Inr db'" and q: "rec_Status rcd = StatusQueued"
  shows "simulates env db db'"
proof -
  obtain plan rows r where p: "env_plan env (rec_Plan rcd) = Some plan" "new_rows env newID (rec_ID rcd) (plan_Stages plan) now = Some rows"
    and r: "r = \<lparr>rw_rec = rcd\<lparr>rec_StartedAt := None, rec_FinishedAt := None\<rparr>, rw_rerun = None\<rparr>"
    and a: "pg_runs db' = pg_runs db @ [r]" "rw_id r \<notin> rw_id ` set (pg_runs db)" "pg_jobs db' = pg_jobs db @ rows"
      "distinct (map jb_id (pg_jobs db @ rows))" "distinct (map jb_key rows)"
    using insertRun_rows [OF i] .
  note g = new_rows_graph [OF p(2,1)]
  have "fresh_views (rw_id r) (map row_view rows)"
    by (rule fresh_views_plain) (use g(2,3) r in \<open>auto simp: fresh_view_def\<close>)
  then show ?thesis
    by (intro submit_simulates [OF wf a]) (use g r q in simp_all)
qed

section \<open>Simulation of a cancellation\<close>

lemma cancel_rows_view:
  assumes "pg_wf env db"
  shows "pg_view (cancel_rows now r db) = (cancel_views r (pg_views db), pg_table db)" "pg_wf env (cancel_rows now r db)"
proof -
  let ?f = "\<lambda>j. j\<lparr>jb_status := JobCanceled, jb_finished := Some now, jb_hash := None, jb_expires := None\<rparr>"
  have k: "keeps_rows ?f" by (simp add: keeps_rows_def)
  show "pg_wf env (cancel_rows now r db)" unfolding cancel_rows_def using k assms by (rule pg_wf_update_jobs)
  have "row_view (if jb_run j = r \<and> job_active (jb_status j) then ?f j else j) = cancel_view r (row_view j)" for j
    unfolding cancel_view_def active_not_final by (auto simp: row_view_def)
  then have "pg_views (cancel_rows now r db) = cancel_views r (pg_views db)"
    by (simp add: cancel_rows_def pg_views_def update_where_def cancel_views_def)
  then show "pg_view (cancel_rows now r db) = (cancel_views r (pg_views db), pg_table db)"
    using k by (simp add: pg_view_def cancel_rows_def pg_table_jobs)
qed

lemma lockAuthorizedRun_found:
  assumes "lockAuthorizedRun env now token project runID action db = Inr (session, rcd)"
  obtains r where "r \<in> set (pg_runs db)" "rw_id r = runID" "rec_ProjectID (rw_rec r) = Some project" "rcd = scan_run (rw_rec r)"
proof (cases "List.find (\<lambda>r. rw_id r = runID \<and> rec_ProjectID (rw_rec r) = Some project) (pg_runs db)")
  case None
  then show ?thesis using assms by (auto simp: lockAuthorizedRun_def and_then_Inr)
next
  case (Some r)
  then show ?thesis using assms that find_SomeD [OF Some] by (auto simp: lockAuthorizedRun_def and_then_Inr)
qed

lemma cancel_simulates:
  assumes wf: "pg_wf env db" and c: "CancelAuthorizedRun env sid now token project run db = Inr (db', answer)"
  shows "simulates env db db'"
proof -
  obtain session rcd where l: "lockAuthorizedRun env now token project run RunCancel db = Inr (session, rcd)"
    using c by (auto simp: CancelAuthorizedRun_def and_then_Inr)
  obtain r where r: "r \<in> set (pg_runs db)" "rw_id r = run" "rcd = scan_run (rw_rec r)"
    using lockAuthorizedRun_found [OF l] by metis
  show ?thesis
  proof (cases "Terminal (rec_Status rcd)")
    case True
    then show ?thesis using c l wf by (simp add: CancelAuthorizedRun_def simulates_refl)
  next
    case False
    let ?d = "finish_run_row now StatusCanceled run (cancel_rows now run db)"
    obtain db1 where rs: "report_status env sid now run StatusCanceled ?d = Inr db1" "pg_runs db' = pg_runs db1" "pg_jobs db' = pg_jobs db1"
      using c l False by (auto simp: CancelAuthorizedRun_def and_then_Inr)
    have v: "pg_view ?d = (cancel_views run (pg_views db), update_run run (\<lambda>_. (StatusCanceled, Some now)) (pg_table db))"
      using cancel_rows_view(1) [OF wf] by (simp add: pg_view_def finish_run_row_table) (simp add: pg_views_def)
    have w: "pg_wf env ?d" using cancel_rows_view(2) [OF wf] by (rule finish_run_row_wf)
    have "simulates env db ?d"
    proof (cases "run \<in> jb_run ` set (pg_jobs db)")
      case True
      have "pg_table db run = Some (rw_status r, rec_FinishedAt (rw_rec r))"
        using table_in [OF wf r(1)] r(2) True by (simp add: row_info_def)
      moreover have "run \<in> jv_run ` set (pg_views db)" using True by (simp add: pg_views_def image_image)
      moreover have "\<not> Terminal (rw_status r)" using False r(3) by (simp add: scan_run_def)
      ultimately have "run_step True (pg_view db) (pg_view ?d)"
        using run_step.cancel [of True run "pg_views db" "pg_table db" _ _ now] v by (simp add: pg_view_def)
      then show ?thesis using w by (intro simulates_step)
    next
      case False
      then have "cancel_views run (pg_views db) = pg_views db"
        unfolding cancel_views_def by (intro map_idI) (auto simp: pg_views_def cancel_view_def image_iff)
      moreover have "update_run run (\<lambda>_. (StatusCanceled, Some now)) (pg_table db) = pg_table db"
        using False by (auto simp: update_run_def pg_table_def fun_eq_iff)
      ultimately show ?thesis
        using v by (intro simulates_refl [OF w]) (simp add: pg_view_def)
    qed
    then show ?thesis by (rule simulates_same) (use report_status_same(1,2) [OF rs(1)] rs(2,3) in simp_all)
  qed
qed

section \<open>Simulation of a rerun\<close>

text \<open>Taking over succeeded jobs and releasing what waits only for them gives the jobs of a new run.\<close>

lemma fresh_released:
  assumes vs: "\<And>v. v \<in> set vs \<Longrightarrow> jv_run v = r \<and> jv_status v \<in> {JobSucceeded, JobQueued, JobBlocked}"
    and s: "\<And>v. v \<in> set vs \<Longrightarrow> jv_status v = JobSucceeded \<Longrightarrow> deps_met vs v"
    and q: "\<And>v. v \<in> set vs \<Longrightarrow> jv_status v = JobQueued \<Longrightarrow> jv_deps v = []"
    and e: "\<exists>v\<in>set vs. jv_status v \<noteq> JobSucceeded"
  shows "fresh_views r (release_deps r vs)"
proof -
  have d: "deps_met (release_deps r vs) (release_view r vs v) \<longleftrightarrow> deps_met vs v" for v
    by (rule deps_met_iff_keeps) (simp_all add: keeps_release)
  have "jv_run w = r \<and> jv_status w \<in> {JobSucceeded, JobQueued, JobBlocked} \<and>
      (jv_status w = JobBlocked \<longleftrightarrow> \<not> deps_met (release_deps r vs) w)" if w: "w \<in> set (release_deps r vs)" for w
  proof -
    obtain v where v: "v \<in> set vs" "w = release_view r vs v" using w by (auto simp: release_deps_def)
    have "deps_met vs v" if "jv_deps v = []" using that by (simp add: deps_met_def)
    then show ?thesis
      using vs [OF v(1)] s [OF v(1)] q [OF v(1)] unfolding v(2) d by (auto simp: release_view_def)
  qed
  moreover have "\<exists>w\<in>set (release_deps r vs). jv_status w \<noteq> JobSucceeded"
  proof -
    obtain v where v: "v \<in> set vs" "jv_status v \<noteq> JobSucceeded" using e by blast
    then have "jv_status (release_view r vs v) \<noteq> JobSucceeded" by (simp add: release_view_def)
    then show ?thesis using v(1) unfolding release_deps_def by auto
  qed
  ultimately show ?thesis unfolding fresh_views_def by blast
qed

lemma release_deps_append:
  assumes "r \<notin> jv_run ` set vs"
  shows "release_deps r (vs @ new) = vs @ release_deps r new"
proof -
  have "release_view r (vs @ new) v = v" if "v \<in> set vs" for v using assms that by (auto simp: release_view_def)
  moreover have "release_view r (vs @ new) v = release_view r new v" for v
    using view_states_prepend_other [OF assms, of new] by (auto simp: release_view_def deps_met_def)
  ultimately show ?thesis by (simp add: release_deps_def map_idI)
qed

text \<open>The keys of the jobs that an old run leaves to a new one.\<close>

definition done_keys :: "uuid \<Rightarrow> pg_job list \<Rightarrow> string set" where
  "done_keys r rows = {d. dependency_done rows r d}"

lemma reuse_row_same [simp]: "jb_id (reuse_row now new old rows x) = jb_id x" "jb_run (reuse_row now new old rows x) = jb_run x"
  "jb_key (reuse_row now new old rows x) = jb_key x" "jb_deps (reuse_row now new old rows x) = jb_deps x"
  by (simp_all add: reuse_row_def split: option.splits)

lemma reuse_row_status:
  "jb_run x = new \<Longrightarrow> jb_status (reuse_row now new old rows x) = (if jb_key x \<in> done_keys old rows then JobSucceeded else jb_status x)"
  by (auto simp: reuse_row_def done_keys_def dependency_done_def list_ex_iff find_None_iff split: option.splits dest!: find_SomeD)

lemma row_graph_in: "(k, ds) \<in> row_graph r rows \<longleftrightarrow> (\<exists>x\<in>set rows. jb_run x = r \<and> jb_key x = k \<and> jb_deps x = ds)"
  by (auto simp: row_graph_def image_iff)

lemma same_key_row:
  "pg_wf env db \<Longrightarrow> x \<in> set (pg_jobs db) \<Longrightarrow> y \<in> set (pg_jobs db) \<Longrightarrow> jb_run x = jb_run y \<Longrightarrow> jb_key x = jb_key y \<Longrightarrow> x = y"
  by (auto simp: pg_wf_def distinct_map inj_on_def)

lemma rerun_rows_fresh:
  assumes ok: "pg_ok env db" and g: "row_graph new rows = row_graph old (pg_jobs db)"
    and n: "new \<notin> jb_run ` set (pg_jobs db)" "\<And>x. x \<in> set rows \<Longrightarrow> jb_run x = new"
    and k: "distinct (map jb_key rows)" "\<And>x. x \<in> set rows \<Longrightarrow> jb_status x = (if jb_deps x = [] then JobQueued else JobBlocked)"
    and f: "JobFailed \<in> run_statuses old (pg_views db)"
  shows "fresh_views new (release_deps new (map row_view (map (reuse_row now new old (pg_jobs db @ rows)) rows)))"
proof -
  have wf: "pg_wf env db" and inv: "job_inv True (pg_views db)" using ok by (auto simp: pg_ok_def pg_view_def store_inv_def)
  let ?D = "done_keys old (pg_jobs db)" and ?h = "reuse_row now new old (pg_jobs db @ rows)"
  let ?vs = "map row_view (map ?h rows)"
  obtain z where z: "z \<in> set (pg_jobs db)" "jb_run z = old" "jb_status z = JobFailed"
    using f by (auto simp: run_statuses_def pg_views_def)
  then have on: "old \<noteq> new" using n(1) by auto
  have D: "done_keys old (pg_jobs db @ rows) = ?D" using n(2) on by (auto simp: done_keys_def dependency_done_def list_ex_iff)
  have st: "jb_status (?h x) = (if jb_key x \<in> ?D then JobSucceeded else jb_status x)" if "x \<in> set rows" for x
    using reuse_row_status [of x new now old] n(2) [OF that] D by simp
  have key_in: "\<exists>x\<in>set rows. jb_key x = d" if d: "d \<in> ?D" for d
  proof -
    obtain y where "y \<in> set (pg_jobs db)" "jb_run y = old" "jb_key y = d"
      using d by (auto simp: done_keys_def dependency_done_def list_ex_iff)
    then have "(d, jb_deps y) \<in> row_graph new rows" unfolding g row_graph_in by blast
    then show ?thesis unfolding row_graph_in by blast
  qed
  have dist: "distinct (map (\<lambda>j. (jb_run j, jb_key j)) (map ?h rows))"
    using k(1) n(2) by (auto simp: distinct_map inj_on_def comp_def)
  have succ: "view_states new ?vs d = Some JobSucceeded" if d: "d \<in> ?D" for d
  proof -
    obtain x where x: "x \<in> set rows" "jb_key x = d" using key_in [OF d] by blast
    then have "dependency_done (map ?h rows) new d"
      using st [OF x(1)] n(2) [OF x(1)] d x by (auto simp: dependency_done_def list_ex_iff)
    then show ?thesis using dependency_done_iff [OF dist] by simp
  qed
  have deps: "set (jb_deps x) \<subseteq> ?D" if x: "x \<in> set rows" "jb_key x \<in> ?D" for x
  proof -
    obtain y where y: "y \<in> set (pg_jobs db)" "jb_run y = old" "jb_key y = jb_key x" "jb_status y = JobSucceeded"
      using x(2) by (auto simp: done_keys_def dependency_done_def list_ex_iff)
    have "(jb_key x, jb_deps x) \<in> row_graph old (pg_jobs db)" using x(1) n(2) g unfolding row_graph_in by (metis row_graph_in)
    then have "jb_deps y = jb_deps x" using same_key_row [OF wf] y unfolding row_graph_in by metis
    moreover have "deps_met (pg_views db) (row_view y)"
      using inv y by (auto simp: job_inv_def started_ok_def waits_def pg_views_def)
    ultimately show ?thesis
      using dependency_done_iff [of "pg_jobs db" old] wf y(2)
      by (auto simp: deps_met_def done_keys_def pg_wf_def pg_views_def)
  qed
  show ?thesis
  proof (rule fresh_released)
    fix v assume "v \<in> set ?vs"
    then obtain x where x: "x \<in> set rows" "v = row_view (?h x)" by auto
    show "jv_run v = new \<and> jv_status v \<in> {JobSucceeded, JobQueued, JobBlocked}"
      using x st [OF x(1)] n(2) k(2) [OF x(1)] by simp
    show "jv_deps v = []" if "jv_status v = JobQueued"
      using that x st [OF x(1)] k(2) [OF x(1)] by (auto split: if_splits)
    show "deps_met ?vs v" if "jv_status v = JobSucceeded"
    proof -
      have "jb_key x \<in> ?D" using that x st [OF x(1)] k(2) [OF x(1)] by (auto split: if_splits)
      then show ?thesis using deps [OF x(1)] succ n(2) [OF x(1)] x(2) by (auto simp: deps_met_def)
    qed
  next
    have "(jb_key z, jb_deps z) \<in> row_graph new rows" using z unfolding g row_graph_in by blast
    then obtain x where x: "x \<in> set rows" "jb_key x = jb_key z" unfolding row_graph_in by blast
    have "jb_key z \<notin> ?D"
    proof
      assume "jb_key z \<in> ?D"
      then obtain y where y: "y \<in> set (pg_jobs db)" "jb_run y = old" "jb_key y = jb_key z" "jb_status y = JobSucceeded"
        by (auto simp: done_keys_def dependency_done_def list_ex_iff)
      then show False using same_key_row [OF wf y(1) z(1)] z(2,3) by simp
    qed
    then have "jb_status (?h x) \<noteq> JobSucceeded" using st [OF x(1)] k(2) [OF x(1)] x(2) by simp
    then show "\<exists>v\<in>set ?vs. jv_status v \<noteq> JobSucceeded" using x(1) by auto
  qed
qed

lemma mark_rerun_append:
  assumes "rw_id r \<notin> rw_id ` set runs" "pg_runs db = runs @ [r]"
  shows "pg_runs (mark_rerun (rw_id r) old mode db) = runs @ [r\<lparr>rw_rerun := Some (old, mode)\<rparr>]"
    and "pg_jobs (mark_rerun (rw_id r) old mode db) = pg_jobs db"
proof -
  have "update_where (\<lambda>x. rw_id x = rw_id r) f runs = runs" for f
    unfolding update_where_def by (intro map_idI) (use assms(1) in \<open>auto simp: image_iff\<close>)
  then show "pg_runs (mark_rerun (rw_id r) old mode db) = runs @ [r\<lparr>rw_rerun := Some (old, mode)\<rparr>]"
    and "pg_jobs (mark_rerun (rw_id r) old mode db) = pg_jobs db"
    using assms(2) by (simp_all add: mark_rerun_def) (simp add: update_where_def)
qed

lemma reuse_rows_append:
  assumes "new \<notin> jb_run ` set old_rows" "pg_jobs db = old_rows @ rows"
  shows "pg_jobs (reuse_rows now new old db) = old_rows @ map (reuse_row now new old (old_rows @ rows)) rows"
proof -
  have "map (reuse_row now new old xs) old_rows = old_rows" for xs
    using assms(1) by (intro map_idI) (auto simp: reuse_row_def)
  then show ?thesis using assms(2) by (simp add: reuse_rows_def)
qed

lemma unblock_rows_append:
  assumes "new \<notin> jb_run ` set old_rows" "pg_jobs db = old_rows @ rows" "pg_wf env db"
  obtains rows' where "pg_jobs (unblock_rows new db) = old_rows @ rows'" "map row_view rows' = release_deps new (map row_view rows)"
    "map jb_id rows' = map jb_id rows" "map jb_key rows' = map jb_key rows" "row_graph new rows' = row_graph new rows"
    "jb_run ` set rows' = jb_run ` set rows"
proof -
  let ?p = "\<lambda>j. jb_run j = new \<and> jb_status j = JobBlocked \<and> list_all (dependency_done (pg_jobs db) (jb_run j)) (jb_deps j)"
  let ?f = "\<lambda>j. j\<lparr>jb_status := JobQueued\<rparr>"
  have "update_where ?p ?f old_rows = old_rows"
    unfolding update_where_def by (intro map_idI) (use assms(1) in auto)
  then have j: "pg_jobs (unblock_rows new db) = old_rows @ update_where ?p ?f rows"
    using assms(2) by (simp add: unblock_rows_def) (simp add: update_where_def)
  have "pg_views (unblock_rows new db) = release_deps new (pg_views db)"
    using unblock_rows_view(1) [OF assms(3)] by (simp add: pg_view_def)
  moreover have "new \<notin> jv_run ` set (map row_view old_rows)" using assms(1) by (auto simp: image_image)
  ultimately have "map row_view (update_where ?p ?f rows) = release_deps new (map row_view rows)"
    using j assms(2) by (simp add: pg_views_def release_deps_append)
  moreover have "keeps_rows ?f" by (simp add: keeps_rows_def)
  ultimately show ?thesis using that [OF j] row_graph_update runs_update by simp
qed

lemma failed_run_statuses:
  assumes "pg_ok env db" "r \<in> set (pg_runs db)" "rw_status r = StatusFailed" "rw_id r \<in> jb_run ` set (pg_jobs db)"
  shows "JobFailed \<in> run_statuses (rw_id r) (pg_views db)"
proof -
  have "pg_table db (rw_id r) = Some (row_info r)" using assms by (intro table_in [of env]) (simp_all add: pg_ok_def)
  then have "run_ok (run_statuses (rw_id r) (pg_views db)) (row_info r)"
    using assms(1) store_inv_run [of True "pg_views db" "pg_table db"] by (simp add: pg_ok_def pg_view_def)
  then show ?thesis using assms(3) by (simp add: run_ok_def row_info_def)
qed

text \<open>A repeated run whose succeeded jobs are taken over.\<close>

lemma takeover_simulates:
  assumes ok: "pg_ok env db" and o: "o_row \<in> set (pg_runs db)" "rw_status o_row = StatusFailed" "rw_id o_row \<in> jb_run ` set (pg_jobs db)"
    and r: "pg_runs db2 = pg_runs db @ [y]" "rw_id y \<notin> rw_id ` set (pg_runs db)" "rw_status y = StatusQueued"
      "rec_Plan (rw_rec y) = rec_Plan (rw_rec o_row)"
    and j: "pg_jobs db2 = pg_jobs db @ rows" "distinct (map jb_id (pg_jobs db @ rows))" "distinct (map jb_key rows)"
    and n: "row_graph (rw_id y) rows = plan_graph env (rec_Plan (rw_rec o_row))" "\<And>x. x \<in> set rows \<Longrightarrow> jb_run x = rw_id y"
      "\<And>x. x \<in> set rows \<Longrightarrow> jb_status x = (if jb_deps x = [] then JobQueued else JobBlocked)"
  shows "simulates env db (unblock_rows (rw_id y) (reuse_rows now (rw_id y) (rw_id o_row) db2))"
proof -
  have wf: "pg_wf env db" using ok by (simp add: pg_ok_def)
  have old: "rw_id y \<notin> jb_run ` set (pg_jobs db)" using wf r(2) by (auto simp: pg_wf_def)
  have "row_graph (rw_id o_row) (pg_jobs db) \<noteq> {}" using o(3) by (auto simp: row_graph_def image_iff)
  then have og: "row_graph (rw_id o_row) (pg_jobs db) = plan_graph env (rec_Plan (rw_rec o_row))"
    using wf o(1) by (auto simp: pg_wf_def)
  let ?db3 = "reuse_rows now (rw_id y) (rw_id o_row) db2"
  let ?rows = "map (reuse_row now (rw_id y) (rw_id o_row) (pg_jobs db @ rows)) rows"
  have d3: "pg_runs ?db3 = pg_runs db @ [y]" "pg_jobs ?db3 = pg_jobs db @ ?rows"
    using r(1) reuse_rows_append [OF old j(1)] by (simp_all add: reuse_rows_def)
  have g3: "row_graph (rw_id y) ?rows = row_graph (rw_id y) rows" by (simp add: row_graph_def image_image)
  have ids: "distinct (map jb_id (pg_jobs db @ ?rows))" "distinct (map jb_key ?rows)" using j(2,3) by (simp_all add: comp_def)
  have w3: "pg_wf env ?db3"
    by (rule submitted_wf [OF wf d3(1) r(2) d3(2) ids]) (use n g3 r(4) in auto)
  obtain rows' where u: "pg_jobs (unblock_rows (rw_id y) ?db3) = pg_jobs db @ rows'"
    "map row_view rows' = release_deps (rw_id y) (map row_view ?rows)" "map jb_id rows' = map jb_id ?rows"
    "map jb_key rows' = map jb_key ?rows" "row_graph (rw_id y) rows' = row_graph (rw_id y) ?rows" "jb_run ` set rows' = jb_run ` set ?rows"
    using unblock_rows_append [OF old d3(2) w3] .
  have "fresh_views (rw_id y) (map row_view rows')"
    unfolding u(2) by (rule rerun_rows_fresh [OF ok _ old n(2) j(3) n(3) failed_run_statuses [OF ok o]]) (simp_all add: n(1) og)
  moreover have "distinct (map jb_id (pg_jobs db @ rows'))" "distinct (map jb_key rows')" using ids u(3,4) by simp_all
  moreover have "\<And>x. x \<in> set rows' \<Longrightarrow> jb_run x = rw_id y" using u(6) n(2) by auto
  moreover have "row_graph (rw_id y) rows' = plan_graph env (rec_Plan (rw_rec y))" using u(5) g3 n(1) r(4) by simp
  ultimately show ?thesis
    using d3(1) r(2,3) u(1) by (intro submit_simulates [OF wf, of _ y rows']) (simp_all add: unblock_rows_def)
qed

lemma rerun_simulates:
  assumes ok: "pg_ok env db"
    and r: "RerunAuthorizedRun env newID newRun sid now token project run mode request db = Inr (db', out)"
  shows "simulates env db db'"
proof -
  have wf: "pg_wf env db" using ok by (simp add: pg_ok_def)
  have m: "\<not> ((mode \<noteq> ''full'' \<and> mode \<noteq> ''failed'') \<or> request = uuid_Nil)"
    using r unfolding RerunAuthorizedRun_def by (auto split: if_splits)
  obtain session original where l: "lockAuthorizedRun env now token project run RunCreate db = Inr (session, original)"
    using r unfolding RerunAuthorizedRun_def if_not_P [OF m] by (auto simp: and_then_Inr)
  obtain o_row where o: "o_row \<in> set (pg_runs db)" "rw_id o_row = run" "original = scan_run (rw_rec o_row)"
    using lockAuthorizedRun_found [OF l] by metis
  have t: "\<not> (\<not> Terminal (rec_Status original) \<or> (mode = ''failed'' \<and> rec_Status original \<noteq> StatusFailed))"
    using r l unfolding RerunAuthorizedRun_def if_not_P [OF m] by (auto split: if_splits)
  define key where "key = rerun_key env run (se_UserID session) mode request"
  note body = r [unfolded RerunAuthorizedRun_def if_not_P [OF m] l and_then_simps prod.case if_not_P [OF t] Let_def, folded key_def]
  show ?thesis
  proof (cases "List.find (\<lambda>r. rec_IdempotencyKey (rw_rec r) = key) (pg_runs db)")
    case (Some previous)
    then show ?thesis using body wf by (simp add: simulates_refl)
  next
    case None
    have ex: "list_ex (\<lambda>j. jb_run j = run) (pg_jobs db)" using body None by (auto split: if_splits)
    let ?next = "rerun_record newRun (se_UserID session) now key original (pipeline_version run db)"
    obtain db1 where i: "insertRun env newID sid now ?next db = Inr db1"
      and d: "\<exists>e. db' = write_event e (if mode = ''failed'' then unblock_rows newRun (reuse_rows now newRun run (mark_rerun newRun run mode db1))
         else mark_rerun newRun run mode db1)"
      using body None ex by (auto simp: and_then_Inr)
    obtain plan rows x where p: "env_plan env (rec_Plan ?next) = Some plan" "new_rows env newID (rec_ID ?next) (plan_Stages plan) now = Some rows"
      and x: "x = \<lparr>rw_rec = ?next\<lparr>rec_StartedAt := None, rec_FinishedAt := None\<rparr>, rw_rerun = None\<rparr>"
      and a: "pg_runs db1 = pg_runs db @ [x]" "rw_id x \<notin> rw_id ` set (pg_runs db)" "pg_jobs db1 = pg_jobs db @ rows"
        "distinct (map jb_id (pg_jobs db @ rows))" "distinct (map jb_key rows)"
      using insertRun_rows [OF i] .
    have nx: "rw_id x = newRun" "rec_ID ?next = newRun" "rw_status x = StatusQueued" "rec_Plan ?next = rec_Plan (rw_rec o_row)"
      "rec_Plan (rw_rec x) = rec_Plan (rw_rec o_row)"
      using x o(3) by (simp_all add: rerun_record_def scan_run_def)
    note g = new_rows_graph [OF p(2,1), unfolded nx]
    let ?db2 = "mark_rerun newRun run mode db1" and ?y = "x\<lparr>rw_rerun := Some (run, mode)\<rparr>"
    have mk: "pg_runs ?db2 = pg_runs db @ [?y]" "pg_jobs ?db2 = pg_jobs db @ rows"
      using mark_rerun_append [OF a(2,1), of run mode] nx(1) a(3) by simp_all
    have y: "rw_id ?y = newRun" "rw_id ?y \<notin> rw_id ` set (pg_runs db)" "rw_status ?y = StatusQueued"
      "rec_Plan (rw_rec ?y) = rec_Plan (rw_rec o_row)"
      using nx a(2) by simp_all
    show ?thesis
    proof (cases "mode = ''failed''")
      case True
      then have "rw_status o_row = StatusFailed" using t o(3) by (simp add: scan_run_def)
      moreover have "rw_id o_row \<in> jb_run ` set (pg_jobs db)"
        using ex unfolding o(2) image_iff list_ex_iff by metis
      ultimately have "simulates env db (unblock_rows (rw_id ?y) (reuse_rows now (rw_id ?y) (rw_id o_row) ?db2))"
        by (intro takeover_simulates [OF ok o(1) _ _ mk(1) y(2,3,4) mk(2) a(4,5)]) (use g y(1) in simp_all)
      then show ?thesis by (rule simulates_same) (use d True y(1) o(2) in auto)
    next
      case False
      have "fresh_views (rw_id ?y) (map row_view rows)"
        by (rule fresh_views_plain) (use g y(1) in \<open>auto simp: fresh_view_def\<close>)
      then have "simulates env db ?db2"
        by (intro submit_simulates [OF wf mk(1) y(2) mk(2) a(4,5)]) (use g y in simp_all)
      then show ?thesis by (rule simulates_same) (use d False in auto)
    qed
  qed
qed

section \<open>The contract\<close>

lemma claim_for_simulates:
  assumes wf: "pg_wf env db" and c: "claim_for env token now n protocol db = Inr (db', out)"
  shows "simulates env db db'"
proof -
  have g: "gives JobAssigned (bind_lease env now (rn_id n) token)" by (simp add: gives_def bind_lease_def row_view_def)
  have "db' = db \<or> (\<exists>q r q' j db1. first_run q db = Some r \<and> first_job q' (rw_id r) db = Some j \<and>
      lease_update (\<lambda>x. jb_id x = jb_id j \<and> jb_status x = JobQueued) (bind_lease env now (rn_id n) token) db = Inr db1 \<and>
      db' = start_run now (rw_id r) db1)"
    using c unfolding claim_for_def by (auto simp: and_then_Inr split: option.splits) blast
  then show ?thesis using claim_simulates [OF wf _ _ _ g] simulates_refl [OF wf refl] by blast
qed

lemma Store_ClaimJob_simulates:
  assumes wf: "pg_wf env db" and c: "Store_ClaimJob env token now db = Inr (db', out)"
  shows "simulates env db db'"
proof -
  let ?f = "\<lambda>t x. x\<lparr>jb_status := JobAssigned, jb_hash := Some (env_sha env token), jb_expires := Some t\<rparr>"
  have g: "gives JobAssigned (?f t)" for t by (simp add: gives_def row_view_def)
  have "db' = db \<or> (\<exists>q r q' j db1 t. first_run q db = Some r \<and> first_job q' (rw_id r) db = Some j \<and>
      lease_update (\<lambda>x. jb_id x = jb_id j \<and> jb_status x = JobQueued) (?f t) db = Inr db1 \<and>
      db' = start_run now (rw_id r) db1)"
    using c unfolding Store_ClaimJob_def Let_def by (auto simp: and_then_Inr split: option.splits) blast
  then show ?thesis using claim_simulates [OF wf _ _ _ g] simulates_refl [OF wf refl] by blast
qed

lemma start_simulates:
  assumes wf: "pg_wf env db" and u: "lease_update p f db = Inr db'" and g: "gives JobRunning f"
    and p: "\<And>x. p x \<Longrightarrow> job_leased (jb_status x)"
  shows "simulates env db db'"
proof -
  obtain k where k: "k < length (pg_jobs db)" "p (pg_jobs db ! k)" "pg_view db' = (set_status k JobRunning (pg_views db), pg_table db)" "pg_wf env db'"
    using lease_update_view [OF u g wf] .
  show ?thesis
    using run_step.start [of k "pg_views db" True "pg_table db"] k p by (intro simulates_step) (simp_all add: pg_view_def)
qed

lemma release_simulates:
  assumes wf: "pg_wf env db" and u: "lease_update p f db = Inr db'" and g: "gives JobQueued f"
    and p: "\<And>x. p x \<Longrightarrow> jb_status x = JobAssigned"
  shows "simulates env db db'"
proof -
  obtain k where k: "k < length (pg_jobs db)" "p (pg_jobs db ! k)" "pg_view db' = (set_status k JobQueued (pg_views db), pg_table db)" "pg_wf env db'"
    using lease_update_view [OF u g wf] .
  show ?thesis
    using run_step.release [of k "pg_views db" True "pg_table db"] k p by (intro simulates_step) (simp_all add: pg_view_def)
qed

lemma Store_CompleteJob_simulates:
  assumes wf: "pg_wf env db" and c: "Store_CompleteJob env sid now i token status db = Inr db'"
  shows "simulates env db db'"
proof -
  have t: "terminal_request status" using c by (auto simp: Store_CompleteJob_def split: if_splits)
  obtain j db1 where "List.find (\<lambda>j. jb_id j = i) (pg_jobs db) = Some j"
    "lease_update (\<lambda>x. jb_id x = i \<and> job_leased (jb_status x) \<and> has_lease env now token x) (complete_row status now) db = Inr db1"
    "finalizeRunJobs env sid now (jb_run j) status db1 = Inr db'"
    using c t by (auto simp: Store_CompleteJob_def and_then_Inr split: option.splits)
  then show ?thesis using complete_simulates [OF wf t] by blast
qed

lemma Store_CompleteRunnerJob_simulates:
  assumes wf: "pg_wf env db" and c: "Store_CompleteRunnerJob env sid now request db = Inr db'"
  shows "simulates env db db'"
proof -
  have t: "terminal_request (rc_Status request)" using c by (auto simp: Store_CompleteRunnerJob_def split: if_splits)
  obtain j db1 where "List.find (\<lambda>j. jb_id j = rc_JobID request) (pg_jobs db) = Some j"
    "lease_update (\<lambda>x. jb_id x = rc_JobID request \<and> jb_runner x = Some (rc_RunnerID request) \<and> job_leased (jb_status x) \<and>
       has_lease env now (rc_LeaseToken request) x) (complete_row (rc_Status request) now) db = Inr db1"
    "finalizeRunJobs env sid now (jb_run j) (rc_Status request) db1 = Inr db'"
    using c t by (auto simp: Store_CompleteRunnerJob_def and_then_Inr split: option.splits if_splits)
  then show ?thesis using complete_simulates [OF wf t] by blast
qed

lemma renew_simulates:
  assumes "pg_wf env db" "fold (renew_row env now runner) xs (db, results) = (db', results')"
  shows "simulates env db db'"
  using assms
proof (induction xs arbitrary: db results)
  case Nil
  then show ?case by (simp add: simulates_refl)
next
  case (Cons x xs)
  let ?f = "\<lambda>j. j\<lparr>jb_renewed := Some now, jb_expires := Some (now + 30 * Second)\<rparr>"
  obtain p results1 where e: "renew_row env now runner x (db, results) = (update_jobs p ?f db, results1)"
    by (auto simp: renew_row_def Let_def)
  have s: "simulates env db (update_jobs p ?f db)" by (rule update_hidden [OF _ Cons.prems(1)]) (simp add: row_view_def)
  then have "simulates env (update_jobs p ?f db) db'" using Cons e by (auto simp: simulates_def)
  then show ?case using s by (rule simulates_trans [rotated])
qed

lemma Store_RenewRunnerLeases_simulates:
  assumes wf: "pg_wf env db" and r: "Store_RenewRunnerLeases env now heartbeat db = Inr (db', answer)"
  shows "simulates env db db'"
proof -
  obtain runners results where f: "fold (renew_row env now (rd_ID (hb_Runner heartbeat))) (hb_ActiveJobs heartbeat)
      (db\<lparr>pg_runners := runners\<rparr>, []) = (db', results)"
    using r unfolding Store_RenewRunnerLeases_def Let_def by (auto split: if_splits option.splits prod.splits)
  have "pg_wf env (db\<lparr>pg_runners := runners\<rparr>)" using wf pg_wf_cong [of "db\<lparr>pg_runners := runners\<rparr>" db] by simp
  from renew_simulates [OF this f] show ?thesis
    using pg_view_cong [of "db\<lparr>pg_runners := runners\<rparr>" db] by (simp add: simulates_def)
qed

lemma pg_step_simulates:
  assumes s: "pg_step env db db'" and ok: "pg_ok env db"
  shows "simulates env db db'"
  using s
proof (cases rule: pg_step.cases)
  case (create newID sid now rcd out)
  then show ?thesis using ok insertRun_simulates by (auto simp: Store_Create_def and_then_Inr pg_ok_def)
next
  case (claim token now out)
  then show ?thesis using ok Store_ClaimJob_simulates by (auto simp: pg_ok_def)
next
  case (start now job token)
  then show ?thesis
    using ok by (auto simp: Store_StartJob_def pg_ok_def gives_def row_view_def intro: start_simulates)
next
  case (complete sid now job token status)
  then show ?thesis using ok Store_CompleteJob_simulates by (auto simp: pg_ok_def)
next
  case (claim_runner token now runner out)
  then show ?thesis
    using ok claim_for_simulates [of env db] simulates_refl [of env db db]
    by (auto simp: Store_ClaimRunnerJob_def pg_ok_def split: if_splits option.splits)
next
  case (release now request)
  then show ?thesis
    using ok by (auto simp: Store_ReleaseRunnerJob_def pg_ok_def gives_def row_view_def intro: release_simulates split: if_splits)
next
  case (acknowledge now request state)
  then show ?thesis
    using ok by (auto simp: Store_AcknowledgeRunnerJob_def and_then_Inr lease_update_def pg_ok_def row_view_def intro!: update_hidden
        split: if_splits)
next
  case (start_runner now request state)
  then show ?thesis
    using ok by (auto simp: Store_StartRunnerJob_def and_then_Inr pg_ok_def gives_def row_view_def intro: start_simulates split: if_splits)
next
  case (renew now heartbeat answer)
  then show ?thesis using ok Store_RenewRunnerLeases_simulates by (auto simp: pg_ok_def)
next
  case (complete_runner sid now completion)
  then show ?thesis using ok Store_CompleteRunnerJob_simulates by (auto simp: pg_ok_def)
next
  case (recover sids now limit counts)
  then show ?thesis
    using ok recover_runs_simulates
    by (auto simp: Store_RecoverExpiredRunnerLeases_def and_then_Inr pg_ok_def split: if_splits)
next
  case (create_authorized newID sid now session project rcd out)
  then obtain rcd' db1 where "insertRun env newID sid now rcd' db = Inr db1" "rec_Status rcd' = StatusQueued"
    and d: "pg_runs db' = pg_runs db1" "pg_jobs db' = pg_jobs db1"
    by (auto simp: CreateAuthorizedRun_def and_then_Inr Let_def)
  then have "simulates env db db1" using ok insertRun_simulates by (auto simp: pg_ok_def)
  then show ?thesis using d by (rule simulates_same)
next
  case (cancel sid now session project run answer)
  then show ?thesis using ok cancel_simulates by (auto simp: pg_ok_def)
next
  case (rerun newID newRun sid now session project run mode request out)
  then show ?thesis using ok rerun_simulates by blast
next
  case (record_run r)
  then show ?thesis
    using ok by (intro submit_simulates [of env db db' r "[]"]) (auto simp: pg_ok_def pg_wf_def row_graph_def)
next
  case elsewhere
  then show ?thesis using ok simulates_same [of env db db db'] simulates_refl [of env db db] by (simp add: pg_ok_def)
qed

lemma pg_ok_step: "pg_ok env db \<Longrightarrow> pg_step env db db' \<Longrightarrow> pg_ok env db'"
  using pg_step_simulates [of env db db'] run_steps_inv [of True "pg_view db" "pg_view db'"]
  by (auto simp: pg_ok_def simulates_def)

lemma pg_ok_empty: "pg_ok env empty_db" "pg_view empty_db = ([], Map.empty)"
  by (simp_all add: pg_ok_def pg_wf_def pg_view_def pg_views_def pg_table_def run_infos_def store_inv_def job_inv_Nil empty_db_def)

interpretation pg: run_store True pg_view "pg_ok env" empty_db "pg_step env" for env
  using pg_step_simulates by unfold_locales (auto simp: pg_ok_empty simulates_def intro: pg_ok_step)

end
