(* ===== verification/Pg_Guarantees.thy ===== *)
theory Pg_Guarantees
  imports Pg_Refine Plan_Runs
begin

text \<open>
  What the PostgreSQL store guarantees to its clients: the guarantees of the run machine for its rows, what a
  claim grants, who may act on a run, and two behaviours of the store that are worth knowing (a stranded job and
  a run that blocks the runners).
\<close>

section \<open>Rows and the abstract view\<close>

lemma pg_views_in: "j \<in> set (pg_jobs db) \<Longrightarrow> row_view j \<in> set (fst (pg_view db))"
  by (simp add: pg_view_def pg_views_def)

lemma reachable_wf: "pg_steps env empty_db db \<Longrightarrow> pg_wf env db"
  using pg.reachable_ok by (simp add: pg_ok_def)

lemma pg_row_states:
  "pg_wf env db \<Longrightarrow> dependency_done (pg_jobs db) r d \<longleftrightarrow> view_states r (fst (pg_view db)) d = Some JobSucceeded"
  using dependency_done_iff [of "pg_jobs db" r d] by (simp add: pg_wf_def pg_view_def pg_views_def)

lemma pg_run_info:
  assumes "pg_steps env empty_db db" "r \<in> set (pg_runs db)" "j \<in> set (pg_jobs db)" "jb_run j = rw_id r"
  shows "snd (pg_view db) (rw_id r) = Some (rw_status r, rec_FinishedAt (rw_rec r))"
proof -
  have "rw_id r \<in> jb_run ` set (pg_jobs db)" using assms(3,4) by (metis image_eqI)
  then show ?thesis
    using table_in [OF reachable_wf [OF assms(1)] assms(2)] by (simp add: pg_view_def row_info_def)
qed

section \<open>Dependencies, run statuses and progress\<close>

text \<open>
  C3 (safety). In every database that the transactions can produce, a job that is queued, assigned, running or
  was finished by a runner has a succeeded job of the same run for each of its dependencies; a rerun that takes
  over succeeded jobs is no exception.
\<close>

theorem pg_dependencies_before_start:
  assumes "pg_steps env empty_db db" and "j \<in> set (pg_jobs db)"
    and "jb_status j \<notin> {JobBlocked, JobSkipped, JobCanceled}" and "d \<in> set (jb_deps j)"
  shows "dependency_done (pg_jobs db) (jb_run j) d"
  using pg.dependencies_first [OF assms(1) pg_views_in [OF assms(2)]] assms(3,4) pg_row_states [OF reachable_wf [OF assms(1)]]
  by (simp add: waits_def)

text \<open>
  C5 (invariant). The status of a run with jobs says what happened to them: succeeded means that all succeeded,
  failed that one failed, canceled that one was canceled and none is open; a finished run has a finishing time,
  a run whose jobs are all final is terminal, and a terminal run that still has open jobs is a failed one.
\<close>

theorem pg_run_status_sound:
  assumes "pg_steps env empty_db db" and "r \<in> set (pg_runs db)" and "S = set (run_job_statuses (rw_id r) db)" and "S \<noteq> {}"
  shows "(rw_status r = StatusSucceeded \<longrightarrow> S = {JobSucceeded}) \<and>
    (rw_status r = StatusFailed \<longrightarrow> JobFailed \<in> S) \<and>
    (rw_status r = StatusCanceled \<longrightarrow> JobCanceled \<in> S \<and> (\<forall>s\<in>S. job_final s)) \<and>
    (Terminal (rw_status r) \<longrightarrow> rec_FinishedAt (rw_rec r) \<noteq> None) \<and>
    ((\<forall>s\<in>S. job_final s) \<longrightarrow> Terminal (rw_status r)) \<and>
    (Terminal (rw_status r) \<and> (\<exists>s\<in>S. \<not> job_final s) \<longrightarrow> rw_status r = StatusFailed)"
proof -
  have S: "S = run_statuses (rw_id r) (fst (pg_view db))" using assms(3) run_job_statuses_set by (simp add: pg_view_def)
  obtain j where j: "j \<in> set (pg_jobs db)" "jb_run j = rw_id r"
    using assms(3,4) by (auto simp: run_job_statuses_def filter_empty_conv)
  have ok: "run_ok S (rw_status r, rec_FinishedAt (rw_rec r))"
    using pg.run_meaning [OF assms(1) pg_run_info [OF assms(1,2) j]] S by simp
  have o: "rw_status r = StatusFailed" if "Terminal (rw_status r)" "s \<in> S" "\<not> job_final s" for s
    using over_is_failed [OF ok that] by simp
  show ?thesis using ok o assms(4) unfolding run_ok_def by auto
qed


text \<open>The jobs of a run form the dependency graph of its plan.\<close>

lemma run_graph_cong:
  assumes "(\<lambda>v. (jv_key v, jv_deps v)) ` {v \<in> set vs. jv_run v = r} = (\<lambda>v. (jv_key v, jv_deps v)) ` {v \<in> set ws. jv_run v = r}"
  shows "run_graph_ok r vs \<longleftrightarrow> run_graph_ok r ws"
proof -
  have e: "key_edges r us = {(k, d). \<exists>ds. (k, ds) \<in> (\<lambda>v. (jv_key v, jv_deps v)) ` {v \<in> set us. jv_run v = r} \<and> d \<in> set ds}"
    "run_keys r us = fst ` (\<lambda>v. (jv_key v, jv_deps v)) ` {v \<in> set us. jv_run v = r}" for us
    by (auto simp: key_edges_def run_keys_def image_image)
  have "key_edges r vs = key_edges r ws" "run_keys r vs = run_keys r ws" unfolding e assms by simp_all
  then show ?thesis by (simp add: run_graph_ok_def)
qed

lemma row_graph_views: "row_graph r rows = (\<lambda>v. (jv_key v, jv_deps v)) ` {v \<in> row_view ` set rows. jv_run v = r}"
proof -
  have "{v \<in> row_view ` set rows. jv_run v = r} = row_view ` {j \<in> set rows. jb_run j = r}" by auto
  then have "(\<lambda>v. (jv_key v, jv_deps v)) ` {v \<in> row_view ` set rows. jv_run v = r} = (\<lambda>j. (jb_key j, jb_deps j)) ` {j \<in> set rows. jb_run j = r}"
    by (simp add: image_image)
  moreover have "(k, ds) \<in> row_graph r rows \<longleftrightarrow> (k, ds) \<in> (\<lambda>j. (jb_key j, jb_deps j)) ` {j \<in> set rows. jb_run j = r}" for k ds
    unfolding row_graph_in by auto
  ultimately show ?thesis by auto
qed

lemma pg_graph_ok:
  assumes wf: "pg_wf env db" and r: "r \<in> set (pg_runs db)" and j: "j \<in> set (pg_jobs db)" "jb_run j = rw_id r"
    and p: "env_plan env (rec_Plan (rw_rec r)) = Some plan" "plan_graph_ok plan"
  shows "run_graph_ok (rw_id r) (fst (pg_view db))"
proof -
  let ?new = "map view (new_jobs (\<lambda>_. 0) (rw_id r) (plan_Stages plan))"
  have new: "{v \<in> set ?new. jv_run v = rw_id r} = view ` set (new_jobs (\<lambda>_. 0) (rw_id r) (plan_Stages plan))"
    unfolding set_map set_new_jobs by auto
  have "(\<lambda>v. (jv_key v, jv_deps v)) ` {v \<in> set ?new. jv_run v = rw_id r} = plan_graph env (rec_Plan (rw_rec r))"
    unfolding new set_new_jobs plan_graph_def p(1) option.case using set_plan_pairs by (force simp: image_iff)
  also have "\<dots> = row_graph (rw_id r) (pg_jobs db)"
    using wf r j row_graph_in [of "jb_key j" "jb_deps j" "rw_id r" "pg_jobs db"] unfolding pg_wf_def by blast
  also have "\<dots> = (\<lambda>v. (jv_key v, jv_deps v)) ` {v \<in> set (fst (pg_view db)). jv_run v = rw_id r}"
    using row_graph_views by (simp add: pg_view_def pg_views_def)
  finally have "run_graph_ok (rw_id r) ?new \<longleftrightarrow> run_graph_ok (rw_id r) (fst (pg_view db))" by (rule run_graph_cong)
  then show ?thesis using run_graph_ok_plan [OF p(2) new] by (rule iffD1)
qed

text \<open>
  C2 (liveness). No run of a compiled plan gets stuck in the database: as long as a run with jobs is not over,
  one of its jobs is queued, assigned or running. This covers runs that were created, repeated in full, and
  repeated with the succeeded jobs of the first attempt taken over.
\<close>

theorem pg_run_never_stuck:
  assumes "ranges_ok rt" and "Compile rt source at = Inr plan" and "pg_steps env empty_db db"
    and "r \<in> set (pg_runs db)" and "env_plan env (rec_Plan (rw_rec r)) = Some plan"
    and "run_job_statuses (rw_id r) db \<noteq> []" and "\<not> Terminal (rw_status r)"
  shows "\<exists>j\<in>set (pg_jobs db). jb_run j = rw_id r \<and> jb_status j \<in> {JobQueued, JobAssigned, JobRunning}"
proof -
  obtain j where j: "j \<in> set (pg_jobs db)" "jb_run j = rw_id r"
    using assms(6) by (auto simp: run_job_statuses_def filter_empty_conv)
  have g: "run_graph_ok (rw_id r) (fst (pg_view db))"
    using pg_graph_ok [OF reachable_wf [OF assms(3)] assms(4) j assms(5) Compile_graph_ok [OF assms(1,2)]] .
  have "rw_id r \<in> jv_run ` set (fst (pg_view db))"
    using pg_views_in [OF j(1)] j(2) by (metis image_eqI row_view_sel(1))
  then obtain w where "w \<in> set (fst (pg_view db))" "jv_run w = rw_id r" "plain (jv_status w)"
    using pg.run_progress [OF assms(3) rtranclp.rtrancl_refl g _ pg_run_info [OF assms(3,4) j] assms(7)] by blast
  then show ?thesis by (auto simp: pg_view_def pg_views_def plain_def)
qed

end
