(* ===== verification/Pg_Actions.thy ===== *)
theory Pg_Actions
  imports Pg_Guarantees
begin

text \<open>
  The effect of single transactions of the PostgreSQL store: what a claim grants, what a cancellation does, that a
  repeated rerun request makes one run, and the two flaws of claiming and recovery.
\<close>

section \<open>What a claim grants\<close>

lemma affected_list_update:
  "k < length rows \<Longrightarrow> \<not> p (rows ! k) \<Longrightarrow> p y \<Longrightarrow> affected p (rows[k := y]) = Suc (affected p rows)"
proof (induction rows arbitrary: k)
  case (Cons x rows)
  then show ?case by (cases k) (auto simp: affected_def)
qed simp

lemma claim_for_some:
  assumes "claim_for env token now n protocol db = Inr (db', Some a)"
  obtains r j spec source db1 where
    "first_run (\<lambda>j r. runner_fits n j \<and> source_supported protocol (rw_rec r)) db = Some r"
    "first_job (\<lambda>j. runner_fits n j \<and> source_supported protocol (rw_rec r)) (rw_id r) db = Some j"
    "env_unmarshal env (jb_spec j) = Some spec" "checkout_of db (rw_rec r) = Inr source"
    "lease_update (\<lambda>x. jb_id x = jb_id j \<and> jb_status x = JobQueued) (bind_lease env now (rn_id n) token) db = Inr db1"
    "db' = start_run now (rw_id r) db1" "a = assignment_of j spec token (now + 30 * Second) source"
  using assms unfolding claim_for_def by (auto simp: and_then_Inr split: option.splits)

lemma Store_ClaimRunnerJob_some:
  assumes "Store_ClaimRunnerJob env token now runner db = Inr (db', Some a)"
  obtains n protocol where "enabled_runner runner db = Some n" "rn_protocol n = Some protocol"
    "int (active_leases now runner db) < rn_capacity n" "claim_for env token now n protocol db = Inr (db', Some a)"
proof -
  obtain n where n: "enabled_runner runner db = Some n"
    using assms unfolding Store_ClaimRunnerJob_def by (auto split: if_splits option.splits)
  obtain protocol where p: "rn_protocol n = Some protocol"
    using assms n unfolding Store_ClaimRunnerJob_def by (auto split: if_splits option.splits)
  show ?thesis
    by (rule that [OF n p]) (use assms n p in \<open>auto simp: Store_ClaimRunnerJob_def split: if_splits\<close>)
qed

lemma active_leases_bind:
  assumes "k < length (pg_jobs db)" "jb_status (pg_jobs db ! k) = JobQueued"
    and "pg_jobs db' = (pg_jobs db)[k := bind_lease env now runner token (pg_jobs db ! k)]"
  shows "active_leases now runner db' = Suc (active_leases now runner db)"
  unfolding active_leases_def assms(3)
  by (rule affected_list_update) (use assms(1,2) in \<open>simp_all add: bind_lease_def duration_defs\<close>)

text \<open>
  C6 (safety). A claim that hands out a job gives a runner that is not disabled a job that was queued, fits the
  runner and belongs to a run that is not over; the lease lasts 30 seconds and is the only change of the jobs; and
  the live leases of the runner stay within its capacity.
\<close>

theorem pg_claim_grants:
  assumes "pg_steps env empty_db db" and "Store_ClaimRunnerJob env token now runner db = Inr (db', Some a)"
  shows "\<exists>n r j. enabled_runner runner db = Some n \<and> r \<in> set (pg_runs db) \<and> j \<in> set (pg_jobs db) \<and>
    open_run r \<and> jb_run j = rw_id r \<and> jb_status j = JobQueued \<and> runner_fits n j \<and>
    as_JobID a = jb_id j \<and> as_LeaseExpires a = now + 30 * Second \<and>
    pg_jobs db' = update_where (\<lambda>x. jb_id x = jb_id j) (bind_lease env now runner token) (pg_jobs db) \<and>
    int (active_leases now runner db') \<le> rn_capacity n"
proof -
  obtain n protocol where n: "enabled_runner runner db = Some n" "int (active_leases now runner db) < rn_capacity n"
    and c: "claim_for env token now n protocol db = Inr (db', Some a)"
    using Store_ClaimRunnerJob_some [OF assms(2)] by metis
  have id: "rn_id n = runner" using n(1) find_SomeD by (fastforce simp: enabled_runner_def)
  obtain r j spec source db1 where g:
    "first_run (\<lambda>j r. runner_fits n j \<and> source_supported protocol (rw_rec r)) db = Some r"
    "first_job (\<lambda>j. runner_fits n j \<and> source_supported protocol (rw_rec r)) (rw_id r) db = Some j"
    "env_unmarshal env (jb_spec j) = Some spec" "checkout_of db (rw_rec r) = Inr source"
    "lease_update (\<lambda>x. jb_id x = jb_id j \<and> jb_status x = JobQueued) (bind_lease env now runner token) db = Inr db1"
    "db' = start_run now (rw_id r) db1" "a = assignment_of j spec token (now + 30 * Second) source"
    using claim_for_some [OF c, unfolded id] .
  have rr: "r \<in> set (pg_runs db)" "open_run r" using g(1) by (auto simp: first_run_def dest!: first_by_Some)
  have jj: "j \<in> set (pg_jobs db)" "jb_run j = rw_id r" "jb_status j = JobQueued" "runner_fits n j"
    using g(2) by (auto simp: first_job_def dest!: first_by_Some)
  obtain k where k: "k < length (pg_jobs db)" "jb_id (pg_jobs db ! k) = jb_id j" "jb_status (pg_jobs db ! k) = JobQueued"
    "db1 = update_jobs (\<lambda>x. jb_id x = jb_id j \<and> jb_status x = JobQueued) (bind_lease env now runner token) db"
    "pg_jobs db1 = (pg_jobs db)[k := bind_lease env now runner token (pg_jobs db ! k)]"
    using lease_update_at [OF g(5)] by blast
  have "x = j" if "x \<in> set (pg_jobs db)" "jb_id x = jb_id j" for x
    using reachable_wf [OF assms(1)] that jj(1) by (auto simp: pg_wf_def distinct_map inj_on_def)
  then have "pg_jobs db' = update_where (\<lambda>x. jb_id x = jb_id j) (bind_lease env now runner token) (pg_jobs db)"
    using g(6) k(4) jj(3) by (auto simp: update_where_def)
  moreover have "active_leases now runner db' = Suc (active_leases now runner db)"
    using active_leases_bind [OF k(1,3,5)] g(6) by (simp add: active_leases_def)
  ultimately show ?thesis
    using n rr jj g(7) by (auto simp: assignment_of_def)
qed

section \<open>Cancellation\<close>

lemma finish_run_row_status:
  assumes "x \<in> set (pg_runs (finish_run_row now s r db))" "rw_id x = r"
  shows "rw_status x = s"
proof -
  obtain y where "x = (if rw_id y = r then y\<lparr>rw_rec := (rw_rec y)\<lparr>rec_Status := s, rec_FinishedAt := Some now\<rparr>\<rparr> else y)"
    using assms(1) unfolding finish_run_row_def update_runs_sel update_where_def set_map by blast
  then show ?thesis using assms(2) by (cases "rw_id y = r") simp_all
qed

text \<open>
  C21 (functional). A cancellation that is accepted was asked for by a live session with the permission to cancel
  runs of that project, and the run belongs to the project. If the run was over nothing changed; otherwise
  exactly its open jobs are canceled and lose their leases, so that no request about them is accepted any more,
  and the run is canceled.
\<close>

theorem cancel_effect:
  assumes "CancelAuthorizedRun env sid now token project run db = Inr (db', answer)"
  shows "\<exists>session r. authenticateSession (env_sha env) now token (pg_identity db) = Inr session \<and>
    authorize session (project_scope project) RunCancel (pg_identity db) = None \<and>
    r \<in> set (pg_runs db) \<and> rw_id r = run \<and> rec_ProjectID (rw_rec r) = Some project \<and>
    (if Terminal (rw_status r) then db' = db \<and> answer = rw_status r
     else answer = StatusCanceled \<and> length (pg_jobs db') = length (pg_jobs db) \<and>
       (\<forall>n<length (pg_jobs db). let j = pg_jobs db ! n; j' = pg_jobs db' ! n in
          if jb_run j = run \<and> \<not> job_final (jb_status j)
          then jb_status j' = JobCanceled \<and> (\<forall>t at. \<not> has_lease env at t j')
          else j' = j) \<and>
       (\<forall>x\<in>set (pg_runs db'). rw_id x = run \<longrightarrow> rw_status x = StatusCanceled))"
proof -
  obtain session rcd where l: "lockAuthorizedRun env now token project run RunCancel db = Inr (session, rcd)"
    using assms by (auto simp: CancelAuthorizedRun_def and_then_Inr)
  have s: "authenticateSession (env_sha env) now token (pg_identity db) = Inr session"
    "authorize session (project_scope project) RunCancel (pg_identity db) = None"
    using l unfolding lockAuthorizedRun_def project_session_def
    by (auto simp: and_then_Inr split: sum.splits option.splits)
  obtain r where r: "r \<in> set (pg_runs db)" "rw_id r = run" "rec_ProjectID (rw_rec r) = Some project" "rcd = scan_run (rw_rec r)"
    using lockAuthorizedRun_found [OF l] by metis
  show ?thesis
  proof (cases "Terminal (rw_status r)")
    case True
    then have "db' = db \<and> answer = rw_status r" using assms l r(4) by (simp add: CancelAuthorizedRun_def scan_run_def)
    then show ?thesis using True s r by auto
  next
    case False
    then obtain db1 where rs: "report_status env sid now run StatusCanceled
        (finish_run_row now StatusCanceled run (cancel_rows now run db)) = Inr db1"
      and d: "pg_runs db' = pg_runs db1" "pg_jobs db' = pg_jobs db1" "answer = StatusCanceled"
      using assms l r(4) by (auto simp: CancelAuthorizedRun_def and_then_Inr scan_run_def)
    have j: "pg_jobs db' = update_where (\<lambda>j. jb_run j = run \<and> job_active (jb_status j))
        (\<lambda>j. j\<lparr>jb_status := JobCanceled, jb_finished := Some now, jb_hash := None, jb_expires := None\<rparr>) (pg_jobs db)"
      using report_status_same(2) [OF rs] d(2) by (simp add: cancel_rows_def)
    have x: "rw_status x = StatusCanceled" if "x \<in> set (pg_runs db')" "rw_id x = run" for x
      using finish_run_row_status [of x now StatusCanceled run "cancel_rows now run db"] that report_status_same(1) [OF rs] d(1) by simp
    have n: "let j = pg_jobs db ! n; j' = pg_jobs db' ! n in
        if jb_run j = run \<and> \<not> job_final (jb_status j)
        then jb_status j' = JobCanceled \<and> (\<forall>t at. \<not> has_lease env at t j') else j' = j" if "n < length (pg_jobs db)" for n
      using that by (simp add: j Let_def update_where_def has_lease_def active_not_final)
    have len: "length (pg_jobs db') = length (pg_jobs db)" by (simp add: j update_where_def)
    show ?thesis
      unfolding if_not_P [OF False]
      by (rule exI [of _ session], rule exI [of _ r], unfold if_not_P [OF False])
        (intro conjI allI impI ballI s r(1-3) d(3) len, erule n, erule x, assumption)
  qed
qed

section \<open>Repeating a run\<close>

lemma same_session:
  assumes "authenticateSession sha now token a = Inr s" "authenticateSession sha now' token b = Inr s'"
    and "db_sessions a = db_sessions b" "db_users a = db_users b"
  shows "s = s'"
  using assms by (auto simp: authenticateSession_def session_user_def Let_def split: option.splits if_splits)

lemma insertRun_identity: "insertRun env newID sid now rcd db = Inr db' \<Longrightarrow> pg_identity db' = pg_identity db"
  by (auto simp: insertRun_def dest!: report_status_same(5) split: if_splits option.splits)

text \<open>What a rerun makes of the runs, and that it keeps sessions and users.\<close>

lemma rerun_tables [simp]:
  "pg_runs (unblock_rows r db) = pg_runs db" "pg_runs (reuse_rows now r q db) = pg_runs db"
  "pg_identity (unblock_rows r db) = pg_identity db" "pg_identity (reuse_rows now r q db) = pg_identity db"
  "pg_identity (mark_rerun r q mode db) = pg_identity db"
  "db_sessions (pg_identity (write_event e db)) = db_sessions (pg_identity db)"
  "db_users (pg_identity (write_event e db)) = db_users (pg_identity db)"
  by (simp_all add: unblock_rows_def update_jobs_def reuse_rows_def mark_rerun_def write_event_def)

lemma rerun_cases:
  assumes r: "RerunAuthorizedRun env newID newRun sid now token project run mode request db = Inr (db', out)"
  obtains (old) session previous where "authenticateSession (env_sha env) now token (pg_identity db) = Inr session"
      "List.find (\<lambda>r. rec_IdempotencyKey (rw_rec r) = rerun_key env run (se_UserID session) mode request) (pg_runs db) = Some previous"
      "db' = db" "out = scan_run (rw_rec previous)"
    | (new) session db1 where "authenticateSession (env_sha env) now token (pg_identity db) = Inr session"
      "List.find (\<lambda>r. rec_IdempotencyKey (rw_rec r) = rerun_key env run (se_UserID session) mode request) (pg_runs db) = None"
      "insertRun env newID sid now out db = Inr db1" "rec_ID out = newRun"
      "rec_IdempotencyKey out = rerun_key env run (se_UserID session) mode request"
      "pg_runs db' = pg_runs (mark_rerun newRun run mode db1)"
      "db_sessions (pg_identity db') = db_sessions (pg_identity db)" "db_users (pg_identity db') = db_users (pg_identity db)"
proof -
  have m: "\<not> ((mode \<noteq> ''full'' \<and> mode \<noteq> ''failed'') \<or> request = uuid_Nil)"
    using r unfolding RerunAuthorizedRun_def by (auto split: if_splits)
  obtain session original where l: "lockAuthorizedRun env now token project run RunCreate db = Inr (session, original)"
    using r unfolding RerunAuthorizedRun_def if_not_P [OF m] by (auto simp: and_then_Inr)
  have t: "\<not> (\<not> Terminal (rec_Status original) \<or> (mode = ''failed'' \<and> rec_Status original \<noteq> StatusFailed))"
    using r l unfolding RerunAuthorizedRun_def if_not_P [OF m] by (auto split: if_splits)
  have a: "authenticateSession (env_sha env) now token (pg_identity db) = Inr session"
    using l unfolding lockAuthorizedRun_def project_session_def
    by (auto simp: and_then_Inr split: sum.splits option.splits)
  define key where "key = rerun_key env run (se_UserID session) mode request"
  note body = r [unfolded RerunAuthorizedRun_def if_not_P [OF m] l and_then_simps prod.case if_not_P [OF t] Let_def, folded key_def]
  show ?thesis
  proof (cases "List.find (\<lambda>r. rec_IdempotencyKey (rw_rec r) = key) (pg_runs db)")
    case (Some previous)
    then show ?thesis using old [OF a] body by (simp add: key_def)
  next
    case None
    have ex: "list_ex (\<lambda>j. jb_run j = run) (pg_jobs db)" using body None by (auto split: if_splits)
    define d3 where "d3 = (\<lambda>db1. if mode = ''failed'' then unblock_rows newRun (reuse_rows now newRun run (mark_rerun newRun run mode db1))
         else mark_rerun newRun run mode db1)"
    let ?next = "rerun_record newRun (se_UserID session) now key original (pipeline_version run db)"
    obtain db1 where i: "insertRun env newID sid now ?next db = Inr db1" "out = ?next"
      "db' = write_event (appendAudit (env_String env) (se_UserID session) ''run.rerun'' ''run'' newRun) (d3 db1)"
      using body None ex unfolding d3_def by (auto simp: and_then_Inr)
    have "pg_runs (d3 db1) = pg_runs (mark_rerun newRun run mode db1)" "pg_identity (d3 db1) = pg_identity db1"
      by (simp_all add: d3_def)
    then show ?thesis
      by (intro new [OF a None [unfolded key_def]])
        (use i insertRun_identity [OF i(1)] in \<open>simp_all add: rerun_record_def key_def [symmetric]\<close>)
  qed
qed

lemma find_append: "List.find p (xs @ ys) = (case List.find p xs of None \<Rightarrow> List.find p ys | Some x \<Rightarrow> Some x)"
  by (induction xs) auto

text \<open>
  A rerun request is idempotent: sending it again (the same user, run, mode and request
  identifier), at any later time and with any freshly drawn identifiers, creates no second run but answers with
  the run of the first request.
\<close>

theorem rerun_once:
  assumes "RerunAuthorizedRun env newID newRun sid now token project run mode request db = Inr (db1, out)"
    and "RerunAuthorizedRun env newID' newRun' sid' now' token project run mode request db1 = Inr (db2, out')"
  shows "db2 = db1 \<and> rec_ID out' = rec_ID out"
proof -
  have found: "db2 = db1 \<and> rec_ID out' = rw_id x"
    if s: "authenticateSession (env_sha env) now token (pg_identity db) = Inr session"
      "db_sessions (pg_identity db1) = db_sessions (pg_identity db)" "db_users (pg_identity db1) = db_users (pg_identity db)"
      "List.find (\<lambda>r. rec_IdempotencyKey (rw_rec r) = rerun_key env run (se_UserID session) mode request) (pg_runs db1) = Some x"
    for session x
    using assms(2)
  proof (cases rule: rerun_cases)
    case (old session' previous)
    then have "session' = session" using same_session [OF s(1) old(1)] s(2,3) by simp
    then show ?thesis using old s(4) by (simp add: scan_run_def)
  next
    case (new session' dbx)
    then have "session' = session" using same_session [OF s(1) new(1)] s(2,3) by simp
    then show ?thesis using new(2) s(4) by simp
  qed
  show ?thesis
    using assms(1)
  proof (cases rule: rerun_cases)
    case (old session previous)
    then show ?thesis using found [OF old(1), of previous] by (simp add: scan_run_def)
  next
    case (new session dbx)
    obtain rows r where r: "r = \<lparr>rw_rec = out\<lparr>rec_StartedAt := None, rec_FinishedAt := None\<rparr>, rw_rerun = None\<rparr>"
      "pg_runs dbx = pg_runs db @ [r]" "rw_id r \<notin> rw_id ` set (pg_runs db)"
      using insertRun_rows [OF new(3)] by metis
    let ?y = "r\<lparr>rw_rerun := Some (run, mode)\<rparr>"
    have "pg_runs db1 = pg_runs db @ [?y]"
      using mark_rerun_append(1) [OF r(3,2), of run mode] new(4,6) r(1) by simp
    then have "List.find (\<lambda>r. rec_IdempotencyKey (rw_rec r) = rerun_key env run (se_UserID session) mode request) (pg_runs db1) = Some ?y"
      using new(2,5) r(1) by (simp add: find_append)
    then show ?thesis using found [OF new(1,7,8), of ?y] r(1) by simp
  qed
qed

end
