(* ===== verification/Webhook_Runs.thy ===== *)
theory Webhook_Runs
  imports Github_Ci Pg_Actions
begin

text \<open>
  What the orchestrator guarantees: the delays between attempts, that a delivery under a live lease is always settled,
  that a run is stored only for an enabled automation and an authorized event, and that storing it is a step of the
  run store, so that everything proved of the run store holds for runs of webhooks too.
\<close>

section \<open>The delays between attempts\<close>

lemma retry_constants: "retryBaseDelay = 5000000000" "retryMaxDelay = 900000000000"
  by (simp_all add: retryBaseDelay_def retryMaxDelay_def go_time)

lemma retry_loop_closed:
  "1 \<le> current \<Longrightarrow> current \<le> attempt \<Longrightarrow> delay = min (retryBaseDelay * 2 ^ nat (current - 1)) retryMaxDelay \<Longrightarrow>
   retry_loop attempt current delay = min (retryBaseDelay * 2 ^ nat (attempt - 1)) retryMaxDelay"
proof (induction attempt current delay rule: retry_loop.induct)
  case (1 attempt current delay)
  show ?case
  proof (cases "current < attempt \<and> delay < retryMaxDelay")
    case True
    have p: "2 ^ nat (current + 1 - 1) = 2 * (2 :: int) ^ nat (current - 1)"
    proof -
      have "nat (current + 1 - 1) = Suc (nat (current - 1))" using 1(2) by simp
      then show ?thesis by (simp only: power_Suc)
    qed
    have d: "delay = retryBaseDelay * 2 ^ nat (current - 1)" using True 1(4) by (auto simp: min_def split: if_splits)
    have pos: "0 \<le> delay" using d by (simp add: retry_constants)
    then have i: "int64 (delay * 2) = delay * 2" using True by (intro int64_id) (simp add: in_int64_def retry_constants)
    have d2: "(if int64 (delay * 2) > retryMaxDelay then retryMaxDelay else int64 (delay * 2)) =
        min (retryBaseDelay * 2 ^ nat (current + 1 - 1)) retryMaxDelay"
      unfolding i p unfolding d by (simp add: min_def)
    have "retry_loop attempt (current + 1) (if int64 (delay * 2) > retryMaxDelay then retryMaxDelay else int64 (delay * 2)) =
        min (retryBaseDelay * 2 ^ nat (attempt - 1)) retryMaxDelay"
      by (rule 1(1) [OF True refl _ _ d2]) (use 1(2) True in auto)
    then show ?thesis using True by (subst retry_loop.simps) (simp only: Let_def if_True simp_thms)
  next
    case False
    show ?thesis
    proof (cases "current < attempt")
      case True
      then have m: "retryMaxDelay \<le> retryBaseDelay * 2 ^ nat (current - 1)" "delay = retryMaxDelay"
        using False 1(4) by (auto simp: min_def split: if_splits)
      have "(2 :: int) ^ nat (current - 1) \<le> 2 ^ nat (attempt - 1)"
        using True by (intro power_increasing) auto
      then have "retryBaseDelay * 2 ^ nat (current - 1) \<le> retryBaseDelay * 2 ^ nat (attempt - 1)"
        by (rule mult_left_mono) (simp add: retry_constants)
      then have "retryMaxDelay \<le> retryBaseDelay * 2 ^ nat (attempt - 1)" using m(1) by linarith
      then show ?thesis using False m(2) by (subst retry_loop.simps) (simp add: min_def)
    next
      case False
      then have "current = attempt" using 1(3) by simp
      then show ?thesis using 1(4) by (subst retry_loop.simps) simp
    qed
  qed
qed

lemma retryDelay_eq: "retryDelay attempt = min (retryBaseDelay * 2 ^ nat (attempt - 1)) retryMaxDelay"
proof (cases "1 \<le> attempt")
  case True
  then show ?thesis unfolding retryDelay_def by (intro retry_loop_closed) (simp_all add: retry_constants)
next
  case False
  then show ?thesis unfolding retryDelay_def by (subst retry_loop.simps) (simp add: retry_constants)
qed

lemma retryDelay_pos: "retryDelay attempt > 0"
  by (simp add: retryDelay_eq retry_constants)

text \<open>
  The delay before the next attempt doubles from 5 seconds with every attempt and stays at 15 minutes: the
  loop that computes it ends for every attempt number with exactly this value.
\<close>

theorem retryDelay_closed: "retryDelay attempt = min (5 * Second * 2 ^ nat (attempt - 1)) (15 * Minute)"
  by (simp add: retryDelay_eq retryBaseDelay_def retryMaxDelay_def)

section \<open>A delivery under a live lease is settled\<close>

fun outcome_status :: "Outcome \<Rightarrow> hook_status" where
  "outcome_status OutcomeIgnoredDisabled = Ignored"
| "outcome_status OutcomeIgnoredFork = Ignored"
| "outcome_status OutcomeIgnoredTrigger = Ignored"
| "outcome_status OutcomeRetryScheduled = Received"
| "outcome_status OutcomeDeadLettered = DeadLetter"
| "outcome_status _ = Processed"

text \<open>what an outcome does to the row of the delivery; every other row stays.\<close>

definition settled_as :: "gotime \<Rightarrow> WorkItem \<Rightarrow> Outcome \<Rightarrow> inbox \<Rightarrow> inbox \<Rightarrow> bool" where
  "settled_as now item out rows rows' \<longleftrightarrow>
     (\<exists>p f. rows' = update_where p f rows \<and> affected p rows = 1 \<and>
        (\<forall>r. p r \<longrightarrow> hook_lease (wi_ID item) (wi_LeaseID item) r \<and> (hook_row_ok r \<longrightarrow> hook_row_ok (f r))) \<and>
        (\<forall>r. wh_id (f r) = wh_id r \<and> wh_key (f r) = wh_key r \<and> wh_status (f r) = outcome_status out \<and> wh_lease (f r) = None \<and>
           wh_attempts (f r) = wh_attempts r \<and>
           (out = OutcomeRetryScheduled \<longrightarrow> wh_next (f r) = now + retryDelay (wi_Attempt item) \<and> wi_Attempt item < MaxAttempts)))"

lemma finalize_hook_ok:
  "final_hook_status (fn_State request) = Some status \<Longrightarrow> wh_status r = Processing \<Longrightarrow> hook_row_ok r \<Longrightarrow>
   hook_row_ok (finalize_hook now request status r)"
  by (auto simp: hook_row_ok_def finalize_hook_def final_hook_status_def Let_def split: FinalState.splits)

lemma finalize_delivery_Inr:
  assumes "finalize_delivery now item state next' code summary db = Inr db'"
    and "final_hook_status state = Some (outcome_status out)"
    and "out = OutcomeRetryScheduled \<Longrightarrow> state = FinalRetry \<and> next' = now + retryDelay (wi_Attempt item) \<and> wi_Attempt item < MaxAttempts"
  shows "settled_as now item out (ci_hooks db) (ci_hooks db') \<and> ci_pg db' = ci_pg db"
proof -
  let ?req = "\<lparr>fn_ID = wi_ID item, fn_LeaseID = wi_LeaseID item, fn_State = state, fn_NextAttempt = next', fn_ErrorCode = code,
          fn_ErrorSummary = summary\<rparr>"
  obtain rows where f: "FinalizeWebhook now ?req (ci_hooks db) = Inr rows" and db': "db' = db\<lparr>ci_hooks := rows\<rparr>"
    using assms(1) by (auto simp: finalize_delivery_def and_then_Inr)
  show ?thesis
  proof (rule finalize_rows [OF f])
    fix status
    assume s: "final_hook_status (fn_State ?req) = Some status"
      "rows = update_where (\<lambda>r. hook_lease (fn_ID ?req) (fn_LeaseID ?req) r \<and> hook_lease_live now r) (finalize_hook now ?req status) (ci_hooks db)"
      "affected (\<lambda>r. hook_lease (fn_ID ?req) (fn_LeaseID ?req) r \<and> hook_lease_live now r) (ci_hooks db) = 1"
    have "status = outcome_status out" using s(1) assms(2) by simp
    then have "settled_as now item out (ci_hooks db) rows" unfolding settled_as_def
      using s(2,3) assms(3) by (intro exI [of _ "\<lambda>r. hook_lease (wi_ID item) (wi_LeaseID item) r \<and> hook_lease_live now r"]
          exI [of _ "finalize_hook now ?req status"])
        (use s(1) finalize_hook_ok [of ?req status] in \<open>auto simp: finalize_hook_def Let_def hook_lease_def\<close>)
    then show ?thesis using db' by simp
  qed
qed

lemma settle_Inr:
  assumes "settle now item repositoryID runID code summary db = Inr db'" and "outcome_status out = Processed"
  shows "settled_as now item out (ci_hooks db) (ci_hooks db') \<and> ci_pg db' = ci_pg db \<and>
    ci_hooks db' = update_where (hook_lease (wi_ID item) (wi_LeaseID item)) (settle_hook now repositoryID runID code summary) (ci_hooks db)"
proof -
  obtain rows where r: "settleDelivery now (wi_ID item) (wi_LeaseID item) repositoryID runID code summary (ci_hooks db) = Inr rows"
    and db': "db' = db\<lparr>ci_hooks := rows\<rparr>"
    using assms(1) by (auto simp: settle_def and_then_Inr)
  note s = settle_rows [OF r]
  have "settled_as now item out (ci_hooks db) rows" unfolding settled_as_def
    using s assms(2) by (intro exI [of _ "hook_lease (wi_ID item) (wi_LeaseID item)"] exI [of _ "settle_hook now repositoryID runID code summary"])
      (auto simp: settle_hook_def hook_row_ok_def hook_lease_def)
  then show ?thesis using db' s by simp
qed

lemma insert_run_Inr:
  assumes "insert_run ce ids now record' db = Inr db'"
  obtains pg where "insertRun (ce_pg ce) (ids_jobs ids) (ids_status ids) now record' (ci_pg db) = Inr pg" "db' = db\<lparr>ci_pg := pg\<rparr>"
  using assms by (auto simp: insert_run_def and_then_Inr)

lemma store_version_Inr:
  assumes "store_version ids request plan db = Inr (db', versionID)"
  shows "ci_pg db' = ci_pg db" "ci_hooks db' = ci_hooks db"
  using assms by (auto simp: store_version_def split: if_splits prod.splits)

lemma run_event_sel [simp]:
  "ci_hooks (run_event ce action runID deliveryID repositoryID sha extra db) = ci_hooks db"
  "pg_runs (ci_pg (run_event ce action runID deliveryID repositoryID sha extra db)) = pg_runs (ci_pg db)"
  "pg_jobs (ci_pg (run_event ce action runID deliveryID repositoryID sha extra db)) = pg_jobs (ci_pg db)"
  by (simp_all add: run_event_def)

text \<open>A commit finds the run of the delivery, or stores a new one.\<close>

lemma CommitWebhookRun_Inr:
  assumes "CommitWebhookRun ce ids now request db = Inr (db', result)" and "outcome_status out = Processed"
  shows "settled_as now (cm_Delivery request) out (ci_hooks db) (ci_hooks db') \<and>
    (\<not> rt_Created result \<longrightarrow> ci_pg db' = ci_pg db) \<and>
    (rt_Created result \<longrightarrow> rt_ID result = ids_run ids \<and>
       (\<exists>planJSON versionID pg. ce_plan ce (cm_Plan request) = Some planJSON \<and>
          insertRun (ce_pg ce) (ids_jobs ids) (ids_status ids) now
            (webhook_record ce (ids_run ids) (cm_Delivery request) (cm_RepositoryID request) (Some versionID) (plan_Name (cm_Plan request))
               (plan_ConfigSHA256 (cm_Plan request)) StatusQueued planJSON (cm_CreatedAt request) None) (ci_pg db) = Inr pg \<and>
          pg_runs (ci_pg db') = pg_runs pg \<and> pg_jobs (ci_pg db') = pg_jobs pg \<and>
          ci_hooks db' = update_where (hook_lease (wi_ID (cm_Delivery request)) (wi_LeaseID (cm_Delivery request)))
            (settle_hook now (cm_RepositoryID request) (ids_run ids) [] []) (ci_hooks db)))"
proof -
  let ?item = "cm_Delivery request"
  let ?plan = "cm_Plan request"
  let ?rcd = "\<lambda>versionID planJSON. webhook_record ce (ids_run ids) ?item (cm_RepositoryID request) (Some versionID) (plan_Name ?plan)
               (plan_ConfigSHA256 ?plan) StatusQueued planJSON (cm_CreatedAt request) None"
  obtain planJSON where j: "ce_plan ce ?plan = Some planJSON"
    using assms(1) by (auto simp: CommitWebhookRun_def split: if_splits option.splits)
  show ?thesis
  proof (cases "List.find (\<lambda>r. rec_IdempotencyKey (rw_rec r) = idempotency_key ce ?item) (pg_runs (ci_pg db))")
    case (Some existing)
    then obtain db1 where "settle now ?item (cm_RepositoryID request) (rw_id existing) [] [] db = Inr db1" "db' = db1" "\<not> rt_Created result"
      using assms(1) j by (auto simp: CommitWebhookRun_def Let_def and_then_Inr split: if_splits)
    then show ?thesis using settle_Inr [OF _ assms(2)] by blast
  next
    case None
    then obtain deliveryID where "create_run ce ids now request planJSON deliveryID db = Inr (db', result)"
      using assms(1) j by (auto simp: CommitWebhookRun_def Let_def and_then_Inr split: if_splits)
    then have "\<exists>db1 versionID db2 db3. store_version ids request planJSON db = Inr (db1, versionID) \<and>
      insert_run ce ids now (?rcd versionID planJSON) db1 = Inr db2 \<and>
      settle now ?item (cm_RepositoryID request) (ids_run ids) [] [] db2 = Inr db3 \<and>
      db' = run_event ce ''webhook.run_created'' (ids_run ids) deliveryID (cm_RepositoryID request) (ev_AfterSHA (wi_Event ?item)) [] db3 \<and>
      result = \<lparr>rt_ID = ids_run ids, rt_Created = True\<rparr>"
      by (auto simp: create_run_def Let_def and_then_Inr)
    then obtain db1 versionID db2 db3 where s: "store_version ids request planJSON db = Inr (db1, versionID)"
      "insert_run ce ids now (?rcd versionID planJSON) db1 = Inr db2"
      "settle now ?item (cm_RepositoryID request) (ids_run ids) [] [] db2 = Inr db3"
      "db' = run_event ce ''webhook.run_created'' (ids_run ids) deliveryID (cm_RepositoryID request) (ev_AfterSHA (wi_Event ?item)) [] db3"
      "result = \<lparr>rt_ID = ids_run ids, rt_Created = True\<rparr>"
      by blast
    obtain pg where pg: "insertRun (ce_pg ce) (ids_jobs ids) (ids_status ids) now (?rcd versionID planJSON) (ci_pg db) = Inr pg"
      "db2 = db1\<lparr>ci_pg := pg\<rparr>"
      using insert_run_Inr [OF s(2)] store_version_Inr [OF s(1)] by metis
    note st = settle_Inr [OF s(3) assms(2)]
    show ?thesis using st s(4,5) pg j store_version_Inr [OF s(1)] by auto
  qed
qed

lemma update_last_run:
  assumes "rw_id r \<notin> rw_id ` set rows"
  shows "update_where (\<lambda>x. rw_id x = rw_id r) f (rows @ [r]) = rows @ [f r]"
proof -
  have "map (\<lambda>x. if rw_id x = rw_id r then f x else x) rows = rows"
  proof (rule map_idI)
    fix x
    assume "x \<in> set rows"
    then have "rw_id x \<noteq> rw_id r" using assms by (metis imageI)
    then show "(if rw_id x = rw_id r then f x else x) = x" by simp
  qed
  then show ?thesis by (simp add: update_where_def)
qed

lemma CommitWebhookFailedRun_Inr:
  assumes "CommitWebhookFailedRun ce ids now request db = Inr (db', result)" and "outcome_status out = Processed"
    and codec: "\<And>p b. ce_plan ce p = Some b \<Longrightarrow> env_plan (ce_pg ce) b = Some p"
  shows "settled_as now (fc_Delivery request) out (ci_hooks db) (ci_hooks db') \<and>
    (\<not> rt_Created result \<longrightarrow> ci_pg db' = ci_pg db) \<and>
    (rt_Created result \<longrightarrow> rt_ID result = ids_run ids \<and>
       (\<exists>r. pg_runs (ci_pg db') = pg_runs (ci_pg db) @ [r] \<and> pg_jobs (ci_pg db') = pg_jobs (ci_pg db) \<and>
          rw_id r = ids_run ids \<and> ids_run ids \<notin> rw_id ` set (pg_runs (ci_pg db)) \<and> rw_status r = StatusFailed \<and>
          rec_FinishedAt (rw_rec r) = Some (fc_CreatedAt request) \<and>
          rec_IdempotencyKey (rw_rec r) = idempotency_key ce (fc_Delivery request) \<and>
          same_run (fc_RepositoryID request) (wi_Event (fc_Delivery request)) (fc_PipelinePath request) (fc_ConfigSHA256 request) (rw_rec r)))"
proof -
  let ?item = "fc_Delivery request"
  let ?rcd = "\<lambda>planJSON. webhook_record ce (ids_run ids) ?item (fc_RepositoryID request) None (fc_PipelinePath request)
                           (fc_ConfigSHA256 request) StatusFailed planJSON (fc_CreatedAt request) (Some (fc_CreatedAt request))"
  obtain planJSON where j: "ce_plan ce (failed_plan request) = Some planJSON"
    using assms(1) by (auto simp: CommitWebhookFailedRun_def split: if_splits option.splits)
  show ?thesis
  proof (cases "List.find (\<lambda>r. rec_IdempotencyKey (rw_rec r) = idempotency_key ce ?item) (pg_runs (ci_pg db))")
    case (Some existing)
    then obtain db1 where "settle now ?item (fc_RepositoryID request) (rw_id existing) (fc_ErrorCode request) (fc_ErrorSummary request) db = Inr db1"
      "db' = db1" "\<not> rt_Created result"
      using assms(1) j by (auto simp: CommitWebhookFailedRun_def Let_def and_then_Inr split: if_splits)
    then show ?thesis using settle_Inr [OF _ assms(2)] by blast
  next
    case None
    then obtain deliveryID where "create_failed_run ce ids now request planJSON deliveryID db = Inr (db', result)"
      using assms(1) j by (auto simp: CommitWebhookFailedRun_def Let_def and_then_Inr split: if_splits)
    then have "\<exists>db1 db2. insert_run ce ids now (?rcd planJSON) db = Inr db1 \<and>
      settle now ?item (fc_RepositoryID request) (ids_run ids) (fc_ErrorCode request) (fc_ErrorSummary request)
        (finish_failed (ids_run ids) (fc_CreatedAt request) db1) = Inr db2 \<and>
      db' = run_event ce ''webhook.run_failed'' (ids_run ids) deliveryID (fc_RepositoryID request) (ev_AfterSHA (wi_Event ?item))
        [(''error_code'', fc_ErrorCode request)] db2 \<and> result = \<lparr>rt_ID = ids_run ids, rt_Created = True\<rparr>"
      by (auto simp: create_failed_run_def Let_def and_then_Inr)
    then obtain db1 db2 where s: "insert_run ce ids now (?rcd planJSON) db = Inr db1"
      "settle now ?item (fc_RepositoryID request) (ids_run ids) (fc_ErrorCode request) (fc_ErrorSummary request)
         (finish_failed (ids_run ids) (fc_CreatedAt request) db1) = Inr db2"
      "db' = run_event ce ''webhook.run_failed'' (ids_run ids) deliveryID (fc_RepositoryID request) (ev_AfterSHA (wi_Event ?item))
         [(''error_code'', fc_ErrorCode request)] db2"
      "result = \<lparr>rt_ID = ids_run ids, rt_Created = True\<rparr>"
      by blast
    obtain pg where pg: "insertRun (ce_pg ce) (ids_jobs ids) (ids_status ids) now (?rcd planJSON) (ci_pg db) = Inr pg" "db1 = db\<lparr>ci_pg := pg\<rparr>"
      using insert_run_Inr [OF s(1)] by metis
    have st: "settled_as now ?item out (ci_hooks db) (ci_hooks db2)"
        "ci_pg db2 = update_runs (\<lambda>r. rw_id r = ids_run ids) (\<lambda>r. r\<lparr>rec_FinishedAt := Some (fc_CreatedAt request)\<rparr>) pg"
      using settle_Inr [OF s(2) assms(2)] pg(2) unfolding finish_failed_def by auto
    obtain plan rows r where i: "env_plan (ce_pg ce) (rec_Plan (?rcd planJSON)) = Some plan"
      "new_rows (ce_pg ce) (ids_jobs ids) (rec_ID (?rcd planJSON)) (plan_Stages plan) now = Some rows"
      "r = \<lparr>rw_rec = (?rcd planJSON)\<lparr>rec_StartedAt := None, rec_FinishedAt := None\<rparr>, rw_rerun = None\<rparr>"
      "pg_runs pg = pg_runs (ci_pg db) @ [r]" "rw_id r \<notin> rw_id ` set (pg_runs (ci_pg db))" "pg_jobs pg = pg_jobs (ci_pg db) @ rows"
      using insertRun_rows [OF pg(1)] by metis
    have "plan = failed_plan request" using i(1) codec [OF j] by (simp add: webhook_record_def)
    then have rows: "rows = []" using i(2) by (simp add: failed_plan_def new_rows_def plan_pairs_def)
    have id: "rw_id r = ids_run ids" using i(3) by (simp add: webhook_record_def)
    have "pg_runs (ci_pg db2) = pg_runs (ci_pg db) @ [r\<lparr>rw_rec := (rw_rec r)\<lparr>rec_FinishedAt := Some (fc_CreatedAt request)\<rparr>\<rparr>]"
      unfolding st(2) update_runs_sel i(4) id [symmetric] by (rule update_last_run [OF i(5)])
    moreover have "pg_jobs (ci_pg db2) = pg_jobs (ci_pg db)" unfolding st(2) update_runs_sel i(6) rows by simp
    ultimately show ?thesis using st(1) s(3,4) i(3,5) id by (simp add: webhook_record_def same_run_def)
  qed
qed

section \<open>One delivery processed\<close>

text \<open>The steps of the orchestrator before a run is stored, as what has to hold for it.\<close>

definition run_allowed :: "Event \<Rightarrow> uuid \<Rightarrow> AutomationSettings \<Rightarrow> ci_db \<Rightarrow> bool" where
  "run_allowed event repositoryID settings db \<longleftrightarrow>
     RuntimeAutomationForProvider (ev_Provider event) (repo_ExternalID (ev_Repository event)) db = Inr (repositoryID, settings) \<and>
     aset_Enabled settings \<and> triggerEnabled settings (ev_Type event) \<and>
     \<not> (ev_Type event = EventPullRequest \<and> map_get [] (ev_Metadata event) ''fork'' \<noteq> ''false'')"

lemma process_cases:
  assumes "process ce ids now fetch item db = Inr (db', out)"
  obtains (ignored) code summary where "out \<in> {OutcomeIgnoredDisabled, OutcomeIgnoredFork, OutcomeIgnoredTrigger}"
      "finalize_delivery now item FinalIgnored time_zero code summary db = Inr db'"
  | (failed) repositoryID settings source and failure :: failureClass and result where "run_allowed (wi_Event item) repositoryID settings db"
      "CommitWebhookFailedRun ce ids now
         \<lparr>fc_Delivery = item, fc_RepositoryID = repositoryID, fc_PipelinePath = aset_PipelinePath settings,
          fc_ConfigSHA256 = hex_encode (sha256 (ce_runtime ce) source), fc_ErrorCode = fl_code failure,
          fc_ErrorSummary = fl_summary failure, fc_CreatedAt = now\<rparr> db = Inr (db', result)"
      "out = (if rt_Created result then OutcomeFailedRunCreated else OutcomeFailedRunReused)"
  | (stored) repositoryID settings source plan result where "run_allowed (wi_Event item) repositoryID settings db"
      "fetch (wi_Event item) (aset_PipelinePath settings) = Inr (repositoryID, source)" "Compile (ce_runtime ce) source now = Inr plan"
      "CommitWebhookRun ce ids now
         \<lparr>cm_Delivery = item, cm_RepositoryID = repositoryID, cm_PipelinePath = aset_PipelinePath settings, cm_PipelineSource = source,
          cm_Plan = plan, cm_CreatedAt = now\<rparr> db = Inr (db', result)"
      "out = (if rt_Created result then OutcomeRunCreated else OutcomeRunReused)"
proof -
  let ?event = "wi_Event item"
  have prov: "ev_Provider ?event = GitHub \<or> ev_Provider ?event = Gitee"
    using assms by (auto simp: process_def Let_def split: if_splits)
  obtain repositoryID settings where rt:
      "RuntimeAutomationForProvider (ev_Provider ?event) (repo_ExternalID (ev_Repository ?event)) db = Inr (repositoryID, settings)"
    using assms prov by (auto simp: process_def Let_def RuntimeAutomationForGitHub_def and_then_Inr split: if_splits)
  have body: "(if \<not> aset_Enabled settings
          then ignore now item OutcomeIgnoredDisabled ''automation_disabled'' ''Project automation is disabled'' db
          else if ev_Type ?event = EventPullRequest \<and> map_get [] (ev_Metadata ?event) ''fork'' \<noteq> ''false''
          then ignore now item OutcomeIgnoredFork ''external_fork'' ''External fork pull request is not trusted'' db
          else if \<not> triggerEnabled settings (ev_Type ?event)
          then ignore now item OutcomeIgnoredTrigger ''trigger_disabled'' ''Event type is not enabled for this project'' db
          else
            (case fetch ?event (aset_PipelinePath settings) of
               Inl e \<Rightarrow>
                 if e = CiScm ScmNotFound
                 then commitConfigurationFailure ce ids now item repositoryID (aset_PipelinePath settings) [] (classifyFailure e) db
                 else Inl e
             | Inr (repository, source) \<Rightarrow>
                 if repository \<noteq> repositoryID then Inl CiRepositoryMismatch
                 else run_pipeline ce ids now item repositoryID (aset_PipelinePath settings) source db)) = Inr (db', out)"
    using assms rt prov by (auto simp: process_def Let_def RuntimeAutomationForGitHub_def split: if_splits)
  show ?thesis
  proof (cases "run_allowed ?event repositoryID settings db")
    case False
    then have "(\<exists>o' code summary. o' \<in> {OutcomeIgnoredDisabled, OutcomeIgnoredFork, OutcomeIgnoredTrigger} \<and>
        ignore now item o' code summary db = Inr (db', out))"
      using body rt unfolding run_allowed_def by (auto split: if_splits)
    then show ?thesis using ignored by (auto simp: ignore_def and_then_Inr)
  next
    case True
    then have rest: "(case fetch ?event (aset_PipelinePath settings) of
               Inl e \<Rightarrow>
                 if e = CiScm ScmNotFound
                 then commitConfigurationFailure ce ids now item repositoryID (aset_PipelinePath settings) [] (classifyFailure e) db
                 else Inl e
             | Inr (repository, source) \<Rightarrow>
                 if repository \<noteq> repositoryID then Inl CiRepositoryMismatch
                 else run_pipeline ce ids now item repositoryID (aset_PipelinePath settings) source db) = Inr (db', out)"
      using body by (auto simp: run_allowed_def)
    have fail: ?thesis if "commitConfigurationFailure ce ids now item repositoryID (aset_PipelinePath settings) source failure db = Inr (db', out)"
      for source and failure :: failureClass
      using that failed [OF True] by (auto simp: commitConfigurationFailure_def and_then_Inr)
    show ?thesis
    proof (cases "fetch ?event (aset_PipelinePath settings)")
      case (Inl e)
      then show ?thesis using rest fail by (auto split: if_splits)
    next
      case (Inr x)
      then obtain source where src: "fetch ?event (aset_PipelinePath settings) = Inr (repositoryID, source)"
        "run_pipeline ce ids now item repositoryID (aset_PipelinePath settings) source db = Inr (db', out)"
        using rest by (auto split: prod.splits if_splits)
      show ?thesis
      proof (cases "Compile (ce_runtime ce) source now")
        case (Inl e)
        then show ?thesis using src(2) fail by (auto simp: run_pipeline_def)
      next
        case (Inr plan)
        then show ?thesis using src stored [OF True src(1) Inr] by (auto simp: run_pipeline_def and_then_Inr)
      qed
    qed
  qed
qed

lemma finalizeFailure_Inr:
  assumes "finalizeFailure now item err db = Inr (db', out)"
  shows "settled_as now item out (ci_hooks db) (ci_hooks db') \<and> ci_pg db' = ci_pg db \<and> out \<in> {OutcomeRetryScheduled, OutcomeDeadLettered}"
proof (cases "fl_transient (classifyFailure err) \<and> wi_Attempt item < MaxAttempts")
  case True
  then obtain code summary where "finalize_delivery now item FinalRetry (now + retryDelay (wi_Attempt item)) code summary db = Inr db'"
    "out = OutcomeRetryScheduled"
    using assms by (auto simp: finalizeFailure_def Let_def and_then_Inr)
  then show ?thesis using finalize_delivery_Inr [of now item FinalRetry _ code summary db db' out] True by (simp add: final_hook_status_def)
next
  case False
  then obtain code summary where "finalize_delivery now item FinalDead time_zero code summary db = Inr db'" "out = OutcomeDeadLettered"
    using assms by (auto simp: finalizeFailure_def Let_def and_then_Inr)
  then show ?thesis using finalize_delivery_Inr [of now item FinalDead _ code summary db db' out] by (simp add: final_hook_status_def)
qed

text \<open>The JSON codec of plans reads back what it wrote.\<close>

definition plan_codec_ok :: "ci_env \<Rightarrow> bool" where
  "plan_codec_ok ce \<longleftrightarrow> (\<forall>p b. ce_plan ce p = Some b \<longrightarrow> env_plan (ce_pg ce) b = Some p)"

lemma Process_settled:
  assumes "Process ce ids now fetch item db = Inr (db', out)" and "plan_codec_ok ce"
  shows "settled_as now item out (ci_hooks db) (ci_hooks db')"
proof (cases "process ce ids now fetch item db")
  case (Inl err)
  then show ?thesis using assms(1) finalizeFailure_Inr by (auto simp: Process_def split: if_splits)
next
  case (Inr x)
  then have p: "process ce ids now fetch item db = Inr (db', out)" using assms(1) by (simp add: Process_def)
  then show ?thesis
  proof (cases rule: process_cases)
    case (ignored code summary)
    then show ?thesis using finalize_delivery_Inr [OF ignored(2), of out] by (auto simp: final_hook_status_def)
  next
    case (failed repositoryID settings source failure result)
    have "outcome_status out = Processed" using failed(3) by simp
    then show ?thesis using CommitWebhookFailedRun_Inr [OF failed(2)] assms(2) by (auto simp: plan_codec_ok_def)
  next
    case (stored repositoryID settings source plan result)
    have "outcome_status out = Processed" using stored(5) by simp
    then show ?thesis using CommitWebhookRun_Inr [OF stored(4)] by simp
  qed
qed

lemma finalize_delivery_total:
  assumes "inbox_ok (ci_hooks db)" and "r \<in> set (ci_hooks db)" and "hook_lease (wi_ID item) (wi_LeaseID item) r" and "hook_lease_live now r"
    and "wi_ID item \<noteq> uuid_Nil" and "wi_LeaseID item \<noteq> uuid_Nil" and "length code \<le> 64" and "length summary \<le> 1024"
    and "final_hook_status state = Some status" and "state = FinalRetry \<Longrightarrow> next' > now"
  shows "\<exists>db'. finalize_delivery now item state next' code summary db = Inr db'"
proof -
  let ?p = "\<lambda>r. hook_lease (wi_ID item) (wi_LeaseID item) r \<and> hook_lease_live now r"
  have "affected ?p (ci_hooks db) = 1"
    using affected_unique [of wh_id "ci_hooks db" ?p "wi_ID item"] assms(1-4) by (auto simp: inbox_ok_def hook_lease_def)
  then show ?thesis using assms(5-10) by (auto simp: finalize_delivery_def FinalizeWebhook_def Let_def)
qed

lemma classify_lengths: "length (fl_code (classifyFailure err)) \<le> 64 \<and> length (fl_summary (classifyFailure err)) \<le> 1024"
  by (simp add: classifyFailure_def split: ci_error.split scm_error.split)

lemma finalizeFailure_total:
  assumes "inbox_ok (ci_hooks db)" and "r \<in> set (ci_hooks db)" and "hook_lease (wi_ID item) (wi_LeaseID item) r" and "hook_lease_live now r"
    and "wi_ID item \<noteq> uuid_Nil" and "wi_LeaseID item \<noteq> uuid_Nil"
  shows "\<exists>db' out. finalizeFailure now item err db = Inr (db', out)"
proof -
  note total = finalize_delivery_total [OF assms]
  show ?thesis
  proof (cases "fl_transient (classifyFailure err) \<and> wi_Attempt item < MaxAttempts")
    case True
    obtain db' where "finalize_delivery now item FinalRetry (now + retryDelay (wi_Attempt item)) (fl_code (classifyFailure err))
        (fl_summary (classifyFailure err)) db = Inr db'"
      using total [of "fl_code (classifyFailure err)" "fl_summary (classifyFailure err)" FinalRetry Received "now + retryDelay (wi_Attempt item)"] classify_lengths [of err]
        retryDelay_pos [of "wi_Attempt item"] by (auto simp: final_hook_status_def)
    then show ?thesis using True by (simp add: finalizeFailure_def Let_def)
  next
    case False
    have "\<exists>db'. finalize_delivery now item FinalDead time_zero
        (if fl_transient (classifyFailure err) then ''retry_exhausted'' else fl_code (classifyFailure err))
        (if fl_transient (classifyFailure err) then ''GitHub delivery processing failed after the retry limit''
         else fl_summary (classifyFailure err)) db = Inr db'"
      by (rule total) (use classify_lengths [of err] in \<open>auto simp: final_hook_status_def\<close>)
    then show ?thesis using False by (auto simp: finalizeFailure_def Let_def)
  qed
qed

text \<open>
  C17 (liveness). Processing always ends with a decision: as long as the worker's lease of a delivery is live, the
  orchestrator reports an outcome, whatever the fetcher answers and whatever goes wrong when the run is stored, and the
  delivery leaves the worker: it is processed, ignored, dead, or scheduled for a later attempt with the delay of the
  number of attempts made.
\<close>

theorem Process_always_settles:
  assumes "plan_codec_ok ce" and "inbox_ok (ci_hooks db)" and "r \<in> set (ci_hooks db)" and "hook_lease (wi_ID item) (wi_LeaseID item) r"
    and "hook_lease_live now r" and "wi_ID item \<noteq> uuid_Nil" and "wi_LeaseID item \<noteq> uuid_Nil"
  shows "\<exists>db' out r'. Process ce ids now fetch item db = Inr (db', out) \<and> r' \<in> set (ci_hooks db') \<and> wh_id r' = wi_ID item \<and>
    wh_lease r' = None \<and> wh_status r' = outcome_status out \<and>
    (out = OutcomeRetryScheduled \<longrightarrow> wh_next r' = now + retryDelay (wi_Attempt item) \<and> wi_Attempt item < MaxAttempts)"
proof -
  obtain db' out where p: "Process ce ids now fetch item db = Inr (db', out)"
    using finalizeFailure_total [OF assms(2-7)] assms(6,7) unfolding Process_def
    by (cases "process ce ids now fetch item db") fastforce+
  obtain q f where s: "ci_hooks db' = update_where q f (ci_hooks db)" "affected q (ci_hooks db) = 1"
    "\<And>r. q r \<Longrightarrow> hook_lease (wi_ID item) (wi_LeaseID item) r"
    "\<And>r. wh_id (f r) = wh_id r \<and> wh_status (f r) = outcome_status out \<and> wh_lease (f r) = None \<and> wh_attempts (f r) = wh_attempts r \<and>
       (out = OutcomeRetryScheduled \<longrightarrow> wh_next (f r) = now + retryDelay (wi_Attempt item) \<and> wi_Attempt item < MaxAttempts)"
    using Process_settled [OF p assms(1)] unfolding settled_as_def by blast
  obtain x where x: "x \<in> set (ci_hooks db)" "q x"
    using s(2) by (metis One_nat_def affected_def filter_empty_conv list.size(3) zero_neq_one)
  have "f x \<in> set (ci_hooks db')" unfolding s(1) set_update_where using x by blast
  then show ?thesis using p s(4) [of x] s(3) [OF x(2)] by (intro exI [of _ db'] exI [of _ out] exI [of _ "f x"]) (simp add: hook_lease_def)
qed

section \<open>Which deliveries become runs\<close>

lemma finalizeFailure_pg: "finalizeFailure now item err db = Inr (db', out) \<Longrightarrow> ci_pg db' = ci_pg db"
  using finalizeFailure_Inr by blast

lemma Process_cases:
  assumes "Process ce ids now fetch item db = Inr (db', out)"
  obtains (same) "ci_pg db' = ci_pg db"
  | (processed) "process ce ids now fetch item db = Inr (db', out)" "out \<in> {OutcomeRunCreated, OutcomeFailedRunCreated}"
proof (cases "process ce ids now fetch item db")
  case (Inl err)
  then show ?thesis using assms finalizeFailure_pg same by (auto simp: Process_def split: if_splits)
next
  case (Inr x)
  then have p: "process ce ids now fetch item db = Inr (db', out)" using assms by (simp add: Process_def)
  show ?thesis
  proof (cases "out \<in> {OutcomeRunCreated, OutcomeFailedRunCreated}")
    case True
    then show ?thesis using processed p by blast
  next
    case False
    from p show ?thesis
    proof (cases rule: process_cases)
      case (ignored code summary)
      then show ?thesis using same finalize_delivery_Inr [OF ignored(2), of out] by (auto simp: final_hook_status_def)
    next
      case (failed repositoryID settings source failure result)
      then have "\<not> rt_Created result" using False by auto
      then obtain existing code summary where "settle now item repositoryID (rw_id existing) code summary db = Inr db'"
        using failed(2) by (auto simp: CommitWebhookFailedRun_def create_failed_run_def Let_def and_then_Inr split: if_splits option.splits)
      then show ?thesis using same settle_Inr [of _ _ _ _ _ _ _ _ OutcomeRunReused] by auto
    next
      case (stored repositoryID settings source plan result)
      then have "\<not> rt_Created result" using False by auto
      then show ?thesis using same CommitWebhookRun_Inr [OF stored(4), of OutcomeRunReused] by simp
    qed
  qed
qed

lemma insertRun_row:
  assumes "insertRun env newID sid now rcd db = Inr db'"
  obtains r where "pg_runs db' = pg_runs db @ [r]" "rw_rec r = rcd\<lparr>rec_StartedAt := None, rec_FinishedAt := None\<rparr>"
  using insertRun_rows [OF assms] by (metis run_row.select_convs(1))

text \<open>
  C16 (safety). A run is stored only for an event that the project wants: when processing a delivery adds runs, then the
  repository of the event is known and active, its automation is switched on with the trigger of this kind of event,
  a pull request is not from a fork, and exactly one run is added, which belongs to that project and to the commit of
  the event and carries the key of the delivery.
\<close>

theorem run_needs_enabled_automation:
  assumes "plan_codec_ok ce" and "Process ce ids now fetch item db = Inr (db', out)" and "pg_runs (ci_pg db') \<noteq> pg_runs (ci_pg db)"
  shows "\<exists>repositoryID settings r.
    RuntimeAutomationForProvider (ev_Provider (wi_Event item)) (repo_ExternalID (ev_Repository (wi_Event item))) db = Inr (repositoryID, settings) \<and>
    aset_Enabled settings \<and> triggerEnabled settings (ev_Type (wi_Event item)) \<and>
    (ev_Type (wi_Event item) = EventPullRequest \<longrightarrow> map_get [] (ev_Metadata (wi_Event item)) ''fork'' = ''false'') \<and>
    pg_runs (ci_pg db') = pg_runs (ci_pg db) @ [r] \<and> rec_ProjectID (rw_rec r) = Some repositoryID \<and>
    rec_CommitSHA (rw_rec r) = ev_AfterSHA (wi_Event item) \<and> rec_IdempotencyKey (rw_rec r) = idempotency_key ce item"
  using assms(2)
proof (cases rule: Process_cases)
  case same
  then show ?thesis using assms(3) by simp
next
  case processed
  from processed(1) show ?thesis
  proof (cases rule: process_cases)
    case (ignored code summary)
    then show ?thesis using processed(2) by auto
  next
    case (failed repositoryID settings source failure result)
    then have c: "rt_Created result" using processed(2) by (auto split: if_splits)
    have k: "\<And>p b. ce_plan ce p = Some b \<Longrightarrow> env_plan (ce_pg ce) b = Some p" using assms(1) by (simp add: plan_codec_ok_def)
    obtain r where "pg_runs (ci_pg db') = pg_runs (ci_pg db) @ [r]" "rec_IdempotencyKey (rw_rec r) = idempotency_key ce item"
      "rec_ProjectID (rw_rec r) = Some repositoryID" "rec_CommitSHA (rw_rec r) = ev_AfterSHA (wi_Event item)"
      using CommitWebhookFailedRun_Inr [OF failed(2) _ k, of OutcomeFailedRunCreated] c by (auto simp: same_run_def)
    then show ?thesis using failed(1) by (intro exI [of _ repositoryID] exI [of _ settings] exI [of _ r]) (simp add: run_allowed_def)
  next
    case (stored repositoryID settings source plan result)
    then have c: "rt_Created result" using processed(2) by (auto split: if_splits)
    obtain planJSON versionID pg where i: "insertRun (ce_pg ce) (ids_jobs ids) (ids_status ids) now
        (webhook_record ce (ids_run ids) item repositoryID (Some versionID) (plan_Name plan) (plan_ConfigSHA256 plan) StatusQueued
          planJSON now None) (ci_pg db) = Inr pg" "pg_runs (ci_pg db') = pg_runs pg"
      using CommitWebhookRun_Inr [OF stored(4), of OutcomeRunCreated] c by auto
    obtain r where r: "pg_runs pg = pg_runs (ci_pg db) @ [r]" "rec_ProjectID (rw_rec r) = Some repositoryID"
      "rec_CommitSHA (rw_rec r) = ev_AfterSHA (wi_Event item)" "rec_IdempotencyKey (rw_rec r) = idempotency_key ce item"
      by (rule insertRun_row [OF i(1)]) (simp add: webhook_record_def)
    show ?thesis using stored(1) r i(2) by (intro exI [of _ repositoryID] exI [of _ settings] exI [of _ r]) (simp add: run_allowed_def)
  qed
qed

end
