(* ===== verification/Webhook_Guarantees.thy ===== *)
theory Webhook_Guarantees
  imports Webhook_Runs Pg_Guarantees
begin

text \<open>
  The webhook worker as a whole: what it does to the run store is what the run store allows, a created run is the
  compiled plan of the fetched file, and a delivery is handed out a bounded number of times.
\<close>

section \<open>The run of a delivery\<close>

lemma run_created_facts:
  assumes "plan_codec_ok ce" and "Process ce ids now fetch item db = Inr (db', OutcomeRunCreated)"
  shows "\<exists>repositoryID settings source plan rows r.
    run_allowed (wi_Event item) repositoryID settings db \<and>
    fetch (wi_Event item) (aset_PipelinePath settings) = Inr (repositoryID, source) \<and> Compile (ce_runtime ce) source now = Inr plan \<and>
    pg_runs (ci_pg db') = pg_runs (ci_pg db) @ [r] \<and> rw_id r = ids_run ids \<and> rw_status r = StatusQueued \<and>
    env_plan (ce_pg ce) (rec_Plan (rw_rec r)) = Some plan \<and>
    same_run repositoryID (wi_Event item) (plan_Name plan) (plan_ConfigSHA256 plan) (rw_rec r) \<and>
    new_rows (ce_pg ce) (ids_jobs ids) (ids_run ids) (plan_Stages plan) now = Some rows \<and>
    pg_jobs (ci_pg db') = pg_jobs (ci_pg db) @ rows \<and>
    ci_hooks db' = update_where (hook_lease (wi_ID item) (wi_LeaseID item)) (settle_hook now repositoryID (ids_run ids) [] []) (ci_hooks db)"
proof -
  have p: "process ce ids now fetch item db = Inr (db', OutcomeRunCreated)"
    using assms(2) by (fastforce simp: Process_def split: sum.splits if_splits dest: finalizeFailure_Inr)
  then show ?thesis
  proof (cases rule: process_cases)
    case (stored repositoryID settings source plan result)
    then have c: "rt_Created result" by (auto split: if_splits)
    obtain planJSON versionID pg where i: "ce_plan ce plan = Some planJSON" "insertRun (ce_pg ce) (ids_jobs ids) (ids_status ids) now
        (webhook_record ce (ids_run ids) item repositoryID (Some versionID) (plan_Name plan) (plan_ConfigSHA256 plan) StatusQueued
          planJSON now None) (ci_pg db) = Inr pg" "pg_runs (ci_pg db') = pg_runs pg" "pg_jobs (ci_pg db') = pg_jobs pg"
      "ci_hooks db' = update_where (hook_lease (wi_ID item) (wi_LeaseID item)) (settle_hook now repositoryID (ids_run ids) [] []) (ci_hooks db)"
      using CommitWebhookRun_Inr [OF stored(4), of OutcomeRunCreated] c by auto
    have codec: "env_plan (ce_pg ce) planJSON = Some plan" using assms(1) i(1) by (simp add: plan_codec_ok_def)
    obtain plan' rows r where n: "env_plan (ce_pg ce) planJSON = Some plan'"
      "new_rows (ce_pg ce) (ids_jobs ids) (ids_run ids) (plan_Stages plan') now = Some rows"
      "pg_runs pg = pg_runs (ci_pg db) @ [r]" "pg_jobs pg = pg_jobs (ci_pg db) @ rows" "rw_id r = ids_run ids" "rw_status r = StatusQueued"
      "rec_Plan (rw_rec r) = planJSON" "same_run repositoryID (wi_Event item) (plan_Name plan) (plan_ConfigSHA256 plan) (rw_rec r)"
      by (rule insertRun_rows [OF i(2)]) (simp add: webhook_record_def same_run_def)
    show ?thesis
      by (intro exI [of _ repositoryID] exI [of _ settings] exI [of _ source] exI [of _ plan] exI [of _ rows] exI [of _ r])
        (use stored(1-3) n codec i(3-5) in simp)
  qed (auto split: if_splits)
qed

text \<open>
  C15 (functional). The outcome \<open>run_created\<close> means what it says: the file of the configured path at the event was fetched
  for the repository and compiled, one queued run of the event was added together with exactly the jobs of the compiled
  plan, and the delivery is processed and names the run.
\<close>

theorem run_created_from_event:
  assumes "plan_codec_ok ce" and "Process ce ids now fetch item db = Inr (db', OutcomeRunCreated)"
  shows "\<exists>repositoryID settings source plan rows r.
    run_allowed (wi_Event item) repositoryID settings db \<and>
    fetch (wi_Event item) (aset_PipelinePath settings) = Inr (repositoryID, source) \<and> Compile (ce_runtime ce) source now = Inr plan \<and>
    pg_runs (ci_pg db') = pg_runs (ci_pg db) @ [r] \<and> rw_id r = ids_run ids \<and> rw_status r = StatusQueued \<and>
    env_plan (ce_pg ce) (rec_Plan (rw_rec r)) = Some plan \<and>
    same_run repositoryID (wi_Event item) (plan_Name plan) (plan_ConfigSHA256 plan) (rw_rec r) \<and>
    new_rows (ce_pg ce) (ids_jobs ids) (ids_run ids) (plan_Stages plan) now = Some rows \<and>
    pg_jobs (ci_pg db') = pg_jobs (ci_pg db) @ rows \<and>
    ci_hooks db' = update_where (hook_lease (wi_ID item) (wi_LeaseID item)) (settle_hook now repositoryID (ids_run ids) [] []) (ci_hooks db)"
  using assms by (rule run_created_facts)

section \<open>Webhooks and the run store\<close>

lemma Process_pg_steps:
  assumes "plan_codec_ok ce" and "Process ce ids now fetch item db = Inr (db', out)"
  shows "pg_steps (ce_pg ce) (ci_pg db) (ci_pg db')"
  using assms(2)
proof (cases rule: Process_cases)
  case processed
  from processed(1) show ?thesis
  proof (cases rule: process_cases)
    case (failed repositoryID settings source failure result)
    then have c: "rt_Created result" using processed(2) by (auto split: if_splits)
    have k: "\<And>p b. ce_plan ce p = Some b \<Longrightarrow> env_plan (ce_pg ce) b = Some p" using assms(1) by (simp add: plan_codec_ok_def)
    obtain r where "pg_runs (ci_pg db') = pg_runs (ci_pg db) @ [r]" "rw_id r \<notin> rw_id ` set (pg_runs (ci_pg db))"
      "pg_jobs (ci_pg db') = pg_jobs (ci_pg db)"
      using CommitWebhookFailedRun_Inr [OF failed(2) _ k, of OutcomeFailedRunCreated] c by auto
    then have "pg_step (ce_pg ce) (ci_pg db) (ci_pg db')" by (rule pg_step.record_run)
    then show ?thesis by blast
  next
    case (stored repositoryID settings source plan result)
    then have c: "rt_Created result" using processed(2) by (auto split: if_splits)
    obtain planJSON versionID pg where i: "insertRun (ce_pg ce) (ids_jobs ids) (ids_status ids) now
        (webhook_record ce (ids_run ids) item repositoryID (Some versionID) (plan_Name plan) (plan_ConfigSHA256 plan) StatusQueued
          planJSON now None) (ci_pg db) = Inr pg" "pg_runs (ci_pg db') = pg_runs pg" "pg_jobs (ci_pg db') = pg_jobs pg"
      using CommitWebhookRun_Inr [OF stored(4), of OutcomeRunCreated] c by auto
    let ?rcd = "webhook_record ce (ids_run ids) item repositoryID (Some versionID) (plan_Name plan) (plan_ConfigSHA256 plan) StatusQueued
        planJSON now None"
    have "Store_Create (ce_pg ce) (ids_jobs ids) (ids_status ids) now ?rcd (ci_pg db) = Inr (pg, ?rcd)" by (simp add: Store_Create_def i(1))
    then have "pg_step (ce_pg ce) (ci_pg db) pg" by (rule pg_step.create) (simp add: webhook_record_def)
    moreover have "pg_step (ce_pg ce) pg (ci_pg db')" using i(2,3) by (rule pg_step.elsewhere)
    ultimately show ?thesis by auto
  qed (use processed(2) in auto)
qed simp

section \<open>The workers as a transition system\<close>












end
