(* ===== verification/Automation_Guarantees.thy ===== *)
theory Automation_Guarantees
  imports Automation_Store
begin

text \<open>
  What the stored automation settings guarantee: updates are authorized, build on the revision the user has seen, and
  switch the automation on only with a proof for exactly the settings that become active; recording a proof is enough
  to switch it on.
\<close>

lemma settings_put [simp]:
  "settings_of ident (audit_automation env actor action i m (db\<lparr>ci_settings := map_put ident s (ci_settings db)\<rparr>)) = s"
  "other \<noteq> ident \<Longrightarrow>
     settings_of other (audit_automation env actor action i m (db\<lparr>ci_settings := map_put ident s (ci_settings db)\<rparr>)) = settings_of other db"
  by (simp_all add: settings_of_def audit_automation_def map_get_def)

lemma UpdateProjectAutomation_Inr:
  assumes "UpdateProjectAutomation env now token ident update db = Inr (db', s)"
  obtains session where "automation_session env now token ident RepositoryManage db = Inr session"
    "AutomationUpdate_Validate update" "au_ExpectedRevision update = aset_Revision (settings_of ident db)"
    "au_Enabled update \<Longrightarrow> github_ready ident (aset_Revision (settings_of ident db)) (au_PipelinePath update) db \<or>
       gitee_ready now ident (aset_Revision (settings_of ident db)) (au_PipelinePath update) db"
    "s = updated_settings update (aset_Revision (settings_of ident db) + 1)"
    "db' = audit_automation env (se_UserID session) ''repository.automation_updated'' ident (settings_metadata s)
       (db\<lparr>ci_settings := map_put ident s (ci_settings db)\<rparr>)"
  using assms by (auto simp: UpdateProjectAutomation_def Let_def and_then_Inr split: if_splits)

lemma stale_update_refused:
  assumes "au_ExpectedRevision update \<noteq> aset_Revision (settings_of ident db)"
  shows "\<exists>e. UpdateProjectAutomation env now token ident update db = Inl e"
proof (cases "UpdateProjectAutomation env now token ident update db")
  case (Inr x)
  then show ?thesis using assms UpdateProjectAutomation_Inr [of env now token ident update db "fst x" "snd x"] by fastforce
qed simp

text \<open>
  C34 (functional). An accepted change of the automation settings was made by a user who may manage the repository and
  who had seen the current revision; the new settings are those of the request under the next revision, no other
  project changes, the automation is on only if a validation of exactly this revision and pipeline path by the current
  credentials exists, and every other change that was based on the same revision is refused from then on.
\<close>

theorem automation_update_sound:
  assumes "UpdateProjectAutomation env now token ident update db = Inr (db', s)"
  shows "(\<exists>session. automation_session env now token ident RepositoryManage db = Inr session) \<and>
    au_ExpectedRevision update = aset_Revision (settings_of ident db) \<and>
    s = updated_settings update (aset_Revision (settings_of ident db) + 1) \<and> settings_of ident db' = s \<and>
    (\<forall>other. other \<noteq> ident \<longrightarrow> settings_of other db' = settings_of other db) \<and>
    (aset_Enabled s \<longrightarrow> github_ready ident (au_ExpectedRevision update) (aset_PipelinePath s) db \<or>
       gitee_ready now ident (au_ExpectedRevision update) (aset_PipelinePath s) db) \<and>
    (\<forall>update' now' token'. au_ExpectedRevision update' = au_ExpectedRevision update \<longrightarrow>
       (\<exists>e. UpdateProjectAutomation env now' token' ident update' db' = Inl e))"
proof (rule UpdateProjectAutomation_Inr [OF assms])
  fix session
  assume u: "automation_session env now token ident RepositoryManage db = Inr session" "AutomationUpdate_Validate update"
    "au_ExpectedRevision update = aset_Revision (settings_of ident db)"
    "au_Enabled update \<Longrightarrow> github_ready ident (aset_Revision (settings_of ident db)) (au_PipelinePath update) db \<or>
       gitee_ready now ident (aset_Revision (settings_of ident db)) (au_PipelinePath update) db"
    "s = updated_settings update (aset_Revision (settings_of ident db) + 1)"
    "db' = audit_automation env (se_UserID session) ''repository.automation_updated'' ident (settings_metadata s)
       (db\<lparr>ci_settings := map_put ident s (ci_settings db)\<rparr>)"
  have s': "settings_of ident db' = s" "\<And>other. other \<noteq> ident \<Longrightarrow> settings_of other db' = settings_of other db"
    using u(6) settings_put by metis+
  have rev: "aset_Revision s = aset_Revision (settings_of ident db) + 1" using u(5) by (simp add: updated_settings_def)
  have "\<exists>e. UpdateProjectAutomation env now' token' ident update' db' = Inl e"
    if "au_ExpectedRevision update' = au_ExpectedRevision update" for update' now' token'
    by (rule stale_update_refused) (use that u(3) s'(1) rev in simp)
  moreover have "aset_Enabled s = au_Enabled update" "aset_PipelinePath s = au_PipelinePath update"
    using u(5) by (simp_all add: updated_settings_def)
  ultimately show ?thesis using u s' by auto
qed

text \<open>A recorded proof is enough: an update of the same revision and path that enables the automation is not refused for missing readiness.\<close>

lemma validation_makes_ready:
  assumes "RecordProjectAutomationValidation env now token v db = Inr db'"
  shows "github_ready (av_RepositoryID v) (av_SettingsRevision v) (av_PipelinePath v) db' \<and>
    aset_Revision (settings_of (av_RepositoryID v) db') = av_SettingsRevision v"
proof -
  let ?repo = "find_repo (\<lambda>r. sr_id r = av_RepositoryID v \<and> sr_provider r = ''github'') db"
  obtain r where r0: "?repo = Some r" using assms by (cases ?repo) (auto simp: RecordProjectAutomationValidation_def Let_def and_then_Inr split: if_splits)
  obtain a where a0: "app_of r db = Some a"
    using assms r0 by (cases "app_of r db") (auto simp: RecordProjectAutomationValidation_def Let_def and_then_Inr split: if_splits)
  obtain session metadata where r: "aset_Revision (settings_of (av_RepositoryID v) db) = av_SettingsRevision v" "ga_id a = av_AppRevision v"
    "db' = audit_automation env session ''repository.automation_validated'' (av_RepositoryID v) metadata
       (db\<lparr>ci_validations := map_put (av_RepositoryID v) v (ci_validations db)\<rparr>)"
    using assms r0 a0 by (auto simp: RecordProjectAutomationValidation_def Let_def and_then_Inr split: if_splits)
  have sel: "ci_installations db' = ci_installations db" "ci_logins db' = ci_logins db" "ci_apps db' = ci_apps db" "ci_settings db' = ci_settings db"
    "pg_repos (ci_pg db') = pg_repos (ci_pg db)" "db_repositories (pg_identity (ci_pg db')) = db_repositories (pg_identity (ci_pg db))"
    using r(3) by (simp_all add: audit_automation_def write_event_def)
  have "find_repo p db' = find_repo p db" "app_of r db' = app_of r db" "settings_of i db' = settings_of i db" for p i
    unfolding find_repo_def app_of_def settings_of_def repository_active_def sel by (rule refl)+
  moreover have "map_of (ci_validations db') (av_RepositoryID v) = Some v" using r(3) by (simp add: audit_automation_def)
  ultimately show ?thesis using r r0 a0 by (simp add: github_ready_def)
qed

end
