(* ===== verification/Webhook_Verify.thy ===== *)
theory Webhook_Verify
  imports Base64
begin

text \<open>
  The signature checks of \<open>src/internal/scm/webhook/verify.go\<close>. HMAC-SHA-256 and SHA-256 are parameters; a
  comparison in constant time is equality. The result is \<open>None\<close> when the source returns no error.
\<close>

datatype verify_error = WeakSecret | MissingSignature | InvalidSignature | StaleDelivery | BadSigningToken

definition VerifyHMACSHA256 :: "(bytes \<Rightarrow> bytes \<Rightarrow> bytes) \<Rightarrow> bytes \<Rightarrow> bytes \<Rightarrow> string \<Rightarrow> string \<Rightarrow> verify_error option" where
  "VerifyHMACSHA256 hmac secret body received prefix =
     (if length secret < 16 then Some WeakSecret
      else if received = [] then Some MissingSignature
      else if prefix \<noteq> [] \<and> \<not> HasPrefix received prefix then Some InvalidSignature
      else
        (let received' = (if prefix \<noteq> [] then TrimPrefix received prefix else received) in
         case hex_decode received' of
           None \<Rightarrow> Some InvalidSignature
         | Some provided \<Rightarrow>
             if length provided \<noteq> 32 then Some InvalidSignature
             else if hmac secret body \<noteq> provided then Some InvalidSignature else None))"

definition PayloadDigest :: "(bytes \<Rightarrow> bytes) \<Rightarrow> bytes \<Rightarrow> string" where
  "PayloadDigest sha body = hex_encode (sha body)"

definition VerifyLegacyToken :: "string \<Rightarrow> string \<Rightarrow> verify_error option" where
  "VerifyLegacyToken expected received =
     (if expected = [] \<or> received = [] then Some MissingSignature
      else if length expected \<noteq> length received \<or> expected \<noteq> received then Some InvalidSignature
      else None)"

section \<open>Standard webhooks\<close>

text \<open>\<open>base64.StdEncoding\<close>: the standard alphabet with padding; the decoder ignores the unused bits.\<close>

definition std_alphabet :: string where
  "std_alphabet = ''ABCDEFGHIJKLMNOPQRSTUVWXYZabcdefghijklmnopqrstuvwxyz0123456789+/''"

definition std_value :: "char \<Rightarrow> nat option" where
  "std_value c = List.find (\<lambda>i. std_alphabet ! i = c) [0..<64]"

fun pad4 :: "string \<Rightarrow> string" where
  "pad4 (a # b # c # d # s) = a # b # c # d # pad4 s"
| "pad4 [] = []"
| "pad4 [a] = [a]"
| "pad4 [a, b] = [a, b, CHR ''='', CHR ''='']"
| "pad4 [a, b, c] = [a, b, c, CHR ''='']"

definition std_encode :: "bytes \<Rightarrow> string" where
  "std_encode bs = pad4 (map ((!) std_alphabet) (sextets (map of_char bs)))"

fun std_quanta :: "string \<Rightarrow> nat list option" where
  "std_quanta [] = Some []"
| "std_quanta (a # b # c # d # s) =
     (case (std_value a, std_value b) of
        (Some p, Some q) \<Rightarrow>
          (if c = CHR ''='' then (if d = CHR ''='' \<and> s = [] then Some [p * 4 + q div 16] else None)
           else
             (case std_value c of
                None \<Rightarrow> None
              | Some r \<Rightarrow>
                  if d = CHR ''='' then (if s = [] then Some [p * 4 + q div 16, (q mod 16) * 16 + r div 4] else None)
                  else
                    (case std_value d of
                       None \<Rightarrow> None
                     | Some t \<Rightarrow>
                         map_option (\<lambda>bs. (p * 4 + q div 16) # ((q mod 16) * 16 + r div 4) # ((r mod 4) * 64 + t) # bs)
                           (std_quanta s))))
      | _ \<Rightarrow> None)"
| "std_quanta _ = None"

definition std_decode :: "string \<Rightarrow> bytes option" where
  "std_decode s = map_option (map char_of) (std_quanta (filter (\<lambda>c. c \<noteq> CHR 0x0D \<and> c \<noteq> CHR 0x0A) s))"

text \<open>
  \<open>strings.Fields\<close>: the maximal pieces without white space. No encoding of a space starts inside the encoding of
  another code point, so the text can be scanned byte by byte; \<open>word\<close> is the piece read so far.
\<close>

definition end_field :: "string \<Rightarrow> string list \<Rightarrow> string list" where
  "end_field word fields = (if word = [] then fields else word # fields)"

function fields_from :: "string \<Rightarrow> string \<Rightarrow> string list" where
  "fields_from word s =
     (if s = [] then end_field word []
      else
        (case List.find (HasPrefix s) space_encodings of
           None \<Rightarrow> fields_from (word @ [hd s]) (tl s)
         | Some w \<Rightarrow> end_field word (fields_from [] (drop (max 1 (length w)) s))))"
  by pat_completeness auto

termination by (relation "measure (length \<circ> snd)") auto

declare fields_from.simps [simp del]

definition Fields :: "string \<Rightarrow> string list" where
  "Fields s = fields_from [] s"

text \<open>
  \<open>time.Unix(seconds, 0)\<close> counts seconds from the year 1 in 64 bits, and \<open>Sub\<close> saturates at the ends of the
  range of a duration.
\<close>

definition Unix :: "int \<Rightarrow> gotime" where
  "Unix seconds = Second * int64 (seconds + 62135596800)"

definition time_Sub :: "gotime \<Rightarrow> gotime \<Rightarrow> duration" where
  "time_Sub t u = max (- (2 ^ 63)) (min (2 ^ 63 - 1) (t - u))"

definition standard_signature :: "(bytes \<Rightarrow> bytes \<Rightarrow> bytes) \<Rightarrow> bytes \<Rightarrow> string \<Rightarrow> string \<Rightarrow> bytes \<Rightarrow> string" where
  "standard_signature hmac key messageID timestamp body =
     ''v1,'' @ std_encode (hmac key (messageID @ ''.'' @ timestamp @ ''.'' @ body))"

definition VerifyStandard :: "(bytes \<Rightarrow> bytes \<Rightarrow> bytes) \<Rightarrow> string \<Rightarrow> string \<Rightarrow> string \<Rightarrow> string \<Rightarrow> bytes \<Rightarrow> gotime \<Rightarrow> duration
    \<Rightarrow> verify_error option" where
  "VerifyStandard hmac signingToken messageID timestamp signatures body now maxSkew =
     (if messageID = [] \<or> timestamp = [] \<or> signatures = [] then Some MissingSignature
      else if \<not> HasPrefix signingToken ''whsec_'' then Some BadSigningToken
      else
        (case std_decode (TrimPrefix signingToken ''whsec_'') of
           None \<Rightarrow> Some BadSigningToken
         | Some key \<Rightarrow>
             if length key \<noteq> 32 then Some BadSigningToken
             else
               (case ParseInt timestamp of
                  None \<Rightarrow> Some InvalidSignature
                | Some seconds \<Rightarrow>
                    (let issuedAt = Unix seconds in
                     if time_Sub now issuedAt > maxSkew \<or> time_Sub issuedAt now > maxSkew then Some StaleDelivery
                     else if list_ex (\<lambda>signature. signature = standard_signature hmac key messageID timestamp body)
                               (Fields signatures)
                     then None else Some InvalidSignature))))"

section \<open>What the checks accept\<close>

lemma VerifyHMAC_accepts:
  "VerifyHMACSHA256 hmac secret body received prefix = None \<longleftrightarrow>
     16 \<le> length secret \<and> received \<noteq> [] \<and> HasPrefix received prefix \<and> length (hmac secret body) = 32 \<and>
     hex_decode (drop (length prefix) received) = Some (hmac secret body)"
  by (auto simp: VerifyHMACSHA256_def Let_def TrimPrefix_def HasPrefix_def split: option.splits)

text \<open>The signature that a sender with the same secret makes is accepted.\<close>

lemma VerifyHMAC_signed:
  assumes "16 \<le> length secret" and "length (hmac secret body) = 32"
  shows "VerifyHMACSHA256 hmac secret body (prefix @ hex_encode (hmac secret body)) prefix = None"
proof -
  have "hex_encode (hmac secret body) \<noteq> []" using assms(2)
    by (metis length_hex_encode list.size(3) mult_eq_0_iff zero_neq_numeral)
  then show ?thesis using assms by (simp add: VerifyHMAC_accepts hex_decode_encode)
qed

section \<open>Standard webhooks: encoding and acceptance\<close>

lemma std_alphabet_facts: "length std_alphabet = 64" "distinct std_alphabet" "CHR ''='' \<notin> set std_alphabet"
  "list_all (\<lambda>c. 32 < (of_char c :: nat) \<and> (of_char c :: nat) < 128) std_alphabet"
  by (code_simp)+

lemma std_value_nth:
  assumes "i < 64"
  shows "std_value (std_alphabet ! i) = Some i"
proof -
  have "std_alphabet ! k \<noteq> std_alphabet ! i" if "k < i" for k
    using that assms std_alphabet_facts(1,2) by (simp add: nth_eq_iff_index_eq)
  then show ?thesis using assms unfolding std_value_def find_Some_iff by (intro exI [of _ i]) auto
qed

lemma std_nth_not_pad: "i < 64 \<Longrightarrow> std_alphabet ! i \<noteq> CHR ''=''"
  using std_alphabet_facts(1,3) by (metis nth_mem)

lemma std_quanta_encode:
  "list_all (\<lambda>b. b < 256) bs \<Longrightarrow> std_quanta (pad4 (map ((!) std_alphabet) (sextets bs))) = Some bs"
proof (induction bs rule: sextets.induct)
  case (1 a b c bs)
  then have s: "a div 4 < 64" "a mod 4 * 16 + b div 16 < 64" "b mod 16 * 4 + c div 64 < 64" "c mod 64 < 64" by auto
  have "a div 4 * 4 + (a mod 4 * 16 + b div 16) div 16 = a" using 1 by auto
  moreover have "(a mod 4 * 16 + b div 16) mod 16 * 16 + (b mod 16 * 4 + c div 64) div 4 = b" using 1 by auto
  moreover have "(b mod 16 * 4 + c div 64) mod 4 * 64 + c mod 64 = c" using 1 by auto
  ultimately show ?case using 1 s by (simp add: std_value_nth std_nth_not_pad)
next
  case (2 a b)
  then have s: "a div 4 < 64" "a mod 4 * 16 + b div 16 < 64" "b mod 16 * 4 < 64" by auto
  have "a div 4 * 4 + (a mod 4 * 16 + b div 16) div 16 = a" using 2 by auto
  moreover have "(a mod 4 * 16 + b div 16) mod 16 * 16 + (b mod 16 * 4) div 4 = b" using 2 by auto
  ultimately show ?case using s by (simp add: std_value_nth std_nth_not_pad)
next
  case (3 a)
  then have s: "a div 4 < 64" "a mod 4 * 16 < 64" by auto
  then show ?case by (simp add: std_value_nth std_nth_not_pad)
qed simp

lemma pad4_chars: "set (pad4 s) \<subseteq> insert (CHR ''='') (set s)"
  by (induction s rule: pad4.induct) auto

lemma std_encode_chars: "list_all (\<lambda>c. 32 < (of_char c :: nat) \<and> (of_char c :: nat) < 128) (std_encode bs)"
proof -
  have "list_all (\<lambda>x. x < 64) (sextets (map of_char bs))" using sextets_small small_of_char by blast
  then have "set (map ((!) std_alphabet) (sextets (map of_char bs))) \<subseteq> set std_alphabet"
    using std_alphabet_facts(1) by (auto simp: list_all_iff)
  then have "set (std_encode bs) \<subseteq> insert (CHR ''='') (set std_alphabet)"
    unfolding std_encode_def using pad4_chars by blast
  then show ?thesis using std_alphabet_facts(4) by (auto simp: list_all_iff)
qed

lemma std_roundtrip: "std_decode (std_encode bs) = Some bs"
proof -
  have "filter (\<lambda>c. c \<noteq> CHR 0x0D \<and> c \<noteq> CHR 0x0A) (std_encode bs) = std_encode bs"
    using std_encode_chars [of bs] by (auto simp: filter_id_conv list_all_iff)
  then show ?thesis unfolding std_decode_def
    by (simp add: std_encode_def std_quanta_encode [OF small_of_char] comp_def)
qed

text \<open>A text of visible ASCII characters is one field.\<close>

lemma space_heads: "list_all (\<lambda>w. w \<noteq> [] \<and> \<not> (32 < (of_char (hd w) :: nat) \<and> (of_char (hd w) :: nat) < 128)) space_encodings"
  by code_simp

lemma no_space_prefix:
  assumes "32 < (of_char c :: nat)" and "(of_char c :: nat) < 128"
  shows "List.find (HasPrefix (c # s)) space_encodings = None"
proof -
  have "\<not> HasPrefix (c # s) w" if w: "w \<in> set space_encodings" for w
  proof
    assume "HasPrefix (c # s) w"
    moreover have "w \<noteq> []" using w space_heads by (auto simp: list_all_iff)
    ultimately have "hd w = c" by (auto simp: HasPrefix_iff Cons_eq_append_conv)
    then show False using w space_heads assms by (auto simp: list_all_iff)
  qed
  then show ?thesis by (simp add: find_None_iff)
qed

lemma Fields_single:
  assumes "list_all (\<lambda>c. 32 < (of_char c :: nat) \<and> (of_char c :: nat) < 128) s" and "s \<noteq> []"
  shows "Fields s = [s]"
proof -
  have "fields_from word s = end_field (word @ s) []" for word
    using assms(1)
  proof (induction s arbitrary: word)
    case Nil
    then show ?case by (simp add: fields_from.simps)
  next
    case (Cons c s)
    then show ?case by (subst fields_from.simps) (simp add: no_space_prefix)
  qed
  then show ?thesis using assms(2) by (simp add: Fields_def end_field_def)
qed

text \<open>
  The delivery that a sender with the same key signs is accepted while it is fresh, and only fresh deliveries
  that carry this signature are accepted.
\<close>

lemma VerifyStandard_iff:
  assumes "length key = 32" and "messageID \<noteq> []" and "timestamp \<noteq> []" and "signatures \<noteq> []" and "ParseInt timestamp = Some seconds"
  shows "VerifyStandard hmac (''whsec_'' @ std_encode key) messageID timestamp signatures body now maxSkew = None \<longleftrightarrow>
    time_Sub now (Unix seconds) \<le> maxSkew \<and> time_Sub (Unix seconds) now \<le> maxSkew \<and>
    standard_signature hmac key messageID timestamp body \<in> set (Fields signatures)"
proof -
  have t: "HasPrefix (''whsec_'' @ std_encode key) ''whsec_''" "TrimPrefix (''whsec_'' @ std_encode key) ''whsec_'' = std_encode key"
    by (rule HasPrefix_append, rule TrimPrefix_append)
  show ?thesis
    unfolding VerifyStandard_def t using assms by (auto simp: std_roundtrip Let_def list_ex_iff)
qed

lemma standard_signature_field: "Fields (standard_signature hmac key messageID timestamp body) = [standard_signature hmac key messageID timestamp body]"
  by (rule Fields_single) (use std_encode_chars in \<open>simp_all add: standard_signature_def list_all_iff\<close>)

end
