(* ===== verification/Github_Hook.thy ===== *)
theory Github_Hook
  imports Complex_Main Webhook_Verify Webhook_Inbox
begin

text \<open>
  The entrance of GitHub webhooks: \<open>ParseWebhook\<close> of \<open>src/internal/scm/github/client.go\<close> and the service of
  \<open>src/internal/githubhook/service.go\<close>, which limits the rate, authenticates, parses, checks and records a delivery.

  Parameters are HMAC, SHA-256 and the JSON decoders of the payloads (\<open>hook_runtime\<close>), the clock and the answer of the
  secret source. The bucket of the rate limiter is a rational number, so the rounding of \<open>float64\<close> is not modelled.
  Header names are the ASCII tokens that \<open>net/http\<close> accepts.
\<close>

section \<open>Parsing\<close>

record repositoryResponse =
  gr_ID :: string
  gr_Name :: string
  gr_CloneURL :: string
  gr_HTMLURL :: string
  gr_DefaultBranch :: string
  gr_Private :: bool
  gr_OwnerLogin :: string

record push_payload =
  pp_Ref :: string
  pp_Before :: string
  pp_After :: string
  pp_Repository :: repositoryResponse
  pp_SenderLogin :: string

record pull_payload =
  pl_Action :: string
  pl_Number :: int
  pl_Repository :: repositoryResponse
  pl_SenderLogin :: string
  pl_HeadRef :: string
  pl_HeadSHA :: string
  pl_HeadRepo :: "repositoryResponse option"
  pl_BaseRef :: string

record hook_runtime =
  hk_hmac :: "bytes \<Rightarrow> bytes \<Rightarrow> bytes"
  hk_sha :: "bytes \<Rightarrow> bytes"
  hk_push :: "bytes \<Rightarrow> push_payload option"
  hk_pull :: "bytes \<Rightarrow> pull_payload option"
  hk_codec :: event_codec

type_synonym headers = "(string \<times> string list) list"

definition toSCM :: "repositoryResponse \<Rightarrow> Repository" where
  "toSCM r =
     \<lparr>repo_ExternalID = gr_ID r, repo_Owner = gr_OwnerLogin r, repo_Name = gr_Name r, repo_CloneURL = gr_CloneURL r,
      repo_WebURL = gr_HTMLURL r, repo_DefaultBranch = gr_DefaultBranch r, repo_Private = gr_Private r\<rparr>"

definition parsePush :: "hook_runtime \<Rightarrow> gotime \<Rightarrow> string \<Rightarrow> bytes \<Rightarrow> scm_error + Event" where
  "parsePush rt now deliveryID body =
     (case hk_push rt body of
        None \<Rightarrow> Inl ScmInvalidHook
      | Some payload \<Rightarrow>
          Inr \<lparr>ev_Provider = GitHub, ev_DeliveryID = deliveryID,
               ev_Type = (if HasPrefix (pp_Ref payload) ''refs/tags/'' then EventTag else EventPush), ev_Action = [],
               ev_Repository = toSCM (pp_Repository payload), ev_Ref = pp_Ref payload, ev_BeforeSHA = pp_Before payload,
               ev_AfterSHA = pp_After payload, ev_Sender = pp_SenderLogin payload, ev_ReceivedAt = now, ev_Metadata = []\<rparr>)"

definition FormatBool :: "bool \<Rightarrow> string" where
  "FormatBool b = (if b then ''true'' else ''false'')"

definition pull_metadata :: "pull_payload \<Rightarrow> gomap" where
  "pull_metadata payload =
     [(''number'', FormatInt (pl_Number payload)), (''head_ref'', pl_HeadRef payload), (''base_ref'', pl_BaseRef payload)] @
     (case pl_HeadRepo payload of
        None \<Rightarrow> []
      | Some repo \<Rightarrow>
          [(''head_repository_id'', gr_ID repo), (''fork'', FormatBool (gr_ID repo \<noteq> gr_ID (pl_Repository payload)))])"

definition parsePullRequest :: "hook_runtime \<Rightarrow> gotime \<Rightarrow> string \<Rightarrow> bytes \<Rightarrow> scm_error + Event" where
  "parsePullRequest rt now deliveryID body =
     (case hk_pull rt body of
        None \<Rightarrow> Inl ScmInvalidHook
      | Some payload \<Rightarrow>
          Inr \<lparr>ev_Provider = GitHub, ev_DeliveryID = deliveryID, ev_Type = EventPullRequest, ev_Action = pl_Action payload,
               ev_Repository = toSCM (pl_Repository payload),
               ev_Ref = ''refs/pull/'' @ FormatInt (pl_Number payload) @ ''/head'', ev_BeforeSHA = [],
               ev_AfterSHA = pl_HeadSHA payload, ev_Sender = pl_SenderLogin payload, ev_ReceivedAt = now,
               ev_Metadata = pull_metadata payload\<rparr>)"

definition EqualFold :: "string \<Rightarrow> string \<Rightarrow> bool" where
  "EqualFold s t \<longleftrightarrow> map to_lower_char s = map to_lower_char t"

definition header_value :: "headers \<Rightarrow> string \<Rightarrow> string" where
  "header_value headers name =
     (case List.find (\<lambda>(key, values). EqualFold key name \<and> values \<noteq> []) headers of
        None \<Rightarrow> []
      | Some (_, values) \<Rightarrow> hd values)"

definition ParseWebhook :: "hook_runtime \<Rightarrow> gotime \<Rightarrow> bytes \<Rightarrow> headers \<Rightarrow> bytes \<Rightarrow> scm_error + Event" where
  "ParseWebhook rt now secret headers body =
     (if VerifyHMACSHA256 (hk_hmac rt) secret body (header_value headers ''X-Hub-Signature-256'') ''sha256='' \<noteq> None
      then Inl ScmInvalidHook
      else
        (let deliveryID = TrimSpace (header_value headers ''X-GitHub-Delivery'');
             eventName = TrimSpace (header_value headers ''X-GitHub-Event'')
         in if deliveryID = [] then Inl ScmInvalidHook
            else if eventName = ''push'' then parsePush rt now deliveryID body
            else if eventName = ''pull_request'' then parsePullRequest rt now deliveryID body
            else Inl ScmUnsupportedEvent))"

section \<open>The rate limiter\<close>

record limiter =
  lim_tokens :: rat
  lim_last :: gotime

definition duration_Seconds :: "duration \<Rightarrow> rat" where
  "duration_Seconds d = of_int d / 1000000000"

definition limiter_allow :: "gotime \<Rightarrow> limiter \<Rightarrow> limiter \<times> bool" where
  "limiter_allow now l =
     (let elapsed = duration_Seconds (now - lim_last l);
          l1 = (if elapsed > 0
                then \<lparr>lim_tokens = (if lim_tokens l + elapsed * 50 > 100 then 100 else lim_tokens l + elapsed * 50), lim_last = now\<rparr>
                else l)
      in if lim_tokens l1 < 1 then (l1, False) else (l1\<lparr>lim_tokens := lim_tokens l1 - 1\<rparr>, True))"

definition New_limiter :: "gotime \<Rightarrow> limiter" where
  "New_limiter now = \<lparr>lim_tokens = 100, lim_last = now\<rparr>"

section \<open>The service\<close>

definition MaxBodyBytes :: int where "MaxBodyBytes = 2 * 1024 * 1024"

text \<open>\<open>^[A-Za-z0-9][A-Za-z0-9._:-]{0,254}$\<close>\<close>

definition deliveryPattern :: "string \<Rightarrow> bool" where
  "deliveryPattern = matches is_alnum (\<lambda>c. is_alnum c \<or> c \<in> set ''._:-'') 254"

text \<open>The form in which \<open>net/http\<close> stores the name of a header.\<close>

fun canonical_from :: "bool \<Rightarrow> string \<Rightarrow> string" where
  "canonical_from upper [] = []"
| "canonical_from upper (c # s) = (if upper then to_upper_char c else to_lower_char c) # canonical_from (c = CHR ''-'') s"

definition header_Values :: "headers \<Rightarrow> string \<Rightarrow> string list" where
  "header_Values headers name = map_get [] headers (canonical_from True name)"

definition singleHeader :: "headers \<Rightarrow> string \<Rightarrow> string \<times> bool" where
  "singleHeader headers name =
     (case header_Values headers name of
        [v] \<Rightarrow> (let v' = TrimSpace v in (v', v' \<noteq> [] \<and> \<not> ContainsAny v' line_breaks))
      | _ \<Rightarrow> ([], False))"

definition validateEvent :: "Event \<Rightarrow> bool" where
  "validateEvent event =
     (let repo = ev_Repository event in
      if ev_Provider event \<noteq> GitHub \<or> \<not> deliveryPattern (ev_DeliveryID event) \<or>
         repo_ExternalID repo = [] \<or> repo_Owner repo = [] \<or> repo_Name repo = [] \<or>
         length (repo_Owner repo) > 100 \<or> length (repo_Name repo) > 100 \<or>
         ContainsAny (repo_Owner repo @ repo_Name repo @ ev_Ref event @ ev_Sender event) line_breaks \<or>
         int (length (ev_Ref event)) > 1024 \<or> length (ev_Sender event) > 100 \<or> \<not> shaPattern (ev_AfterSHA event)
      then False
      else
        (case ev_Type event of
           EventPush \<Rightarrow> True
         | EventTag \<Rightarrow> True
         | EventPullRequest \<Rightarrow>
             map_get [] (ev_Metadata event) ''fork'' = ''true'' \<or> map_get [] (ev_Metadata event) ''fork'' = ''false''
         | OtherEvent _ \<Rightarrow> False))"

datatype receive_error = RecvHook hook_error | RecvScm scm_error | RecvSecret

text \<open>What is stored of an event: the remote URLs of the payload are dropped.\<close>

definition stored_event :: "Event \<Rightarrow> Event" where
  "stored_event event = event\<lparr>ev_Repository := (ev_Repository event)\<lparr>repo_CloneURL := [], repo_WebURL := []\<rparr>\<rparr>"

definition delivery_of :: "hook_runtime \<Rightarrow> string \<Rightarrow> string \<Rightarrow> bytes \<Rightarrow> Event \<Rightarrow> bytes \<Rightarrow> Delivery" where
  "delivery_of rt deliveryID eventType body event normalized =
     \<lparr>dl_Provider = ''github'', dl_ProviderInstance = GitHubInstance, dl_DeliveryID = deliveryID, dl_EventType = eventType,
      dl_PayloadSHA256 = PayloadDigest (hk_sha rt) body, dl_NormalizedEvent = normalized, dl_ReceivedAt = ev_ReceivedAt event\<rparr>"

text \<open>Everything that happens before the inbox is called: the checked delivery, or the error.\<close>

definition accepted_delivery :: "hook_runtime \<Rightarrow> gotime \<Rightarrow> bytes option \<Rightarrow> headers \<Rightarrow> bytes \<Rightarrow> receive_error + Delivery" where
  "accepted_delivery rt now secret headers body =
     (if body = [] \<or> int (length body) > MaxBodyBytes then Inl (RecvHook HookInvalidRequest)
      else
        (case singleHeader headers ''X-GitHub-Delivery'' of (deliveryID, ok) \<Rightarrow>
           if \<not> ok \<or> \<not> deliveryPattern deliveryID then Inl (RecvHook HookInvalidRequest)
           else
             (case singleHeader headers ''X-GitHub-Event'' of (eventType, ok) \<Rightarrow>
                if \<not> ok \<or> length eventType > 64 then Inl (RecvHook HookInvalidRequest)
                else
                  (case singleHeader headers ''X-Hub-Signature-256'' of (signature, ok) \<Rightarrow>
                     if \<not> ok then Inl (RecvScm ScmInvalidHook)
                     else
                       (case secret of
                          None \<Rightarrow> Inl RecvSecret
                        | Some key \<Rightarrow>
                            if VerifyHMACSHA256 (hk_hmac rt) key body signature ''sha256='' \<noteq> None then Inl (RecvScm ScmInvalidHook)
                            else
                              (case ParseWebhook rt now key headers body of
                                 Inl e \<Rightarrow> Inl (if e = ScmInvalidHook then RecvHook HookInvalidRequest else RecvScm e)
                               | Inr event \<Rightarrow>
                                   if \<not> validateEvent event then Inl (RecvHook HookInvalidRequest)
                                   else
                                     (case ec_marshal (hk_codec rt) (stored_event event) of
                                        None \<Rightarrow> Inl (RecvHook HookInvalidRequest)
                                      | Some normalized \<Rightarrow> Inr (delivery_of rt deliveryID eventType body event normalized))))))))"

record hook_service =
  hs_limiter :: limiter
  hs_inbox :: inbox
  hs_audit :: "AuditEvent list"

definition Receive :: "hook_runtime \<Rightarrow> gotime \<Rightarrow> bytes option \<Rightarrow> uuid \<Rightarrow> headers \<Rightarrow> bytes \<Rightarrow> hook_service
    \<Rightarrow> hook_service \<times> (receive_error + Receipt)" where
  "Receive rt now secret newID headers body s =
     (case limiter_allow now (hs_limiter s) of (l, ok) \<Rightarrow>
        (let s1 = s\<lparr>hs_limiter := l\<rparr> in
         if \<not> ok then (s1, Inl (RecvHook HookRateLimited))
         else
           (case accepted_delivery rt now secret headers body of
              Inl e \<Rightarrow> (s1, Inl e)
            | Inr d \<Rightarrow>
                (case ReceiveWebhook (hk_codec rt) newID d (hs_inbox s) of (rows, event, answer) \<Rightarrow>
                   (s1\<lparr>hs_inbox := rows, hs_audit := hs_audit s @ (case event of None \<Rightarrow> [] | Some e \<Rightarrow> [e])\<rparr>,
                    case answer of Inl e \<Rightarrow> Inl (RecvHook e) | Inr receipt \<Rightarrow> Inr receipt)))))"

end
