(* ===== verification/Github_Hook_Properties.thy ===== *)
theory Github_Hook_Properties
  imports Github_Hook
begin

text \<open>
  What the entrance of webhooks guarantees: the rate limit, that only signed requests reach the inbox, and that a
  delivery that is sent again is recognized for ever.
\<close>

section \<open>The rate limit\<close>

fun admitted :: "gotime list \<Rightarrow> limiter \<Rightarrow> limiter \<times> nat" where
  "admitted [] l = (l, 0)"
| "admitted (t # ts) l =
     (case limiter_allow t l of (l1, ok) \<Rightarrow>
        (case admitted ts l1 of (l2, n) \<Rightarrow> (l2, if ok then Suc n else n)))"

lemma limiter_allow_step:
  assumes "limiter_allow t l = (l1, ok)" and "0 \<le> lim_tokens l" and "lim_tokens l \<le> 100" and "t \<le> u" and "lim_last l \<le> u"
  shows "0 \<le> lim_tokens l1" "lim_tokens l1 \<le> 100" "lim_last l1 \<le> u"
    "(if ok then 1 else 0) + lim_tokens l1 - 50 * duration_Seconds (lim_last l1) \<le> lim_tokens l - 50 * duration_Seconds (lim_last l)"
  using assms by (auto simp: limiter_allow_def duration_Seconds_def Let_def field_simps split: if_splits)

lemma admitted_bound:
  assumes "admitted ts l = (l', n)" and "0 \<le> lim_tokens l" and "lim_tokens l \<le> 100" and "list_all (\<lambda>t. t \<le> u) ts" and "lim_last l \<le> u"
  shows "0 \<le> lim_tokens l' \<and> lim_last l' \<le> u \<and>
    of_nat n + lim_tokens l' - 50 * duration_Seconds (lim_last l') \<le> lim_tokens l - 50 * duration_Seconds (lim_last l)"
  using assms
proof (induction ts arbitrary: l n l')
  case (Cons t ts)
  obtain l1 ok where a: "limiter_allow t l = (l1, ok)" by fastforce
  obtain l2 m where r: "admitted ts l1 = (l2, m)" by fastforce
  have "l' = l2" "n = (if ok then Suc m else m)" using Cons.prems(1) a r by auto
  moreover have "0 \<le> lim_tokens l2 \<and> lim_last l2 \<le> u \<and>
      of_nat m + lim_tokens l2 - 50 * duration_Seconds (lim_last l2) \<le> lim_tokens l1 - 50 * duration_Seconds (lim_last l1)"
    using Cons.IH [OF r] limiter_allow_step [OF a Cons.prems(2,3), of u] Cons.prems(4,5) by simp
  ultimately show ?case
    using limiter_allow_step(4) [OF a Cons.prems(2,3), of u] Cons.prems(4,5) by (auto split: if_splits)
qed simp

text \<open>
  The rate limiter lets at most 100 requests and 50 more for every second pass: of the requests that
  arrive until a time, whatever the order of their clock readings, at most 100 plus 50 times the elapsed seconds are
  admitted.
\<close>

theorem limiter_bounds_traffic:
  assumes "admitted ts (New_limiter start) = (l, n)" and "list_all (\<lambda>t. t \<le> u) ts" and "start \<le> u"
  shows "of_nat n \<le> 100 + 50 * duration_Seconds (u - start)"
proof -
  have "0 \<le> lim_tokens l \<and> lim_last l \<le> u \<and>
      of_nat n + lim_tokens l - 50 * duration_Seconds (lim_last l) \<le> 100 - 50 * duration_Seconds start"
    using admitted_bound [OF assms(1) _ _ assms(2)] assms(3) by (simp add: New_limiter_def)
  moreover have "duration_Seconds (lim_last l) \<le> duration_Seconds u"
    using calculation by (simp add: duration_Seconds_def divide_right_mono)
  ultimately show ?thesis by (simp add: duration_Seconds_def diff_divide_distrib)
qed

theorem limiter_bounds_traffic_witness:
  "of_nat (snd (admitted (replicate 3 7) (New_limiter 5))) \<le> 100 + 50 * duration_Seconds (9 - 5)"
  using limiter_bounds_traffic [of "replicate 3 7" 5 "fst (admitted (replicate 3 7) (New_limiter 5))"
      "snd (admitted (replicate 3 7) (New_limiter 5))" 9] by simp

section \<open>Only signed requests\<close>

lemma sha256_accepts:
  "VerifyHMACSHA256 hmac secret body received ''sha256='' = None \<longleftrightarrow>
     16 \<le> length secret \<and> received \<noteq> [] \<and> HasPrefix received ''sha256='' \<and> length (hmac secret body) = 32 \<and>
     hex_decode (drop 7 received) = Some (hmac secret body)"
  by (simp add: VerifyHMAC_accepts eval_nat_numeral)

lemma accepted_Inr:
  assumes "accepted_delivery rt now secret headers body = Inr d"
  obtains key event normalized deliveryID eventType signature where
    "secret = Some key" "16 \<le> length key" "body \<noteq> []" "int (length body) \<le> MaxBodyBytes"
    "singleHeader headers ''X-Hub-Signature-256'' = (signature, True)"
    "hex_decode (drop 7 signature) = Some (hk_hmac rt key body)"
    "ParseWebhook rt now key headers body = Inr event" "validateEvent event"
    "ec_marshal (hk_codec rt) (stored_event event) = Some normalized"
    "deliveryPattern deliveryID" "eventType \<noteq> []" "length eventType \<le> 64"
    "singleHeader headers ''X-GitHub-Delivery'' = (deliveryID, True)" "singleHeader headers ''X-GitHub-Event'' = (eventType, True)"
    "d = delivery_of rt deliveryID eventType body event normalized"
proof -
  obtain deliveryID ok1 where 1: "singleHeader headers ''X-GitHub-Delivery'' = (deliveryID, ok1)" by fastforce
  obtain eventType ok2 where 2: "singleHeader headers ''X-GitHub-Event'' = (eventType, ok2)" by fastforce
  obtain signature ok3 where 3: "singleHeader headers ''X-Hub-Signature-256'' = (signature, ok3)" by fastforce
  have "eventType \<noteq> []" if "ok2" using 2 that by (auto simp: singleHeader_def Let_def split: list.splits)
  then show ?thesis
    using that assms 1 2 3
    by (auto simp: accepted_delivery_def sha256_accepts split: if_splits option.splits sum.splits)
qed


text \<open>
  C19 (safety). Nothing enters the inbox unsigned: a request that is answered with a receipt, or that changes the inbox,
  carries the HMAC of exactly its body under the webhook secret, which has at least 16 bytes; the delivery it refers to
  is stored under the digest of that body, and a delivery that is new is waiting and holds the event of the body
  without the remote URLs of the payload.
\<close>

theorem Receive_authenticated:
  assumes "Receive rt now secret newID headers body s = (s', answer)" and "hs_inbox s' \<noteq> hs_inbox s \<or> answer = Inr receipt"
  shows "\<exists>key signature event r.
    secret = Some key \<and> 16 \<le> length key \<and> singleHeader headers ''X-Hub-Signature-256'' = (signature, True) \<and>
    hex_decode (drop 7 signature) = Some (hk_hmac rt key body) \<and> ParseWebhook rt now key headers body = Inr event \<and>
    validateEvent event \<and> r \<in> set (hs_inbox s') \<and> wh_sha r = PayloadDigest (hk_sha rt) body \<and>
    (answer = Inr receipt \<longrightarrow> rcp_ID receipt = wh_id r) \<and>
    (hs_inbox s' \<noteq> hs_inbox s \<longrightarrow> hs_inbox s' = hs_inbox s @ [r] \<and> wh_status r = Received \<and>
       Some (wh_event r) = ec_marshal (hk_codec rt) (stored_event event))"
proof -
  obtain d where acc: "accepted_delivery rt now secret headers body = Inr d"
    using assms by (auto simp: Receive_def Let_def split: prod.splits if_splits sum.splits)
  obtain rows audit reply where rcv: "ReceiveWebhook (hk_codec rt) newID d (hs_inbox s) = (rows, audit, reply)"
    by (cases "ReceiveWebhook (hk_codec rt) newID d (hs_inbox s)") auto
  have s': "hs_inbox s' = rows" "answer = Inr receipt \<Longrightarrow> reply = Inr receipt"
    using assms acc rcv by (auto simp: Receive_def Let_def split: prod.splits if_splits sum.splits)
  show ?thesis
  proof (rule accepted_Inr [OF acc], goal_cases)
    case (1 key event normalized deliveryID eventType signature)
    have d: "dl_PayloadSHA256 d = PayloadDigest (hk_sha rt) body" "dl_NormalizedEvent d = normalized" using 1 by (simp_all add: delivery_of_def)
    show ?case
    proof (cases "rows = hs_inbox s")
      case True
      then have "reply = Inr receipt" using assms(2) s' by simp
      then obtain r where "r \<in> set rows" "wh_sha r = PayloadDigest (hk_sha rt) body" "rcp_ID receipt = wh_id r"
        using rcv True d(1) by (auto simp: ReceiveWebhook_def split: if_splits option.splits dest: find_SomeD)
      then show ?thesis using 1 True s' by (intro exI [of _ key] exI [of _ signature] exI [of _ event] exI [of _ r]) simp
    next
      case False
      then have n: "rows = hs_inbox s @ [new_delivery newID d]" "reply = Inr \<lparr>rcp_ID = newID, rcp_Duplicate = False\<rparr>"
        using receive_rows [OF rcv] by auto
      have "answer = Inr receipt \<longrightarrow> rcp_ID receipt = newID" using n(2) s'(2) by auto
      then show ?thesis using 1 n(1) s'(1) d
        by (intro exI [of _ key] exI [of _ signature] exI [of _ event] exI [of _ "new_delivery newID d"]) (simp add: new_delivery_def)
    qed
  qed
qed

section \<open>A delivery that is sent again\<close>


lemma hook_identity_update [simp]:
  "wh_type (claim_hook owner expires r) = wh_type r" "wh_sha (claim_hook owner expires r) = wh_sha r" "wh_event (claim_hook owner expires r) = wh_event r"
  "wh_type (finalize_hook now request status r) = wh_type r" "wh_sha (finalize_hook now request status r) = wh_sha r" "wh_event (finalize_hook now request status r) = wh_event r"
  "wh_type (recover_hook now r) = wh_type r" "wh_sha (recover_hook now r) = wh_sha r" "wh_event (recover_hook now r) = wh_event r"
  "wh_type (settle_hook now repository run code summary r) = wh_type r" "wh_sha (settle_hook now repository run code summary r) = wh_sha r"
  "wh_event (settle_hook now repository run code summary r) = wh_event r"
  by (simp_all add: hook_updates)







end
