(* ===== verification/Identity_Properties.thy ===== *)
theory Identity_Properties
  imports Identity_Store
begin

text \<open>
  What sessions and memberships guarantee: a session token opens exactly its user's session until it expires, a
  revoked one never again, and memberships change only by an administrator of the scope other than the subject.
\<close>

section \<open>Tokens\<close>

lemma NewToken_accepted:
  assumes "length random = 32"
  shows "length (NewToken random) = 43" and "TokenDigest sha256 (NewToken random) = Some (sha256 (NewToken random))"
  using assms length_rawurl_encode [of random] rawurl_roundtrip [of random] by (simp_all add: NewToken_def TokenDigest_def)

text \<open>
  Unpadded URL base64 gives back every byte string, a token of 32 random bytes has 43
  characters and is accepted, and different random values give different tokens.
\<close>

theorem tokens_roundtrip:
  "rawurl_decode (rawurl_encode bs) = Some bs \<and>
   (rawurl_encode bs = rawurl_encode cs \<longleftrightarrow> bs = cs) \<and>
   (length bs = 32 \<longleftrightarrow> TokenDigest sha256 (NewToken bs) \<noteq> None)"
proof -
  have "rawurl_encode bs = rawurl_encode cs \<Longrightarrow> bs = cs" using rawurl_roundtrip by (metis option.inject)
  moreover have "length bs = 32" if "TokenDigest sha256 (NewToken bs) \<noteq> None"
    using that rawurl_roundtrip [of bs] by (auto simp: TokenDigest_def NewToken_def split: if_splits)
  ultimately show ?thesis using rawurl_roundtrip NewToken_accepted(2) by auto
qed

section \<open>Sessions\<close>

lemma find_append_new: "\<forall>x\<in>set xs. \<not> p x \<Longrightarrow> List.find p (xs @ [y]) = (if p y then Some y else None)"
  by (induction xs) auto

text \<open>What issuing a session changes, and what the new token opens.\<close>

lemma issueSession_opens:
  assumes "length random = 32"
    and iss: "issueSession uuid_String sha256 random newID now userID ttl db = Inr (db', token, session)"
  obtains u where "List.find (\<lambda>u. us_id u = userID \<and> us_active u) (db_users db) = Some u" "token = NewToken random"
    "TokenDigest sha256 token = Some (sha256 token)"
    "session = \<lparr>se_ID = newID, se_UserID = userID, se_DisplayName = us_display_name u, se_ExpiresAt = now + ttl\<rparr>"
    "db_sessions db' = db_sessions db @ [\<lparr>ss_id = newID, ss_user = userID, ss_token_hash = sha256 token, ss_created = now,
       ss_expires = now + ttl, ss_revoked = None\<rparr>]"
    "\<forall>s\<in>set (db_sessions db). ss_token_hash s \<noteq> sha256 token"
    "db_users db' = db_users db" "db_memberships db' = db_memberships db" "db_instance db' = db_instance db"
proof -
  note digest = NewToken_accepted(2) [OF assms(1), of sha256]
  obtain u where u: "List.find (\<lambda>u. us_id u = userID \<and> us_active u) (db_users db) = Some u"
    using iss by (auto simp: issueSession_def split: option.splits)
  then show thesis
    by (rule that) (use iss u digest in \<open>auto simp: issueSession_def Let_def list_ex_iff split: if_splits\<close>)
qed

lemma issueSession_authenticates:
  assumes "length random = 32" and "issueSession uuid_String sha256 random newID now userID ttl db = Inr (db', token, session)"
  shows "AuthenticateSession sha256 now' token db' = (if now' < now + ttl then Inr session else Inl ErrUnauthenticated)"
proof -
  obtain u where u: "List.find (\<lambda>u. us_id u = userID \<and> us_active u) (db_users db) = Some u" "TokenDigest sha256 token = Some (sha256 token)"
    "session = \<lparr>se_ID = newID, se_UserID = userID, se_DisplayName = us_display_name u, se_ExpiresAt = now + ttl\<rparr>"
    "db_sessions db' = db_sessions db @ [\<lparr>ss_id = newID, ss_user = userID, ss_token_hash = sha256 token, ss_created = now,
       ss_expires = now + ttl, ss_revoked = None\<rparr>]"
    "\<forall>s\<in>set (db_sessions db). ss_token_hash s \<noteq> sha256 token" "db_users db' = db_users db"
    by (rule issueSession_opens [OF assms])
  moreover have "us_id u = userID" using find_SomeD [OF u(1)] by simp
  moreover have "\<forall>s\<in>set (db_sessions db). \<not> (ss_token_hash s = sha256 token \<and> ss_revoked s = None)" using u(5) by simp
  ultimately show ?thesis
    by (simp add: AuthenticateSession_def authenticateSession_def session_user_def find_append_new sessionLive_def)
qed

text \<open>
  A session that was issued authenticates its token as that user exactly until the session
  expires, at least one minute and at most a day later.
\<close>

theorem issued_session_opens:
  assumes "length random = 32"
    and "IssueSession uuid_String sha256 random newID now userID ttl db = Inr (db', token, session)"
  shows "se_UserID session = userID \<and> now + Minute \<le> se_ExpiresAt session \<and> se_ExpiresAt session \<le> now + 24 * Hour \<and>
    AuthenticateSession sha256 now' token db' =
      (if now' < se_ExpiresAt session then Inr session else Inl ErrUnauthenticated)"
proof -
  have ttl: "Minute \<le> ttl" "ttl \<le> 24 * Hour"
    and iss: "issueSession uuid_String sha256 random newID now userID ttl db = Inr (db', token, session)"
    using assms(2) by (auto simp: IssueSession_def split: if_splits)
  have "se_UserID session = userID" "se_ExpiresAt session = now + ttl" by (rule issueSession_opens [OF assms(1) iss], simp)+
  then show ?thesis using ttl issueSession_authenticates [OF assms(1) iss] by simp
qed

text \<open>The transactions that change the tables, for one hash function.\<close>

inductive id_step :: "(bytes \<Rightarrow> bytes) \<Rightarrow> identity_db \<Rightarrow> identity_db \<Rightarrow> bool" for sha256 where
  issue: "IssueSession uuid_String sha256 random newID now userID ttl db = Inr (db', token, session) \<Longrightarrow> id_step sha256 db db'"
| revoke: "RevokeSession uuid_String sha256 now token db = Inr db' \<Longrightarrow> id_step sha256 db db'"
| change: "ChangeMembership uuid_String sha256 meta newID now token subjectID scope role add db = Inr db' \<Longrightarrow> id_step sha256 db db'"

definition hash_dead :: "bytes \<Rightarrow> identity_db \<Rightarrow> bool" where
  "hash_dead digest db \<longleftrightarrow>
     digest \<in> ss_token_hash ` set (db_sessions db) \<and>
     (\<forall>s\<in>set (db_sessions db). ss_token_hash s = digest \<longrightarrow> ss_revoked s \<noteq> None)"

lemma ChangeMembership_sessions:
  assumes "ChangeMembership uuid_String sha256 meta newID now token subjectID scope role add db = Inr db'"
  shows "db_sessions db' = db_sessions db \<and> db_users db' = db_users db"
  using assms by (auto simp: ChangeMembership_def Let_def split: if_splits sum.splits option.splits)

lemma hash_dead_step: "id_step sha256 db db' \<Longrightarrow> hash_dead digest db \<Longrightarrow> hash_dead digest db'"
proof (induction rule: id_step.induct)
  case (issue uuid_String random newID now userID ttl db db' token session)
  then obtain row where "db_sessions db' = db_sessions db @ [row]" "\<forall>s\<in>set (db_sessions db). ss_token_hash s \<noteq> ss_token_hash row"
    by (auto simp: IssueSession_def issueSession_def Let_def list_ex_iff split: if_splits option.splits)
  then show ?case using issue(2) by (auto simp: hash_dead_def)
next
  case (revoke uuid_String now token db db')
  then obtain p where "db_sessions db' = update_where p (\<lambda>s. s\<lparr>ss_revoked := Some now\<rparr>) (db_sessions db)"
    by (auto simp: RevokeSession_def Let_def split: option.splits)
  then show ?case using revoke(2) by (auto simp: hash_dead_def) (auto simp: set_update_where)
next
  case (change uuid_String meta newID now token subjectID scope role add db db')
  then show ?case using ChangeMembership_sessions [OF change(1)] by (simp add: hash_dead_def)
qed

lemma hash_dead_steps: "(id_step sha256)\<^sup>*\<^sup>* db db' \<Longrightarrow> hash_dead digest db \<Longrightarrow> hash_dead digest db'"
  by (induction rule: rtranclp_induct) (auto intro: hash_dead_step)

lemma Revoke_dead:
  assumes "RevokeSession uuid_String sha256 now token db = Inr db'"
  obtains digest where "TokenDigest sha256 token = Some digest" "hash_dead digest db'"
proof -
  obtain digest where d: "TokenDigest sha256 token = Some digest"
    using assms by (auto simp: RevokeSession_def split: option.splits)
  let ?p = "\<lambda>s. ss_token_hash s = digest \<and> ss_revoked s = None"
  obtain s where s: "List.find ?p (db_sessions db) = Some s"
    and db': "db_sessions db' = update_where ?p (\<lambda>s. s\<lparr>ss_revoked := Some now\<rparr>) (db_sessions db)"
    using assms d by (auto simp: RevokeSession_def Let_def split: option.splits)
  have "digest \<in> ss_token_hash ` set (db_sessions db)" using find_SomeD [OF s] by auto
  then have "hash_dead digest db'" by (auto simp: hash_dead_def db') (auto simp: set_update_where)
  then show thesis using that d by blast
qed

lemma hash_dead_unauthenticated:
  assumes "TokenDigest sha256 token = Some digest" and "hash_dead digest db"
  shows "AuthenticateSession sha256 now token db = Inl ErrUnauthenticated"
proof -
  have "List.find (\<lambda>s. ss_token_hash s = digest \<and> ss_revoked s = None) (db_sessions db) = None"
    using assms(2) by (auto simp: hash_dead_def find_None_iff)
  then show ?thesis using assms(1) by (simp add: AuthenticateSession_def authenticateSession_def session_user_def)
qed

text \<open>
  C32 (safety). A revoked session token never authenticates again: not at any later time, and not after any
  further sessions, revocations and membership changes.
\<close>

theorem revoked_token_is_dead:
  assumes "RevokeSession uuid_String sha256 now token db = Inr db'" and "(id_step sha256)\<^sup>*\<^sup>* db' db''"
  shows "AuthenticateSession sha256 now' token db'' = Inl ErrUnauthenticated"
proof -
  obtain digest where d: "TokenDigest sha256 token = Some digest" "hash_dead digest db'" by (rule Revoke_dead [OF assms(1)])
  then have "hash_dead digest db''" using hash_dead_steps [OF assms(2)] by blast
  then show ?thesis using d(1) hash_dead_unauthenticated by blast
qed

section \<open>Memberships\<close>

lemma manage_role: "roleAllows role MembersManage \<longleftrightarrow> role = Admin"
  by (cases role) (simp_all add: roleAllows_def role_actions_def)

lemma authorize_manage:
  assumes "authorize session scope MembersManage db = None"
  obtains resource m where "scopeResource scope db = Inr resource" "m \<in> set (db_memberships db)" "mb_user m = se_UserID session"
    "mb_role m = Admin" "mb_scope m \<in> set (rs_Path resource)"
    "rs_Protection resource = Protected \<longrightarrow> mb_scope m = last (rs_Path resource)"
proof -
  obtain resource where r: "scopeResource scope db = Inr resource"
    using assms by (auto simp: authorize_def split: sum.splits)
  obtain g where g: "g \<in> set (user_grants (se_UserID session) db)"
    "carries \<lparr>pr_ID = se_UserID session, pr_Active = True\<rparr>
       \<lparr>rq_Action = MembersManage, rq_Resource = resource, rq_RequestedBy = uuid_Nil\<rparr> g"
    using assms r by (auto simp: authorize_def Allowed_iff split: if_splits)
  then obtain m where "m \<in> set (db_memberships db)" "mb_user m = se_UserID session" "gr_Role g = mb_role m" "gr_Scope g = mb_scope m"
    by (auto simp: user_grants_def)
  then show thesis
    using that [OF r, of m] g(2) by (auto simp: carries_def manage_role exact_required_def protectedMutation_def)
qed

text \<open>
  Memberships change only by the hand of an administrator: a change that succeeds was made with the
  live session of an active user other than the subject who has the administrator role on the scope or one above
  it, and on the environment itself when it is protected. Deployer and approver are granted on environments only,
  and no membership of any other user or role or scope changes.
\<close>

theorem membership_change_authorized:
  assumes "ChangeMembership uuid_String sha256 meta newID now token subjectID scope role add db = Inr db'"
  shows "\<exists>session resource m. authenticateSession sha256 now token db = Inr session \<and> now < se_ExpiresAt session \<and>
      se_UserID session \<noteq> subjectID \<and> scopeResource scope db = Inr resource \<and>
      m \<in> set (db_memberships db) \<and> mb_user m = se_UserID session \<and> mb_role m = Admin \<and> mb_scope m \<in> set (rs_Path resource) \<and>
      (rs_Protection resource = Protected \<longrightarrow> mb_scope m = last (rs_Path resource)) \<and>
      (role \<in> {Deployer, Approver} \<longrightarrow> sc_Kind scope = Environment) \<and>
      filter (\<lambda>m. \<not> membership_is subjectID role scope m) (db_memberships db') =
        filter (\<lambda>m. \<not> membership_is subjectID role scope m) (db_memberships db) \<and>
      (add \<longleftrightarrow> (\<exists>m. m \<in> set (db_memberships db') \<and> membership_is subjectID role scope m))"
proof -
  obtain session where s: "authenticateSession sha256 now token db = Inr session" "se_UserID session \<noteq> subjectID"
    and a: "authorize session scope MembersManage db = None" and g: "grantable scope role" and l: "sessionLive now session"
    using assms by (auto simp: ChangeMembership_def split: if_splits sum.splits option.splits)
  obtain resource m where m: "scopeResource scope db = Inr resource" "m \<in> set (db_memberships db)" "mb_user m = se_UserID session"
    "mb_role m = Admin" "mb_scope m \<in> set (rs_Path resource)" "rs_Protection resource = Protected \<longrightarrow> mb_scope m = last (rs_Path resource)"
    by (rule authorize_manage [OF a])
  have env: "role \<in> {Deployer, Approver} \<longrightarrow> sc_Kind scope = Environment" using g by (auto simp: grantable_def)
  have rows: "filter (\<lambda>m. \<not> membership_is subjectID role scope m) (db_memberships db') =
        filter (\<lambda>m. \<not> membership_is subjectID role scope m) (db_memberships db) \<and>
      (add \<longleftrightarrow> (\<exists>m. m \<in> set (db_memberships db') \<and> membership_is subjectID role scope m))"
  proof (cases "List.find (membership_is subjectID role scope) (db_memberships db)")
    case None
    have "\<not> membership_is subjectID role scope m" if "m \<in> set (db_memberships db)" for m
      using None that by (auto simp: find_None_iff)
    then show ?thesis using assms s a g l None
      by (auto simp: ChangeMembership_def Let_def split: if_splits option.splits) (auto simp: membership_is_def)
  next
    case (Some x)
    then have "x \<in> set (db_memberships db)" "membership_is subjectID role scope x" using find_SomeD [OF Some] by auto
    then show ?thesis using Some assms s a g l
      by (auto simp: ChangeMembership_def Let_def split: if_splits option.splits)
  qed
  show ?thesis using s m env rows l unfolding sessionLive_def by blast
qed

section \<open>Concrete runs\<close>

definition sample_db :: identity_db where
  "sample_db =
     \<lparr>db_instance = Some 1, db_organizations = [2], db_repositories = [\<lparr>rp_id = 3, rp_organization = 2, rp_active = True\<rparr>],
      db_environments = [\<lparr>en_id = 4, en_repository = 3, en_protected = True\<rparr>],
      db_users = [\<lparr>us_id = 10, us_display_name = ''ann'', us_active = True\<rparr>, \<lparr>us_id = 11, us_display_name = ''bob'', us_active = True\<rparr>],
      db_sessions = [], db_memberships = [\<lparr>mb_id = 20, mb_user = 10, mb_role = Admin, mb_scope = \<lparr>sc_Kind = Organization, sc_ID = 2\<rparr>\<rparr>],
      db_audit = []\<rparr>"

definition sample_random :: bytes where
  "sample_random = replicate 32 (CHR ''r'')"

definition sample_sha :: "bytes \<Rightarrow> bytes" where
  "sample_sha b = take 32 b"

definition sample_logged_in :: identity_db where
  "sample_logged_in = sample_db\<lparr>
     db_sessions := [\<lparr>ss_id = 30, ss_user = 10, ss_token_hash = ''cnJycnJycnJycnJycnJycnJycnJycnJy'',
                      ss_created = Second, ss_expires = 3601 * Second, ss_revoked = None\<rparr>],
     db_audit := [\<lparr>ae_actor_user_id = Some 10, ae_action = ''session.created'', ae_resource_type = ''session'',
                   ae_resource_id = ''u'', ae_metadata = []\<rparr>]\<rparr>"

definition sample_session :: Session where
  "sample_session = \<lparr>se_ID = 30, se_UserID = 10, se_DisplayName = ''ann'', se_ExpiresAt = 1 * Second + Hour\<rparr>"

lemma sample_issue: "IssueSession (\<lambda>_. ''u'') sample_sha sample_random 30 (1 * Second) 10 Hour sample_db =
    Inr (sample_logged_in, NewToken sample_random, sample_session)"
  by code_simp

theorem issued_session_opens_witness:
  "\<exists>se. AuthenticateSession sample_sha (2 * Second) (NewToken sample_random) sample_logged_in = Inr se \<and> se_UserID se = 10"
  using issued_session_opens [OF _ sample_issue, of "2 * Second"]
  by (auto simp: sample_random_def sample_session_def duration_defs)

theorem revoked_token_is_dead_witness:
  "AuthenticateSession sample_sha (4 * Second) (NewToken sample_random)
     (case RevokeSession (\<lambda>_. ''u'') sample_sha (3 * Second) (NewToken sample_random) sample_logged_in of Inl _ \<Rightarrow> sample_db | Inr db \<Rightarrow> db)
   = Inl ErrUnauthenticated"
proof -
  have "\<not> isl (RevokeSession (\<lambda>_. ''u'') sample_sha (3 * Second) (NewToken sample_random) sample_logged_in)" by code_simp
  then obtain db where "RevokeSession (\<lambda>_. ''u'') sample_sha (3 * Second) (NewToken sample_random) sample_logged_in = Inr db"
    by (metis isl_def sum.exhaust)
  then show ?thesis using revoked_token_is_dead [OF _ rtranclp.rtrancl_refl] by simp
qed

theorem membership_change_authorized_witness:
  "\<exists>session m. authenticateSession sample_sha (2 * Second) (NewToken sample_random) sample_logged_in = Inr session \<and>
     se_UserID session \<noteq> 11 \<and> m \<in> set (db_memberships sample_logged_in) \<and> mb_user m = se_UserID session \<and> mb_role m = Admin"
proof -
  have "\<not> isl (ChangeMembership (\<lambda>_. ''u'') sample_sha (\<lambda>_ _. []) 21 (2 * Second) (NewToken sample_random) 11
      \<lparr>sc_Kind = Project, sc_ID = 3\<rparr> Developer True sample_logged_in)"
    by code_simp
  then obtain db where "ChangeMembership (\<lambda>_. ''u'') sample_sha (\<lambda>_ _. []) 21 (2 * Second) (NewToken sample_random) 11
      \<lparr>sc_Kind = Project, sc_ID = 3\<rparr> Developer True sample_logged_in = Inr db"
    by (metis isl_def sum.exhaust)
  from membership_change_authorized [OF this] show ?thesis by blast
qed

end
