(* ===== verification/Pg_Traces.thy ===== *)
theory Pg_Traces
  imports Pg_Actions Store_Traces Identity_Properties
begin

text \<open>
  Concrete databases that the transactions of the PostgreSQL store produce, and the properties of the store at
  work on them.
\<close>

section \<open>A sample environment and its databases\<close>

definition sample_env :: pg_env where
  "sample_env =
     \<lparr>env_String = (\<lambda>i. replicate (unat i) (CHR ''i'')), env_sha = sample_sha, env_marshal = (\<lambda>j. Some (pj_Name j)),
      env_unmarshal = (\<lambda>b. map_option snd (List.find (\<lambda>(s, j). pj_Name j = b) (plan_pairs (plan_Stages sample_plan)))),
      env_plan = (\<lambda>_. Some sample_plan)\<rparr>"

definition kept :: "pg_db \<Rightarrow> pg_error + pg_db \<times> 'a \<Rightarrow> pg_db" where
  "kept db res = (case res of Inl _ \<Rightarrow> db | Inr (db', _) \<Rightarrow> db')"

definition kept1 :: "pg_db \<Rightarrow> pg_error + pg_db \<Rightarrow> pg_db" where
  "kept1 db res = (case res of Inl _ \<Rightarrow> db | Inr db' \<Rightarrow> db')"

lemma kept_steps:
  assumes "pg_steps env empty_db db" and "\<And>db' out. res = Inr (db', out) \<Longrightarrow> pg_step env db db'"
  shows "pg_steps env db (kept db res)" "pg_steps env empty_db (kept db res)"
  using assms by (auto simp: kept_def split: sum.splits)

lemma kept1_steps:
  assumes "pg_steps env empty_db db" and "\<And>db'. res = Inr db' \<Longrightarrow> pg_step env db db'"
  shows "pg_steps env db (kept1 db res)" "pg_steps env empty_db (kept1 db res)"
  using assms by (auto simp: kept1_def split: sum.splits)

definition pg_start :: pg_db where
  "pg_start = empty_db\<lparr>pg_identity := sample_logged_in,
     pg_repos := [\<lparr>sr_id = 3, sr_provider = ''github'', sr_instance = ''https://github.com'', sr_external = ''1'',
       sr_owner = ''o'', sr_name = ''r'', sr_branch = ''main'', sr_clone_url = ''https://example.com/r'', sr_installation = None, sr_grant = None\<rparr>],
     pg_runners := [\<lparr>rn_id = 5, rn_pool = ''standard'', rn_status = ''online'', rn_os = ''linux'', rn_arch = ''amd64'',
       rn_executor = ''docker'', rn_isolation = ''standard'', rn_labels = [], rn_capacity = 1, rn_disk = 10 ^ 12,
       rn_protocol = Some 2, rn_seen = None\<rparr>]\<rparr>"

definition pg_record :: Record where
  "pg_record = sample_record\<lparr>rec_ProjectID := Some 3, rec_CreatedAt := 2 * Second\<rparr>"

definition pg_created :: pg_db where
  "pg_created = kept pg_start (Store_Create sample_env sample_id 50 (2 * Second) pg_record pg_start)"

definition pg_claimed :: pg_db where
  "pg_claimed = kept pg_created (Store_ClaimJob sample_env ''token'' (3 * Second) pg_created)"

definition pg_unlocked :: pg_db where
  "pg_unlocked = kept1 pg_claimed (Store_CompleteJob sample_env 51 (4 * Second) 101 ''token'' JobSucceeded pg_claimed)"

definition pg_second :: pg_db where
  "pg_second = kept pg_unlocked (Store_ClaimJob sample_env ''other'' (5 * Second) pg_unlocked)"

definition sample_row :: "uuid \<Rightarrow> uuid \<Rightarrow> gotime \<Rightarrow> string \<Rightarrow> string \<Rightarrow> string list \<Rightarrow> JobStatus \<Rightarrow> gotime option \<Rightarrow> pg_job" where
  "sample_row jobID runID created stage name deps status finished =
     \<lparr>jb_id = jobID, jb_run = runID, jb_runner = None, jb_stage = stage, jb_name = name, jb_key = job_key stage name,
      jb_deps = deps, jb_spec = name, jb_status = status, jb_attempt = 1, jb_hash = None, jb_expires = None,
      jb_accepted = None, jb_renewed = None, jb_created = created, jb_started = None, jb_finished = finished,
      jb_failure = None, jb_pool = ''standard'', jb_os = ''linux'', jb_arch = [], jb_executor = ''docker'', jb_labels = [],
      jb_disk = 10737418240, jb_reused = None\<rparr>"

definition pg_failed :: pg_db where
  "pg_failed = pg_start\<lparr>
     pg_runs := [\<lparr>rw_rec = pg_record\<lparr>rec_Status := StatusFailed, rec_StartedAt := Some (3 * Second), rec_FinishedAt := Some (6 * Second)\<rparr>,
                  rw_rerun = None\<rparr>],
     pg_jobs := [sample_row 100 7 (2 * Second) ''test'' ''unit'' [''build/compile'', ''build/lint''] JobSkipped (Some (6 * Second)),
                 sample_row 101 7 (2 * Second) ''build'' ''compile'' [] JobSucceeded (Some (4 * Second)),
                 sample_row 102 7 (2 * Second) ''build'' ''lint'' [''build/compile''] JobFailed (Some (6 * Second))]\<rparr>"

definition sample_rerun :: "pg_db \<Rightarrow> pg_error + pg_db \<times> Record" where
  "sample_rerun = RerunAuthorizedRun sample_env (\<lambda>i. 200 + of_nat i) 8 53 (7 * Second) (NewToken sample_random) 3 7 ''failed'' 1"

definition rerun_run :: Record where
  "rerun_run = pg_record\<lparr>rec_ID := 8, rec_CreatedAt := 7 * Second, rec_CreatedBy := Some 10,
     rec_IdempotencyKey := rerun_key sample_env 7 10 ''failed'' 1\<rparr>"

definition pg_rerun :: pg_db where
  "pg_rerun = write_event (appendAudit (env_String sample_env) 10 ''run.rerun'' ''run'' 8) (pg_failed\<lparr>
     pg_runs := pg_runs pg_failed @ [\<lparr>rw_rec = rerun_run, rw_rerun = Some (7, ''failed'')\<rparr>],
     pg_jobs := pg_jobs pg_failed @
       [sample_row 200 8 (7 * Second) ''test'' ''unit'' [''build/compile'', ''build/lint''] JobBlocked None,
        (sample_row 201 8 (7 * Second) ''build'' ''compile'' [] JobSucceeded (Some (7 * Second)))\<lparr>jb_reused := Some 101\<rparr>,
        sample_row 202 8 (7 * Second) ''build'' ''lint'' [''build/compile''] JobQueued None]\<rparr>)"

lemma pg_start_reachable: "pg_steps sample_env empty_db pg_start"
  by (rule r_into_rtranclp, rule pg_step.elsewhere) (simp_all add: pg_start_def)

lemma pg_created_reachable: "pg_steps sample_env empty_db pg_created"
  unfolding pg_created_def
  by (rule kept_steps [OF pg_start_reachable], erule pg_step.create) (simp add: pg_record_def sample_record_def)

lemma pg_claimed_reachable: "pg_steps sample_env empty_db pg_claimed"
  unfolding pg_claimed_def by (rule kept_steps [OF pg_created_reachable], erule pg_step.claim)

lemma pg_unlocked_reachable: "pg_steps sample_env empty_db pg_unlocked"
  unfolding pg_unlocked_def by (rule kept1_steps [OF pg_claimed_reachable], erule pg_step.complete)

lemma pg_second_reachable: "pg_steps sample_env empty_db pg_second"
  unfolding pg_second_def by (rule kept_steps [OF pg_unlocked_reachable], erule pg_step.claim)

lemma pg_failed_step: "Store_CompleteJob sample_env 52 (6 * Second) 102 ''other'' JobFailed pg_second = Inr pg_failed"
  by code_simp

lemma pg_failed_reachable: "pg_steps sample_env empty_db pg_failed"
  using pg_second_reachable pg_step.complete [OF pg_failed_step] by simp

lemma pg_rerun_step: "sample_rerun pg_failed = Inr (pg_rerun, rerun_run)"
  by code_simp

lemma pg_rerun_reachable: "pg_steps sample_env pg_failed pg_rerun" "pg_steps sample_env empty_db pg_rerun"
  using pg_failed_reachable pg_step.rerun [OF pg_rerun_step [unfolded sample_rerun_def]] by simp_all

section \<open>The properties at work\<close>

theorem pg_dependencies_before_start_witness: "dependency_done (pg_jobs pg_rerun) 8 ''build/compile''"
proof -
  let ?j = "pg_jobs pg_rerun ! 5"
  have j: "?j \<in> set (pg_jobs pg_rerun)" by (rule nth_mem) code_simp
  have "jb_status ?j \<notin> {JobBlocked, JobSkipped, JobCanceled}" "''build/compile'' \<in> set (jb_deps ?j)" "jb_run ?j = 8"
    by code_simp+
  then show ?thesis using pg_dependencies_before_start [OF pg_rerun_reachable(2) j] by metis
qed

lemma pg_failed_run: "hd (pg_runs pg_failed) \<in> set (pg_runs pg_failed)" "rw_id (hd (pg_runs pg_failed)) = 7"
  "rw_status (hd (pg_runs pg_failed)) = StatusFailed" "run_job_statuses 7 pg_failed = [JobSkipped, JobSucceeded, JobFailed]"
  by (simp add: pg_failed_def) code_simp+

theorem pg_run_status_sound_witness: "JobFailed \<in> set (run_job_statuses 7 pg_failed)"
  using pg_run_status_sound [OF pg_failed_reachable pg_failed_run(1) refl] pg_failed_run(2-4) by simp


theorem pg_run_never_stuck_witness:
  "\<exists>j\<in>set (pg_jobs pg_rerun). jb_run j = 8 \<and> jb_status j \<in> {JobQueued, JobAssigned, JobRunning}"
proof -
  let ?r = "pg_runs pg_rerun ! 1"
  have r: "?r \<in> set (pg_runs pg_rerun)" by (rule nth_mem) code_simp
  have i: "rw_id ?r = 8" "\<not> Terminal (rw_status ?r)" "run_job_statuses 8 pg_rerun \<noteq> []" by code_simp+
  have p: "env_plan sample_env (rec_Plan (rw_rec ?r)) = Some sample_plan" by (simp add: sample_env_def)
  show ?thesis using pg_run_never_stuck [OF sample_ranges sample_compiles pg_rerun_reachable(2) r p] i by simp
qed

definition pg_plain :: pg_db where
  "pg_plain = kept pg_start (Store_Create sample_env sample_id 50 (2 * Second) sample_record pg_start)"

lemma pg_plain_reachable: "pg_steps sample_env empty_db pg_plain"
  unfolding pg_plain_def
  by (rule kept_steps [OF pg_start_reachable], erule pg_step.create) (simp add: sample_record_def)

theorem pg_claim_grants_witness:
  "\<exists>db' a. Store_ClaimRunnerJob sample_env ''token'' (3 * Second) 5 pg_plain = Inr (db', Some a) \<and>
     active_leases (3 * Second) 5 db' \<le> 1"
proof -
  have "case Store_ClaimRunnerJob sample_env ''token'' (3 * Second) 5 pg_plain of Inr (_, Some _) \<Rightarrow> True | _ \<Rightarrow> False" by code_simp
  then obtain db' a where c: "Store_ClaimRunnerJob sample_env ''token'' (3 * Second) 5 pg_plain = Inr (db', Some a)"
    by (auto split: sum.splits option.splits)
  have "map_option rn_capacity (enabled_runner 5 pg_plain) = Some 1" by code_simp
  then show ?thesis using pg_claim_grants [OF pg_plain_reachable c] c by auto
qed

theorem cancel_effect_witness:
  "\<exists>session. authenticateSession sample_sha (7 * Second) (NewToken sample_random) sample_logged_in = Inr session \<and>
     authorize session (project_scope 3) RunCancel sample_logged_in = None"
proof -
  have "\<not> isl (CancelAuthorizedRun sample_env 54 (7 * Second) (NewToken sample_random) 3 7 pg_created)" by code_simp
  then obtain db' answer where c: "CancelAuthorizedRun sample_env 54 (7 * Second) (NewToken sample_random) 3 7 pg_created = Inr (db', answer)"
    by (metis isl_def sum.exhaust surj_pair)
  have "env_sha sample_env = sample_sha" by (simp add: sample_env_def)
  moreover have "pg_identity pg_created = sample_logged_in" by code_simp
  ultimately show ?thesis using cancel_effect [OF c] by auto
qed

theorem rerun_once_witness:
  "\<exists>out. RerunAuthorizedRun sample_env (\<lambda>i. 300 + of_nat i) 9 55 (8 * Second) (NewToken sample_random) 3 7 ''failed'' 1 pg_rerun
     = Inr (pg_rerun, out) \<and> rec_ID out = 8"
proof -
  let ?again = "RerunAuthorizedRun sample_env (\<lambda>i. 300 + of_nat i) 9 55 (8 * Second) (NewToken sample_random) 3 7 ''failed'' 1 pg_rerun"
  have "\<not> isl ?again" by code_simp
  then obtain db2 out where a: "?again = Inr (db2, out)" by (metis isl_def sum.exhaust surj_pair)
  then have "db2 = pg_rerun \<and> rec_ID out = 8"
    using rerun_once [OF pg_rerun_step [unfolded sample_rerun_def] a] by (simp add: rerun_run_def)
  then show ?thesis using a by blast
qed

section \<open>A run that blocks the runners\<close>

text \<open>
  C36 (error). A run of a project that was created without a commit (the request for a run does not have to name
  one) blocks every runner it fits: while it is the oldest run with a fitting queued job, every claim of such a
  runner fails, although younger runs could be worked on. Nothing in the failing claim moves the run aside.
\<close>

theorem commitless_run_blocks_runners:
  assumes "enabled_runner runner db = Some n" and "runner \<noteq> uuid_Nil" and "rn_protocol n = Some protocol"
    and "rn_os n \<noteq> []" and "rn_arch n \<noteq> []" and "rn_executor n \<noteq> []" and "int (active_leases now runner db) < rn_capacity n"
    and "first_run (\<lambda>j r. runner_fits n j \<and> source_supported protocol (rw_rec r)) db = Some r"
    and "rec_CommitSHA (rw_rec r) = []" and "repo_of db (rw_rec r) = Some s"
  shows "Store_ClaimRunnerJob env token now runner db \<in> {Inl PgIncompleteSource, Inl PgDecode}"
proof -
  have "\<exists>j\<in>set (pg_jobs db). jb_run j = rw_id r \<and> jb_status j = JobQueued \<and> runner_fits n j \<and> source_supported protocol (rw_rec r)"
    using assms(8) by (auto simp: first_run_def list_ex_iff dest!: first_by_Some)
  then have "first_job (\<lambda>j. runner_fits n j \<and> source_supported protocol (rw_rec r)) (rw_id r) db \<noteq> None"
    by (auto simp: first_job_def filter_empty_conv)
  then obtain j where j: "first_job (\<lambda>j. runner_fits n j \<and> source_supported protocol (rw_rec r)) (rw_id r) db = Some j" by blast
  show ?thesis
    using assms j by (auto simp: Store_ClaimRunnerJob_def claim_for_def checkout_of_def split: option.splits)
qed

theorem commitless_run_blocks_runners_witness:
  "Store_ClaimRunnerJob sample_env ''token'' (3 * Second) 5 pg_created \<in> {Inl PgIncompleteSource, Inl PgDecode}"
proof -
  let ?n = "hd (pg_runners pg_start)" and ?r = "hd (pg_runs pg_created)"
  have "enabled_runner 5 pg_created = Some ?n" "5 \<noteq> uuid_Nil" "rn_protocol ?n = Some 2" "rn_os ?n \<noteq> []" "rn_arch ?n \<noteq> []"
    "rn_executor ?n \<noteq> []" "int (active_leases (3 * Second) 5 pg_created) < rn_capacity ?n"
    "first_run (\<lambda>j r. runner_fits ?n j \<and> source_supported 2 (rw_rec r)) pg_created = Some ?r"
    "rec_CommitSHA (rw_rec ?r) = []" "repo_of pg_created (rw_rec ?r) = Some (hd (pg_repos pg_start))"
    by code_simp+
  then show ?thesis by (rule commitless_run_blocks_runners)
qed

section \<open>A job that the recovery strands\<close>

definition pair_plan :: Plan where
  "pair_plan = sample_plan\<lparr>plan_Stages := [\<lparr>ps_Name = ''build'', ps_DependsOn = [],
     ps_Jobs = [sample_plan_job ''compile'' [], sample_plan_job ''lint'' []]\<rparr>]\<rparr>"

definition pair_env :: pg_env where
  "pair_env = sample_env\<lparr>env_plan := (\<lambda>_. Some pair_plan)\<rparr>"

definition pair_created :: pg_db where
  "pair_created = kept pg_start (Store_Create pair_env sample_id 50 (2 * Second) sample_record pg_start)"

definition pair_first :: pg_db where
  "pair_first = kept pair_created (Store_ClaimJob pair_env ''a'' (3 * Second) pair_created)"

definition pair_started :: pg_db where
  "pair_started = kept1 pair_first (Store_StartJob pair_env (4 * Second) 100 ''a'' pair_first)"

definition pair_second :: pg_db where
  "pair_second = kept pair_started (Store_ClaimJob pair_env ''b'' (5 * Second) pair_started)"

definition stranded :: pg_db where
  "stranded = kept pair_second (Store_RecoverExpiredRunnerLeases pair_env (\<lambda>_. 60) (2 * Hour) 100 pair_second)"

lemma pair_start_reachable: "pg_steps pair_env empty_db pg_start"
  by (rule r_into_rtranclp, rule pg_step.elsewhere) (simp_all add: pg_start_def)

lemma pair_second_reachable: "pg_steps pair_env empty_db pair_second"
proof -
  have "pg_steps pair_env empty_db pair_created" unfolding pair_created_def
    by (rule kept_steps [OF pair_start_reachable], erule pg_step.create) (simp add: sample_record_def)
  then have "pg_steps pair_env empty_db pair_first" unfolding pair_first_def by (rule kept_steps) (erule pg_step.claim)
  then have "pg_steps pair_env empty_db pair_started" unfolding pair_started_def by (rule kept1_steps) (erule pg_step.start)
  then show ?thesis unfolding pair_second_def by (rule kept_steps) (erule pg_step.claim)
qed

lemma stranded_reachable: "pg_steps pair_env empty_db stranded"
  unfolding stranded_def by (rule kept_steps [OF pair_second_reachable]) (erule pg_step.recover)

lemma stranded_rows:
  "map (\<lambda>r. (rw_id r, rw_status r)) (pg_runs stranded) = [(7, StatusFailed)]"
  "map (\<lambda>j. (jb_run j, jb_key j, jb_status j)) (pg_jobs stranded) = [(7, ''build/compile'', JobFailed), (7, ''build/lint'', JobQueued)]"
  by code_simp+

lemma run_views_row: "v \<in> set (run_views r (fst (pg_view db))) \<longleftrightarrow> (\<exists>j\<in>set (pg_jobs db). jb_run j = r \<and> v = row_view j)"
  by (auto simp: run_views_def pg_view_def pg_views_def)

text \<open>
  C35 (error). The recovery can strand a job. Of a run with two leased jobs whose leases ran out, the first one
  running and the second one only assigned, it fails the run for the first and then queues the second again.
  Claims only look at runs that are not over, so in no database that can follow is that job anything but queued:
  the failed run shows a queued job for ever.
\<close>

theorem recovery_strands_job:
  "pg_steps pair_env empty_db stranded \<and> map rw_status (pg_runs stranded) = [StatusFailed] \<and>
   map jb_status (pg_jobs stranded) = [JobFailed, JobQueued] \<and>
   {db. pg_steps pair_env stranded db} \<subseteq>
     {db. \<exists>j\<in>set (pg_jobs db). jb_run j = 7 \<and> jb_key j = ''build/lint'' \<and> jb_status j = JobQueued}"
proof (intro conjI stranded_reachable subsetI)
  obtain r where r: "pg_runs stranded = [r]" "rw_id r = 7" "rw_status r = StatusFailed"
    using stranded_rows(1) by (auto simp: map_eq_Cons_conv)
  obtain j k where j: "pg_jobs stranded = [j, k]" "jb_run j = 7" "jb_status j = JobFailed"
    "jb_run k = 7" "jb_key k = ''build/lint''" "jb_status k = JobQueued"
    using stranded_rows(2) by (auto simp: map_eq_Cons_conv)
  show "map rw_status (pg_runs stranded) = [StatusFailed]" using r by simp
  show "map jb_status (pg_jobs stranded) = [JobFailed, JobQueued]" using j by simp
  fix db assume "db \<in> {db. pg_steps pair_env stranded db}"
  then have s: "pg_steps pair_env stranded db" by simp
  have i: "snd (pg_view stranded) 7 = Some (StatusFailed, rec_FinishedAt (rw_rec r))"
    using pg_run_info [OF stranded_reachable, of r k] r j by simp
  have l: "\<forall>s\<in>run_statuses 7 (fst (pg_view stranded)). \<not> job_leased s"
    using j by (auto simp: run_statuses_def pg_view_def pg_views_def)
  have "run_views 7 (fst (pg_view db)) = run_views 7 (fst (pg_view stranded))"
    using pg.frozen_forever [OF TrueI stranded_reachable s i _ l] by (simp add: Terminal_def)
  moreover have "row_view k \<in> set (run_views 7 (fst (pg_view stranded)))" using j by (auto simp: run_views_row)
  ultimately have "row_view k \<in> set (run_views 7 (fst (pg_view db)))" by simp
  then obtain x where "x \<in> set (pg_jobs db)" "jb_run x = 7" "row_view k = row_view x" unfolding run_views_row by blast
  then show "db \<in> {db. \<exists>j\<in>set (pg_jobs db). jb_run j = 7 \<and> jb_key j = ''build/lint'' \<and> jb_status j = JobQueued}"
    using j by (auto simp: row_view_def)
qed

end
