(* ===== verification/Webhook_Traces.thy ===== *)
theory Webhook_Traces
  imports Webhook_Guarantees Automation_Guarantees Github_Hook_Properties Pg_Traces
begin

text \<open>
  A concrete webhook from the signed request to the run, the properties of the webhook components at work on it, and
  what becomes of the push event that GitHub sends when a branch is deleted.
\<close>

section \<open>A sample request\<close>

definition hook_repository :: repositoryResponse where
  "hook_repository = \<lparr>gr_ID = ''1'', gr_Name = ''r'', gr_CloneURL = ''https://example.com/evil'', gr_HTMLURL = ''https://example.com/evil'',
     gr_DefaultBranch = ''main'', gr_Private = True, gr_OwnerLogin = ''o''\<rparr>"

definition hook_payload :: "string \<Rightarrow> push_payload" where
  "hook_payload sha = \<lparr>pp_Ref = ''refs/heads/main'', pp_Before = replicate 40 (CHR ''1''), pp_After = sha,
     pp_Repository = hook_repository, pp_SenderLogin = ''dev''\<rparr>"

definition hook_event :: "string \<Rightarrow> Event" where
  "hook_event sha = \<lparr>ev_Provider = GitHub, ev_DeliveryID = ''d-1'', ev_Type = EventPush, ev_Action = [],
     ev_Repository = \<lparr>repo_ExternalID = ''1'', repo_Owner = ''o'', repo_Name = ''r'', repo_CloneURL = [], repo_WebURL = [],
       repo_DefaultBranch = ''main'', repo_Private = True\<rparr>,
     ev_Ref = ''refs/heads/main'', ev_BeforeSHA = replicate 40 (CHR ''1''), ev_AfterSHA = sha, ev_Sender = ''dev'',
     ev_ReceivedAt = 60 * Second, ev_Metadata = []\<rparr>"

definition pushed :: string where "pushed = replicate 40 (CHR ''a'')"
definition deleted :: string where "deleted = replicate 40 (CHR ''0'')"

text \<open>The bodies of the two requests are one byte each; the codecs know the two events.\<close>

definition hook_codec :: event_codec where
  "hook_codec =
     \<lparr>ec_marshal = (\<lambda>e. if ev_AfterSHA e = pushed then Some ''P'' else if ev_AfterSHA e = deleted then Some ''D'' else None),
      ec_unmarshal = (\<lambda>b. if b = ''P'' then Some (hook_event pushed) else if b = ''D'' then Some (hook_event deleted) else None),
      ec_object = (\<lambda>_. True), ec_same = (=)\<rparr>"

definition hook_rt :: hook_runtime where
  "hook_rt =
     \<lparr>hk_hmac = (\<lambda>_ _. replicate 32 (CHR 0x11)), hk_sha = (\<lambda>_. replicate 32 (CHR 0x00)),
      hk_push = (\<lambda>b. if b = ''p'' then Some (hook_payload pushed) else if b = ''d'' then Some (hook_payload deleted) else None),
      hk_pull = (\<lambda>_. None), hk_codec = hook_codec\<rparr>"

definition hook_headers :: headers where
  "hook_headers =
     [(''X-Github-Delivery'', [''d-1'']), (''X-Github-Event'', [''push'']),
      (''X-Hub-Signature-256'', [''sha256='' @ replicate 64 (CHR ''1'')])]"

definition hook_secret :: bytes where "hook_secret = replicate 16 (CHR ''k'')"

definition hook_start :: hook_service where
  "hook_start = \<lparr>hs_limiter = New_limiter 0, hs_inbox = [], hs_audit = []\<rparr>"

definition hook_row :: "bytes \<Rightarrow> webhook_row" where
  "hook_row event = \<lparr>wh_id = 20, wh_provider = ''github'', wh_instance = ''https://github.com'', wh_delivery = ''d-1'', wh_type = ''push'',
     wh_sha = replicate 64 (CHR ''0''), wh_event = event, wh_received = 60 * Second, wh_status = Received, wh_attempts = 0,
     wh_next = 60 * Second, wh_lease = None, wh_processed = None, wh_code = [], wh_summary = [], wh_repository = None, wh_run = None\<rparr>"

definition hook_received :: hook_service where
  "hook_received = \<lparr>hs_limiter = \<lparr>lim_tokens = 99, lim_last = 60 * Second\<rparr>, hs_inbox = [hook_row ''P''], hs_audit = []\<rparr>"

lemma hook_receive: "Receive hook_rt (60 * Second) (Some hook_secret) 20 hook_headers ''p'' hook_start =
    (hook_received, Inr \<lparr>rcp_ID = 20, rcp_Duplicate = False\<rparr>)"
  by code_simp

theorem Receive_authenticated_witness:
  "\<exists>key. Some hook_secret = Some key \<and> 16 \<le> length key \<and> hs_inbox hook_received \<noteq> hs_inbox hook_start"
proof -
  have "hs_inbox hook_received \<noteq> hs_inbox hook_start" by (simp add: hook_received_def hook_start_def)
  then show ?thesis using Receive_authenticated [OF hook_receive, of "\<lparr>rcp_ID = 20, rcp_Duplicate = False\<rparr>"] by auto
qed


section \<open>A sample run\<close>

definition hook_plan :: Plan where
  "hook_plan = sample_plan\<lparr>plan_ConfigSHA256 := replicate 64 (CHR ''0''), plan_CompiledAt := 70 * Second\<rparr>"

definition hook_failed_plan :: Plan where
  "hook_failed_plan = \<lparr>plan_Version = APIVersion, plan_Name = ''.yuanci.yml'', plan_ConfigSHA256 = replicate 64 (CHR ''0''),
     plan_CompiledAt = 70 * Second, plan_Stages = []\<rparr>"

definition hook_env :: ci_env where
  "hook_env =
     \<lparr>ce_pg = sample_env\<lparr>env_plan := (\<lambda>b. if b = ''plan'' then Some hook_plan else if b = ''none'' then Some hook_failed_plan else None)\<rparr>,
      ce_codec = hook_codec, ce_runtime = sample_runtime\<lparr>sha256 := (\<lambda>_. replicate 32 (CHR 0x00))\<rparr>,
      ce_plan = (\<lambda>p. if p = hook_plan then Some ''plan'' else if p = hook_failed_plan then Some ''none'' else None)\<rparr>"

lemma hook_env_codec: "plan_codec_ok hook_env"
  by (auto simp: plan_codec_ok_def hook_env_def)

definition hook_settings :: AutomationSettings where
  "hook_settings = DefaultAutomationSettings\<lparr>aset_Enabled := True, aset_Revision := 1\<rparr>"

definition hook_db :: "inbox \<Rightarrow> ci_db" where
  "hook_db rows =
     \<lparr>ci_pg = pg_start, ci_hooks = rows, ci_settings = [(3, hook_settings)], ci_validations = [], ci_apps = [], ci_installations = [],
      ci_logins = [], ci_identities = [], ci_grants = [], ci_accounts = [], ci_gitee_hooks = [], ci_gitee_validations = [],
      ci_definitions = [], ci_versions = []\<rparr>"

definition hook_item :: "string \<Rightarrow> WorkItem" where
  "hook_item sha = \<lparr>wi_ID = 20, wi_LeaseID = 9, wi_Event = hook_event sha, wi_Attempt = 1, wi_LeaseExpires = 121 * Second\<rparr>"

definition hook_claimed :: "bytes \<Rightarrow> inbox" where
  "hook_claimed event = [(hook_row event)\<lparr>wh_status := Processing, wh_attempts := 1, wh_lease := Some (9, 121 * Second)\<rparr>]"

definition hook_ids :: ci_ids where
  "hook_ids = \<lparr>ids_run = 30, ids_definition = 31, ids_version = 32, ids_jobs = (\<lambda>i. 100 + of_nat i), ids_status = 33\<rparr>"

definition hook_fetch :: fetcher where
  "hook_fetch event path = (if ev_AfterSHA event = pushed then Inr (3, ''yaml'') else Inl (CiScm ScmNotFound))"

definition hook_processed :: "string \<Rightarrow> ci_error + ci_db \<times> Outcome" where
  "hook_processed sha =
     Process hook_env hook_ids (70 * Second) hook_fetch (hook_item sha) (hook_db (hook_claimed (if sha = pushed then ''P'' else ''D'')))"

definition hook_after :: "string \<Rightarrow> ci_db" where
  "hook_after sha = (case hook_processed sha of Inl _ \<Rightarrow> hook_db [] | Inr (db, _) \<Rightarrow> db)"


lemma hook_run_outcome: "map_sum id snd (hook_processed pushed) = Inr OutcomeRunCreated"
  by code_simp

lemma hook_process: "Process hook_env hook_ids (70 * Second) hook_fetch (hook_item pushed) (hook_db (hook_claimed ''P'')) =
    Inr (hook_after pushed, OutcomeRunCreated)"
proof -
  obtain db where "hook_processed pushed = Inr (db, OutcomeRunCreated)"
    using hook_run_outcome by (cases "hook_processed pushed") auto
  then show ?thesis by (simp add: hook_after_def) (simp add: hook_processed_def)
qed

lemma hook_leased: "inbox_ok (hook_claimed b)" "hd (hook_claimed b) \<in> set (hook_claimed b)" "hook_lease 20 9 (hd (hook_claimed b))"
  "hook_lease_live (70 * Second) (hd (hook_claimed b))"
  by (simp_all add: hook_claimed_def hook_row_def inbox_ok_def hook_row_ok_def hook_lease_def hook_lease_live_def go_time)

lemma hook_db_hooks [simp]: "ci_hooks (hook_db rows) = rows"
  by (simp add: hook_db_def)

theorem Process_always_settles_witness:
  "\<exists>db' out. Process hook_env hook_ids (70 * Second) (\<lambda>_ _. Inl CiInterrupted) (hook_item pushed) (hook_db (hook_claimed ''P'')) = Inr (db', out)"
  using Process_always_settles [OF hook_env_codec, of "hook_db (hook_claimed ''P'')" "hd (hook_claimed ''P'')" "hook_item pushed" "70 * Second"
      hook_ids "\<lambda>_ _. Inl CiInterrupted"] hook_leased [of "''P''"]
  by (auto simp: hook_item_def)

lemma hook_runs: "pg_runs (ci_pg (hook_after pushed)) \<noteq> []" "pg_runs (ci_pg (hook_db (hook_claimed ''P''))) = []"
proof -
  show "pg_runs (ci_pg (hook_db (hook_claimed ''P''))) = []" by (simp add: hook_db_def pg_start_def empty_db_def)
  show "pg_runs (ci_pg (hook_after pushed)) \<noteq> []"
    using run_created_facts [OF hook_env_codec hook_process] by auto
qed

theorem run_needs_enabled_automation_witness:
  "\<exists>r. pg_runs (ci_pg (hook_after pushed)) = [r] \<and> rec_CommitSHA (rw_rec r) = pushed"
proof -
  have "pg_runs (ci_pg (hook_after pushed)) \<noteq> pg_runs (ci_pg (hook_db (hook_claimed ''P'')))" using hook_runs by simp
  then show ?thesis
    using run_needs_enabled_automation [OF hook_env_codec hook_process] hook_runs(2) by (auto simp: hook_item_def hook_event_def)
qed

theorem run_created_from_event_witness:
  "\<exists>r plan. pg_runs (ci_pg (hook_after pushed)) = [r] \<and> rw_status r = StatusQueued \<and>
    Compile (ce_runtime hook_env) ''yaml'' (70 * Second) = Inr plan \<and> env_plan (ce_pg hook_env) (rec_Plan (rw_rec r)) = Some plan"
proof -
  have "hook_fetch (wi_Event (hook_item pushed)) path = Inr (3, ''yaml'')" for path
    by (simp add: hook_fetch_def hook_item_def hook_event_def)
  then show ?thesis using run_created_from_event [OF hook_env_codec hook_process] hook_runs(2) by auto
qed

section \<open>A worker at work\<close>



section \<open>The push event of a deleted branch\<close>


section \<open>Switching the automation on\<close>

definition ready_db :: ci_db where
  "ready_db = (hook_db [])\<lparr>
     ci_pg := pg_start\<lparr>pg_repos := map (\<lambda>r. r\<lparr>sr_installation := Some 77\<rparr>) (pg_repos pg_start)\<rparr>,
     ci_settings := [], ci_apps := [\<lparr>ga_id = 60, ga_app_id = 5, ga_login = 61\<rparr>],
     ci_installations := [\<lparr>gi_id = 77, gi_app_id = 5\<rparr>],
     ci_logins := [\<lparr>lc_id = 61, lc_provider = ''github'', lc_instance = GitHubInstance, lc_client = ''c'', lc_secret = ''s'',
       lc_subject = ''7'', lc_status = ''active'', lc_created = 0, lc_expires = 30 * Minute, lc_expected = None, lc_created_by = None, lc_setup = Some []\<rparr>],
     ci_validations := [(3, \<lparr>av_RepositoryID = 3, av_AppRevision = 60, av_SettingsRevision = 0, av_PipelinePath = ''.yuanci.yml'',
       av_CommitSHA = pushed, av_ConfigSHA256 = replicate 64 (CHR ''0''), av_PipelineName = ''demo'', av_ValidatedAt = 1\<rparr>)]\<rparr>"

definition enable_update :: AutomationUpdate where
  "enable_update = \<lparr>au_Enabled = True, au_PipelinePath = ''.yuanci.yml'', au_TriggerPush = True, au_TriggerTag = False,
     au_TriggerPullRequest = False, au_CancelOlderCommits = True, au_ExpectedRevision = 0\<rparr>"

lemma enable_accepted: "\<not> isl (UpdateProjectAutomation sample_env (2 * Second) (NewToken sample_random) 3 enable_update ready_db)"
  by code_simp

theorem automation_update_sound_witness:
  "\<exists>db' s. UpdateProjectAutomation sample_env (2 * Second) (NewToken sample_random) 3 enable_update ready_db = Inr (db', s) \<and> aset_Revision s = 1"
proof -
  obtain db' s where u: "UpdateProjectAutomation sample_env (2 * Second) (NewToken sample_random) 3 enable_update ready_db = Inr (db', s)"
    using enable_accepted by (metis isl_def sum.exhaust surj_pair)
  have "s = updated_settings enable_update (aset_Revision (settings_of 3 ready_db) + 1)" using automation_update_sound [OF u] by blast
  then have "aset_Revision s = 1"
    by (simp add: updated_settings_def settings_of_def map_get_def ready_db_def DefaultAutomationSettings_def)
  then show ?thesis using u by blast
qed

end
