(* ===== verification/Login_Guarantees.thy ===== *)
theory Login_Guarantees
  imports Login_Store Identity_Properties
begin

text \<open>
  What signing in guarantees: a finished login opens a session of the user whose identity the provider confirmed, the
  first administrator is the bootstrap subject and nobody else, setup credentials die with the first administrator, and
  one login configuration is active at a time. \<open>login_step\<close> is the login store as a transition system with one rule per
  transaction.
\<close>

section \<open>The effect of each transaction\<close>

lemma login_audit_sel [simp]:
  "lg_identities (login_audit e db) = lg_identities db" "lg_configs (login_audit e db) = lg_configs db"
  "lg_flows (login_audit e db) = lg_flows db" "lg_bootstrap (login_audit e db) = lg_bootstrap db" "lg_setup (login_audit e db) = lg_setup db"
  "db_sessions (lg_identity (login_audit e db)) = db_sessions (lg_identity db)"
  "db_users (lg_identity (login_audit e db)) = db_users (lg_identity db)"
  "db_memberships (lg_identity (login_audit e db)) = db_memberships (lg_identity db)"
  "db_instance (lg_identity (login_audit e db)) = db_instance (lg_identity db)"
  by (simp_all add: login_audit_def)

lemma retire_where_sel [simp]:
  "lg_identity (retire_where p db) = lg_identity db" "lg_identities (retire_where p db) = lg_identities db"
  "lg_flows (retire_where p db) = lg_flows db" "lg_bootstrap (retire_where p db) = lg_bootstrap db" "lg_setup (retire_where p db) = lg_setup db"
  "lg_configs (retire_where p db) = update_where p (\<lambda>c. c\<lparr>lc_status := ''retired''\<rparr>) (lg_configs db)"
  by (simp_all add: retire_where_def)

lemma bound_user_audit [simp]: "bound_user user (login_audit e db) = bound_user user db"
  by (simp add: bound_user_def)

lemma instance_admin_cong: "db_memberships d = db_memberships d' \<Longrightarrow> instance_admin d = instance_admin d'"
  by (simp add: instance_admin_def)

lemma insert_flow_effect:
  assumes "insert_flow now state browser link config verify setup db = Inr db'"
  shows "lg_identity db' = lg_identity db" "lg_identities db' = lg_identities db" "lg_configs db' = lg_configs db"
    "lg_bootstrap db' = lg_bootstrap db" "lg_setup db' = lg_setup db"
  using assms by (auto simp: insert_flow_def Let_def split: if_splits)

lemma RevokeSession_effect:
  assumes "RevokeSession uuid_String sha256 now token db = Inr db'"
  obtains digest where "TokenDigest sha256 token = Some digest" "db_users db' = db_users db" "db_memberships db' = db_memberships db"
    "db_instance db' = db_instance db"
    "db_sessions db' = update_where (\<lambda>s. ss_token_hash s = digest \<and> ss_revoked s = None) (\<lambda>s. s\<lparr>ss_revoked := Some now\<rparr>) (db_sessions db)"
proof -
  obtain digest where d: "TokenDigest sha256 token = Some digest" using assms by (auto simp: RevokeSession_def split: option.splits)
  show thesis by (rule that [OF d]) (use assms d in \<open>auto simp: RevokeSession_def Let_def split: option.splits\<close>)
qed

lemma revoke_current_sel [simp]:
  "lg_identities (revoke_current env now token db) = lg_identities db" "lg_configs (revoke_current env now token db) = lg_configs db"
  "lg_flows (revoke_current env now token db) = lg_flows db" "lg_bootstrap (revoke_current env now token db) = lg_bootstrap db"
  "lg_setup (revoke_current env now token db) = lg_setup db"
  "db_users (lg_identity (revoke_current env now token db)) = db_users (lg_identity db)"
  "db_memberships (lg_identity (revoke_current env now token db)) = db_memberships (lg_identity db)"
  "db_instance (lg_identity (revoke_current env now token db)) = db_instance (lg_identity db)"
  by (auto simp: revoke_current_def split: sum.splits elim: RevokeSession_effect)

lemma bound_user_revoke [simp]: "bound_user user (revoke_current env now token db) = bound_user user db"
  by (simp add: bound_user_def)

lemma activate_sel [simp]:
  "lg_identities (activateLoginConfig env now config owner db) = lg_identities db"
  "lg_flows (activateLoginConfig env now config owner db) = lg_flows db"
  "lg_bootstrap (activateLoginConfig env now config owner db) = lg_bootstrap db"
  "db_sessions (lg_identity (activateLoginConfig env now config owner db)) = db_sessions (lg_identity db)"
  "db_users (lg_identity (activateLoginConfig env now config owner db)) = db_users (lg_identity db)"
  "db_memberships (lg_identity (activateLoginConfig env now config owner db)) = db_memberships (lg_identity db)"
  "db_instance (lg_identity (activateLoginConfig env now config owner db)) = db_instance (lg_identity db)"
  by (simp_all add: activateLoginConfig_def Let_def)

lemma prepare_effect:
  assumes "prepareManagedCompletion env now flow user currentToken setupToken db = Inr (db1, activation, owner)"
  shows "lg_identity db1 = lg_identity db" "lg_identities db1 = lg_identities db" "lg_configs db1 = lg_configs db"
    "lg_flows db1 = lg_flows db" "lg_setup db1 = lg_setup db"
    "lg_bootstrap db1 \<noteq> lg_bootstrap db \<Longrightarrow> lg_bootstrap db = None \<and>
       (\<exists>b. lg_bootstrap db1 = Some b \<and> bt_consumed b = None \<and> bt_user b = None)"
  using assms by (auto simp: prepareManagedCompletion_def and_then_Inr Let_def split: option.splits if_splits)

lemma finishOAuth_cases:
  assumes "finishOAuth env ids now ticket user currentToken setupToken db = Inr (db', token, session)"
  obtains ticketHash flow db1 activation owner0 owner1 b db2 owner identity where
    "ExternalUser_Valid user" "TokenDigest (le_sha env) ticket = Some ticketHash"
    "List.find (\<lambda>f. fw_completion f = Some ticketHash \<and> fw_expires f > now) (lg_flows db) = Some flow"
    "prepareManagedCompletion env now flow user currentToken setupToken
       (db\<lparr>lg_flows := filter (\<lambda>f. \<not> (fw_completion f = Some ticketHash \<and> fw_expires f > now)) (lg_flows db)\<rparr>) = Inr (db1, activation, owner0)"
    "linked_owner env now flow currentToken owner0 db1 = Inr owner1"
    "bound_user user db1 = None \<or> owner1 = uuid_Nil \<or> bound_user user db1 = Some owner1"
    "lg_bootstrap db1 = Some b"
    "bt_consumed b = None \<longrightarrow> xu_Provider user = bt_provider b \<and> xu_Instance user = bt_instance b \<and> xu_Subject user = bt_subject b"
    "admit_user env ids now user (case bound_user user db1 of None \<Rightarrow> owner1 | Some x \<Rightarrow> x) (bound_user user db1 = None) b db1 = Inr (db2, owner)"
    "issueSession (le_String env) (le_sha env) (li_random ids) (li_session ids) now owner DefaultTTL (lg_identity db2) = Inr (identity, token, session)"
    "db' = revoke_current env now currentToken (case activation of None \<Rightarrow> db2\<lparr>lg_identity := identity\<rparr>
       | Some config \<Rightarrow> activateLoginConfig env now config owner (db2\<lparr>lg_identity := identity\<rparr>))"
proof -
  have valid: "ExternalUser_Valid user" using assms by (auto simp: finishOAuth_def split: if_splits)
  obtain ticketHash where h: "TokenDigest (le_sha env) ticket = Some ticketHash"
    using assms by (auto simp: finishOAuth_def and_then_Inr login_digest_def split: if_splits option.splits)
  let ?mine = "\<lambda>f. fw_completion f = Some ticketHash \<and> fw_expires f > now"
  obtain flow where f: "List.find ?mine (lg_flows db) = Some flow"
    using assms h valid by (auto simp: finishOAuth_def login_digest_def Let_def split: option.splits)
  note r = assms [unfolded finishOAuth_def login_digest_def, simplified h valid, simplified, simplified Let_def f, simplified]
  obtain db1 activation owner0 where p: "prepareManagedCompletion env now flow user currentToken setupToken
      (db\<lparr>lg_flows := filter (\<lambda>f. \<not> ?mine f) (lg_flows db)\<rparr>) = Inr (db1, activation, owner0)"
    using r by (auto simp: and_then_Inr)
  obtain owner1 where l: "linked_owner env now flow currentToken owner0 db1 = Inr owner1"
    using r p by (auto simp: and_then_Inr)
  note r2 = r [simplified p l, simplified p l and_then_simps prod.case]
  have c: "bound_user user db1 = None \<or> owner1 = uuid_Nil \<or> bound_user user db1 = Some owner1"
    using r p l by (auto split: if_splits)
  obtain b where b: "lg_bootstrap db1 = Some b" using r p l by (auto split: if_splits option.splits)
  have m: "bt_consumed b = None \<longrightarrow> xu_Provider user = bt_provider b \<and> xu_Instance user = bt_instance b \<and> xu_Subject user = bt_subject b"
    using r p l b by (auto split: if_splits)
  let ?owner = "case bound_user user db1 of None \<Rightarrow> owner1 | Some x \<Rightarrow> x"
  have "\<exists>db2 owner. admit_user env ids now user ?owner (bound_user user db1 = None) b db1 = Inr (db2, owner)"
    using r p l b by (simp add: and_then_Inr split: if_splits)
  then obtain db2 owner where a: "admit_user env ids now user ?owner (bound_user user db1 = None) b db1 = Inr (db2, owner)" by blast
  have "\<exists>identity. issueSession (le_String env) (le_sha env) (li_random ids) (li_session ids) now owner DefaultTTL (lg_identity db2) = Inr (identity, token, session) \<and>
     db' = revoke_current env now currentToken (case activation of None \<Rightarrow> db2\<lparr>lg_identity := identity\<rparr>
       | Some config \<Rightarrow> activateLoginConfig env now config owner (db2\<lparr>lg_identity := identity\<rparr>))"
    using r p l b a by (simp add: and_then_Inr split: if_splits sum.splits) auto
  then show ?thesis using that [OF valid h f p l c b m a] by blast
qed

lemma make_admin_effect:
  assumes "make_admin env newID now owner b db = Inr db'"
  obtains inst where "db_instance (lg_identity db) = Some inst" "\<not> instance_admin (lg_identity db)"
    "db_memberships (lg_identity db') = db_memberships (lg_identity db) @
       [\<lparr>mb_id = newID, mb_user = owner, mb_role = Admin, mb_scope = \<lparr>sc_Kind = Instance, sc_ID = inst\<rparr>\<rparr>]"
    "lg_bootstrap db' = Some (b\<lparr>bt_consumed := Some now, bt_user := Some owner\<rparr>)" "lg_identities db' = lg_identities db"
    "lg_configs db' = lg_configs db" "lg_setup db' = lg_setup db" "lg_flows db' = lg_flows db"
    "db_users (lg_identity db') = db_users (lg_identity db)" "db_sessions (lg_identity db') = db_sessions (lg_identity db)"
proof -
  obtain inst where i: "db_instance (lg_identity db) = Some inst" using assms by (auto simp: make_admin_def split: option.splits)
  show thesis by (rule that [OF i]) (use assms i in \<open>auto simp: make_admin_def split: if_splits\<close>)
qed

lemma bind_identity_effect:
  assumes "bind_identity env newID owner user db = Inr db'"
  shows "bound_user user db' = Some owner" "lg_configs db' = lg_configs db" "lg_setup db' = lg_setup db" "lg_flows db' = lg_flows db"
    "lg_bootstrap db' = lg_bootstrap db" "db_users (lg_identity db') = db_users (lg_identity db)"
    "db_sessions (lg_identity db') = db_sessions (lg_identity db)" "db_memberships (lg_identity db') = db_memberships (lg_identity db)"
  using assms by (auto simp: bind_identity_def bound_user_def find_append_new find_None_iff split: if_splits)

lemma create_user_effect:
  assumes "create_user newID user db = Inr db'"
  shows "lg_identities db' = lg_identities db" "lg_configs db' = lg_configs db" "lg_setup db' = lg_setup db" "lg_flows db' = lg_flows db"
    "lg_bootstrap db' = lg_bootstrap db" "db_sessions (lg_identity db') = db_sessions (lg_identity db)"
    "db_memberships (lg_identity db') = db_memberships (lg_identity db)"
  using assms by (auto simp: create_user_def split: if_splits)

text \<open>The three steps of admitting a user: the account, its identity, the administrator.\<close>

lemma admit_user_cases:
  assumes "admit_user env ids now user owner0 newBinding b db = Inr (db', owner)"
  obtains db1 db2 where "owner = (if owner0 = uuid_Nil then li_user ids else owner0)"
    "(if owner0 = uuid_Nil then create_user owner user db else Inr db) = Inr db1"
    "(if newBinding then bind_identity env (li_binding ids) owner user db1 else Inr db1) = Inr db2"
    "(if bt_consumed b = None then make_admin env (li_member ids) now owner b db2 else Inr db2) = Inr db'"
    "lg_identities db1 = lg_identities db"
    "lg_configs db2 = lg_configs db" "lg_setup db2 = lg_setup db" "lg_flows db2 = lg_flows db" "lg_bootstrap db2 = lg_bootstrap db"
    "db_memberships (lg_identity db2) = db_memberships (lg_identity db)"
proof -
  have o: "owner = (if owner0 = uuid_Nil then li_user ids else owner0)"
    using assms by (auto simp: admit_user_def Let_def and_then_Inr split: option.splits if_splits)
  obtain db1 where c: "(if owner0 = uuid_Nil then create_user owner user db else Inr db) = Inr db1"
    using assms o by (auto simp: admit_user_def Let_def and_then_Inr)
  have c1: "lg_identities db1 = lg_identities db" "lg_configs db1 = lg_configs db" "lg_setup db1 = lg_setup db" "lg_flows db1 = lg_flows db"
    "lg_bootstrap db1 = lg_bootstrap db" "db_memberships (lg_identity db1) = db_memberships (lg_identity db)"
    using c create_user_effect by (auto split: if_splits)
  obtain db2 where d: "(if newBinding then bind_identity env (li_binding ids) owner user db1 else Inr db1) = Inr db2"
    "(if bt_consumed b = None then make_admin env (li_member ids) now owner b db2 else Inr db2) = Inr db'"
    using assms o c by (auto simp: admit_user_def Let_def and_then_Inr split: option.splits if_splits)
  show thesis
    by (rule that [OF o c d c1(1)]) (use d(1) bind_identity_effect [of env "li_binding ids" owner user db1 db2] c1 in \<open>auto split: if_splits\<close>)
qed

lemma admit_user_effect:
  assumes "admit_user env ids now user owner0 (bound_user user db = None) b db = Inr (db', owner)"
    and "bound_user user db = None \<or> bound_user user db = Some owner0 \<and> owner0 \<noteq> uuid_Nil"
  shows "bound_user user db' = Some owner"
proof -
  obtain db1 db2 where a: "owner = (if owner0 = uuid_Nil then li_user ids else owner0)"
    "(if bound_user user db = None then bind_identity env (li_binding ids) owner user db1 else Inr db1) = Inr db2"
    "(if bt_consumed b = None then make_admin env (li_member ids) now owner b db2 else Inr db2) = Inr db'" "lg_identities db1 = lg_identities db"
    by (rule admit_user_cases [OF assms(1)])
  have "bound_user user db2 = Some owner"
    using a(1,2,4) assms(2) bind_identity_effect(1) by (auto simp: bound_user_def split: if_splits)
  moreover have "lg_identities db' = lg_identities db2" using a(3) by (auto split: if_splits elim: make_admin_effect)
  ultimately show ?thesis by (simp add: bound_user_def)
qed

lemma admit_user_keeps:
  assumes "admit_user env ids now user owner0 newBinding b db = Inr (db', owner)"
  shows "lg_configs db' = lg_configs db" "lg_setup db' = lg_setup db" "lg_flows db' = lg_flows db"
  by (rule admit_user_cases [OF assms], auto split: if_splits elim: make_admin_effect)+

lemma admit_user_bootstrap:
  assumes "admit_user env ids now user owner0 newBinding b db = Inr (db', owner)" and "lg_bootstrap db = Some b"
  shows "bt_consumed b \<noteq> None \<Longrightarrow> lg_bootstrap db' = Some b \<and> db_memberships (lg_identity db') = db_memberships (lg_identity db)"
    "bt_consumed b = None \<Longrightarrow> lg_bootstrap db' = Some (b\<lparr>bt_consumed := Some now, bt_user := Some owner\<rparr>) \<and> \<not> instance_admin (lg_identity db)"
proof -
  obtain db1 db2 where a: "(if bt_consumed b = None then make_admin env (li_member ids) now owner b db2 else Inr db2) = Inr db'"
    "lg_bootstrap db2 = lg_bootstrap db" "db_memberships (lg_identity db2) = db_memberships (lg_identity db)"
    by (rule admit_user_cases [OF assms(1)])
  have i: "instance_admin (lg_identity db2) = instance_admin (lg_identity db)" by (rule instance_admin_cong) (rule a(3))
  show "lg_bootstrap db' = Some b \<and> db_memberships (lg_identity db') = db_memberships (lg_identity db)" if "bt_consumed b \<noteq> None"
    using a that assms(2) by auto
  show "lg_bootstrap db' = Some (b\<lparr>bt_consumed := Some now, bt_user := Some owner\<rparr>) \<and> \<not> instance_admin (lg_identity db)" if "bt_consumed b = None"
    using a(1) that i by (auto elim: make_admin_effect)
qed

section \<open>A finished login\<close>

lemma authenticate_cong:
  "db_sessions d = db_sessions d' \<Longrightarrow> db_users d = db_users d' \<Longrightarrow> AuthenticateSession sha now token d = AuthenticateSession sha now token d'"
  by (simp add: AuthenticateSession_def authenticateSession_def session_user_def cong: option.case_cong)

lemma find_update_other: "(\<And>x. p x \<Longrightarrow> \<not> q x \<and> \<not> q (f x)) \<Longrightarrow> List.find q (update_where p f xs) = List.find q xs"
  by (induction xs) (auto simp: update_where_def)

lemma revoke_current_dead: "AuthenticateSession (le_sha env) now' token (lg_identity (revoke_current env now token db)) = Inl ErrUnauthenticated"
proof (cases "RevokeSession (le_String env) (le_sha env) now token (lg_identity db)")
  case (Inl e)
  then show ?thesis
    by (auto simp: revoke_current_def RevokeSession_def AuthenticateSession_def authenticateSession_def session_user_def Let_def split: option.splits)
next
  case (Inr ident)
  then show ?thesis
    by (rule Revoke_dead) (simp add: revoke_current_def Inr hash_dead_unauthenticated)
qed

lemma revoke_current_other:
  assumes "le_sha env current \<noteq> le_sha env token"
  shows "AuthenticateSession (le_sha env) now' token (lg_identity (revoke_current env now current db)) =
    AuthenticateSession (le_sha env) now' token (lg_identity db)"
proof (cases "RevokeSession (le_String env) (le_sha env) now current (lg_identity db)")
  case (Inr ident)
  then obtain digest where d: "TokenDigest (le_sha env) current = Some digest" "db_users ident = db_users (lg_identity db)"
    "db_sessions ident = update_where (\<lambda>s. ss_token_hash s = digest \<and> ss_revoked s = None) (\<lambda>s. s\<lparr>ss_revoked := Some now\<rparr>) (db_sessions (lg_identity db))"
    by (rule RevokeSession_effect)
  have h: "TokenDigest (le_sha env) t = Some h \<Longrightarrow> h = le_sha env t" for t h
    by (auto simp: TokenDigest_def split: if_splits option.splits)
  have "List.find (\<lambda>s. ss_token_hash s = le_sha env token \<and> ss_revoked s = None) (db_sessions ident) =
      List.find (\<lambda>s. ss_token_hash s = le_sha env token \<and> ss_revoked s = None) (db_sessions (lg_identity db))"
    unfolding d(3) by (rule find_update_other) (use assms h [OF d(1)] in auto)
  then have "session_user (le_sha env token) ident = session_user (le_sha env token) (lg_identity db)"
    by (simp add: session_user_def d(2) cong: option.case_cong)
  then show ?thesis
    using h [of token] by (cases "TokenDigest (le_sha env) token") (auto simp: Inr revoke_current_def AuthenticateSession_def authenticateSession_def)
qed (simp add: revoke_current_def)

text \<open>
  C29 (functional). A login that finishes was started in the same browser and not used before, and is valid only once. It
  opens a session of eight hours for the account that is bound to the identity the provider confirmed, ends the session
  that the browser had before, and if the flow was to link an identity, the account is the one of that session. After
  the first login the instance has its administrator.
\<close>

theorem finish_login_sound:
  assumes "finishOAuth env ids now ticket user currentToken setupToken db = Inr (db', token, session)"
    and "length (li_random ids) = 32" and "le_sha env currentToken \<noteq> le_sha env token"
    and "\<And>x. x \<in> set (lg_identities db) \<Longrightarrow> xi_user x \<noteq> uuid_Nil"
  shows "ExternalUser_Valid user \<and> bound_user user db' = Some (se_UserID session) \<and>
    (\<exists>flow hash. flow \<in> set (lg_flows db) \<and> TokenDigest (le_sha env) ticket = Some hash \<and> fw_completion flow = Some hash \<and>
       now < fw_expires flow \<and> filter (\<lambda>f. fw_completion f = Some hash \<and> now < fw_expires f) (lg_flows db') = [] \<and>
       (\<forall>linkID. fw_link flow = Some linkID \<longrightarrow> (\<exists>s. AuthenticateSession (le_sha env) now currentToken (lg_identity db) = Inr s \<and>
          se_ID s = linkID \<and> se_UserID s \<in> {se_UserID session, uuid_Nil}))) \<and>
    AuthenticateSession (le_sha env) now' token (lg_identity db') = (if now' < now + DefaultTTL then Inr session else Inl ErrUnauthenticated) \<and>
    AuthenticateSession (le_sha env) now' currentToken (lg_identity db') = Inl ErrUnauthenticated \<and>
    (\<exists>b. lg_bootstrap db' = Some b \<and> bt_consumed b \<noteq> None)"
proof -
  obtain ticketHash flow db1 activation owner0 owner1 b db2 owner identity where
    f: "ExternalUser_Valid user" "TokenDigest (le_sha env) ticket = Some ticketHash"
    "List.find (\<lambda>f. fw_completion f = Some ticketHash \<and> fw_expires f > now) (lg_flows db) = Some flow"
    "prepareManagedCompletion env now flow user currentToken setupToken
       (db\<lparr>lg_flows := filter (\<lambda>f. \<not> (fw_completion f = Some ticketHash \<and> fw_expires f > now)) (lg_flows db)\<rparr>) = Inr (db1, activation, owner0)"
    "linked_owner env now flow currentToken owner0 db1 = Inr owner1"
    "bound_user user db1 = None \<or> owner1 = uuid_Nil \<or> bound_user user db1 = Some owner1"
    "lg_bootstrap db1 = Some b"
    "admit_user env ids now user (case bound_user user db1 of None \<Rightarrow> owner1 | Some x \<Rightarrow> x) (bound_user user db1 = None) b db1 = Inr (db2, owner)"
    "issueSession (le_String env) (le_sha env) (li_random ids) (li_session ids) now owner DefaultTTL (lg_identity db2) = Inr (identity, token, session)"
    "db' = revoke_current env now currentToken (case activation of None \<Rightarrow> db2\<lparr>lg_identity := identity\<rparr>
       | Some config \<Rightarrow> activateLoginConfig env now config owner (db2\<lparr>lg_identity := identity\<rparr>))"
    by (rule finishOAuth_cases [OF assms(1)]) blast
  note p = prepare_effect [OF f(4), simplified]
  have nn: "bound_user user db1 = Some x \<Longrightarrow> x \<noteq> uuid_Nil" for x
    using assms(4) p(2) by (auto simp: bound_user_def dest: find_SomeD)
  let ?o = "case bound_user user db1 of None \<Rightarrow> owner1 | Some x \<Rightarrow> x"
  have "bound_user user db1 = None \<or> bound_user user db1 = Some ?o \<and> ?o \<noteq> uuid_Nil" using nn by (cases "bound_user user db1") auto
  then have bu: "bound_user user db2 = Some owner" by (rule admit_user_effect [OF f(8)])
  note k = admit_user_keeps [OF f(8)] and a = admit_user_bootstrap [OF f(8,7)]
  have u: "se_UserID session = owner" by (rule issueSession_opens [OF assms(2) f(9)]) simp
  have auth: "AuthenticateSession (le_sha env) now' token (lg_identity db') = (if now' < now + DefaultTTL then Inr session else Inl ErrUnauthenticated)"
    unfolding f(10) revoke_current_other [OF assms(3)] issueSession_authenticates [OF assms(2) f(9), symmetric]
    by (rule authenticate_cong) (auto split: option.splits)
  have dead: "AuthenticateSession (le_sha env) now' currentToken (lg_identity db') = Inl ErrUnauthenticated"
    unfolding f(10) by (rule revoke_current_dead)
  have bound: "bound_user user db' = Some owner" using bu f(10) by (cases activation) (simp_all add: bound_user_def)
  have boot: "\<exists>b. lg_bootstrap db' = Some b \<and> bt_consumed b \<noteq> None"
    using a f(10) by (cases activation; cases "bt_consumed b") auto
  have own: "owner = (if ?o = uuid_Nil then li_user ids else ?o)"
    using f(8) by (auto simp: admit_user_def Let_def and_then_Inr split: option.splits if_splits)
  have link: "\<exists>s. AuthenticateSession (le_sha env) now currentToken (lg_identity db) = Inr s \<and> se_ID s = linkID \<and> se_UserID s \<in> {owner, uuid_Nil}"
    if "fw_link flow = Some linkID" for linkID
    using that f(5,6) own p(1) nn
    by (auto simp: linked_owner_def and_then_Inr login_session_def AuthenticateSession_def split: if_splits option.splits sum.splits)
  have flows: "filter (\<lambda>f. fw_completion f = Some ticketHash \<and> now < fw_expires f) (lg_flows db') = []"
    using k(3) p(4) f(10) by (cases activation) (auto simp: filter_empty_conv)
  show ?thesis using f(1,2) find_SomeD [OF f(3)] flows link bound auth dead boot unfolding u by blast
qed

section \<open>The login store as a transition system\<close>

inductive login_step :: "login_env \<Rightarrow> login_db \<Rightarrow> login_db \<Rightarrow> bool" for env where
  configure: "ConfigureGitHubBootstrap subject db = Inr db' \<Longrightarrow> login_step env db db'"
| start_flow: "BeginOAuth env now state nonce linkToken db = Inr db' \<Longrightarrow> login_step env db db'"
| start_managed: "BeginManagedOAuth env now state nonce linkToken candidate access db = Inr (db', config) \<Longrightarrow> login_step env db db'"
| consume: "ConsumeOAuth env random now state nonce db = Inr (db', ticket) \<Longrightarrow> login_step env db db'"
| finish: "finishOAuth env ids now ticket user currentToken setupToken db = Inr (db', token, session) \<Longrightarrow> length (li_random ids) = 32 \<Longrightarrow>
    login_step env db db'"
| bind_key: "BindManagedMasterKey env key db = Inr db' \<Longrightarrow> login_step env db db'"
| issue_code: "IssueSetupCode env now code db = Inr db' \<Longrightarrow> login_step env db db'"
| exchange_code: "ExchangeSetupCode env now code token db = Inr db' \<Longrightarrow> login_step env db db'"
| save_candidate: "SaveLoginCandidate env now access config db = Inr db' \<Longrightarrow> login_step env db db'"
| revoke: "RevokeSession uuid_String (le_sha env) now token (lg_identity db) = Inr ident \<Longrightarrow> login_step env db (db\<lparr>lg_identity := ident\<rparr>)"
| member: "ChangeMembership uuid_String (le_sha env) meta newID now token subjectID scope role add (lg_identity db) = Inr ident \<Longrightarrow>
    login_step env db (db\<lparr>lg_identity := ident\<rparr>)"

abbreviation login_steps :: "login_env \<Rightarrow> login_db \<Rightarrow> login_db \<Rightarrow> bool" where
  "login_steps env \<equiv> (login_step env)\<^sup>*\<^sup>*"

definition initialized :: "login_db \<Rightarrow> bool" where
  "initialized db \<longleftrightarrow> (\<exists>b. lg_bootstrap db = Some b \<and> bt_consumed b \<noteq> None)"

text \<open>The transactions other than the end of a login keep a consumed bootstrap and consume none.\<close>

lemma begin_managed_effect:
  assumes "BeginManagedOAuth env now state nonce linkToken candidate access db = Inr (db', config)"
  shows "lg_identity db' = lg_identity db" "lg_configs db' = lg_configs db" "lg_bootstrap db' = lg_bootstrap db" "lg_setup db' = lg_setup db"
  using assms insert_flow_effect
  by (auto simp: BeginManagedOAuth_def and_then_Inr split: if_splits option.splits)

lemma finish_bootstrap:
  assumes "finishOAuth env ids now ticket user currentToken setupToken db = Inr (db', token, session)" and "length (li_random ids) = 32"
  shows "initialized db \<Longrightarrow> lg_bootstrap db' = lg_bootstrap db \<and> db_memberships (lg_identity db') = db_memberships (lg_identity db)"
    and "\<not> initialized db \<Longrightarrow> \<not> instance_admin (lg_identity db) \<and> ExternalUser_Valid user \<and>
      (\<exists>b. lg_bootstrap db' = Some b \<and> bt_consumed b = Some now \<and> xu_Provider user = bt_provider b \<and> xu_Instance user = bt_instance b \<and>
         xu_Subject user = bt_subject b \<and> bt_user b = Some (se_UserID session))"
proof -
  obtain ticketHash flow db1 activation owner0 owner1 b db2 owner identity where
    v: "ExternalUser_Valid user" and u: "TokenDigest (le_sha env) ticket = Some ticketHash"
    "List.find (\<lambda>f. fw_completion f = Some ticketHash \<and> fw_expires f > now) (lg_flows db) = Some flow" and
    f1: "prepareManagedCompletion env now flow user currentToken setupToken
       (db\<lparr>lg_flows := filter (\<lambda>f. \<not> (fw_completion f = Some ticketHash \<and> fw_expires f > now)) (lg_flows db)\<rparr>) = Inr (db1, activation, owner0)"
    and l: "linked_owner env now flow currentToken owner0 db1 = Inr owner1"
    "bound_user user db1 = None \<or> owner1 = uuid_Nil \<or> bound_user user db1 = Some owner1" and
    f2: "lg_bootstrap db1 = Some b"
    and m: "bt_consumed b = None \<longrightarrow> xu_Provider user = bt_provider b \<and> xu_Instance user = bt_instance b \<and> xu_Subject user = bt_subject b" and
    f3: "admit_user env ids now user (case bound_user user db1 of None \<Rightarrow> owner1 | Some x \<Rightarrow> x) (bound_user user db1 = None) b db1 = Inr (db2, owner)"
    "issueSession (le_String env) (le_sha env) (li_random ids) (li_session ids) now owner DefaultTTL (lg_identity db2) = Inr (identity, token, session)"
    "db' = revoke_current env now currentToken (case activation of None \<Rightarrow> db2\<lparr>lg_identity := identity\<rparr>
       | Some config \<Rightarrow> activateLoginConfig env now config owner (db2\<lparr>lg_identity := identity\<rparr>))"
    by (rule finishOAuth_cases [OF assms(1)])
  note f = f1 f2 f3
  note p = prepare_effect [OF f(1), simplified]
  note a = admit_user_bootstrap [OF f(3,2)]
  have i: "db_memberships identity = db_memberships (lg_identity db2)" "se_UserID session = owner"
    by (rule issueSession_opens [OF assms(2) f(4)], simp)+
  have e: "lg_bootstrap db' = lg_bootstrap db2" "db_memberships (lg_identity db') = db_memberships (lg_identity db2)"
    using i(1) by (cases activation; simp add: f(5))+
  show "lg_bootstrap db' = lg_bootstrap db \<and> db_memberships (lg_identity db') = db_memberships (lg_identity db)" if "initialized db"
    using that p(1,6) f(2) a e by (cases "lg_bootstrap db1 = lg_bootstrap db") (auto simp: initialized_def)
  show "\<not> instance_admin (lg_identity db) \<and> ExternalUser_Valid user \<and>
      (\<exists>b. lg_bootstrap db' = Some b \<and> bt_consumed b = Some now \<and> xu_Provider user = bt_provider b \<and> xu_Instance user = bt_instance b \<and>
         xu_Subject user = bt_subject b \<and> bt_user b = Some (se_UserID session))" if "\<not> initialized db"
  proof -
    have "bt_consumed b = None" using that p(6) f(2) by (cases "lg_bootstrap db1 = lg_bootstrap db") (auto simp: initialized_def)
    then show ?thesis using a(2) e i m v p(1) by auto
  qed
qed

lemma step_bootstrap:
  assumes "login_step env db db'"
  shows "initialized db \<Longrightarrow> lg_bootstrap db' = lg_bootstrap db"
  using assms
proof (cases rule: login_step.cases)
  case (configure subject)
  then show "initialized db \<Longrightarrow> lg_bootstrap db' = lg_bootstrap db"
    by (auto simp: ConfigureGitHubBootstrap_def initialized_def split: if_splits option.splits)
next
  case (start_flow now state nonce linkToken)
  then show ?thesis by (auto simp: BeginOAuth_def and_then_Inr dest: insert_flow_effect)
next
  case (consume random now state nonce ticket)
  then show ?thesis by (auto simp: ConsumeOAuth_def and_then_Inr Let_def split: option.splits if_splits)
next
  case (finish ids now ticket user currentToken setupToken token session)
  then show "initialized db \<Longrightarrow> lg_bootstrap db' = lg_bootstrap db" using finish_bootstrap(1) by blast
next
  case (exchange_code now code token)
  then show ?thesis by (auto simp: ExchangeSetupCode_def and_then_Inr Let_def setupAudit_def split: if_splits)
next
  case (save_candidate now access config)
  then show ?thesis by (auto simp: SaveLoginCandidate_def and_then_Inr Let_def split: if_splits option.splits)
qed (auto simp: BindManagedMasterKey_def IssueSetupCode_def setupAudit_def and_then_Inr Let_def begin_managed_effect split: if_splits)

lemma steps_bootstrap: "login_steps env db db' \<Longrightarrow> initialized db \<Longrightarrow> lg_bootstrap db' = lg_bootstrap db"
proof (induction rule: rtranclp_induct)
  case (step y z)
  then have "initialized y" by (simp add: initialized_def)
  then show ?case using step step_bootstrap by metis
qed simp

text \<open>A membership that makes an administrator of the instance is granted by one.\<close>

lemma member_admin:
  assumes "ChangeMembership uuid_String sha meta newID now token subjectID scope role add db = Inr db'" and "instance_admin db'"
  shows "instance_admin db"
proof -
  obtain session where a: "authorize session scope MembersManage db = None"
    using assms(1) by (auto simp: ChangeMembership_def split: if_splits sum.splits option.splits)
  obtain resource m where m: "scopeResource scope db = Inr resource" "m \<in> set (db_memberships db)" "mb_role m = Admin" "mb_scope m \<in> set (rs_Path resource)"
    by (rule authorize_manage [OF a])
  have "instance_admin db" if "sc_Kind scope = Instance"
  proof -
    have "sc_Kind (mb_scope m) = Instance"
      using m(1,4) that by (auto simp: scopeResource_def scope_owner_def Let_def split: option.splits if_splits)
    then show ?thesis using m(2,3) by (auto simp: instance_admin_def list_ex_iff)
  qed
  moreover have "sc_Kind scope = Instance \<or> instance_admin db"
    using assms by (auto simp: ChangeMembership_def Let_def instance_admin_def list_ex_iff split: if_splits sum.splits option.splits)
  ultimately show ?thesis by blast
qed

text \<open>The transactions other than the end of a login make no first administrator and consume no bootstrap.\<close>

lemma step_uninitialized:
  assumes "login_step env db db'" and "\<not> initialized db" and "\<not> instance_admin (lg_identity db)"
  obtains "\<not> initialized db'" "\<not> instance_admin (lg_identity db')"
  | ids now ticket user currentToken setupToken token session b where
    "finishOAuth env ids now ticket user currentToken setupToken db = Inr (db', token, session)" "ExternalUser_Valid user"
    "lg_bootstrap db' = Some b" "bt_consumed b = Some now" "bt_user b = Some (se_UserID session)"
    "xu_Provider user = bt_provider b" "xu_Instance user = bt_instance b" "xu_Subject user = bt_subject b"
  using assms(1)
proof (cases rule: login_step.cases)
  case (finish ids now ticket user currentToken setupToken token session)
  then show ?thesis using that(2) [OF finish(1)] finish_bootstrap(2) [OF finish assms(2)] by blast
next
  case (configure subject)
  then show ?thesis using assms(2,3) by (intro that(1)) (auto simp: ConfigureGitHubBootstrap_def initialized_def split: if_splits option.splits)
next
  case (start_flow now state nonce linkToken)
  then show ?thesis using assms(2,3) by (intro that(1)) (auto simp: BeginOAuth_def and_then_Inr initialized_def dest: insert_flow_effect)
next
  case (start_managed now state nonce linkToken candidate access config)
  then show ?thesis using assms(2,3) by (intro that(1)) (auto simp: begin_managed_effect initialized_def)
next
  case (consume random now state nonce ticket)
  then show ?thesis using assms(2,3)
    by (intro that(1)) (auto simp: ConsumeOAuth_def and_then_Inr Let_def initialized_def split: option.splits if_splits)
next
  case (bind_key key)
  then show ?thesis using assms(2,3) by (intro that(1)) (auto simp: BindManagedMasterKey_def Let_def initialized_def split: if_splits)
next
  case (issue_code now code)
  then show ?thesis using assms(2,3)
    by (intro that(1)) (auto simp: IssueSetupCode_def setupAudit_def and_then_Inr initialized_def instance_admin_def split: if_splits)
next
  case (exchange_code now code token)
  then show ?thesis using assms(2,3)
    by (intro that(1)) (auto simp: ExchangeSetupCode_def setupAudit_def and_then_Inr Let_def initialized_def instance_admin_def split: if_splits)
next
  case (save_candidate now access config)
  then show ?thesis using assms(2,3)
    by (intro that(1)) (auto simp: SaveLoginCandidate_def and_then_Inr Let_def initialized_def instance_admin_def split: if_splits option.splits)
next
  case (revoke uuid_String now token ident)
  have "db_memberships ident = db_memberships (lg_identity db)" by (rule RevokeSession_effect [OF revoke(2)])
  then show ?thesis using assms(2,3) revoke(1) by (intro that(1)) (auto simp: initialized_def instance_admin_def)
next
  case (member uuid_String meta newID now token subjectID scope role add ident)
  then show ?thesis using assms(2,3) member_admin [OF member(2)] by (intro that(1)) (auto simp: initialized_def)
qed

text \<open>
  C28 (safety). The first administrator is the bootstrap subject. Whatever sequence of logins, setup steps, candidate
  configurations, revocations and membership changes leads from an instance without administrator to one with an
  administrator, it contains a login of exactly the identity that the bootstrap names, and that login made its account the
  administrator; the bootstrap record names the account ever after.
\<close>

theorem first_admin_is_bootstrap:
  assumes "login_steps env db db'" and "\<not> initialized db" and "\<not> instance_admin (lg_identity db)" and "instance_admin (lg_identity db')"
  shows "\<exists>b db1 db2 ids now ticket user currentToken setupToken token session.
    login_steps env db db1 \<and> \<not> instance_admin (lg_identity db1) \<and>
    finishOAuth env ids now ticket user currentToken setupToken db1 = Inr (db2, token, session) \<and> login_steps env db2 db' \<and>
    ExternalUser_Valid user \<and> lg_bootstrap db' = Some b \<and> bt_user b = Some (se_UserID session) \<and>
    xu_Provider user = bt_provider b \<and> xu_Instance user = bt_instance b \<and> xu_Subject user = bt_subject b"
    (is "?made db'")
proof -
  have "(\<not> initialized db' \<and> \<not> instance_admin (lg_identity db')) \<or> (initialized db' \<and> ?made db')"
    using assms(1)
  proof (induction rule: rtranclp_induct)
    case base
    then show ?case using assms(2,3) by simp
  next
    case (step y z)
    show ?case
    proof (cases "initialized y")
      case True
      then have "lg_bootstrap z = lg_bootstrap y" using step_bootstrap [OF step(2)] by blast
      then show ?thesis using step True by (auto simp: initialized_def intro: rtranclp.rtrancl_into_rtrancl) (use rtranclp.rtrancl_into_rtrancl in metis)
    next
      case False
      then have n: "\<not> instance_admin (lg_identity y)" using step.IH by blast
      show ?thesis
      proof (rule step_uninitialized [OF step(2) False n], goal_cases)
        case 1
        then show ?case by blast
      next
        case (2 ids now ticket user currentToken setupToken token session b)
        have "initialized z" using 2 by (simp add: initialized_def)
        moreover have "?made z" using step(1) n 2 by blast
        ultimately show ?case by blast
      qed
    qed
  qed
  then show ?thesis using assms(4) by blast
qed

text \<open>
  C30 (safety). Setup credentials die with the first administrator: once the bootstrap is consumed, after any further
  transactions no setup code can be issued or redeemed and no setup token gives access to the login settings.
\<close>

theorem setup_closed_for_ever:
  assumes "initialized db" and "login_steps env db db'"
  shows "(\<exists>e. IssueSetupCode env now code db' = Inl e) \<and> (\<exists>e. ExchangeSetupCode env now code token db' = Inl e) \<and>
    (\<exists>e. settingsAccess env now \<lparr>pa_SessionToken = [], pa_SetupToken = token\<rparr> recent db' = Inl e)"
proof -
  have "lg_bootstrap db' = lg_bootstrap db" using steps_bootstrap [OF assms(2,1)] .
  then obtain b where "lg_bootstrap db' = Some b" "bt_consumed b \<noteq> None" using assms(1) by (auto simp: initialized_def)
  then show ?thesis
    by (cases "TokenDigest (le_sha env) code"; cases "TokenDigest (le_sha env) token")
      (auto simp: IssueSetupCode_def ExchangeSetupCode_def settingsAccess_def login_digest_def Let_def)
qed

section \<open>Login configurations\<close>

definition config_ok :: "login_db \<Rightarrow> bool" where
  "config_ok db \<longleftrightarrow> distinct (map lc_id (lg_configs db)) \<and> length (filter (\<lambda>c. lc_status c = ''active'') (lg_configs db)) \<le> 1"

lemma filter_one: "distinct (map g xs) \<Longrightarrow> (\<And>x. x \<in> set xs \<Longrightarrow> p x \<Longrightarrow> g x = k) \<Longrightarrow> length (filter p xs) \<le> 1"
proof (induction xs)
  case (Cons x xs)
  then show ?case
  proof (cases "p x")
    case True
    then have "filter p xs = []" using Cons.prems by (auto simp: filter_empty_conv)
    then show ?thesis by simp
  qed simp
qed simp

lemma active_retired:
  "filter (\<lambda>c. lc_status c = ''active'') (update_where p (\<lambda>c. c\<lparr>lc_status := ''retired''\<rparr>) cs) =
   filter (\<lambda>c. lc_status c = ''active'' \<and> \<not> p c) cs"
  by (induction cs) (auto simp: update_where_def)

lemma find_append_other: "\<not> p y \<Longrightarrow> List.find p (xs @ [y]) = List.find p xs"
  by (induction xs) auto

lemma find_active_retired:
  "(\<And>c. p c \<Longrightarrow> lc_status c \<noteq> ''active'') \<Longrightarrow>
   List.find (\<lambda>c. lc_status c = ''active'') (update_where p (\<lambda>c. c\<lparr>lc_status := ''retired''\<rparr>) cs) =
   List.find (\<lambda>c. lc_status c = ''active'') cs"
  by (rule find_update_other) auto

lemma retired_active: "(\<And>c. p c \<Longrightarrow> lc_status c \<noteq> ''active'') \<Longrightarrow> activeID (retire_where p db) = activeID db"
  by (simp add: activeID_def active_config_def find_active_retired)

lemma filter_and_le: "length (filter (\<lambda>x. p x \<and> q x) xs) \<le> length (filter p xs)"
  by (induction xs) auto

lemma retired_ok: "config_ok db \<Longrightarrow> config_ok (retire_where p db)"
  by (auto simp: config_ok_def active_retired intro: order_trans [OF filter_and_le])

text \<open>The configuration that a login activates, as the checks found it.\<close>

lemma prepare_activation:
  assumes "prepareManagedCompletion env now flow user currentToken setupToken db = Inr (db1, Some config, owner)"
  obtains actor access c where "settingsAccess env now access True db = Inr actor" "config_of (cf_ID config) db = Some c"
    "lc_status c = ''candidate''" "now < lc_expires c" "lc_expected c = activeID db" "owned_by actor c"
    "xu_Provider user = lc_provider c" "xu_Instance user = lc_instance c"
proof -
  obtain configID where fl: "fw_config flow = Some configID"
    using assms by (auto simp: prepareManagedCompletion_def split: option.splits)
  obtain c where c: "config_of configID db = Some c"
    using assms fl by (auto simp: prepareManagedCompletion_def configRow_def and_then_Inr split: option.splits)
  have "lc_id c = configID" using c by (auto simp: config_of_def dest: find_SomeD)
  then have cf: "configRow env (config_of configID db) = Inr config" "config_of (cf_ID config) db = Some c"
      "cf_Status config = lc_status c" "cf_ExpiresAt config = lc_expires c" "cf_ExpectedActive config = lc_expected c"
      "cf_Provider config = lc_provider c" "cf_Instance config = lc_instance c"
    using assms fl c by (auto simp: prepareManagedCompletion_def configRow_def and_then_Inr split: option.splits if_splits)
  let ?access = "if fw_verify flow \<noteq> None then \<lparr>pa_SessionToken = currentToken, pa_SetupToken = []\<rparr>
                   else \<lparr>pa_SessionToken = [], pa_SetupToken = setupToken\<rparr>"
  have "\<exists>actor. settingsAccess env now ?access True db = Inr actor \<and> checkCandidate now config actor db = None \<and>
      xu_Provider user = cf_Provider config \<and> xu_Instance user = cf_Instance config"
    using assms fl cf(1)
    by (auto simp: prepareManagedCompletion_def and_then_Inr split: option.splits if_splits)
  then obtain actor where "settingsAccess env now ?access True db = Inr actor" "checkCandidate now config actor db = None"
      "xu_Provider user = cf_Provider config" "xu_Instance user = cf_Instance config" by blast
  then show thesis
    using that [of ?access actor c] cf(2-)
    by (auto simp: checkCandidate_def flowLive_def split: if_splits option.splits bool.splits)
qed

lemma recentSession_flows [simp]: "recentSession now i (db\<lparr>lg_flows := fs\<rparr>) = recentSession now i db"
  by (simp add: recentSession_def)

lemma flows_irrelevant [simp]:
  "settingsAccess env now access recent (db\<lparr>lg_flows := fs\<rparr>) = settingsAccess env now access recent db"
  "config_of i (db\<lparr>lg_flows := fs\<rparr>) = config_of i db" "activeID (db\<lparr>lg_flows := fs\<rparr>) = activeID db"
  by (simp_all add: settingsAccess_def admin_session_def login_session_def config_of_def activeID_def active_config_def cong: option.case_cong if_cong)

definition switch_configs :: "uuid \<Rightarrow> login_config list \<Rightarrow> login_config list" where
  "switch_configs ident cs =
     update_where (\<lambda>c. lc_id c = ident) (\<lambda>c. c\<lparr>lc_status := ''active''\<rparr>)
       (update_where (\<lambda>c. lc_status c = ''active'') (\<lambda>c. c\<lparr>lc_status := ''retired''\<rparr>) cs)"

lemma finish_configs:
  assumes "finishOAuth env ids now ticket user currentToken setupToken db = Inr (db', token, session)"
  obtains "lg_configs db' = lg_configs db"
  | actor access c where "lg_configs db' = switch_configs (lc_id c) (lg_configs db)" "c \<in> set (lg_configs db)"
    "settingsAccess env now access True db = Inr actor" "lc_status c = ''candidate''" "now < lc_expires c" "lc_expected c = activeID db"
    "owned_by actor c" "xu_Provider user = lc_provider c" "xu_Instance user = lc_instance c"
proof -
  obtain ticketHash flow db1 activation owner0 owner1 b db2 owner identity where
    v: "ExternalUser_Valid user" and u: "TokenDigest (le_sha env) ticket = Some ticketHash"
    "List.find (\<lambda>f. fw_completion f = Some ticketHash \<and> fw_expires f > now) (lg_flows db) = Some flow" and
    p: "prepareManagedCompletion env now flow user currentToken setupToken
       (db\<lparr>lg_flows := filter (\<lambda>f. \<not> (fw_completion f = Some ticketHash \<and> fw_expires f > now)) (lg_flows db)\<rparr>) = Inr (db1, activation, owner0)"
    and l: "linked_owner env now flow currentToken owner0 db1 = Inr owner1"
    "bound_user user db1 = None \<or> owner1 = uuid_Nil \<or> bound_user user db1 = Some owner1" "lg_bootstrap db1 = Some b"
    "bt_consumed b = None \<longrightarrow> xu_Provider user = bt_provider b \<and> xu_Instance user = bt_instance b \<and> xu_Subject user = bt_subject b" and
    a: "admit_user env ids now user (case bound_user user db1 of None \<Rightarrow> owner1 | Some x \<Rightarrow> x) (bound_user user db1 = None) b db1 = Inr (db2, owner)"
    and i: "issueSession (le_String env) (le_sha env) (li_random ids) (li_session ids) now owner DefaultTTL (lg_identity db2) = Inr (identity, token, session)"
    and e: "db' = revoke_current env now currentToken (case activation of None \<Rightarrow> db2\<lparr>lg_identity := identity\<rparr>
       | Some config \<Rightarrow> activateLoginConfig env now config owner (db2\<lparr>lg_identity := identity\<rparr>))"
    by (rule finishOAuth_cases [OF assms])
  have c: "lg_configs db2 = lg_configs db" using admit_user_keeps(1) [OF a] prepare_effect(3) [OF p] by simp
  show thesis
  proof (cases activation)
    case None
    then show thesis using that(1) c e by simp
  next
    case (Some config)
    obtain actor access x where x: "settingsAccess env now access True db = Inr actor" "config_of (cf_ID config) db = Some x"
      "lc_status x = ''candidate''" "now < lc_expires x" "lc_expected x = activeID db" "owned_by actor x"
      "xu_Provider user = lc_provider x" "xu_Instance user = lc_instance x"
      by (rule prepare_activation [OF p [unfolded Some], simplified])
    have m: "x \<in> set (lg_configs db)" "lc_id x = cf_ID config" using x(2) by (auto simp: config_of_def dest: find_SomeD)
    have "lg_configs db' = switch_configs (lc_id x) (lg_configs db)"
      using Some e c m(2) by (simp add: activateLoginConfig_def Let_def switch_configs_def)
    then show thesis using that(2) [of x access actor] x m by blast
  qed
qed

lemma switch_active: "x \<in> set (switch_configs i cs) \<Longrightarrow> lc_status x = ''active'' \<Longrightarrow> lc_id x = i"
  by (auto simp: switch_configs_def set_update_where)

lemma switch_configs_ok:
  assumes "distinct (map lc_id cs)" and "c \<in> set cs"
  shows "distinct (map lc_id (switch_configs (lc_id c) cs))" "length (filter (\<lambda>c. lc_status c = ''active'') (switch_configs (lc_id c) cs)) \<le> 1"
    "map_option lc_id (List.find (\<lambda>c. lc_status c = ''active'') (switch_configs (lc_id c) cs)) = Some (lc_id c)"
proof -
  show d: "distinct (map lc_id (switch_configs (lc_id c) cs))" using assms(1) by (simp add: switch_configs_def)
  show "length (filter (\<lambda>c. lc_status c = ''active'') (switch_configs (lc_id c) cs)) \<le> 1" by (rule filter_one [OF d switch_active])
  let ?x = "(if lc_status c = ''active'' then c\<lparr>lc_status := ''retired''\<rparr> else c)\<lparr>lc_status := ''active''\<rparr>"
  have x: "?x \<in> set (switch_configs (lc_id c) cs)" "lc_status ?x = ''active''"
    using assms(2) by (auto simp: switch_configs_def update_where_def image_iff)
  then obtain y where y: "List.find (\<lambda>c. lc_status c = ''active'') (switch_configs (lc_id c) cs) = Some y"
    by (cases "List.find (\<lambda>c. lc_status c = ''active'') (switch_configs (lc_id c) cs)") (auto simp: find_None_iff)
  show "map_option lc_id (List.find (\<lambda>c. lc_status c = ''active'') (switch_configs (lc_id c) cs)) = Some (lc_id c)"
    using y switch_active [of y "lc_id c" cs] find_SomeD [OF y] by simp
qed

text \<open>The other transactions leave the active configuration alone.\<close>

lemma step_configs:
  assumes "login_step env db db'" and "config_ok db"
  obtains "config_ok db'" "activeID db' = activeID db"
  | ids now ticket user currentToken setupToken token session actor access c where "config_ok db'" "activeID db' = Some (lc_id c)"
    "finishOAuth env ids now ticket user currentToken setupToken db = Inr (db', token, session)" "c \<in> set (lg_configs db)"
    "settingsAccess env now access True db = Inr actor" "lc_status c = ''candidate''" "now < lc_expires c" "lc_expected c = activeID db"
    "owned_by actor c" "xu_Provider user = lc_provider c" "xu_Instance user = lc_instance c"
proof -
  note keep = that(1) and swap = that(2)
  have same: thesis if "lg_configs db' = lg_configs db"
    using that assms(2) by (intro keep) (simp_all add: config_ok_def activeID_def active_config_def)
  show thesis using assms(1)
  proof (cases rule: login_step.cases)
    case (finish ids now ticket user currentToken setupToken token session)
    show thesis
    proof (rule finish_configs [OF finish(1)])
      assume "lg_configs db' = lg_configs db"
      then show thesis by (rule same)
    next
      fix actor access c
      assume c: "lg_configs db' = switch_configs (lc_id c) (lg_configs db)" "c \<in> set (lg_configs db)"
        "settingsAccess env now access True db = Inr actor" "lc_status c = ''candidate''" "now < lc_expires c" "lc_expected c = activeID db"
        "owned_by actor c" "xu_Provider user = lc_provider c" "xu_Instance user = lc_instance c"
      note ok = switch_configs_ok [OF _ c(2)]
      have "config_ok db'" "activeID db' = Some (lc_id c)"
        using assms(2) ok by (simp_all add: config_ok_def c(1) activeID_def active_config_def)
      then show thesis using swap finish(1) c by blast
    qed
  next
    case (issue_code now code)
    let ?db = "retire_where (\<lambda>c. lc_setup c \<noteq> None \<and> lc_status c = ''candidate'') db"
    have c: "lg_configs db' = lg_configs ?db"
      using issue_code by (auto simp: IssueSetupCode_def setupAudit_def and_then_Inr split: if_splits)
    have "activeID ?db = activeID db" by (rule retired_active) simp
    then have "activeID db' = activeID db" by (simp add: activeID_def active_config_def c)
    moreover have "config_ok db'" using retired_ok [OF assms(2)] by (simp add: config_ok_def c)
    ultimately show thesis by (intro keep)
  next
    case (save_candidate now access config)
    then obtain actor db1 where d: "db1 = retire_where (\<lambda>c. lc_status c = ''candidate'' \<and> (lc_expires c \<le> now \<or> owned_by actor c)) db"
      and c: "lg_configs db' = lg_configs db1 @ [new_candidate now actor (with_defaults config)]"
      "\<not> list_ex (\<lambda>c. lc_id c = cf_ID (with_defaults config)) (lg_configs db1)"
      by (auto simp: SaveLoginCandidate_def and_then_Inr Let_def split: if_splits option.splits)
    have "activeID db1 = activeID db" unfolding d by (rule retired_active) auto
    moreover have "activeID db' = activeID db1"
      by (simp add: activeID_def active_config_def c(1) new_candidate_def find_append_other)
    moreover have "config_ok db1" unfolding d by (rule retired_ok [OF assms(2)])
    then have "config_ok db'" using c(2) by (auto simp: config_ok_def c(1) new_candidate_def list_ex_iff)
    ultimately show thesis by (intro keep) simp_all
  next
    case (start_flow now state nonce linkToken)
    then show thesis by (intro same) (auto simp: BeginOAuth_def and_then_Inr dest: insert_flow_effect)
  next
    case (consume random now state nonce ticket)
    then show thesis by (intro same) (auto simp: ConsumeOAuth_def and_then_Inr Let_def split: option.splits if_splits)
  next
    case (exchange_code now code token)
    then show thesis by (intro same) (auto simp: ExchangeSetupCode_def and_then_Inr Let_def setupAudit_def split: if_splits)
  next
    case (configure subject)
    then show thesis by (intro same) (auto simp: ConfigureGitHubBootstrap_def split: if_splits option.splits)
  next
    case (bind_key key)
    then show thesis by (intro same) (auto simp: BindManagedMasterKey_def Let_def split: if_splits)
  next
    case (start_managed now state nonce linkToken candidate access config)
    then show thesis by (intro same) (rule begin_managed_effect)
  qed (simp_all add: same)
qed

text \<open>
  C31 (safety). At every moment at most one login configuration is active, and it changes only by a login with the new
  configuration: the provider of the login is the one of the configuration, which was a live candidate based on the
  configuration that was active before, and the login was completed by the one who proposed it, an administrator with a
  recent session or the holder of the setup session.
\<close>

theorem active_login_verified:
  assumes "login_steps env db0 db" and "config_ok db0" and "login_step env db db'"
  shows "config_ok db' \<and>
    (activeID db' \<noteq> activeID db \<longrightarrow> (\<exists>ids now ticket user currentToken setupToken token session access actor c.
       finishOAuth env ids now ticket user currentToken setupToken db = Inr (db', token, session) \<and>
       activeID db' = Some (lc_id c) \<and> c \<in> set (lg_configs db) \<and> lc_status c = ''candidate'' \<and> now < lc_expires c \<and>
       lc_expected c = activeID db \<and> settingsAccess env now access True db = Inr actor \<and> owned_by actor c \<and>
       xu_Provider user = lc_provider c \<and> xu_Instance user = lc_instance c))"
proof -
  have "config_ok db" using assms(1)
  proof (induction rule: rtranclp_induct)
    case (step y z)
    then show ?case by (auto elim: step_configs)
  qed (rule assms(2))
  then show ?thesis by (rule step_configs [OF assms(3)]) blast+
qed

text \<open>
  The answer for a candidate of somebody else is a conflict: one of the two comparisons of \<open>checkCandidate\<close> is with
  \<open>NULL\<close>, so their disjunction is never false, and the branch that forbids the access is never taken.
\<close>

lemma foreign_candidate_conflict:
  assumes "settingsAccess env now access recent db = Inr actor"
  shows "checkCandidate now config actor db \<noteq> Some (LoginAccess ErrForbidden)"
proof -
  have "sa_session actor = None \<or> sa_setup actor = None"
    using assms by (auto simp: settingsAccess_def and_then_Inr Let_def split: if_splits)
  then have "owns actor c \<noteq> Some False" for c
    by (auto simp: owns_def sql_or_def sql_eq_def actorOwner_def split: option.splits)
  then show ?thesis by (auto simp: checkCandidate_def split: option.splits bool.splits)
qed

end
