(* ===== verification/Login_Traces.thy ===== *)
theory Login_Traces
  imports Login_Guarantees
begin

text \<open>
  The setup of a new instance from the setup code to the first administrator, and the properties of the login store at
  work on it.
\<close>

definition first_char :: "string \<Rightarrow> bytes" where
  "first_char b = replicate 32 (case b of [] \<Rightarrow> CHR 0x00 | c # _ \<Rightarrow> c)"

definition seven :: login_env where
  "seven = \<lparr>le_String = (\<lambda>_. ''u''), le_sha = first_char, le_envelope = (\<lambda>b. b \<noteq> [])\<rparr>"

definition tok :: "char \<Rightarrow> string" where
  "tok c = NewToken (replicate 32 c)"

definition login_fresh :: login_db where
  "login_fresh =
     \<lparr>lg_identity = \<lparr>db_instance = Some 1, db_organizations = [], db_repositories = [], db_environments = [], db_users = [],
        db_sessions = [], db_memberships = [], db_audit = []\<rparr>,
      lg_identities = [], lg_configs = [], lg_flows = [], lg_bootstrap = None,
      lg_setup = \<lparr>au_code = None, au_code_expires = None, au_session = None, au_session_expires = None, au_finished = None, au_master = None\<rparr>\<rparr>"

definition setup_access :: provisioning_Access where
  "setup_access = \<lparr>pa_SessionToken = [], pa_SetupToken = tok (CHR ''t'')\<rparr>"

definition setup_config :: provisioning_Config where
  "setup_config = \<lparr>cf_ID = 50, cf_Provider = ''gitee'', cf_Instance = GiteeInstance, cf_ClientID = ''client'', cf_BootstrapSubject = ''7'',
     cf_Status = [], cf_CreatedAt = 0, cf_ExpiresAt = 0, cf_Encrypted = ''e'', cf_ExpectedActive = None\<rparr>"

definition subject_seven :: ExternalUser where
  "subject_seven = \<lparr>xu_Provider = ''gitee'', xu_Instance = GiteeInstance, xu_Subject = ''7'', xu_Login = ''ann'', xu_Name = []\<rparr>"

definition setup_ids :: login_ids where
  "setup_ids = \<lparr>li_user = 10, li_binding = 11, li_member = 12, li_session = 13, li_random = replicate 32 (CHR ''C'')\<rparr>"

definition result_or :: "'a \<Rightarrow> 'e + 'a \<Rightarrow> 'a" where
  "result_or d r = (case r of Inl _ \<Rightarrow> d | Inr x \<Rightarrow> x)"

lemma tok_heads:
  "first_char (tok (CHR ''c'')) = replicate 32 (CHR ''Y'')" "first_char (tok (CHR ''t'')) = replicate 32 (CHR ''d'')"
  "first_char (tok (CHR ''s'')) = replicate 32 (CHR ''c'')" "first_char (tok (CHR ''n'')) = replicate 32 (CHR ''b'')"
  "first_char (tok (CHR ''k'')) = replicate 32 (CHR ''a'')" "first_char (tok (CHR ''C'')) = replicate 32 (CHR ''Q'')"
  by code_simp+

lemma tok_digest: "TokenDigest first_char (tok c) = Some (first_char (tok c))"
  by (simp add: tok_def NewToken_accepted)

lemma seven_digest: "login_digest seven e (tok c) = Inr (first_char (tok c))"
  by (simp add: login_digest_def seven_def tok_digest)

lemma tok_nonempty: "tok c \<noteq> []"
  using NewToken_accepted(1) [of "replicate 32 c"] by (auto simp: tok_def)

definition code_row :: auth_setup where
  "code_row = \<lparr>au_code = Some (replicate 32 (CHR ''Y'')), au_code_expires = Some CodeTTL, au_session = None, au_session_expires = None,
     au_finished = None, au_master = None\<rparr>"

lemmas setup_eval = seven_def setup_access_def setup_config_def subject_seven_def setup_ids_def login_digest_def tok_digest tok_heads
  tok_nonempty duration_defs CodeTTL_def SetupTTL_def FlowTTL_def

definition setup_coded :: login_db where
  "setup_coded = setupAudit ''setup.code_issued'' (login_fresh\<lparr>lg_setup := code_row\<rparr>)"

definition setup_open :: login_db where
  "setup_open = setupAudit ''setup.code_redeemed'' (setup_coded\<lparr>lg_setup := code_row\<lparr>au_code := None, au_code_expires := None,
     au_session := Some (replicate 32 (CHR ''d'')), au_session_expires := Some (Second + SetupTTL)\<rparr>\<rparr>)"

definition setup_row :: login_config where
  "setup_row = new_candidate (2 * Second) \<lparr>sa_session = None, sa_setup = Some (replicate 32 (CHR ''d''))\<rparr> setup_config"

definition setup_saved :: login_db where
  "setup_saved = login_audit \<lparr>ae_actor_user_id = None, ae_action = ''login_config.candidate_saved'', ae_resource_type = ''login_config'',
     ae_resource_id = ''u'', ae_metadata = []\<rparr> (setup_open\<lparr>lg_configs := [setup_row]\<rparr>)"

definition setup_flow :: oauth_flow where
  "setup_flow = \<lparr>fw_state = replicate 32 (CHR ''c''), fw_browser = replicate 32 (CHR ''b''), fw_link = None, fw_completion = None,
     fw_expires = 3 * Second + FlowTTL, fw_config = Some 50, fw_verify = None, fw_setup = Some (replicate 32 (CHR ''d''))\<rparr>"

definition setup_started :: login_db where
  "setup_started = setup_saved\<lparr>lg_flows := [setup_flow]\<rparr>"

definition setup_consumed :: login_db where
  "setup_consumed = setup_saved\<lparr>lg_flows := [setup_flow\<lparr>fw_completion := Some (replicate 32 (CHR ''a''))\<rparr>]\<rparr>"

lemma setup_step1: "IssueSetupCode seven 0 (tok (CHR ''c'')) login_fresh = Inr setup_coded"
  by (simp add: setup_eval IssueSetupCode_def setup_coded_def login_fresh_def code_row_def instance_admin_def retire_where_def update_where_def)

lemma setup_step2: "ExchangeSetupCode seven Second (tok (CHR ''c'')) (tok (CHR ''t'')) setup_coded = Inr setup_open"
  by (simp add: setup_eval ExchangeSetupCode_def setup_open_def setup_coded_def setupAudit_def login_fresh_def code_row_def unexpired_def)

text \<open>The tables that the later steps read.\<close>

lemma setup_tables [simp]:
  "lg_setup setup_open = code_row\<lparr>au_code := None, au_code_expires := None, au_session := Some (replicate 32 (CHR ''d'')),
     au_session_expires := Some (Second + SetupTTL)\<rparr>" "lg_setup setup_saved = lg_setup setup_open"
  "lg_bootstrap setup_open = None" "lg_bootstrap setup_saved = None" "lg_configs setup_open = []" "lg_configs setup_saved = [setup_row]"
  "lg_flows setup_saved = []" "lg_identities setup_saved = []" "lg_flows setup_open = []" "lg_identities setup_open = []"
  "db_users (lg_identity setup_saved) = []" "db_sessions (lg_identity setup_saved) = []" "db_memberships (lg_identity setup_saved) = []"
  "db_instance (lg_identity setup_saved) = Some 1"
  by (simp_all add: setup_saved_def setup_open_def setup_coded_def setupAudit_def login_fresh_def)

abbreviation setup_actor :: settingsActor where
  "setup_actor \<equiv> \<lparr>sa_session = None, sa_setup = Some (replicate 32 (CHR ''d''))\<rparr>"

lemma setup_admits:
  assumes "lg_setup db = lg_setup setup_open" and "lg_bootstrap db = None" and "now < 1801 * Second"
  shows "settingsAccess seven now setup_access recent db = Inr setup_actor"
  using assms by (simp add: setup_eval settingsAccess_def code_row_def unexpired_def)

lemma setup_step3: "SaveLoginCandidate seven (2 * Second) setup_access setup_config setup_open = Inr setup_saved"
proof -
  have a: "settingsAccess seven (2 * Second) setup_access True setup_open = Inr setup_actor" by (rule setup_admits) (simp_all add: duration_defs)
  have v: "ValidProviderInstance ''gitee'' GiteeInstance" "ValidGitHubSubject ''7''" by code_simp+
  have d: "with_defaults setup_config = setup_config" by (simp add: with_defaults_def setup_config_def)
  show ?thesis
    unfolding SaveLoginCandidate_def d Let_def a and_then_simps
    by (simp add: v setup_config_def activeID_def active_config_def bootstrap_kept_def actorOwner_def retire_where_def update_where_def
      setup_saved_def setup_row_def seven_def)
qed

lemma setup_row_sel [simp]: "lc_id setup_row = 50" "lc_provider setup_row = ''gitee''" "lc_instance setup_row = GiteeInstance" "lc_secret setup_row = ''e''"
  "lc_subject setup_row = ''7''" "lc_status setup_row = ''candidate''" "lc_expires setup_row = 2 * Second + 30 * Minute" "lc_expected setup_row = None"
  "owns setup_actor setup_row = Some True"
  by (simp_all add: setup_row_def new_candidate_def setup_config_def owns_def sql_or_def sql_eq_def actorOwner_def)

definition setup_loaded :: provisioning_Config where
  "setup_loaded = \<lparr>cf_ID = 50, cf_Provider = ''gitee'', cf_Instance = GiteeInstance, cf_ClientID = ''client'', cf_BootstrapSubject = ''7'',
     cf_Status = ''candidate'', cf_CreatedAt = 2 * Second, cf_ExpiresAt = 2 * Second + 30 * Minute, cf_Encrypted = ''e'', cf_ExpectedActive = None\<rparr>"

lemma setup_config_row:
  assumes "lg_configs db = [setup_row]"
  shows "configRow seven (config_of 50 db) = Inr setup_loaded" "now < 1000 * Second \<Longrightarrow> checkCandidate now setup_loaded setup_actor db = None"
  using assms
  by (simp_all add: configRow_def config_of_def seven_def setup_loaded_def checkCandidate_def flowLive_def activeID_def active_config_def duration_defs)
    (simp add: setup_row_def new_candidate_def setup_config_def duration_defs)

lemma setup_step4: "BeginManagedOAuth seven (3 * Second) (tok (CHR ''s'')) (tok (CHR ''n'')) [] 50 setup_access setup_saved = Inr (setup_started, setup_loaded)"
proof -
  have a: "settingsAccess seven (3 * Second) setup_access True setup_saved = Inr setup_actor" by (rule setup_admits) (simp_all add: duration_defs)
  have c: "checkCandidate (3 * Second) setup_loaded setup_actor setup_saved = None" by (rule setup_config_row(2)) (simp_all add: duration_defs)
  show ?thesis
    by (simp add: BeginManagedOAuth_def a c setup_config_row(1) insert_flow_def seven_digest tok_heads setup_loaded_def [THEN arg_cong [where f = cf_ID]])
      (simp add: setup_started_def setup_flow_def setup_loaded_def)
qed

lemma setup_step5: "ConsumeOAuth seven (replicate 32 (CHR ''k'')) (4 * Second) (tok (CHR ''s'')) (tok (CHR ''n'')) setup_started = Inr (setup_consumed, tok (CHR ''k''))"
  by (simp add: ConsumeOAuth_def Let_def login_digest_def seven_def tok_digest tok_heads tok_def [symmetric] setup_started_def setup_consumed_def
    consumable_def setup_flow_def flowLive_def update_where_def duration_defs FlowTTL_def)

definition setup_bootstrap :: oauth_bootstrap where
  "setup_bootstrap = \<lparr>bt_provider = ''gitee'', bt_instance = GiteeInstance, bt_subject = ''7'', bt_consumed = None, bt_user = None\<rparr>"

definition setup_prepared :: login_db where
  "setup_prepared = setup_saved\<lparr>lg_bootstrap := Some setup_bootstrap\<rparr>"

definition setup_ticket :: oauth_flow where
  "setup_ticket = setup_flow\<lparr>fw_completion := Some (replicate 32 (CHR ''a''))\<rparr>"

lemma setup_prepare:
  "prepareManagedCompletion seven (5 * Second) setup_ticket subject_seven [] (tok (CHR ''t'')) setup_saved = Inr (setup_prepared, Some setup_loaded, uuid_Nil)"
proof -
  have a: "settingsAccess seven (5 * Second) \<lparr>pa_SessionToken = [], pa_SetupToken = tok (CHR ''t'')\<rparr> True setup_saved = Inr setup_actor"
    unfolding setup_access_def [symmetric] by (rule setup_admits) (simp_all add: duration_defs)
  have c: "checkCandidate (5 * Second) setup_loaded setup_actor setup_saved = None" by (rule setup_config_row(2)) (simp_all add: duration_defs)
  have r: "configRow seven (config_of 50 setup_saved) = Inr setup_loaded" by (rule setup_config_row(1)) simp
  show ?thesis
    by (simp add: prepareManagedCompletion_def setup_ticket_def setup_flow_def r a c)
      (simp add: setup_loaded_def subject_seven_def setup_prepared_def setup_bootstrap_def)
qed

definition setup_admitted :: login_db where
  "setup_admitted = fst (result_or (login_fresh, 0) (admit_user seven setup_ids (5 * Second) subject_seven uuid_Nil True setup_bootstrap setup_prepared))"

lemma setup_admit:
  "admit_user seven setup_ids (5 * Second) subject_seven uuid_Nil True setup_bootstrap setup_prepared = Inr (setup_admitted, 10)"
  "db_users (lg_identity setup_admitted) = [\<lparr>us_id = 10, us_display_name = ''ann'', us_active = True\<rparr>]"
  "db_sessions (lg_identity setup_admitted) = []" "instance_admin (lg_identity setup_admitted)" "lg_configs setup_admitted = [setup_row]"
  by (simp_all add: setup_admitted_def result_or_def admit_user_def Let_def create_user_def bind_identity_def make_admin_def bound_user_def
    setup_prepared_def setup_ids_def subject_seven_def setup_bootstrap_def instance_admin_def)

definition setup_session :: Session where
  "setup_session = \<lparr>se_ID = 13, se_UserID = 10, se_DisplayName = ''ann'', se_ExpiresAt = 5 * Second + DefaultTTL\<rparr>"

definition setup_identity :: identity_db where
  "setup_identity = (lg_identity setup_admitted)\<lparr>
     db_sessions := [\<lparr>ss_id = 13, ss_user = 10, ss_token_hash = replicate 32 (CHR ''Q''), ss_created = 5 * Second,
                      ss_expires = 5 * Second + DefaultTTL, ss_revoked = None\<rparr>],
     db_audit := db_audit (lg_identity setup_admitted) @ [appendAudit (\<lambda>_. ''u'') 10 ''session.created'' ''session'' 13]\<rparr>"

definition setup_db :: login_db where
  "setup_db = revoke_current seven (5 * Second) []
     (activateLoginConfig seven (5 * Second) setup_loaded 10 (setup_admitted\<lparr>lg_identity := setup_identity\<rparr>))"

lemma setup_issue:
  "issueSession (le_String seven) (le_sha seven) (li_random setup_ids) (li_session setup_ids) (5 * Second) 10 DefaultTTL (lg_identity setup_admitted) =
     Inr (setup_identity, tok (CHR ''C''), setup_session)"
  by (simp add: issueSession_def setup_admit Let_def seven_def setup_ids_def tok_def [symmetric] tok_digest tok_heads setup_identity_def setup_session_def)

lemma setup_valid: "ExternalUser_Valid subject_seven"
  by code_simp

lemma setup_step6:
  "finishOAuth seven setup_ids (5 * Second) (tok (CHR ''k'')) subject_seven [] (tok (CHR ''t'')) setup_consumed = Inr (setup_db, tok (CHR ''C''), setup_session)"
proof -
  have f: "lg_flows setup_consumed = [setup_ticket]" "setup_consumed\<lparr>lg_flows := []\<rparr> = setup_saved"
    by (simp_all add: setup_consumed_def setup_ticket_def)
  have t: "fw_completion setup_ticket = Some (replicate 32 (CHR ''a''))" "5 * Second < fw_expires setup_ticket" "fw_link setup_ticket = None"
    by (simp_all add: setup_ticket_def setup_flow_def duration_defs FlowTTL_def)
  have b: "bound_user subject_seven setup_prepared = None" "lg_bootstrap setup_prepared = Some setup_bootstrap"
    by (simp_all add: bound_user_def setup_prepared_def)
  have m: "xu_Provider subject_seven = bt_provider setup_bootstrap" "xu_Instance subject_seven = bt_instance setup_bootstrap"
    "xu_Subject subject_seven = bt_subject setup_bootstrap" by (simp_all add: subject_seven_def setup_bootstrap_def)
  show ?thesis
    by (simp add: finishOAuth_def setup_valid seven_digest tok_heads f t setup_prepare linked_owner_def b m setup_admit(1) setup_issue flowLive_def
      setup_db_def)
qed

lemma setup_reached: "login_steps seven login_fresh setup_consumed"
  using login_step.issue_code [OF setup_step1] login_step.exchange_code [OF setup_step2] login_step.save_candidate [OF setup_step3]
    login_step.start_managed [OF setup_step4] login_step.consume [OF setup_step5]
  by (meson converse_rtranclp_into_rtranclp rtranclp.rtrancl_refl)

lemma setup_last: "login_step seven setup_consumed setup_db"
  by (rule login_step.finish [OF setup_step6]) (simp add: setup_ids_def)

lemma setup_start: "\<not> initialized login_fresh" "\<not> instance_admin (lg_identity login_fresh)" "config_ok login_fresh"
  by (simp_all add: initialized_def instance_admin_def config_ok_def login_fresh_def)

lemma setup_admin: "instance_admin (lg_identity setup_db)"
  using setup_admit(4) by (simp add: setup_db_def setup_identity_def instance_admin_def)

theorem finish_login_sound_witness:
  "bound_user subject_seven setup_db = Some 10 \<and> AuthenticateSession (le_sha seven) Second (tok (CHR ''C'')) (lg_identity setup_db) = Inr setup_session"
proof -
  have n: "xi_user x \<noteq> uuid_Nil" if "x \<in> set (lg_identities setup_consumed)" for x using that by (simp add: setup_consumed_def)
  have d: "le_sha seven [] \<noteq> le_sha seven (tok (CHR ''C''))" by (simp add: seven_def tok_heads) (simp add: first_char_def)
  have "length (li_random setup_ids) = 32" by (simp add: setup_ids_def)
  from finish_login_sound [OF setup_step6 this d n, where now' = Second] show ?thesis by (simp add: setup_session_def duration_defs DefaultTTL_def)
qed

lemma setup_all: "login_steps seven login_fresh setup_db"
  using setup_reached setup_last by simp

theorem first_admin_is_bootstrap_witness:
  "\<exists>b db user u. login_steps seven login_fresh db \<and> \<not> instance_admin (lg_identity db) \<and> ExternalUser_Valid user \<and>
     lg_bootstrap setup_db = Some b \<and> bt_user b = Some u \<and> xu_Subject user = bt_subject b"
  using first_admin_is_bootstrap [OF setup_all setup_start(1,2) setup_admin] by blast

lemma setup_initialized: "initialized setup_db"
  using finish_bootstrap(2) [OF setup_step6] by (auto simp: setup_ids_def initialized_def setup_consumed_def)

theorem setup_closed_for_ever_witness:
  "\<exists>e. settingsAccess seven (6 * Second) \<lparr>pa_SessionToken = [], pa_SetupToken = tok (CHR ''t'')\<rparr> True setup_db = Inl e"
  using setup_closed_for_ever [OF setup_initialized rtranclp.rtrancl_refl] by blast

theorem active_login_verified_witness:
  "config_ok setup_db \<and> activeID setup_consumed = None \<and>
   (\<exists>(c :: login_config) access actor. activeID setup_db = Some (lc_id c) \<and> lc_expected c = None \<and> settingsAccess seven (5 * Second) access True setup_consumed = Inr actor)"
proof -
  have n: "activeID setup_consumed = None" by (simp add: activeID_def active_config_def setup_consumed_def)
  have y: "activeID setup_db \<noteq> None"
    by (simp add: activeID_def active_config_def setup_db_def activateLoginConfig_def Let_def setup_admit(5) setup_loaded_def update_where_def)
  note v = active_login_verified [OF setup_reached setup_start(3) setup_last]
  have ne: "activeID setup_db \<noteq> activeID setup_consumed" unfolding n by (rule y)
  obtain c :: login_config where "activeID setup_db = Some (lc_id c)" "lc_expected c = None"
    using mp [OF conjunct2 [OF v] ne] unfolding n by blast
  moreover have "config_ok setup_db" by (rule conjunct1 [OF v])
  moreover have "settingsAccess seven (5 * Second) setup_access True setup_consumed = Inr setup_actor"
    by (rule setup_admits) (simp_all add: setup_consumed_def duration_defs)
  ultimately show ?thesis using n by blast
qed

end
