(* ===== verification/Runner_Identity.thy ===== *)
theory Runner_Identity
  imports Pg_Store
begin

text \<open>
  The identities of runners: \<open>runner_identity.go\<close> of \<open>src/internal/store/postgres\<close>, and the types of
  \<open>src/internal/runnerauth/service.go\<close>. A registration token admits a bounded number of runners to a pool; a runner then
  holds certificates, of which one is active and its predecessor may be retiring; certificates are revoked one by one or
  with the runner. The rows of \<open>runners\<close> are those of the run store, beside the columns that only this component reads
  (\<open>runner_account\<close>). The labels of a runner pass through JSON (\<open>fe_labels\<close>: what the database returns for them, if it
  accepts them), and times in the audit log through \<open>fe_time\<close>.
\<close>

section \<open>Values\<close>

record Capabilities =
  cap_OS :: string
  cap_Architecture :: string
  cap_Executor :: string
  cap_IsolationLevel :: string
  cap_Labels :: gomap
  cap_Capacity :: int
  cap_AvailableDiskBytes :: int
  cap_ProtocolVersion :: int
  cap_RunnerVersion :: string

record RegistrationToken =
  rt_ID :: uuid
  rt_PoolName :: string
  rt_Digest :: bytes
  rt_ExpiresAt :: gotime
  rt_MaxUses :: int
  rt_CreatedBy :: "uuid option"

record CertificateRecord =
  cr_Serial :: string
  cr_CSRFingerprint :: bytes
  cr_PublicKeyFingerprint :: bytes
  cr_ChainPEM :: bytes
  cr_NotBefore :: gotime
  cr_NotAfter :: gotime
  cr_PreviousValidUntil :: gotime

record Enrollment =
  en_TokenDigest :: bytes
  en_RunnerID :: uuid
  en_Name :: string
  en_Capabilities :: Capabilities
  en_Certificate :: CertificateRecord

record Identity =
  ri_RunnerID :: uuid
  ri_PoolID :: uuid
  ri_PoolType :: string
  ri_Name :: string
  ri_CertificateID :: uuid
  ri_Serial :: string
  ri_Capabilities :: Capabilities

record Rotation =
  ro_RunnerID :: uuid
  ro_OldSerial :: string
  ro_Certificate :: CertificateRecord
  ro_GracePeriod :: duration

definition MaximumRegistrationTTL :: duration where "MaximumRegistrationTTL = 24 * Hour"
definition RotationGracePeriod :: duration where "RotationGracePeriod = 15 * Minute"

datatype runner_error = RunnerDenied | RunnerInvalidInput | RunnerDatabase

section \<open>The tables\<close>

record runner_pool =
  po_id :: uuid
  po_name :: string
  po_type :: string

record runner_account =
  ra_id :: uuid
  ra_pool :: uuid
  ra_name :: string
  ra_serial :: "string option"
  ra_version :: string
  ra_reason :: "string option"

record registration_row =
  rg_id :: uuid
  rg_pool :: uuid
  rg_digest :: bytes
  rg_expires :: gotime
  rg_max :: int
  rg_used :: int
  rg_created_by :: "uuid option"
  rg_last_used :: "gotime option"
  rg_last_runner :: "uuid option"
  rg_revoked :: "gotime option"

datatype certificate_state = CertActive | CertRetiring | CertRevoked | CertExpired

record certificate_row =
  ct_id :: uuid
  ct_runner :: uuid
  ct_serial :: string
  ct_csr :: bytes
  ct_public :: bytes
  ct_state :: certificate_state
  ct_chain :: bytes
  ct_not_before :: gotime
  ct_not_after :: gotime
  ct_retire_at :: "gotime option"
  ct_revoked_at :: "gotime option"
  ct_reason :: "string option"
  ct_replaces :: "uuid option"

record fleet_db =
  fl_pg :: pg_db
  fl_pools :: "runner_pool list"
  fl_accounts :: "runner_account list"
  fl_tokens :: "registration_row list"
  fl_certs :: "certificate_row list"

record fleet_env =
  fe_pg :: pg_env
  fe_labels :: "gomap \<Rightarrow> gomap option"
  fe_time :: "gotime \<Rightarrow> string"

definition pool_of :: "uuid \<Rightarrow> fleet_db \<Rightarrow> runner_pool option" where
  "pool_of ident db = List.find (\<lambda>p. po_id p = ident) (fl_pools db)"

definition account_of :: "uuid \<Rightarrow> fleet_db \<Rightarrow> runner_account option" where
  "account_of ident db = List.find (\<lambda>a. ra_id a = ident) (fl_accounts db)"

text \<open>The reference to \<open>users\<close> of the acting user.\<close>

definition actor_known :: "uuid option \<Rightarrow> fleet_db \<Rightarrow> bool" where
  "actor_known actor db \<longleftrightarrow>
     (case actor of None \<Rightarrow> True | Some u \<Rightarrow> list_ex (\<lambda>x. us_id x = u) (db_users (pg_identity (fl_pg db))))"

definition fleet_audit :: "'a fleet_env_scheme \<Rightarrow> uuid option \<Rightarrow> string \<Rightarrow> string \<Rightarrow> uuid \<Rightarrow> gomap \<Rightarrow> fleet_db \<Rightarrow> runner_error + fleet_db" where
  "fleet_audit env actor action resource ident metadata db =
     (if \<not> actor_known actor db then Inl RunnerDatabase
      else Inr (db\<lparr>fl_pg := appendRunnerAudit (fe_pg env) actor action resource ident metadata (fl_pg db)\<rparr>))"

section \<open>Registration tokens\<close>

definition CreateRegistrationToken :: "'a fleet_env_scheme \<Rightarrow> gotime \<Rightarrow> RegistrationToken \<Rightarrow> fleet_db \<Rightarrow> runner_error + fleet_db" where
  "CreateRegistrationToken env now t db =
     (if rt_ID t = uuid_Nil \<or> rt_PoolName t = [] \<or> rt_MaxUses t < 1 then Inl RunnerInvalidInput
      else
        (case List.find (\<lambda>p. po_name p = rt_PoolName t) (fl_pools db) of
           None \<Rightarrow> Inl RunnerInvalidInput
         | Some p \<Rightarrow>
             if list_ex (\<lambda>r. rg_id r = rt_ID t \<or> rg_digest r = rt_Digest t) (fl_tokens db) \<or> length (rt_Digest t) \<noteq> 32 \<or>
                rt_MaxUses t > 256 \<or> rt_ExpiresAt t \<le> now \<or> \<not> actor_known (rt_CreatedBy t) db
             then Inl RunnerDatabase
             else fleet_audit env (rt_CreatedBy t) ''runner_registration_token.created'' ''runner_registration_token'' (rt_ID t)
                    [(''pool_id'', env_String (fe_pg env) (po_id p)), (''expires_at'', fe_time env (rt_ExpiresAt t)),
                     (''max_uses'', FormatInt (rt_MaxUses t))]
                    (db\<lparr>fl_tokens := fl_tokens db @ [\<lparr>rg_id = rt_ID t, rg_pool = po_id p, rg_digest = rt_Digest t,
                       rg_expires = rt_ExpiresAt t, rg_max = rt_MaxUses t, rg_used = 0, rg_created_by = rt_CreatedBy t,
                       rg_last_used = None, rg_last_runner = None, rg_revoked = None\<rparr>]\<rparr>)))"

definition token_usable :: "gotime \<Rightarrow> bytes \<Rightarrow> registration_row \<Rightarrow> bool" where
  "token_usable now digest r \<longleftrightarrow>
     rg_digest r = digest \<and> rg_revoked r = None \<and> rg_expires r > now \<and> rg_used r < rg_max r"

section \<open>Certificates\<close>

text \<open>The constraints of the table, for a row that is inserted.\<close>

definition certificate_checks :: "certificate_row \<Rightarrow> fleet_db \<Rightarrow> bool" where
  "certificate_checks c db \<longleftrightarrow>
     list_ex (\<lambda>a. ra_id a = ct_runner c) (fl_accounts db) \<and>
     list_all hex_lower (ct_serial c) \<and> 16 \<le> length (ct_serial c) \<and> length (ct_serial c) \<le> 64 \<and>
     length (ct_csr c) = 32 \<and> length (ct_public c) = 32 \<and> 1 \<le> length (ct_chain c) \<and> length (ct_chain c) \<le> 32768 \<and>
     ct_not_after c > ct_not_before c \<and> ct_replaces c \<noteq> Some (ct_id c) \<and>
     \<not> list_ex (\<lambda>x. ct_id x = ct_id c \<or> ct_serial x = ct_serial c \<or> (ct_runner x = ct_runner c \<and> ct_csr x = ct_csr c) \<or>
         (ct_runner x = ct_runner c \<and> ct_state x = CertActive) \<or> (ct_replaces c \<noteq> None \<and> ct_replaces x = ct_replaces c)) (fl_certs db)"

definition insertRunnerCertificate :: "uuid \<Rightarrow> uuid \<Rightarrow> CertificateRecord \<Rightarrow> uuid option \<Rightarrow> fleet_db \<Rightarrow> runner_error + fleet_db" where
  "insertRunnerCertificate ident runnerID certificate replaces db =
     (let c = \<lparr>ct_id = ident, ct_runner = runnerID, ct_serial = cr_Serial certificate, ct_csr = cr_CSRFingerprint certificate,
               ct_public = cr_PublicKeyFingerprint certificate, ct_state = CertActive, ct_chain = cr_ChainPEM certificate,
               ct_not_before = cr_NotBefore certificate, ct_not_after = cr_NotAfter certificate, ct_retire_at = None,
               ct_revoked_at = None, ct_reason = None, ct_replaces = replaces\<rparr>
      in if certificate_checks c db then Inr (db\<lparr>fl_certs := fl_certs db @ [c]\<rparr>) else Inl RunnerDatabase)"

definition certificate_live :: "gotime \<Rightarrow> certificate_row \<Rightarrow> bool" where
  "certificate_live now c \<longleftrightarrow>
     ct_not_before c \<le> now \<and> ct_not_after c > now \<and>
     (ct_state c = CertActive \<or>
      (ct_state c = CertRetiring \<and> (case ct_retire_at c of None \<Rightarrow> False | Some t \<Rightarrow> t > now)))"

section \<open>Enrolment\<close>

definition new_runner :: "uuid \<Rightarrow> string \<Rightarrow> gomap \<Rightarrow> Capabilities \<Rightarrow> runner_row" where
  "new_runner ident poolType labels c =
     \<lparr>rn_id = ident, rn_pool = poolType, rn_status = ''offline'', rn_os = cap_OS c, rn_arch = cap_Architecture c,
      rn_executor = cap_Executor c, rn_isolation = cap_IsolationLevel c, rn_labels = labels, rn_capacity = cap_Capacity c,
      rn_disk = cap_AvailableDiskBytes c, rn_protocol = Some (cap_ProtocolVersion c), rn_seen = None\<rparr>"

definition insert_runner :: "uuid \<Rightarrow> runner_pool \<Rightarrow> gomap \<Rightarrow> Enrollment \<Rightarrow> fleet_db \<Rightarrow> runner_error + fleet_db" where
  "insert_runner ident pool labels e db =
     (if list_ex (\<lambda>a. ra_id a = ident \<or> ra_name a = en_Name e) (fl_accounts db) \<or>
         list_ex (\<lambda>n. rn_id n = ident) (pg_runners (fl_pg db))
      then Inl RunnerDenied
      else Inr (db\<lparr>fl_pg := (fl_pg db)\<lparr>pg_runners := pg_runners (fl_pg db) @
                     [new_runner ident (po_type pool) labels (en_Capabilities e)]\<rparr>,
                   fl_accounts := fl_accounts db @ [\<lparr>ra_id = ident, ra_pool = po_id pool, ra_name = en_Name e,
                     ra_serial = Some (cr_Serial (en_Certificate e)), ra_version = cap_RunnerVersion (en_Capabilities e),
                     ra_reason = None\<rparr>]\<rparr>))"

definition consume_token :: "gotime \<Rightarrow> uuid \<Rightarrow> uuid \<Rightarrow> fleet_db \<Rightarrow> runner_error + fleet_db" where
  "consume_token now tokenID runnerID db =
     (let p = (\<lambda>r. rg_id r = tokenID \<and> rg_used r < rg_max r) in
      if affected p (fl_tokens db) \<noteq> 1 then Inl RunnerDenied
      else Inr (db\<lparr>fl_tokens := update_where p (\<lambda>r. r\<lparr>rg_used := rg_used r + 1, rg_last_used := Some now,
             rg_last_runner := Some runnerID\<rparr>) (fl_tokens db)\<rparr>))"

definition EnrollRunner :: "'a fleet_env_scheme \<Rightarrow> uuid \<Rightarrow> gotime \<Rightarrow> Enrollment \<Rightarrow> fleet_db \<Rightarrow> runner_error + fleet_db \<times> Identity" where
  "EnrollRunner env certificateID now e db =
     (case List.find (token_usable now (en_TokenDigest e)) (fl_tokens db) of
        None \<Rightarrow> Inl RunnerDenied
      | Some t \<Rightarrow>
          (case pool_of (rg_pool t) db of
             None \<Rightarrow> Inl RunnerDenied
           | Some pool \<Rightarrow>
               if po_type pool \<noteq> cap_IsolationLevel (en_Capabilities e) then Inl RunnerDenied
               else
                 (case fe_labels env (cap_Labels (en_Capabilities e)) of
                    None \<Rightarrow> Inl RunnerDenied
                  | Some labels \<Rightarrow>
                      and_then (insert_runner (en_RunnerID e) pool labels e db) (\<lambda>db1.
                      and_then (insertRunnerCertificate certificateID (en_RunnerID e) (en_Certificate e) None db1) (\<lambda>db2.
                      and_then (consume_token now (rg_id t) (en_RunnerID e) db2) (\<lambda>db3.
                      and_then (fleet_audit env None ''runner.enrolled'' ''runner'' (en_RunnerID e)
                          [(''pool_id'', env_String (fe_pg env) (po_id pool)), (''certificate_serial'', cr_Serial (en_Certificate e)),
                           (''registration_token_id'', env_String (fe_pg env) (rg_id t))] db3) (\<lambda>db4.
                      Inr (db4, \<lparr>ri_RunnerID = en_RunnerID e, ri_PoolID = po_id pool, ri_PoolType = po_type pool,
                                 ri_Name = en_Name e, ri_CertificateID = certificateID, ri_Serial = cr_Serial (en_Certificate e),
                                 ri_Capabilities = en_Capabilities e\<rparr>))))))))"

section \<open>Authentication\<close>

definition stored_capabilities :: "runner_row \<Rightarrow> int \<Rightarrow> string \<Rightarrow> Capabilities" where
  "stored_capabilities n protocol version =
     \<lparr>cap_OS = rn_os n, cap_Architecture = rn_arch n, cap_Executor = rn_executor n, cap_IsolationLevel = rn_isolation n,
      cap_Labels = rn_labels n, cap_Capacity = rn_capacity n, cap_AvailableDiskBytes = rn_disk n,
      cap_ProtocolVersion = protocol, cap_RunnerVersion = version\<rparr>"

text \<open>The three joined rows; a column that is \<open>NULL\<close> cannot be scanned.\<close>

definition AuthenticateRunner :: "gotime \<Rightarrow> uuid \<Rightarrow> string \<Rightarrow> fleet_db \<Rightarrow> runner_error + Identity" where
  "AuthenticateRunner now runnerID serial db =
     (case (List.find (\<lambda>c. ct_serial c = serial \<and> ct_runner c = runnerID \<and> certificate_live now c) (fl_certs db),
            enabled_runner runnerID (fl_pg db), account_of runnerID db) of
        (Some c, Some n, Some a) \<Rightarrow>
          (case pool_of (ra_pool a) db of
             None \<Rightarrow> Inl RunnerDenied
           | Some pool \<Rightarrow>
               (case rn_protocol n of
                  None \<Rightarrow> Inl RunnerDatabase
                | Some protocol \<Rightarrow>
                    if rn_os n = [] \<or> rn_arch n = [] \<or> rn_executor n = [] \<or> ra_version a = [] then Inl RunnerDatabase
                    else Inr \<lparr>ri_RunnerID = rn_id n, ri_PoolID = ra_pool a, ri_PoolType = po_type pool, ri_Name = ra_name a,
                              ri_CertificateID = ct_id c, ri_Serial = ct_serial c,
                              ri_Capabilities = stored_capabilities n protocol (ra_version a)\<rparr>))
      | _ \<Rightarrow> Inl RunnerDenied)"

section \<open>Rotation\<close>

definition replacementCertificate :: "uuid \<Rightarrow> fleet_db \<Rightarrow> runner_error + CertificateRecord option" where
  "replacementCertificate oldID db =
     (case (List.find (\<lambda>c. ct_replaces c = Some oldID) (fl_certs db), List.find (\<lambda>c. ct_id c = oldID) (fl_certs db)) of
        (Some c, Some old) \<Rightarrow>
          (case ct_retire_at old of
             None \<Rightarrow> Inl RunnerDatabase
           | Some t \<Rightarrow>
               if length (ct_csr c) \<noteq> 32 \<or> length (ct_public c) \<noteq> 32 then Inr None
               else Inr (Some \<lparr>cr_Serial = ct_serial c, cr_CSRFingerprint = ct_csr c, cr_PublicKeyFingerprint = ct_public c,
                    cr_ChainPEM = ct_chain c, cr_NotBefore = ct_not_before c, cr_NotAfter = ct_not_after c,
                    cr_PreviousValidUntil = t\<rparr>))
      | _ \<Rightarrow> Inr None)"

definition retire_certificate :: "gotime \<Rightarrow> uuid \<Rightarrow> gotime \<Rightarrow> fleet_db \<Rightarrow> fleet_db" where
  "retire_certificate now oldID until db =
     db\<lparr>fl_certs := update_where (\<lambda>c. ct_id c = oldID \<and> ct_state c = CertActive)
       (\<lambda>c. c\<lparr>ct_state := CertRetiring, ct_retire_at := Some until\<rparr>) (fl_certs db)\<rparr>"

definition set_serial :: "uuid \<Rightarrow> string \<Rightarrow> fleet_db \<Rightarrow> fleet_db" where
  "set_serial runnerID serial db =
     db\<lparr>fl_accounts := update_where (\<lambda>a. ra_id a = runnerID) (\<lambda>a. a\<lparr>ra_serial := Some serial\<rparr>) (fl_accounts db)\<rparr>"

definition RotateRunnerCertificate :: "'a fleet_env_scheme \<Rightarrow> uuid \<Rightarrow> gotime \<Rightarrow> Rotation \<Rightarrow> fleet_db
    \<Rightarrow> runner_error + fleet_db \<times> CertificateRecord" where
  "RotateRunnerCertificate env newID now rotation db =
     (if ro_GracePeriod rotation \<le> 0 \<or> ro_GracePeriod rotation > RotationGracePeriod then Inl RunnerDenied
      else
        (case (List.find (\<lambda>c. ct_serial c = ro_OldSerial rotation \<and> ct_runner c = ro_RunnerID rotation) (fl_certs db),
               enabled_runner (ro_RunnerID rotation) (fl_pg db)) of
           (Some old, Some n) \<Rightarrow>
             and_then (replacementCertificate (ct_id old) db) (\<lambda>existing.
               case existing of
                 Some record \<Rightarrow>
                   if cr_CSRFingerprint record \<noteq> cr_CSRFingerprint (ro_Certificate rotation) then Inl RunnerDenied else Inr (db, record)
               | None \<Rightarrow>
                   if ct_state old \<noteq> CertActive then Inl RunnerDenied
                   else
                     (let until = min (ct_not_after old) (now + ro_GracePeriod rotation);
                          certificate = (ro_Certificate rotation)\<lparr>cr_PreviousValidUntil := until\<rparr>
                      in and_then (insertRunnerCertificate newID (ro_RunnerID rotation) certificate (Some (ct_id old))
                             (retire_certificate now (ct_id old) until db)) (\<lambda>db1.
                         and_then (fleet_audit env None ''runner_certificate.rotated'' ''runner'' (ro_RunnerID rotation)
                             [(''old_serial'', ro_OldSerial rotation), (''new_serial'', cr_Serial certificate),
                              (''grace_seconds'', FormatInt (ro_GracePeriod rotation div Second))]
                             (set_serial (ro_RunnerID rotation) (cr_Serial certificate) db1)) (\<lambda>db2.
                         Inr (db2, certificate)))))
         | _ \<Rightarrow> Inl RunnerDenied))"

section \<open>Disabling and revoking\<close>

definition revoke_row :: "gotime \<Rightarrow> string \<Rightarrow> certificate_row \<Rightarrow> certificate_row" where
  "revoke_row now reason c = c\<lparr>ct_state := CertRevoked, ct_retire_at := None, ct_revoked_at := Some now, ct_reason := Some reason\<rparr>"

definition usable_state :: "certificate_row \<Rightarrow> bool" where
  "usable_state c \<longleftrightarrow> ct_state c = CertActive \<or> ct_state c = CertRetiring"

text \<open>The check \<open>revoked_at >= not_before\<close> can refuse the update.\<close>

definition revoke_certificates :: "gotime \<Rightarrow> string \<Rightarrow> (certificate_row \<Rightarrow> bool) \<Rightarrow> fleet_db \<Rightarrow> runner_error + fleet_db" where
  "revoke_certificates now reason p db =
     (let q = (\<lambda>c. p c \<and> usable_state c) in
      if list_ex (\<lambda>c. q c \<and> ct_not_before c > now) (fl_certs db) then Inl RunnerDatabase
      else Inr (db\<lparr>fl_certs := update_where q (revoke_row now reason) (fl_certs db)\<rparr>))"

definition disable_rows :: "uuid \<Rightarrow> string \<Rightarrow> fleet_db \<Rightarrow> fleet_db" where
  "disable_rows runnerID reason db =
     db\<lparr>fl_pg := (fl_pg db)\<lparr>pg_runners := update_where (\<lambda>n. rn_id n = runnerID \<and> rn_status n \<noteq> ''disabled'')
          (\<lambda>n. n\<lparr>rn_status := ''disabled''\<rparr>) (pg_runners (fl_pg db))\<rparr>,
        fl_accounts := update_where (\<lambda>a. ra_id a = runnerID) (\<lambda>a. a\<lparr>ra_serial := None, ra_reason := Some reason\<rparr>) (fl_accounts db)\<rparr>"

definition DisableRunner :: "'a fleet_env_scheme \<Rightarrow> gotime \<Rightarrow> uuid \<Rightarrow> string \<Rightarrow> uuid option \<Rightarrow> fleet_db \<Rightarrow> runner_error + fleet_db" where
  "DisableRunner env now runnerID reason actor db =
     (if runnerID = uuid_Nil \<or> length reason < 1 \<or> length reason > 256 then Inl RunnerInvalidInput
      else if affected (\<lambda>n. rn_id n = runnerID \<and> rn_status n \<noteq> ''disabled'') (pg_runners (fl_pg db)) \<noteq> 1 then Inl RunnerDenied
      else
        and_then (revoke_certificates now reason (\<lambda>c. ct_runner c = runnerID) (disable_rows runnerID reason db)) (\<lambda>db1.
        fleet_audit env actor ''runner.disabled'' ''runner'' runnerID [(''reason'', reason)] db1))"

definition RevokeRunnerCertificate :: "'a fleet_env_scheme \<Rightarrow> gotime \<Rightarrow> string \<Rightarrow> string \<Rightarrow> uuid option \<Rightarrow> fleet_db \<Rightarrow> runner_error + fleet_db" where
  "RevokeRunnerCertificate env now serial reason actor db =
     (if length serial < 16 \<or> length serial > 64 \<or> length reason < 1 \<or> length reason > 256 then Inl RunnerInvalidInput
      else
        (case List.find (\<lambda>c. ct_serial c = serial \<and> usable_state c) (fl_certs db) of
           None \<Rightarrow> Inl RunnerDenied
         | Some c \<Rightarrow>
             and_then (revoke_certificates now reason (\<lambda>x. ct_serial x = serial) db) (\<lambda>db1.
             fleet_audit env actor ''runner_certificate.revoked'' ''runner'' (ct_runner c)
               [(''serial'', serial), (''reason'', reason)]
               (db1\<lparr>fl_accounts := update_where (\<lambda>a. ra_id a = ct_runner c \<and> ra_serial a = Some serial)
                      (\<lambda>a. a\<lparr>ra_serial := None\<rparr>) (fl_accounts db1)\<rparr>))))"

end
