(* ===== verification/Runner_Auth.thy ===== *)
theory Runner_Auth
  imports Runner_Identity
begin

text \<open>
  The identity service of runners: \<open>service.go\<close> of \<open>src/internal/runnerauth\<close>, and the certificate requests and client
  certificates of \<open>pki.go\<close>. PEM, the parser of requests, the creation and the parser of certificates, the encoding of
  public keys, SHA-256 and \<open>uuid.Parse\<close> are parameters (\<open>auth_env\<close>); what is said in a certificate and how it is
  checked is the source's.
\<close>

section \<open>Certificates and requests\<close>

datatype public_key = Ed25519Key bytes | EcdsaKey string | RsaKey int int | OtherKey

record x509_url =
  uri_Scheme :: string
  uri_Host :: string
  uri_Path :: string
  uri_EscapedPath :: string
  uri_RawQuery :: string
  uri_Fragment :: string
  uri_User :: bool

datatype ext_key_usage = ExtKeyUsageClientAuth | ExtKeyUsageServerAuth | ExtKeyUsageOther

text \<open>\<open>KeyUsage\<close> is a set of bits: \<open>KeyUsageDigitalSignature\<close> is bit 0 and \<open>KeyUsageCertSign\<close> is bit 5.\<close>

record x509_certificate =
  xc_SerialNumber :: int
  xc_Subject :: string
  xc_NotBefore :: gotime
  xc_NotAfter :: gotime
  xc_KeyUsage :: nat
  xc_ExtKeyUsage :: "ext_key_usage list"
  xc_UnknownExtKeyUsage :: nat
  xc_BasicConstraintsValid :: bool
  xc_IsCA :: bool
  xc_URIs :: "x509_url list"
  xc_DNSNames :: "string list"
  xc_IPAddresses :: "bytes list"
  xc_EmailAddresses :: "string list"
  xc_PublicKey :: public_key
  xc_SubjectKeyId :: bytes
  xc_AuthorityKeyId :: bytes
  xc_Raw :: bytes

record x509_request =
  xr_Subject :: string
  xr_Names :: nat
  xr_Extensions :: nat
  xr_Attributes :: nat
  xr_PublicKey :: public_key
  xr_Signed :: bool

record pem_block =
  pb_Type :: string
  pb_Headers :: nat
  pb_Bytes :: bytes

record auth_env = fleet_env +
  ae_sha :: "bytes \<Rightarrow> bytes"
  ae_parse :: "string \<Rightarrow> uuid option"
  ae_pem_decode :: "bytes \<Rightarrow> (pem_block \<times> bytes) option"
  ae_pem_encode :: "bytes \<Rightarrow> bytes"
  ae_request :: "bytes \<Rightarrow> x509_request option"
  ae_pkix :: "public_key \<Rightarrow> bytes option"
  ae_create :: "x509_certificate \<Rightarrow> x509_certificate \<Rightarrow> public_key \<Rightarrow> bytes option"
  ae_certificate :: "bytes \<Rightarrow> x509_certificate option"
  ae_issuer :: x509_certificate
  ae_issuer_key :: public_key

definition MaxCSRBytes :: int where "MaxCSRBytes = 16 * 1024"
definition DefaultRunnerLifetime :: duration where "DefaultRunnerLifetime = 24 * Hour"
definition runnerCertificateBackdate :: duration where "runnerCertificateBackdate = Minute"

definition supportedPublicKey :: "public_key \<Rightarrow> bool" where
  "supportedPublicKey key =
     (case key of
        Ed25519Key k \<Rightarrow> length k = 32
      | EcdsaKey curve \<Rightarrow> curve = ''P-256''
      | RsaKey bits e \<Rightarrow> bits \<ge> 2048 \<and> bits \<le> 4096 \<and> e \<ge> 65537 \<and> e mod 2 = 1
      | OtherKey \<Rightarrow> False)"

definition publicKeysEqual :: "auth_env \<Rightarrow> public_key \<Rightarrow> public_key \<Rightarrow> bool" where
  "publicKeysEqual env left right =
     (case (ae_pkix env left, ae_pkix env right) of (Some a, Some b) \<Rightarrow> a = b | _ \<Rightarrow> False)"

record CSRInfo =
  ci_Request :: x509_request
  ci_CSRFingerprint :: bytes
  ci_PublicKeyFingerprint :: bytes

definition ValidateRunnerCSR :: "auth_env \<Rightarrow> bytes \<Rightarrow> CSRInfo option" where
  "ValidateRunnerCSR env csr =
     (if csr = [] \<or> int (length csr) > MaxCSRBytes then None
      else
        (case ae_pem_decode env csr of
           None \<Rightarrow> None
         | Some (block, rest) \<Rightarrow>
             if (pb_Type block \<noteq> ''CERTIFICATE REQUEST'' \<and> pb_Type block \<noteq> ''NEW CERTIFICATE REQUEST'') \<or> pb_Headers block \<noteq> 0 \<or>
                TrimSpace rest \<noteq> []
             then None
             else
               (case ae_request env (pb_Bytes block) of
                  None \<Rightarrow> None
                | Some request \<Rightarrow>
                    if \<not> xr_Signed request \<or> xr_Subject request \<noteq> [] \<or> xr_Names request \<noteq> 0 \<or> xr_Extensions request \<noteq> 0 \<or>
                       xr_Attributes request \<noteq> 0 \<or> \<not> supportedPublicKey (xr_PublicKey request)
                    then None
                    else
                      (case ae_pkix env (xr_PublicKey request) of
                         None \<Rightarrow> None
                       | Some der \<Rightarrow> Some \<lparr>ci_Request = request, ci_CSRFingerprint = ae_sha env (pb_Bytes block),
                                           ci_PublicKeyFingerprint = ae_sha env der\<rparr>))))"

text \<open>\<open>big.Int.SetBytes\<close> and \<open>big.Int.Text(16)\<close>.\<close>

definition big_SetBytes :: "bytes \<Rightarrow> nat" where
  "big_SetBytes bs = foldl (\<lambda>n b. 256 * n + of_char b) 0 bs"

fun hex_text :: "nat \<Rightarrow> string" where
  "hex_text n = (if n < 16 then [hex_digit n] else hex_text (n div 16) @ [hex_digit (n mod 16)])"

declare hex_text.simps [simp del]

text \<open>Twenty random bytes, of which the first gets the upper bits 01.\<close>

definition randomSerial :: "bytes \<Rightarrow> nat" where
  "randomSerial random =
     (case random of [] \<Rightarrow> 0 | b # bs \<Rightarrow> big_SetBytes (char_of ((of_char b :: nat) mod 64 + 64) # bs))"

definition serial_text :: "x509_certificate \<Rightarrow> string" where
  "serial_text c = ToLower (hex_text (nat (xc_SerialNumber c)))"

definition truncate_second :: "gotime \<Rightarrow> gotime" where
  "truncate_second t = t - t mod Second"

record IssuedCertificate =
  ic_Certificate :: x509_certificate
  ic_ChainPEM :: bytes
  ic_CSRFingerprint :: bytes
  ic_PublicKeyFingerprint :: bytes

definition runner_uri :: "auth_env \<Rightarrow> uuid \<Rightarrow> x509_url" where
  "runner_uri env runnerID =
     (let path = CHR ''/'' # env_String (fe_pg env) runnerID in
      \<lparr>uri_Scheme = ''yuanci'', uri_Host = ''runner'', uri_Path = path, uri_EscapedPath = path, uri_RawQuery = [],
       uri_Fragment = [], uri_User = False\<rparr>)"

definition runner_template :: "auth_env \<Rightarrow> nat \<Rightarrow> uuid \<Rightarrow> CSRInfo \<Rightarrow> gotime \<Rightarrow> gotime \<Rightarrow> x509_certificate" where
  "runner_template env serial runnerID info notBefore notAfter =
     \<lparr>xc_SerialNumber = int serial, xc_Subject = [], xc_NotBefore = notBefore, xc_NotAfter = notAfter, xc_KeyUsage = 1,
      xc_ExtKeyUsage = [ExtKeyUsageClientAuth], xc_UnknownExtKeyUsage = 0, xc_BasicConstraintsValid = True, xc_IsCA = False,
      xc_URIs = [runner_uri env runnerID], xc_DNSNames = [], xc_IPAddresses = [], xc_EmailAddresses = [],
      xc_PublicKey = xr_PublicKey (ci_Request info), xc_SubjectKeyId = ci_PublicKeyFingerprint info,
      xc_AuthorityKeyId = xc_SubjectKeyId (ae_issuer env), xc_Raw = []\<rparr>"

definition SignRunnerCertificate :: "auth_env \<Rightarrow> bytes \<Rightarrow> bytes \<Rightarrow> uuid \<Rightarrow> gotime \<Rightarrow> duration \<Rightarrow> IssuedCertificate option" where
  "SignRunnerCertificate env random csr runnerID now0 lifetime =
     (case ValidateRunnerCSR env csr of
        None \<Rightarrow> None
      | Some info \<Rightarrow>
          (let issuer = ae_issuer env; now = truncate_second now0 in
           if runnerID = uuid_Nil \<or> \<not> xc_IsCA issuer \<or> \<not> bit (xc_KeyUsage issuer) 5 then None
           else if \<not> publicKeysEqual env (xc_PublicKey issuer) (ae_issuer_key env) then None
           else if lifetime \<le> 0 \<or> lifetime > DefaultRunnerLifetime then None
           else if now < xc_NotBefore issuer \<or> \<not> now < xc_NotAfter issuer then None
           else
             (let notBefore = max (now - runnerCertificateBackdate) (xc_NotBefore issuer); notAfter = now + lifetime in
              if notAfter > xc_NotAfter issuer \<or> \<not> notBefore < xc_NotAfter issuer then None
              else
                (case ae_create env (runner_template env (randomSerial random) runnerID info notBefore notAfter) issuer
                        (xr_PublicKey (ci_Request info)) of
                   None \<Rightarrow> None
                 | Some der \<Rightarrow>
                     (case ae_certificate env der of
                        None \<Rightarrow> None
                      | Some certificate \<Rightarrow>
                          Some \<lparr>ic_Certificate = certificate, ic_ChainPEM = ae_pem_encode env der @ ae_pem_encode env (xc_Raw issuer),
                                ic_CSRFingerprint = ci_CSRFingerprint info, ic_PublicKeyFingerprint = ci_PublicKeyFingerprint info\<rparr>)))))"

definition CertificateIdentity :: "auth_env \<Rightarrow> x509_certificate \<Rightarrow> (uuid \<times> string) option" where
  "CertificateIdentity env c =
     (if xc_SerialNumber c \<le> 0 \<or> length (xc_URIs c) \<noteq> 1 \<or> xc_DNSNames c \<noteq> [] \<or> xc_IPAddresses c \<noteq> [] \<or>
         xc_EmailAddresses c \<noteq> [] \<or> xc_Subject c \<noteq> [] \<or> xc_IsCA c \<or> \<not> xc_BasicConstraintsValid c \<or> xc_KeyUsage c \<noteq> 1 \<or>
         xc_UnknownExtKeyUsage c \<noteq> 0 \<or> xc_ExtKeyUsage c \<noteq> [ExtKeyUsageClientAuth]
      then None
      else
        (let u = hd (xc_URIs c) in
         if uri_Scheme u \<noteq> ''yuanci'' \<or> uri_Host u \<noteq> ''runner'' \<or> uri_RawQuery u \<noteq> [] \<or> uri_Fragment u \<noteq> [] \<or> uri_User u then None
         else if uri_EscapedPath u \<noteq> uri_Path u then None
         else
           (case ae_parse env (TrimPrefix (uri_Path u) ''/'') of
              None \<Rightarrow> None
            | Some runnerID \<Rightarrow>
                if uri_Path u \<noteq> CHR ''/'' # env_String (fe_pg env) runnerID then None
                else if length (serial_text c) < 16 \<or> length (serial_text c) > 64 then None
                else Some (runnerID, serial_text c))))"

section \<open>Validation\<close>

definition runnerNameRegexp :: "string \<Rightarrow> bool" where
  "runnerNameRegexp = matches is_alnum (\<lambda>c. is_alnum c \<or> c \<in> set ''._-'') 127"

definition labelRegexp :: "string \<Rightarrow> bool" where
  "labelRegexp = matches is_alnum (\<lambda>c. is_alnum c \<or> c \<in> set ''._/-'') 127"

definition validateCapabilities :: "string \<Rightarrow> Capabilities \<Rightarrow> bool" where
  "validateCapabilities name c \<longleftrightarrow>
     runnerNameRegexp name \<and> 1 \<le> length (cap_OS c) \<and> length (cap_OS c) \<le> 64 \<and>
     1 \<le> length (cap_Architecture c) \<and> length (cap_Architecture c) \<le> 64 \<and>
     1 \<le> length (cap_Executor c) \<and> length (cap_Executor c) \<le> 64 \<and>
     (cap_IsolationLevel c = ''standard'' \<or> cap_IsolationLevel c = ''privileged'' \<or> cap_IsolationLevel c = ''deployment'') \<and>
     1 \<le> cap_Capacity c \<and> cap_Capacity c \<le> 256 \<and> 0 \<le> cap_AvailableDiskBytes c \<and>
     1 \<le> cap_ProtocolVersion c \<and> cap_ProtocolVersion c \<le> 1024 \<and>
     1 \<le> length (cap_RunnerVersion c) \<and> length (cap_RunnerVersion c) \<le> 128 \<and> length (cap_Labels c) \<le> 128 \<and>
     list_all (\<lambda>(key, v). labelRegexp key \<and> length v \<le> 256) (cap_Labels c)"

definition certificateRecord :: "IssuedCertificate \<Rightarrow> CertificateRecord" where
  "certificateRecord i =
     \<lparr>cr_Serial = serial_text (ic_Certificate i), cr_CSRFingerprint = ic_CSRFingerprint i,
      cr_PublicKeyFingerprint = ic_PublicKeyFingerprint i, cr_ChainPEM = ic_ChainPEM i,
      cr_NotBefore = xc_NotBefore (ic_Certificate i), cr_NotAfter = xc_NotAfter (ic_Certificate i),
      cr_PreviousValidUntil = time_zero\<rparr>"

section \<open>The operations of the service\<close>

definition NewRegistrationToken :: "auth_env \<Rightarrow> bytes \<Rightarrow> string \<times> bytes" where
  "NewRegistrationToken env raw = (let token = hex_encode raw in (token, ae_sha env token))"

definition RunnerTokenDigest :: "auth_env \<Rightarrow> string \<Rightarrow> bytes option" where
  "RunnerTokenDigest env token =
     (if length token \<noteq> 64 then None
      else (case hex_decode token of None \<Rightarrow> None | Some d \<Rightarrow> if length d \<noteq> 32 then None else Some (ae_sha env token)))"

definition IssueToken :: "auth_env \<Rightarrow> bytes \<Rightarrow> uuid \<Rightarrow> gotime \<Rightarrow> gotime \<Rightarrow> string \<Rightarrow> duration \<Rightarrow> int \<Rightarrow> uuid option \<Rightarrow> fleet_db
    \<Rightarrow> runner_error + fleet_db \<times> string \<times> RegistrationToken" where
  "IssueToken env raw newID clock now pool0 ttl maxUses actor db =
     (let pool = TrimSpace pool0 in
      if pool = [] \<or> length pool > 128 \<or> ttl < Minute \<or> ttl > MaximumRegistrationTTL \<or> maxUses < 1 \<or> maxUses > 256
      then Inl RunnerInvalidInput
      else
        (case NewRegistrationToken env raw of
           (token, digest) \<Rightarrow>
             (let t = \<lparr>rt_ID = newID, rt_PoolName = pool, rt_Digest = digest, rt_ExpiresAt = clock + ttl, rt_MaxUses = maxUses,
                       rt_CreatedBy = actor\<rparr>
              in and_then (CreateRegistrationToken env now t db) (\<lambda>db1. Inr (db1, token, t)))))"

text \<open>The random values of one request: the identifiers of the runner and of the certificate row, and the serial.\<close>

record auth_ids =
  ai_runner :: uuid
  ai_certificate :: uuid
  ai_serial :: bytes

text \<open>\<open>clock\<close> is the clock of the server, \<open>now\<close> that of the database. Every failure is the same denial.\<close>

definition Enroll :: "auth_env \<Rightarrow> auth_ids \<Rightarrow> gotime \<Rightarrow> gotime \<Rightarrow> string \<Rightarrow> string \<Rightarrow> Capabilities \<Rightarrow> bytes \<Rightarrow> fleet_db
    \<Rightarrow> runner_error + fleet_db \<times> Identity \<times> CertificateRecord" where
  "Enroll env ids clock now token name capabilities csr db =
     (case RunnerTokenDigest env token of
        None \<Rightarrow> Inl RunnerDenied
      | Some digest \<Rightarrow>
          if \<not> validateCapabilities name capabilities then Inl RunnerDenied
          else
            (case SignRunnerCertificate env (ai_serial ids) csr (ai_runner ids) clock DefaultRunnerLifetime of
               None \<Rightarrow> Inl RunnerDenied
             | Some issued \<Rightarrow>
                 (case EnrollRunner env (ai_certificate ids) now
                         \<lparr>en_TokenDigest = digest, en_RunnerID = ai_runner ids, en_Name = name, en_Capabilities = capabilities,
                          en_Certificate = certificateRecord issued\<rparr> db of
                    Inl _ \<Rightarrow> Inl RunnerDenied
                  | Inr (db1, identity) \<Rightarrow> Inr (db1, identity, certificateRecord issued))))"

definition Authenticate :: "auth_env \<Rightarrow> gotime \<Rightarrow> x509_certificate \<Rightarrow> fleet_db \<Rightarrow> runner_error + Identity" where
  "Authenticate env now certificate db =
     (case CertificateIdentity env certificate of
        None \<Rightarrow> Inl RunnerDenied
      | Some (runnerID, serial) \<Rightarrow>
          (case AuthenticateRunner now runnerID serial db of Inl _ \<Rightarrow> Inl RunnerDenied | Inr identity \<Rightarrow> Inr identity))"

definition Rotate :: "auth_env \<Rightarrow> auth_ids \<Rightarrow> gotime \<Rightarrow> gotime \<Rightarrow> Identity \<Rightarrow> bytes \<Rightarrow> fleet_db
    \<Rightarrow> runner_error + fleet_db \<times> CertificateRecord" where
  "Rotate env ids clock now current csr db =
     (if ri_RunnerID current = uuid_Nil \<or> ri_Serial current = [] then Inl RunnerDenied
      else
        (case SignRunnerCertificate env (ai_serial ids) csr (ri_RunnerID current) clock DefaultRunnerLifetime of
           None \<Rightarrow> Inl RunnerDenied
         | Some issued \<Rightarrow>
             (case RotateRunnerCertificate env (ai_certificate ids) now
                     \<lparr>ro_RunnerID = ri_RunnerID current, ro_OldSerial = ri_Serial current, ro_Certificate = certificateRecord issued,
                      ro_GracePeriod = RotationGracePeriod\<rparr> db of
                Inl _ \<Rightarrow> Inl RunnerDenied
              | Inr (db1, record) \<Rightarrow> Inr (db1, record))))"

end
