(* ===== verification/Runner_Guarantees.thy ===== *)
theory Runner_Guarantees
  imports Runner_Auth Pg_Actions
begin

text \<open>
  What the identities of runners guarantee. \<open>fleet_step\<close> is the component as a transition system: its own transactions, the
  heartbeat of the run store (which writes the rows of runners), the creation of a pool and everything else that happens to
  the database. A registration token admits at most as many runners as it says; who authenticates was admitted with a token
  of its pool; a revoked certificate and a disabled runner never authenticate again; a runner that was just enrolled
  authenticates, and rotation hands over from one certificate to the next.
\<close>

section \<open>Effects of the transactions\<close>

lemma update_whereE:
  assumes "x \<in> set (update_where p f rows)"
  obtains (changed) r where "r \<in> set rows" "p r" "x = f r" | (kept) "x \<in> set rows" "\<not> p x"
  using assms by (auto simp: update_where_def split: if_splits)

definition fleet_log :: "fleet_db \<Rightarrow> AuditEvent list" where
  "fleet_log db = db_audit (pg_identity (fl_pg db))"

lemma fleet_audit_effect:
  assumes "fleet_audit env actor action resource target metadata db = Inr db'"
  shows "fl_pools db' = fl_pools db" "fl_accounts db' = fl_accounts db" "fl_tokens db' = fl_tokens db" "fl_certs db' = fl_certs db"
    "pg_runners (fl_pg db') = pg_runners (fl_pg db)"
    "fleet_log db' = fleet_log db @ [\<lparr>ae_actor_user_id = actor, ae_action = action, ae_resource_type = resource,
       ae_resource_id = env_String (fe_pg env) target, ae_metadata = metadata\<rparr>]"
  using assms by (auto simp: fleet_audit_def appendRunnerAudit_def write_event_def fleet_log_def split: if_splits)

text \<open>An enrolment in the audit log: the runner, the pool and the token that admitted it.\<close>

definition enrolled_event :: "'a fleet_env_scheme \<Rightarrow> uuid \<Rightarrow> uuid \<Rightarrow> string \<Rightarrow> uuid \<Rightarrow> AuditEvent" where
  "enrolled_event env runner pool serial token =
     \<lparr>ae_actor_user_id = None, ae_action = ''runner.enrolled'', ae_resource_type = ''runner'',
      ae_resource_id = env_String (fe_pg env) runner,
      ae_metadata = [(''pool_id'', env_String (fe_pg env) pool), (''certificate_serial'', serial),
                     (''registration_token_id'', env_String (fe_pg env) token)]\<rparr>"

definition is_enrolment :: "AuditEvent \<Rightarrow> bool" where
  "is_enrolment e \<longleftrightarrow> ae_action e = ''runner.enrolled''"

lemma create_effect:
  assumes "CreateRegistrationToken env now t db = Inr db'"
  obtains r e where "fl_tokens db' = fl_tokens db @ [r]" "rg_id r = rt_ID t" "rg_id r \<notin> rg_id ` set (fl_tokens db)"
    "rg_digest r \<notin> rg_digest ` set (fl_tokens db)"
    "rg_used r = 0" "rg_max r = rt_MaxUses t" "1 \<le> rg_max r" "rg_max r \<le> 256"
    "fleet_log db' = fleet_log db @ [e]" "\<not> is_enrolment e"
    "fl_pools db' = fl_pools db" "fl_accounts db' = fl_accounts db" "fl_certs db' = fl_certs db"
    "pg_runners (fl_pg db') = pg_runners (fl_pg db)"
proof -
  have ok: "rt_MaxUses t \<ge> 1" using assms by (simp add: CreateRegistrationToken_def split: if_splits)
  obtain p where p: "List.find (\<lambda>p. po_name p = rt_PoolName t) (fl_pools db) = Some p"
    "\<not> list_ex (\<lambda>r. rg_id r = rt_ID t \<or> rg_digest r = rt_Digest t) (fl_tokens db)" "rt_MaxUses t \<le> 256"
    and f: "fleet_audit env (rt_CreatedBy t) ''runner_registration_token.created'' ''runner_registration_token'' (rt_ID t)
                    [(''pool_id'', env_String (fe_pg env) (po_id p)), (''expires_at'', fe_time env (rt_ExpiresAt t)),
                     (''max_uses'', FormatInt (rt_MaxUses t))]
                    (db\<lparr>fl_tokens := fl_tokens db @ [\<lparr>rg_id = rt_ID t, rg_pool = po_id p, rg_digest = rt_Digest t,
                       rg_expires = rt_ExpiresAt t, rg_max = rt_MaxUses t, rg_used = 0, rg_created_by = rt_CreatedBy t,
                       rg_last_used = None, rg_last_runner = None, rg_revoked = None\<rparr>]\<rparr>) = Inr db'"
    using assms by (auto simp: CreateRegistrationToken_def split: if_splits option.splits)
  show ?thesis
    by (rule that [OF fleet_audit_effect(3) [OF f, simplified]])
      (use p ok fleet_audit_effect [OF f] in \<open>auto simp: list_ex_iff is_enrolment_def fleet_log_def\<close>)
qed

text \<open>The row that the insertion adds, and the constraints that let it in.\<close>

lemma insert_certificate_effect:
  assumes "insertRunnerCertificate target runnerID certificate replaces db = Inr db'"
  obtains c where "db' = db\<lparr>fl_certs := fl_certs db @ [c]\<rparr>" "certificate_checks c db" "ct_id c = target" "ct_runner c = runnerID"
    "ct_serial c = cr_Serial certificate" "ct_csr c = cr_CSRFingerprint certificate" "ct_public c = cr_PublicKeyFingerprint certificate"
    "ct_chain c = cr_ChainPEM certificate" "ct_state c = CertActive"
    "ct_not_before c = cr_NotBefore certificate" "ct_not_after c = cr_NotAfter certificate" "ct_retire_at c = None"
    "ct_replaces c = replaces"
  using assms by (auto simp: insertRunnerCertificate_def Let_def split: if_splits)

lemma enroll_effect:
  assumes "EnrollRunner env cid now e db = Inr (db', i)"
  obtains (enrolled) t pool labels c a where "t \<in> set (fl_tokens db)" "token_usable now (en_TokenDigest e) t" "pool_of (rg_pool t) db = Some pool"
    "po_type pool = cap_IsolationLevel (en_Capabilities e)" "fe_labels env (cap_Labels (en_Capabilities e)) = Some labels"
    "fl_certs db' = fl_certs db @ [c]" "certificate_checks c (db\<lparr>fl_accounts := fl_accounts db @ [a]\<rparr>)"
    "ct_id c = cid" "ct_runner c = en_RunnerID e" "ct_serial c = cr_Serial (en_Certificate e)" "ct_state c = CertActive"
    "ct_not_before c = cr_NotBefore (en_Certificate e)" "ct_not_after c = cr_NotAfter (en_Certificate e)" "ct_replaces c = None"
    "fl_accounts db' = fl_accounts db @ [a]" "ra_id a = en_RunnerID e" "ra_pool a = po_id pool" "ra_name a = en_Name e"
    "ra_version a = cap_RunnerVersion (en_Capabilities e)" "en_RunnerID e \<notin> ra_id ` set (fl_accounts db)"
    "pg_runners (fl_pg db') = pg_runners (fl_pg db) @ [new_runner (en_RunnerID e) (po_type pool) labels (en_Capabilities e)]"
    "en_RunnerID e \<notin> rn_id ` set (pg_runners (fl_pg db))"
    "fl_tokens db' = update_where (\<lambda>r. rg_id r = rg_id t \<and> rg_used r < rg_max r)
       (\<lambda>r. r\<lparr>rg_used := rg_used r + 1, rg_last_used := Some now, rg_last_runner := Some (en_RunnerID e)\<rparr>) (fl_tokens db)"
    "fleet_log db' = fleet_log db @ [enrolled_event env (en_RunnerID e) (po_id pool) (cr_Serial (en_Certificate e)) (rg_id t)]"
    "fl_pools db' = fl_pools db"
    "i = \<lparr>ri_RunnerID = en_RunnerID e, ri_PoolID = po_id pool, ri_PoolType = po_type pool, ri_Name = en_Name e,
          ri_CertificateID = cid, ri_Serial = cr_Serial (en_Certificate e), ri_Capabilities = en_Capabilities e\<rparr>"
proof -
  obtain t pool labels db1 db2 db3 where t: "List.find (token_usable now (en_TokenDigest e)) (fl_tokens db) = Some t"
    and pool: "pool_of (rg_pool t) db = Some pool" "po_type pool = cap_IsolationLevel (en_Capabilities e)"
    and labels: "fe_labels env (cap_Labels (en_Capabilities e)) = Some labels"
    and db1: "insert_runner (en_RunnerID e) pool labels e db = Inr db1"
    and db2: "insertRunnerCertificate cid (en_RunnerID e) (en_Certificate e) None db1 = Inr db2"
    and db3: "consume_token now (rg_id t) (en_RunnerID e) db2 = Inr db3"
    and f: "fleet_audit env None ''runner.enrolled'' ''runner'' (en_RunnerID e)
              [(''pool_id'', env_String (fe_pg env) (po_id pool)), (''certificate_serial'', cr_Serial (en_Certificate e)),
               (''registration_token_id'', env_String (fe_pg env) (rg_id t))] db3 = Inr db'"
    and i: "i = \<lparr>ri_RunnerID = en_RunnerID e, ri_PoolID = po_id pool, ri_PoolType = po_type pool, ri_Name = en_Name e,
          ri_CertificateID = cid, ri_Serial = cr_Serial (en_Certificate e), ri_Capabilities = en_Capabilities e\<rparr>"
    using assms by (auto simp: EnrollRunner_def and_then_Inr split: option.splits if_splits)
  obtain c where c: "db2 = db1\<lparr>fl_certs := fl_certs db1 @ [c]\<rparr>" "certificate_checks c db1" "ct_id c = cid" "ct_runner c = en_RunnerID e"
    "ct_serial c = cr_Serial (en_Certificate e)" "ct_state c = CertActive" "ct_not_before c = cr_NotBefore (en_Certificate e)"
    "ct_not_after c = cr_NotAfter (en_Certificate e)" "ct_replaces c = None"
    using insert_certificate_effect [OF db2] by metis
  define a where "a = \<lparr>ra_id = en_RunnerID e, ra_pool = po_id pool, ra_name = en_Name e, ra_serial = Some (cr_Serial (en_Certificate e)),
     ra_version = cap_RunnerVersion (en_Capabilities e), ra_reason = None\<rparr>"
  have fresh: "en_RunnerID e \<notin> ra_id ` set (fl_accounts db)" "en_RunnerID e \<notin> rn_id ` set (pg_runners (fl_pg db))"
    and db1': "db1 = db\<lparr>fl_pg := (fl_pg db)\<lparr>pg_runners := pg_runners (fl_pg db) @
                     [new_runner (en_RunnerID e) (po_type pool) labels (en_Capabilities e)]\<rparr>, fl_accounts := fl_accounts db @ [a]\<rparr>"
    using db1 by (auto simp: insert_runner_def a_def list_ex_iff split: if_splits)
  have checks: "certificate_checks c (db\<lparr>fl_accounts := fl_accounts db @ [a]\<rparr>)" using c(2) by (simp add: db1' certificate_checks_def)
  have tok: "t \<in> set (fl_tokens db)" "token_usable now (en_TokenDigest e) t" using t by (auto simp: find_Some_iff)
  show ?thesis
    by (rule enrolled [OF tok pool labels _ checks c(3-9) _ _ _ _ _ fresh(1) _ fresh(2) _ _ _ i])
      (use fleet_audit_effect [OF f] db3 c(1) db1' in
        \<open>auto simp: a_def consume_token_def Let_def fleet_log_def enrolled_event_def split: if_splits\<close>)
qed

text \<open>A rotation leaves everything as it was (a retry) or retires the old certificate and adds the new one.\<close>

lemma rotate_effect:
  assumes "RotateRunnerCertificate env newID now r db = Inr (db', issued)"
  obtains (retry) "db' = db" "cr_Serial issued \<in> ct_serial ` set (fl_certs db)"
  | (rotated) old c until where "old \<in> set (fl_certs db)" "ct_serial old = ro_OldSerial r" "ct_runner old = ro_RunnerID r" "ct_state old = CertActive"
    "List.find (\<lambda>c. ct_serial c = ro_OldSerial r \<and> ct_runner c = ro_RunnerID r) (fl_certs db) = Some old"
    "replacementCertificate (ct_id old) db = Inr None"
    "enabled_runner (ro_RunnerID r) (fl_pg db) \<noteq> None" "0 < ro_GracePeriod r"
    "until = min (ct_not_after old) (now + ro_GracePeriod r)" "ro_GracePeriod r \<le> RotationGracePeriod"
    "issued = (ro_Certificate r)\<lparr>cr_PreviousValidUntil := until\<rparr>"
    "fl_certs db' = update_where (\<lambda>c. ct_id c = ct_id old \<and> ct_state c = CertActive)
       (\<lambda>c. c\<lparr>ct_state := CertRetiring, ct_retire_at := Some until\<rparr>) (fl_certs db) @ [c]"
    "certificate_checks c (retire_certificate now (ct_id old) until db)" "ct_id c = newID" "ct_runner c = ro_RunnerID r"
    "ct_serial c = cr_Serial (ro_Certificate r)" "ct_csr c = cr_CSRFingerprint (ro_Certificate r)"
    "ct_public c = cr_PublicKeyFingerprint (ro_Certificate r)" "ct_chain c = cr_ChainPEM (ro_Certificate r)"
    "ct_state c = CertActive" "ct_not_before c = cr_NotBefore (ro_Certificate r)" "ct_not_after c = cr_NotAfter (ro_Certificate r)"
    "ct_replaces c = Some (ct_id old)"
    "fl_accounts db' = update_where (\<lambda>a. ra_id a = ro_RunnerID r) (\<lambda>a. a\<lparr>ra_serial := Some (cr_Serial (ro_Certificate r))\<rparr>) (fl_accounts db)"
    "fl_tokens db' = fl_tokens db" "fl_pools db' = fl_pools db" "pg_runners (fl_pg db') = pg_runners (fl_pg db)"
    "\<exists>e. fleet_log db' = fleet_log db @ [e] \<and> \<not> is_enrolment e"
proof -
  have grace: "0 < ro_GracePeriod r" "ro_GracePeriod r \<le> RotationGracePeriod"
    using assms by (auto simp: RotateRunnerCertificate_def split: if_splits)
  obtain old n existing where find: "List.find (\<lambda>c. ct_serial c = ro_OldSerial r \<and> ct_runner c = ro_RunnerID r) (fl_certs db) = Some old"
    and n: "enabled_runner (ro_RunnerID r) (fl_pg db) = Some n" and ex: "replacementCertificate (ct_id old) db = Inr existing"
    using assms grace by (auto simp: RotateRunnerCertificate_def and_then_Inr split: option.splits if_splits)
  have old: "old \<in> set (fl_certs db)" "ct_serial old = ro_OldSerial r" "ct_runner old = ro_RunnerID r" using find by (auto simp: find_Some_iff)
  show ?thesis
  proof (cases existing)
    case (Some x)
    then have "db' = db" "issued = x" using assms grace find n ex by (auto simp: RotateRunnerCertificate_def split: if_splits)
    moreover have "cr_Serial x \<in> ct_serial ` set (fl_certs db)"
      using ex Some by (auto simp: replacementCertificate_def split: option.splits if_splits dest!: find_SomeD)
    ultimately show ?thesis using retry by simp
  next
    case None
    define until where "until = min (ct_not_after old) (now + ro_GracePeriod r)"
    have active: "ct_state old = CertActive" using assms grace find n ex None by (auto simp: RotateRunnerCertificate_def split: if_splits)
    obtain db1 where issued: "issued = (ro_Certificate r)\<lparr>cr_PreviousValidUntil := until\<rparr>"
      and db1: "insertRunnerCertificate newID (ro_RunnerID r) issued (Some (ct_id old)) (retire_certificate now (ct_id old) until db) = Inr db1"
      and f: "fleet_audit env None ''runner_certificate.rotated'' ''runner'' (ro_RunnerID r)
          [(''old_serial'', ro_OldSerial r), (''new_serial'', cr_Serial issued), (''grace_seconds'', FormatInt (ro_GracePeriod r div Second))]
          (set_serial (ro_RunnerID r) (cr_Serial issued) db1) = Inr db'"
      using assms grace find n ex None active by (auto simp: RotateRunnerCertificate_def and_then_Inr until_def Let_def split: if_splits)
    obtain c where c: "db1 = (retire_certificate now (ct_id old) until db)\<lparr>fl_certs := fl_certs (retire_certificate now (ct_id old) until db) @ [c]\<rparr>"
      "certificate_checks c (retire_certificate now (ct_id old) until db)" "ct_id c = newID" "ct_runner c = ro_RunnerID r"
      "ct_serial c = cr_Serial issued" "ct_csr c = cr_CSRFingerprint issued" "ct_public c = cr_PublicKeyFingerprint issued"
      "ct_chain c = cr_ChainPEM issued" "ct_state c = CertActive"
      "ct_not_before c = cr_NotBefore issued" "ct_not_after c = cr_NotAfter issued" "ct_replaces c = Some (ct_id old)"
      using insert_certificate_effect [OF db1] by metis
    note eff = fleet_audit_effect [OF f]
    have some: "enabled_runner (ro_RunnerID r) (fl_pg db) \<noteq> None" using n by simp
    have ex0: "replacementCertificate (ct_id old) db = Inr None" using ex None by simp
    show ?thesis
      by (rule rotated [OF old active find ex0 some grace(1) until_def grace(2) issued _ c(2-4)])
        (use eff c in \<open>auto simp: issued retire_certificate_def set_serial_def fleet_log_def is_enrolment_def\<close>)
  qed
qed

lemma revoke_certificates_effect:
  assumes "revoke_certificates now reason p db = Inr db'"
  shows "db' = db\<lparr>fl_certs := update_where (\<lambda>c. p c \<and> usable_state c) (revoke_row now reason) (fl_certs db)\<rparr>"
  using assms by (auto simp: revoke_certificates_def Let_def split: if_splits)

lemma disable_effect:
  assumes "DisableRunner env now runnerID reason actor db = Inr db'"
  shows "fl_certs db' = update_where (\<lambda>c. ct_runner c = runnerID \<and> usable_state c) (revoke_row now reason) (fl_certs db)"
    "pg_runners (fl_pg db') = update_where (\<lambda>n. rn_id n = runnerID \<and> rn_status n \<noteq> ''disabled'') (\<lambda>n. n\<lparr>rn_status := ''disabled''\<rparr>)
       (pg_runners (fl_pg db))"
    "fl_accounts db' = update_where (\<lambda>a. ra_id a = runnerID) (\<lambda>a. a\<lparr>ra_serial := None, ra_reason := Some reason\<rparr>) (fl_accounts db)"
    "fl_tokens db' = fl_tokens db" "fl_pools db' = fl_pools db" "\<exists>e. fleet_log db' = fleet_log db @ [e] \<and> \<not> is_enrolment e"
proof -
  obtain db1 where db1: "revoke_certificates now reason (\<lambda>c. ct_runner c = runnerID) (disable_rows runnerID reason db) = Inr db1"
    and f: "fleet_audit env actor ''runner.disabled'' ''runner'' runnerID [(''reason'', reason)] db1 = Inr db'"
    using assms by (auto simp: DisableRunner_def and_then_Inr split: if_splits)
  note eff = fleet_audit_effect [OF f] revoke_certificates_effect [OF db1]
  show "fl_certs db' = update_where (\<lambda>c. ct_runner c = runnerID \<and> usable_state c) (revoke_row now reason) (fl_certs db)"
    "pg_runners (fl_pg db') = update_where (\<lambda>n. rn_id n = runnerID \<and> rn_status n \<noteq> ''disabled'') (\<lambda>n. n\<lparr>rn_status := ''disabled''\<rparr>)
       (pg_runners (fl_pg db))"
    "fl_accounts db' = update_where (\<lambda>a. ra_id a = runnerID) (\<lambda>a. a\<lparr>ra_serial := None, ra_reason := Some reason\<rparr>) (fl_accounts db)"
    "fl_tokens db' = fl_tokens db" "fl_pools db' = fl_pools db" "\<exists>e. fleet_log db' = fleet_log db @ [e] \<and> \<not> is_enrolment e"
    using eff by (auto simp: disable_rows_def fleet_log_def is_enrolment_def)
qed

lemma revoke_effect:
  assumes "RevokeRunnerCertificate env now serial reason actor db = Inr db'"
  shows "fl_certs db' = update_where (\<lambda>c. ct_serial c = serial \<and> usable_state c) (revoke_row now reason) (fl_certs db)"
    "\<exists>runner. fl_accounts db' = update_where (\<lambda>a. ra_id a = runner \<and> ra_serial a = Some serial) (\<lambda>a. a\<lparr>ra_serial := None\<rparr>) (fl_accounts db)"
    "pg_runners (fl_pg db') = pg_runners (fl_pg db)"
    "fl_tokens db' = fl_tokens db" "fl_pools db' = fl_pools db" "\<exists>e. fleet_log db' = fleet_log db @ [e] \<and> \<not> is_enrolment e"
    "fl_pg db' = write_event (last (fleet_log db')) (fl_pg db)"
proof -
  obtain c where c: "List.find (\<lambda>c. ct_serial c = serial \<and> usable_state c) (fl_certs db) = Some c"
    using assms by (auto simp: RevokeRunnerCertificate_def split: if_splits option.splits)
  obtain db1 where db1: "revoke_certificates now reason (\<lambda>x. ct_serial x = serial) db = Inr db1"
    and f: "fleet_audit env actor ''runner_certificate.revoked'' ''runner'' (ct_runner c) [(''serial'', serial), (''reason'', reason)]
       (db1\<lparr>fl_accounts := update_where (\<lambda>a. ra_id a = ct_runner c \<and> ra_serial a = Some serial)
                      (\<lambda>a. a\<lparr>ra_serial := None\<rparr>) (fl_accounts db1)\<rparr>) = Inr db'"
    using assms c by (auto simp: RevokeRunnerCertificate_def and_then_Inr split: if_splits)
  note eff = fleet_audit_effect [OF f] revoke_certificates_effect [OF db1]
  show "fl_certs db' = update_where (\<lambda>c. ct_serial c = serial \<and> usable_state c) (revoke_row now reason) (fl_certs db)"
    "\<exists>runner. fl_accounts db' = update_where (\<lambda>a. ra_id a = runner \<and> ra_serial a = Some serial) (\<lambda>a. a\<lparr>ra_serial := None\<rparr>) (fl_accounts db)"
    "pg_runners (fl_pg db') = pg_runners (fl_pg db)"
    "fl_tokens db' = fl_tokens db" "fl_pools db' = fl_pools db" "\<exists>e. fleet_log db' = fleet_log db @ [e] \<and> \<not> is_enrolment e"
    using eff by (auto simp: fleet_log_def is_enrolment_def)
  show "fl_pg db' = write_event (last (fleet_log db')) (fl_pg db)"
    using f eff by (auto simp: fleet_audit_def appendRunnerAudit_def write_event_def fleet_log_def split: if_splits)
qed

lemma heartbeat_effect:
  assumes "Store_RenewRunnerLeases env now hb pg = Inr (pg', answer)"
  obtains n where "enabled_runner (rd_ID (hb_Runner hb)) pg = Some n" "rn_pool n = rd_PoolType (hb_Runner hb)"
    "pg_runners pg' = update_where (\<lambda>n. rn_id n = rd_ID (hb_Runner hb)) (heartbeat_runner now (hb_Runner hb)) (pg_runners pg)"
    "pg_identity pg' = pg_identity pg"
proof -
  have step: "pg_runners (fst (renew_row env now r a acc)) = pg_runners (fst acc) \<and> pg_identity (fst (renew_row env now r a acc)) = pg_identity (fst acc)"
    for r a acc by (cases acc) (simp add: renew_row_def Let_def update_jobs_def)
  have fold: "pg_runners (fst (fold (renew_row env now r) as acc)) = pg_runners (fst acc) \<and>
     pg_identity (fst (fold (renew_row env now r) as acc)) = pg_identity (fst acc)" for r as acc
    by (induction as arbitrary: acc) (simp_all add: step)
  define db1 where "db1 = pg\<lparr>pg_runners := update_where (\<lambda>n. rn_id n = rd_ID (hb_Runner hb)) (heartbeat_runner now (hb_Runner hb)) (pg_runners pg)\<rparr>"
  obtain n where n: "enabled_runner (rd_ID (hb_Runner hb)) pg = Some n" "rn_pool n = rd_PoolType (hb_Runner hb)"
    "pg' = fst (fold (renew_row env now (rd_ID (hb_Runner hb))) (hb_ActiveJobs hb) (db1, []))"
    using assms by (auto simp: Store_RenewRunnerLeases_def Let_def db1_def split: if_splits option.splits prod.splits)
  show ?thesis by (rule that [OF n(1,2)]) (simp_all add: n(3) fold db1_def)
qed

section \<open>The transition system\<close>

inductive fleet_step :: "'a fleet_env_scheme \<Rightarrow> fleet_db \<Rightarrow> fleet_db \<Rightarrow> bool" for env where
  issue: "CreateRegistrationToken env now t db = Inr db' \<Longrightarrow> fleet_step env db db'"
| enroll: "EnrollRunner env cid now e db = Inr (db', i) \<Longrightarrow> fleet_step env db db'"
| rotate: "RotateRunnerCertificate env newID now r db = Inr (db', issued) \<Longrightarrow> fleet_step env db db'"
| disable: "DisableRunner env now runner reason actor db = Inr db' \<Longrightarrow> fleet_step env db db'"
| revoke: "RevokeRunnerCertificate env now serial reason actor db = Inr db' \<Longrightarrow> fleet_step env db db'"
| heartbeat: "Store_RenewRunnerLeases (fe_pg env) now hb (fl_pg db) = Inr (pg', answer) \<Longrightarrow> fleet_step env db (db\<lparr>fl_pg := pg'\<rparr>)"
| pool: "po_id p \<notin> po_id ` set (fl_pools db) \<Longrightarrow> fleet_step env db (db\<lparr>fl_pools := fl_pools db @ [p]\<rparr>)"
| elsewhere: "pg_runners pg' = pg_runners (fl_pg db) \<Longrightarrow> db_audit (pg_identity pg') = fleet_log db @ es \<Longrightarrow>
     list_all (\<lambda>e. \<not> is_enrolment e) es \<Longrightarrow> fleet_step env db (db\<lparr>fl_pg := pg'\<rparr>)"

abbreviation fleet_steps :: "'a fleet_env_scheme \<Rightarrow> fleet_db \<Rightarrow> fleet_db \<Rightarrow> bool" where
  "fleet_steps env \<equiv> (fleet_step env)\<^sup>*\<^sup>*"

text \<open>Before the first token there are no runners.\<close>

definition fleet_start :: "fleet_db \<Rightarrow> bool" where
  "fleet_start db \<longleftrightarrow> fl_accounts db = [] \<and> fl_tokens db = [] \<and> fl_certs db = [] \<and> pg_runners (fl_pg db) = [] \<and> fleet_log db = [] \<and>
     distinct (map po_id (fl_pools db))"

text \<open>An invariant holds in every state that is reached from a start.\<close>

lemma fleet_invariant:
  assumes "fleet_start start" and "fleet_steps env start db" and "\<And>db. fleet_start db \<Longrightarrow> P db"
    and "\<And>db db'. fleet_step env db db' \<Longrightarrow> P db \<Longrightarrow> P db'"
  shows "P db"
  using assms(2) by (induction rule: rtranclp_induct) (use assms in auto)

section \<open>Certificates through the steps\<close>

definition cert_ident :: "certificate_row \<Rightarrow> uuid \<times> uuid \<times> string \<times> bytes \<times> gotime \<times> gotime \<times> uuid option" where
  "cert_ident c = (ct_id c, ct_runner c, ct_serial c, ct_csr c, ct_not_before c, ct_not_after c, ct_replaces c)"

text \<open>A step changes certificates that can be used, and adds at most one, with a new serial.\<close>

definition certs_step :: "fleet_db \<Rightarrow> fleet_db \<Rightarrow> bool" where
  "certs_step db db' \<longleftrightarrow>
     (\<exists>p f new. fl_certs db' = update_where p f (fl_certs db) @ new \<and> (\<forall>c. p c \<longrightarrow> usable_state c) \<and>
        (\<forall>c. cert_ident (f c) = cert_ident c) \<and> (\<forall>c. ct_state (f c) \<noteq> CertActive) \<and>
        (new = [] \<or> (\<exists>c. new = [c] \<and> ct_serial c \<notin> ct_serial ` set (fl_certs db) \<and> ct_id c \<notin> ct_id ` set (fl_certs db) \<and> ct_runner c \<in> ra_id ` set (fl_accounts db') \<and>
           (\<forall>x\<in>set (update_where p f (fl_certs db)). ct_runner x = ct_runner c \<longrightarrow> ct_state x \<noteq> CertActive))))"

lemma update_where_False: "update_where (\<lambda>_. False) f rows = rows"
  by (simp add: update_where_def)

lemma certs_unchanged: "fl_certs db' = fl_certs db \<Longrightarrow> certs_step db db'"
  unfolding certs_step_def
  by (rule exI [of _ "\<lambda>_. False"], rule exI [of _ "\<lambda>c. c\<lparr>ct_state := CertExpired\<rparr>"], rule exI [of _ "[]"])
    (simp add: update_where_False cert_ident_def)

lemma certs_revoked:
  "fl_certs db' = update_where (\<lambda>c. p c \<and> usable_state c) (revoke_row now reason) (fl_certs db) \<Longrightarrow> certs_step db db'"
  unfolding certs_step_def
  by (rule exI [of _ "\<lambda>c. p c \<and> usable_state c"], rule exI [of _ "revoke_row now reason"], rule exI [of _ "[]"])
    (simp add: cert_ident_def revoke_row_def)

lemma fleet_step_certs:
  assumes "fleet_step env db db'"
  shows "certs_step db db'"
  using assms
proof cases
  case (issue now t)
  then show ?thesis by (elim create_effect) (simp add: certs_unchanged)
next
  case (enroll cid now e i)
  obtain c a where c: "fl_certs db' = fl_certs db @ [c]" "certificate_checks c (db\<lparr>fl_accounts := fl_accounts db @ [a]\<rparr>)"
    "fl_accounts db' = fl_accounts db @ [a]"
    by (rule enroll_effect [OF enroll]) blast
  have "ct_runner c \<in> ra_id ` set (fl_accounts db')" using c(2,3) by (force simp: certificate_checks_def list_ex_iff)
  with c(1,2) show ?thesis unfolding certs_step_def
    by (intro exI [of _ "\<lambda>_. False"] exI [of _ "\<lambda>c. c\<lparr>ct_state := CertExpired\<rparr>"] exI [of _ "[c]"])
      (auto simp: update_where_False cert_ident_def certificate_checks_def list_ex_iff)
next
  case (rotate newID now r issued)
  then show ?thesis
  proof (cases rule: rotate_effect)
    case retry
    then show ?thesis by (simp add: certs_unchanged)
  next
    case (rotated old c until)
    let ?p = "\<lambda>c. ct_id c = ct_id old \<and> ct_state c = CertActive"
    let ?f = "\<lambda>c. c\<lparr>ct_state := CertRetiring, ct_retire_at := Some until\<rparr>"
    have accounts: "ra_id ` set (fl_accounts db') = ra_id ` set (fl_accounts db)" unfolding rotated(24) by simp
    have fresh: "\<forall>x\<in>set (update_where ?p ?f (fl_certs db)). ct_serial x \<noteq> ct_serial c \<and> ct_id x \<noteq> ct_id c \<and>
        (ct_runner x = ct_runner c \<longrightarrow> ct_state x \<noteq> CertActive)"
      and known: "ct_runner c \<in> ra_id ` set (fl_accounts db)"
      using rotated(13) by (force simp: certificate_checks_def list_ex_iff retire_certificate_def)+
    have same: "ct_serial ` set (update_where ?p ?f (fl_certs db)) = ct_serial ` set (fl_certs db)"
      "ct_id ` set (update_where ?p ?f (fl_certs db)) = ct_id ` set (fl_certs db)" by simp_all
    have "ct_serial c \<notin> ct_serial ` set (update_where ?p ?f (fl_certs db))" "ct_id c \<notin> ct_id ` set (update_where ?p ?f (fl_certs db))"
      using fresh by (fastforce simp del: image_update_where)+
    then have "ct_serial c \<notin> ct_serial ` set (fl_certs db)" "ct_id c \<notin> ct_id ` set (fl_certs db)" unfolding same by simp_all
    then show ?thesis unfolding certs_step_def accounts
      using fresh known rotated(12)
      by (intro exI [of _ ?p] exI [of _ ?f] exI [of _ "[c]"]) (simp add: cert_ident_def usable_state_def)
  qed
next
  case (disable now runner reason actor)
  show ?thesis by (rule certs_revoked [OF disable_effect(1) [OF disable]])
next
  case (revoke now serial reason actor)
  show ?thesis by (rule certs_revoked [OF revoke_effect(1) [OF revoke]])
qed (simp_all add: certs_unchanged)

text \<open>Serials are unique, and a runner has at most one active certificate.\<close>

definition certs_ok :: "fleet_db \<Rightarrow> bool" where
  "certs_ok db \<longleftrightarrow> distinct (map ct_serial (fl_certs db)) \<and> distinct (map ct_id (fl_certs db)) \<and>
     (\<forall>c\<in>set (fl_certs db). \<forall>d\<in>set (fl_certs db). ct_runner c = ct_runner d \<and> ct_state c = CertActive \<and> ct_state d = CertActive \<longrightarrow> c = d)"

lemma certs_unique:
  assumes "certs_ok db" and "x \<in> set (fl_certs db)" and "y \<in> set (fl_certs db)"
  shows "ct_serial x = ct_serial y \<Longrightarrow> x = y" and "ct_id x = ct_id y \<Longrightarrow> x = y"
  using assms by (auto simp: certs_ok_def distinct_map dest: inj_onD)

lemma certs_ok_step:
  assumes "certs_step db db'" and "certs_ok db"
  shows "certs_ok db'"
proof -
  obtain p f new where s: "fl_certs db' = update_where p f (fl_certs db) @ new" "\<And>c. cert_ident (f c) = cert_ident c"
    "\<And>c. ct_state (f c) \<noteq> CertActive"
    and n: "new = [] \<or> (\<exists>c. new = [c] \<and> ct_serial c \<notin> ct_serial ` set (fl_certs db) \<and> ct_id c \<notin> ct_id ` set (fl_certs db) \<and>
           (\<forall>x\<in>set (update_where p f (fl_certs db)). ct_runner x = ct_runner c \<longrightarrow> ct_state x \<noteq> CertActive))"
    using assms(1) unfolding certs_step_def by blast
  have ser: "ct_serial (f c) = ct_serial c" "ct_id (f c) = ct_id c" for c using s(2) [of c] by (simp_all add: cert_ident_def)
  have maps: "map ct_serial (update_where p f (fl_certs db)) = map ct_serial (fl_certs db)"
    "map ct_id (update_where p f (fl_certs db)) = map ct_id (fl_certs db)" using ser by simp_all
  have d: "distinct (map ct_serial (fl_certs db'))" "distinct (map ct_id (fl_certs db'))"
    using n assms(2) unfolding s(1) map_append maps certs_ok_def by (elim disjE exE conjE; simp; metis imageI)+
  have one: "c = d" if "c \<in> set (update_where p f (fl_certs db))" "d \<in> set (update_where p f (fl_certs db))"
    "ct_runner c = ct_runner d" "ct_state c = CertActive" "ct_state d = CertActive" for c d
    using that assms(2) s(3) by (auto simp: certs_ok_def set_update_where)
  show ?thesis using d n one unfolding certs_ok_def s(1) by fastforce
qed

lemma reachable_certs:
  assumes "fleet_start start" and "fleet_steps env start db"
  shows "certs_ok db"
  by (rule fleet_invariant [OF assms]) (simp add: fleet_start_def certs_ok_def, rule certs_ok_step [OF fleet_step_certs])

section \<open>Revocation is final\<close>

definition dead_serial :: "string \<Rightarrow> fleet_db \<Rightarrow> bool" where
  "dead_serial serial db \<longleftrightarrow> serial \<in> ct_serial ` set (fl_certs db) \<and> (\<forall>c\<in>set (fl_certs db). ct_serial c = serial \<longrightarrow> \<not> usable_state c)"

lemma dead_serial_step:
  assumes "fleet_step env db db'" and "dead_serial serial db"
  shows "dead_serial serial db'"
proof -
  obtain p f new where s: "fl_certs db' = update_where p f (fl_certs db) @ new" "\<And>c. p c \<Longrightarrow> usable_state c" "\<And>c. cert_ident (f c) = cert_ident c"
    and n: "new = [] \<or> (\<exists>c. new = [c] \<and> ct_serial c \<notin> ct_serial ` set (fl_certs db))"
    using fleet_step_certs [OF assms(1)] unfolding certs_step_def by blast
  have ser: "ct_serial (f c) = ct_serial c" for c using s(3) [of c] by (simp add: cert_ident_def)
  have same: "ct_serial ` set (update_where p f (fl_certs db)) = ct_serial ` set (fl_certs db)" using ser by simp
  have "\<not> usable_state c" if "c \<in> set (update_where p f (fl_certs db))" "ct_serial c = serial" for c
    using that assms(2) s(2) ser by (auto simp: dead_serial_def set_update_where)
  then show ?thesis using assms(2) n same by (auto simp: dead_serial_def s(1))
qed

lemma dead_serial_steps: "fleet_steps env db db' \<Longrightarrow> dead_serial serial db \<Longrightarrow> dead_serial serial db'"
  by (induction rule: rtranclp_induct) (auto intro: dead_serial_step)

lemma dead_serial_denied: "dead_serial serial db \<Longrightarrow> AuthenticateRunner now runner serial db = Inl RunnerDenied"
  by (auto simp: AuthenticateRunner_def dead_serial_def certificate_live_def usable_state_def find_Some_iff split: option.splits)

lemma revoked_dead:
  assumes "RevokeRunnerCertificate env now serial reason actor db = Inr db'"
  shows "dead_serial serial db'"
proof -
  have "List.find (\<lambda>c. ct_serial c = serial \<and> usable_state c) (fl_certs db) \<noteq> None"
    using assms by (auto simp: RevokeRunnerCertificate_def split: if_splits option.splits)
  then obtain c where "c \<in> set (fl_certs db)" "ct_serial c = serial" by (auto simp: find_None_iff)
  moreover have "ct_serial ` set (fl_certs db') = ct_serial ` set (fl_certs db)" by (simp add: revoke_effect(1) [OF assms] revoke_row_def)
  ultimately have "serial \<in> ct_serial ` set (fl_certs db')" by blast
  moreover have "\<not> usable_state c" if "c \<in> set (fl_certs db')" "ct_serial c = serial" for c
    using that(1) unfolding revoke_effect(1) [OF assms]
    by (rule update_whereE) (use that(2) in \<open>simp_all add: revoke_row_def usable_state_def\<close>)
  ultimately show ?thesis by (simp add: dead_serial_def)
qed

text \<open>
  C10 (safety). A revoked certificate is dead: whatever happens after its revocation, other rotations and enrolments included, nobody is
  authenticated with a certificate of its serial, and it cannot be rotated.
\<close>

theorem revoked_certificate_dead:
  assumes "RevokeRunnerCertificate env now serial reason actor db = Inr db1" and "fleet_steps env db1 db2"
  shows "(serial_text certificate = serial \<longrightarrow> Authenticate aenv later certificate db2 = Inl RunnerDenied) \<and>
    (ro_OldSerial r = serial \<longrightarrow> RotateRunnerCertificate env newID later r db2 = Inr (db3, issued) \<longrightarrow> db3 = db2)"
proof -
  have dead: "dead_serial serial db2" using dead_serial_steps [OF assms(2) revoked_dead [OF assms(1)]] .
  have f1: "Authenticate aenv later certificate db2 = Inl RunnerDenied" if "serial_text certificate = serial"
  proof (cases "CertificateIdentity aenv certificate")
    case (Some x)
    then have "snd x = serial" using that
      by (auto simp: CertificateIdentity_def Let_def split: if_splits option.splits)
    then show ?thesis using Some dead_serial_denied [OF dead] by (cases x) (simp add: Authenticate_def)
  qed (simp add: Authenticate_def)
  have f2: "db3 = db2" if "ro_OldSerial r = serial" "RotateRunnerCertificate env newID later r db2 = Inr (db3, issued)"
    using that(2)
  proof (cases rule: rotate_effect)
    case (rotated old c until)
    then show ?thesis using dead that(1) by (auto simp: dead_serial_def usable_state_def)
  qed
  show ?thesis using f1 f2 by blast
qed

section \<open>A disabled runner is locked out\<close>

definition runner_disabled :: "uuid \<Rightarrow> fleet_db \<Rightarrow> bool" where
  "runner_disabled runner db \<longleftrightarrow> runner \<in> rn_id ` set (pg_runners (fl_pg db)) \<and> enabled_runner runner (fl_pg db) = None"

lemma enabled_runner_None: "enabled_runner runner pg = None \<longleftrightarrow> (\<forall>n\<in>set (pg_runners pg). rn_id n = runner \<longrightarrow> rn_status n = ''disabled'')"
  by (auto simp: enabled_runner_def find_None_iff)

lemma disabled_same: "pg_runners (fl_pg db') = pg_runners (fl_pg db) \<Longrightarrow> runner_disabled runner db \<Longrightarrow> runner_disabled runner db'"
  by (simp add: runner_disabled_def enabled_runner_None)

lemma runner_disabled_step:
  assumes "fleet_step env db db'" and "runner_disabled runner db"
  shows "runner_disabled runner db'"
  using assms(1)
proof cases
  case (issue now t)
  then show ?thesis by (rule create_effect) (rule disabled_same [OF _ assms(2)])
next
  case (enroll cid now e i)
  then show ?thesis
  proof (cases rule: enroll_effect)
    case (enrolled t pool labels c a)
    have "runner \<noteq> en_RunnerID e" using assms(2) enrolled(22) unfolding runner_disabled_def by metis
    then show ?thesis using assms(2) by (auto simp: runner_disabled_def enabled_runner_None enrolled(21) new_runner_def)
  qed
next
  case (rotate newID now r issued)
  then show ?thesis
  proof (cases rule: rotate_effect)
    case retry
    then show ?thesis using assms(2) by simp
  next
    case rotated
    show ?thesis by (rule disabled_same [OF rotated(27) assms(2)])
  qed
next
  case (disable now r reason actor)
  have "rn_id ` set (pg_runners (fl_pg db')) = rn_id ` set (pg_runners (fl_pg db))" by (simp add: disable_effect(2) [OF disable])
  moreover have "rn_status n = ''disabled''" if "n \<in> set (pg_runners (fl_pg db'))" "rn_id n = runner" for n
    using that assms(2) by (auto simp: disable_effect(2) [OF disable] set_update_where runner_disabled_def enabled_runner_None)
  ultimately show ?thesis using assms(2) by (simp add: runner_disabled_def enabled_runner_None)
next
  case (revoke now serial reason actor)
  show ?thesis by (rule disabled_same [OF revoke_effect(3) [OF revoke] assms(2)])
next
  case (heartbeat now hb pg' answer)
  obtain n where n: "enabled_runner (rd_ID (hb_Runner hb)) (fl_pg db) = Some n"
    "pg_runners pg' = update_where (\<lambda>n. rn_id n = rd_ID (hb_Runner hb)) (heartbeat_runner now (hb_Runner hb)) (pg_runners (fl_pg db))"
    using heartbeat_effect [OF heartbeat(2)] by metis
  have other: "rd_ID (hb_Runner hb) \<noteq> runner" using n(1) assms(2) by (auto simp: runner_disabled_def)
  then have "runner \<in> rn_id ` set (pg_runners pg')" using assms(2) by (auto simp: runner_disabled_def n(2) heartbeat_runner_def)
  moreover have "rn_status x = ''disabled''" if "x \<in> set (pg_runners pg')" "rn_id x = runner" for x
    using that other assms(2) by (auto simp: n(2) set_update_where runner_disabled_def enabled_runner_None heartbeat_runner_def)
  ultimately show ?thesis by (simp add: heartbeat(1) runner_disabled_def enabled_runner_None)
next
  case (pool p)
  then show ?thesis using assms(2) by (simp add: runner_disabled_def)
next
  case (elsewhere pg' es)
  then show ?thesis by (intro disabled_same [OF _ assms(2)]) simp
qed

lemma runner_disabled_steps: "fleet_steps env db db' \<Longrightarrow> runner_disabled runner db \<Longrightarrow> runner_disabled runner db'"
  by (induction rule: rtranclp_induct) (auto intro: runner_disabled_step)

lemma disable_disables:
  assumes "DisableRunner env now runner reason actor db = Inr db'"
  shows "runner_disabled runner db'"
proof -
  have "affected (\<lambda>n. rn_id n = runner \<and> rn_status n \<noteq> ''disabled'') (pg_runners (fl_pg db)) = 1"
    using assms by (auto simp: DisableRunner_def split: if_splits)
  then have "filter (\<lambda>n. rn_id n = runner \<and> rn_status n \<noteq> ''disabled'') (pg_runners (fl_pg db)) \<noteq> []"
    by (auto simp: affected_def)
  then obtain n where "n \<in> set (pg_runners (fl_pg db))" "rn_id n = runner" by (auto simp: filter_empty_conv)
  moreover have "rn_id ` set (pg_runners (fl_pg db')) = rn_id ` set (pg_runners (fl_pg db))" by (simp add: disable_effect(2) [OF assms])
  ultimately have "runner \<in> rn_id ` set (pg_runners (fl_pg db'))" by blast
  moreover have "rn_status n = ''disabled''" if "n \<in> set (pg_runners (fl_pg db'))" "rn_id n = runner" for n
    using that(1) unfolding disable_effect(2) [OF assms] by (rule update_whereE) (use that(2) in simp_all)
  ultimately show ?thesis by (simp add: runner_disabled_def enabled_runner_None)
qed

text \<open>
  C11 (safety). A disabled runner is locked out for ever: no certificate authenticates it, its certificates are not rotated, its
  heartbeats are refused, and it gets no job, even over a connection that was opened before.
\<close>

theorem disabled_runner_locked_out:
  assumes "DisableRunner env now runner reason actor db = Inr db1" and "fleet_steps env db1 db2"
  shows "AuthenticateRunner later runner serial db2 = Inl RunnerDenied \<and>
    (ro_RunnerID r = runner \<longrightarrow> RotateRunnerCertificate env newID later r db2 = Inl RunnerDenied) \<and>
    (rd_ID (hb_Runner hb) = runner \<longrightarrow> Store_RenewRunnerLeases (fe_pg env) later hb (fl_pg db2) = Inl PgInvalidRunnerRequest) \<and>
    Store_ClaimRunnerJob (fe_pg env) token later runner (fl_pg db2) = Inl PgInvalidRunnerRequest"
proof -
  have none: "enabled_runner runner (fl_pg db2) = None"
    using runner_disabled_steps [OF assms(2) disable_disables [OF assms(1)]] by (simp add: runner_disabled_def)
  have f1: "AuthenticateRunner later runner serial db2 = Inl RunnerDenied"
    by (simp add: AuthenticateRunner_def none split: option.splits)
  have f2: "RotateRunnerCertificate env newID later r db2 = Inl RunnerDenied" if "ro_RunnerID r = runner"
    using that by (simp add: RotateRunnerCertificate_def none split: option.splits)
  have f3: "Store_RenewRunnerLeases (fe_pg env) later hb (fl_pg db2) = Inl PgInvalidRunnerRequest" if "rd_ID (hb_Runner hb) = runner"
    using that by (simp add: Store_RenewRunnerLeases_def none Let_def)
  have f4: "Store_ClaimRunnerJob (fe_pg env) token later runner (fl_pg db2) = Inl PgInvalidRunnerRequest"
    by (simp add: Store_ClaimRunnerJob_def none)
  show ?thesis using f1 f2 f3 f4 by blast
qed

section \<open>What a registration token admits\<close>

definition admitted_by :: "'a fleet_env_scheme \<Rightarrow> uuid \<Rightarrow> AuditEvent \<Rightarrow> bool" where
  "admitted_by env token e \<longleftrightarrow>
     is_enrolment e \<and> map_of (ae_metadata e) ''registration_token_id'' = Some (env_String (fe_pg env) token)"

definition admissions :: "'a fleet_env_scheme \<Rightarrow> uuid \<Rightarrow> fleet_db \<Rightarrow> nat" where
  "admissions env token db = length (filter (admitted_by env token) (fleet_log db))"

definition budget_ok :: "'a fleet_env_scheme \<Rightarrow> fleet_db \<Rightarrow> bool" where
  "budget_ok env db \<longleftrightarrow>
     distinct (map rg_id (fl_tokens db)) \<and>
     (\<forall>t\<in>set (fl_tokens db). int (admissions env (rg_id t) db) = rg_used t \<and> rg_used t \<le> rg_max t) \<and>
     (\<forall>token. admissions env token db \<noteq> 0 \<longrightarrow> token \<in> rg_id ` set (fl_tokens db))"

lemma admissions_same:
  assumes "fleet_log db' = fleet_log db @ es" and "list_all (\<lambda>e. \<not> is_enrolment e) es"
  shows "admissions env token db' = admissions env token db"
proof -
  have "filter (admitted_by env token) es = []" using assms(2) by (auto simp: filter_empty_conv list_all_iff admitted_by_def)
  then show ?thesis by (simp add: admissions_def assms(1))
qed

lemma budget_same:
  assumes "fl_tokens db' = fl_tokens db" and "\<exists>es. fleet_log db' = fleet_log db @ es \<and> list_all (\<lambda>e. \<not> is_enrolment e) es" and "budget_ok env db"
  shows "budget_ok env db'"
  using assms(2,3) by (auto simp: budget_ok_def assms(1) admissions_same)

lemma budget_enroll:
  assumes inj: "inj (env_String (fe_pg env))" and ok: "budget_ok env db" and enroll: "EnrollRunner env cid now e db = Inr (db', i)"
  shows "budget_ok env db'"
proof -
  obtain t and pool :: runner_pool where t: "t \<in> set (fl_tokens db)" "token_usable now (en_TokenDigest e) t"
    and toks: "fl_tokens db' = update_where (\<lambda>r. rg_id r = rg_id t \<and> rg_used r < rg_max r)
       (\<lambda>r. r\<lparr>rg_used := rg_used r + 1, rg_last_used := Some now, rg_last_runner := Some (en_RunnerID e)\<rparr>) (fl_tokens db)"
    and log: "fleet_log db' = fleet_log db @ [enrolled_event env (en_RunnerID e) (po_id pool) (cr_Serial (en_Certificate e)) (rg_id t)]"
    using enroll
  proof (cases rule: enroll_effect)
    case (enrolled t pool labels c a)
    show thesis by (rule that [of t pool]) (fact enrolled)+
  qed
  have adm: "admissions env x db' = admissions env x db + (if x = rg_id t then 1 else 0)" for x
    using injD [OF inj] by (auto simp: admissions_def log admitted_by_def is_enrolment_def enrolled_event_def)
  have uniq: "r = t" if "r \<in> set (fl_tokens db)" "rg_id r = rg_id t" for r
    using that t(1) ok by (auto simp: budget_ok_def distinct_map dest: inj_onD)
  have less: "rg_used t < rg_max t" using t(2) by (simp add: token_usable_def)
  have ids: "map rg_id (fl_tokens db') = map rg_id (fl_tokens db)" by (simp add: toks)
  have idset: "rg_id ` set (fl_tokens db') = rg_id ` set (fl_tokens db)" using ids by (metis list.set_map)
  have "int (admissions env (rg_id r) db') = rg_used r \<and> rg_used r \<le> rg_max r" if "r \<in> set (fl_tokens db')" for r
  proof -
    from that consider (used) x where "x \<in> set (fl_tokens db)" "rg_id x = rg_id t"
        "r = x\<lparr>rg_used := rg_used x + 1, rg_last_used := Some now, rg_last_runner := Some (en_RunnerID e)\<rparr>"
      | (other) "r \<in> set (fl_tokens db)" "\<not> (rg_id r = rg_id t \<and> rg_used r < rg_max r)"
      by (auto simp: toks set_update_where)
    then show ?thesis
    proof cases
      case used
      then show ?thesis using uniq [of x] less ok t(1) by (auto simp: adm budget_ok_def)
    next
      case other
      then show ?thesis using uniq [of r] less ok by (auto simp: adm budget_ok_def)
    qed
  qed
  moreover have "x \<in> rg_id ` set (fl_tokens db')" if "admissions env x db' \<noteq> 0" for x
    using that t(1) ok unfolding idset by (auto simp: adm budget_ok_def split: if_splits)
  ultimately show ?thesis using ok by (simp add: budget_ok_def ids)
qed

lemma budget_step:
  assumes inj: "inj (env_String (fe_pg env))" and "fleet_step env db db'" and ok: "budget_ok env db"
  shows "budget_ok env db'"
  using assms(2)
proof cases
  case (issue now t)
  then show ?thesis
  proof (rule create_effect)
    fix r e
    assume r: "fl_tokens db' = fl_tokens db @ [r]" "rg_id r \<notin> rg_id ` set (fl_tokens db)" "rg_used r = 0" "1 \<le> rg_max r"
      and log: "fleet_log db' = fleet_log db @ [e]" "\<not> is_enrolment e"
    have adm: "admissions env x db' = admissions env x db" for x by (rule admissions_same [OF log(1)]) (simp add: log(2))
    have none: "admissions env (rg_id r) db = 0" using r(2) ok by (auto simp: budget_ok_def)
    show "budget_ok env db'" using ok r none by (auto simp: budget_ok_def adm)
  qed
next
  case (enroll cid now e i)
  then show ?thesis by (rule budget_enroll [OF inj ok])
next
  case (rotate newID now r issued)
  then show ?thesis
  proof (cases rule: rotate_effect)
    case retry
    then show ?thesis using ok by simp
  next
    case rotated
    then show ?thesis by (intro budget_same [OF rotated(25) _ ok]) auto
  qed
next
  case (disable now r reason actor)
  have "\<exists>es. fleet_log db' = fleet_log db @ es \<and> list_all (\<lambda>e. \<not> is_enrolment e) es" using disable_effect(6) [OF disable] by auto
  then show ?thesis by (rule budget_same [OF disable_effect(4) [OF disable] _ ok])
next
  case (revoke now serial reason actor)
  have "\<exists>es. fleet_log db' = fleet_log db @ es \<and> list_all (\<lambda>e. \<not> is_enrolment e) es" using revoke_effect(6) [OF revoke] by auto
  then show ?thesis by (rule budget_same [OF revoke_effect(4) [OF revoke] _ ok])
next
  case (heartbeat now hb pg' answer)
  have "pg_identity pg' = pg_identity (fl_pg db)" using heartbeat_effect [OF heartbeat(2)] by metis
  then show ?thesis unfolding heartbeat(1) by (intro budget_same [OF _ _ ok] exI [of _ "[]"]) (simp_all add: fleet_log_def)
next
  case (pool p)
  then show ?thesis by (intro budget_same [OF _ _ ok] exI [of _ "[]"]) (simp_all add: fleet_log_def)
next
  case (elsewhere pg' es)
  then show ?thesis by (intro budget_same [OF _ _ ok] exI [of _ es]) (simp_all add: fleet_log_def)
qed

text \<open>The limit of a token never changes.\<close>

lemma token_limit_step:
  assumes "fleet_step env db db'" and "t \<in> set (fl_tokens db)"
  shows "\<exists>t'\<in>set (fl_tokens db'). rg_id t' = rg_id t \<and> rg_max t' = rg_max t"
  using assms(1)
proof cases
  case (issue now x)
  then show ?thesis by (rule create_effect) (use assms(2) in auto)
next
  case (enroll cid now e i)
  then show ?thesis
  proof (cases rule: enroll_effect)
    case (enrolled u pool labels c a)
    have "(rg_id t, rg_max t) \<in> (\<lambda>r. (rg_id r, rg_max r)) ` set (fl_tokens db')" unfolding enrolled(23) using assms(2) by simp
    then show ?thesis by auto
  qed
next
  case (rotate newID now r issued)
  then show ?thesis
  proof (cases rule: rotate_effect)
    case retry
    then show ?thesis using assms(2) by auto
  next
    case rotated
    then show ?thesis using assms(2) unfolding rotated(25) by auto
  qed
next
  case (disable now r reason actor)
  then show ?thesis using assms(2) unfolding disable_effect(4) [OF disable] by auto
next
  case (revoke now serial reason actor)
  then show ?thesis using assms(2) unfolding revoke_effect(4) [OF revoke] by auto
qed (use assms(2) in auto)

lemma token_limit_steps:
  assumes "fleet_steps env db db'" and "t \<in> set (fl_tokens db)"
  shows "\<exists>t'\<in>set (fl_tokens db'). rg_id t' = rg_id t \<and> rg_max t' = rg_max t"
  using assms
proof (induction rule: rtranclp_induct)
  case (step y z)
  then obtain t' where "t' \<in> set (fl_tokens y)" "rg_id t' = rg_id t" "rg_max t' = rg_max t" by auto
  then show ?case using token_limit_step [OF step(2)] by metis
qed auto

text \<open>
  C12 (bounds). A registration token admits at most as many runners as it was issued for: whatever happens after it was created, the
  audit log holds at most \<open>MaxUses\<close> enrolments with it.
\<close>

theorem registration_token_budget:
  assumes "inj (env_String (fe_pg env))" and "fleet_start start" and "fleet_steps env start db0"
    and "CreateRegistrationToken env now t db0 = Inr db1" and "fleet_steps env db1 db"
  shows "int (admissions env (rt_ID t) db) \<le> rt_MaxUses t \<and> rt_MaxUses t \<le> 256"
proof -
  from assms(4) obtain r where r: "r \<in> set (fl_tokens db1)" "rg_id r = rt_ID t" "rg_max r = rt_MaxUses t" "rg_max r \<le> 256"
    by (rule create_effect) auto
  obtain r' where r': "r' \<in> set (fl_tokens db)" "rg_id r' = rt_ID t" "rg_max r' = rt_MaxUses t"
    using token_limit_steps [OF assms(5) r(1)] r(2,3) by auto
  have "fleet_steps env start db" using assms(3) fleet_step.issue [OF assms(4)] assms(5) by (meson rtranclp.rtrancl_into_rtrancl rtranclp_trans)
  then have "budget_ok env db"
    by (rule fleet_invariant [OF assms(2)]) (simp add: fleet_start_def budget_ok_def admissions_def, rule budget_step [OF assms(1)])
  then have f0: "int (admissions env (rt_ID t) db) \<le> rt_MaxUses t" using r' by (auto simp: budget_ok_def)
  have f1: "rt_MaxUses t \<le> 256" using r(3,4) by simp
  show ?thesis using f0 f1 by blast
qed

section \<open>Who authenticates was admitted\<close>

text \<open>
  Every account was admitted with a token of its pool, and the row of its runner carries the type of that pool, which is
  also its isolation level.
\<close>

definition admitted :: "'a fleet_env_scheme \<Rightarrow> runner_account \<Rightarrow> fleet_db \<Rightarrow> bool" where
  "admitted env a db \<longleftrightarrow>
     (\<exists>serial. \<exists>t\<in>set (fl_tokens db). rg_pool t = ra_pool a \<and>
        enrolled_event env (ra_id a) (ra_pool a) serial (rg_id t) \<in> set (fleet_log db))"

definition typed :: "runner_account \<Rightarrow> fleet_db \<Rightarrow> bool" where
  "typed a db \<longleftrightarrow>
     (\<exists>p. pool_of (ra_pool a) db = Some p \<and>
        (\<forall>n\<in>set (pg_runners (fl_pg db)). rn_id n = ra_id a \<longrightarrow> rn_pool n = po_type p \<and> rn_isolation n = po_type p))"

definition admission_ok :: "'a fleet_env_scheme \<Rightarrow> fleet_db \<Rightarrow> bool" where
  "admission_ok env db \<longleftrightarrow> (\<forall>a\<in>set (fl_accounts db). admitted env a db \<and> typed a db)"

definition same_account :: "runner_account \<Rightarrow> runner_account \<Rightarrow> bool" where
  "same_account a b \<longleftrightarrow> ra_id a = ra_id b \<and> ra_pool a = ra_pool b"

lemma admitted_mono:
  assumes "admitted env a db" and "same_account b a" and "(\<lambda>t. (rg_id t, rg_pool t)) ` set (fl_tokens db) \<subseteq> (\<lambda>t. (rg_id t, rg_pool t)) ` set (fl_tokens db')"
    and "set (fleet_log db) \<subseteq> set (fleet_log db')"
  shows "admitted env b db'"
proof -
  obtain serial t where t: "t \<in> set (fl_tokens db)" "rg_pool t = ra_pool a"
    "enrolled_event env (ra_id a) (ra_pool a) serial (rg_id t) \<in> set (fleet_log db)"
    using assms(1) by (auto simp: admitted_def)
  then have "(rg_id t, rg_pool t) \<in> (\<lambda>t. (rg_id t, rg_pool t)) ` set (fl_tokens db')" using assms(3) by blast
  then obtain t' where "t' \<in> set (fl_tokens db')" "rg_id t' = rg_id t" "rg_pool t' = rg_pool t" by auto
  then show ?thesis using t assms(2,4) unfolding admitted_def same_account_def by (metis subsetD)
qed

lemma pool_of_append: "pool_of i db = Some p \<Longrightarrow> fl_pools db' = fl_pools db @ ps \<Longrightarrow> pool_of i db' = Some p"
  by (simp add: pool_of_def find_append)

lemma typed_mono:
  assumes "typed a db" and "same_account b a" and "fl_pools db' = fl_pools db @ ps"
    and "\<And>n'. n' \<in> set (pg_runners (fl_pg db')) \<Longrightarrow> rn_id n' = ra_id a \<Longrightarrow>
       \<exists>n\<in>set (pg_runners (fl_pg db)). rn_id n = rn_id n' \<and> rn_pool n = rn_pool n' \<and> (rn_isolation n' = rn_isolation n \<or> rn_isolation n' = rn_pool n)"
  shows "typed b db'"
proof -
  obtain p where p: "pool_of (ra_pool a) db = Some p"
    "\<And>n. n \<in> set (pg_runners (fl_pg db)) \<Longrightarrow> rn_id n = ra_id a \<Longrightarrow> rn_pool n = po_type p \<and> rn_isolation n = po_type p"
    using assms(1) by (auto simp: typed_def)
  have "rn_pool n' = po_type p \<and> rn_isolation n' = po_type p" if "n' \<in> set (pg_runners (fl_pg db'))" "rn_id n' = ra_id a" for n'
    using assms(4) [OF that] p(2) that(2) by metis
  then show ?thesis using pool_of_append [OF p(1) assms(3)] assms(2) by (simp add: typed_def same_account_def)
qed

lemma admission_keeps:
  assumes ok: "admission_ok env db"
    and "\<And>b. b \<in> set (fl_accounts db') \<Longrightarrow> \<exists>a\<in>set (fl_accounts db). same_account b a"
    and "(\<lambda>t. (rg_id t, rg_pool t)) ` set (fl_tokens db) \<subseteq> (\<lambda>t. (rg_id t, rg_pool t)) ` set (fl_tokens db')"
    and "set (fleet_log db) \<subseteq> set (fleet_log db')" and "fl_pools db' = fl_pools db @ ps"
    and "\<And>n'. n' \<in> set (pg_runners (fl_pg db')) \<Longrightarrow>
       \<exists>n\<in>set (pg_runners (fl_pg db)). rn_id n = rn_id n' \<and> rn_pool n = rn_pool n' \<and> (rn_isolation n' = rn_isolation n \<or> rn_isolation n' = rn_pool n)"
  shows "admission_ok env db'"
  unfolding admission_ok_def
proof
  fix b assume "b \<in> set (fl_accounts db')"
  then obtain a where a: "a \<in> set (fl_accounts db)" "same_account b a" using assms(2) by blast
  then have "admitted env a db" "typed a db" using ok by (auto simp: admission_ok_def)
  then show "admitted env b db' \<and> typed b db'"
    using admitted_mono [OF _ a(2) assms(3,4)] typed_mono [OF _ a(2) assms(5)] assms(6) by blast
qed

lemma same_account_refl [simp]: "same_account a a"
  by (simp add: same_account_def)

lemma same_account_update:
  assumes "b \<in> set (update_where p f accounts)" and "\<And>a. same_account (f a) a"
  shows "\<exists>a\<in>set accounts. same_account b a"
  using assms(1) by (rule update_whereE) (use assms(2) same_account_refl in blast)+

lemma same_accounts: "fl_accounts db' = fl_accounts db \<Longrightarrow> b \<in> set (fl_accounts db') \<Longrightarrow> \<exists>a\<in>set (fl_accounts db). same_account b a"
  by (auto intro: bexI [of _ b])

lemma admission_enroll:
  assumes ok: "admission_ok env db" and "EnrollRunner env cid now e db = Inr (db', i)"
  shows "admission_ok env db'"
  using assms(2)
proof (cases rule: enroll_effect)
  case (enrolled t pool labels c a)
  have toks: "(\<lambda>t. (rg_id t, rg_pool t)) ` set (fl_tokens db') = (\<lambda>t. (rg_id t, rg_pool t)) ` set (fl_tokens db)" by (simp add: enrolled(23))
  have old: "admitted env b db' \<and> typed b db'" if "b \<in> set (fl_accounts db)" for b
  proof -
    have "ra_id b \<noteq> en_RunnerID e" using that enrolled(20) by (metis imageI)
    then have run: "\<exists>n\<in>set (pg_runners (fl_pg db)). rn_id n = rn_id n' \<and> rn_pool n = rn_pool n' \<and> (rn_isolation n' = rn_isolation n \<or> rn_isolation n' = rn_pool n)"
      if "n' \<in> set (pg_runners (fl_pg db'))" "rn_id n' = ra_id b" for n'
      using that by (auto simp: enrolled(21) new_runner_def)
    have b: "admitted env b db" "typed b db" using that ok by (simp_all add: admission_ok_def)
    have "typed b db'" by (rule typed_mono [where ps = "[]", OF b(2) same_account_refl _ run]) (simp_all add: enrolled(25))
    moreover have "admitted env b db'" by (rule admitted_mono [OF b(1) same_account_refl]) (simp_all add: toks enrolled(24) subset_insertI)
    ultimately show ?thesis by simp
  qed
  have poolid: "po_id pool = rg_pool t" using enrolled(3) by (auto simp: pool_of_def find_Some_iff)
  have "(rg_id t, rg_pool t) \<in> (\<lambda>t. (rg_id t, rg_pool t)) ` set (fl_tokens db')" unfolding toks using enrolled(1) by blast
  then obtain t' where "t' \<in> set (fl_tokens db')" "rg_id t' = rg_id t" "rg_pool t' = rg_pool t" by auto
  then have "admitted env a db'" unfolding admitted_def using enrolled(16,17,24) poolid
    by (intro exI [of _ "cr_Serial (en_Certificate e)"] bexI [of _ t']) simp_all
  moreover have "typed a db'" unfolding typed_def
  proof (intro exI [of _ pool] conjI ballI impI)
    show "pool_of (ra_pool a) db' = Some pool" using enrolled(3,17,25) poolid by (simp add: pool_of_def)
    fix n assume n: "n \<in> set (pg_runners (fl_pg db'))" "rn_id n = ra_id a"
    have "n \<notin> set (pg_runners (fl_pg db))" using n(2) enrolled(16,22) by (metis imageI)
    then have "n = new_runner (en_RunnerID e) (po_type pool) labels (en_Capabilities e)" using n(1) enrolled(21) by simp
    then show "rn_pool n = po_type pool" "rn_isolation n = po_type pool" using enrolled(4) by (simp_all add: new_runner_def)
  qed
  ultimately show ?thesis using old by (auto simp: admission_ok_def enrolled(15))
qed

lemma admission_step:
  assumes "fleet_step env db db'" and ok: "admission_ok env db"
  shows "admission_ok env db'"
  using assms(1)
proof cases
  case (issue now t)
  then show ?thesis by (rule create_effect) (rule admission_keeps [where ps = "[]", OF ok same_accounts], auto)
next
  case (enroll cid now e i)
  then show ?thesis by (rule admission_enroll [OF ok])
next
  case (rotate newID now r issued)
  then show ?thesis
  proof (cases rule: rotate_effect)
    case retry
    then show ?thesis using ok by simp
  next
    case (rotated old c until)
    have acc: "\<exists>a\<in>set (fl_accounts db). same_account b a" if "b \<in> set (fl_accounts db')" for b
      using that unfolding rotated(24) by (rule same_account_update) (simp add: same_account_def)
    show ?thesis
      by (rule admission_keeps [where ps = "[]", OF ok acc]) (use rotated(25-28) in auto)
  qed
next
  case (disable now r reason actor)
  have acc: "\<exists>a\<in>set (fl_accounts db). same_account b a" if "b \<in> set (fl_accounts db')" for b
    using that unfolding disable_effect(3) [OF disable] by (rule same_account_update) (simp add: same_account_def)
  have run: "\<exists>n\<in>set (pg_runners (fl_pg db)). rn_id n = rn_id n' \<and> rn_pool n = rn_pool n' \<and> rn_isolation n' = rn_isolation n"
    if "n' \<in> set (pg_runners (fl_pg db'))" for n'
    using that unfolding disable_effect(2) [OF disable] by (rule update_whereE) auto
  show ?thesis
    by (rule admission_keeps [where ps = "[]", OF ok acc]) (use disable_effect(4-6) [OF disable] run in auto)
next
  case (revoke now serial reason actor)
  obtain runner where "fl_accounts db' = update_where (\<lambda>a. ra_id a = runner \<and> ra_serial a = Some serial) (\<lambda>a. a\<lparr>ra_serial := None\<rparr>) (fl_accounts db)"
    using revoke_effect(2) [OF revoke] by blast
  then have acc: "\<exists>a\<in>set (fl_accounts db). same_account b a" if "b \<in> set (fl_accounts db')" for b
    using that by (metis (no_types, lifting) same_account_def same_account_update runner_account.select_convs runner_account.surjective runner_account.update_convs(4))
  show ?thesis
    by (rule admission_keeps [where ps = "[]", OF ok acc]) (use revoke_effect(3-6) [OF revoke] in auto)
next
  case (heartbeat now hb pg' answer)
  let ?r = "rd_ID (hb_Runner hb)"
  obtain n where n: "enabled_runner ?r (fl_pg db) = Some n" "rn_pool n = rd_PoolType (hb_Runner hb)"
    "pg_runners pg' = update_where (\<lambda>n. rn_id n = ?r) (heartbeat_runner now (hb_Runner hb)) (pg_runners (fl_pg db))"
    "pg_identity pg' = pg_identity (fl_pg db)"
    using heartbeat_effect [OF heartbeat(2)] by metis
  have nin: "n \<in> set (pg_runners (fl_pg db))" "rn_id n = ?r" using n(1) by (auto simp: enabled_runner_def dest: find_SomeD)
  show ?thesis unfolding admission_ok_def
  proof
    fix a assume "a \<in> set (fl_accounts db')"
    then have a: "admitted env a db" "typed a db" using ok by (auto simp: heartbeat(1) admission_ok_def)
    then obtain p where p: "pool_of (ra_pool a) db = Some p"
      "\<And>x. x \<in> set (pg_runners (fl_pg db)) \<Longrightarrow> rn_id x = ra_id a \<Longrightarrow> rn_pool x = po_type p \<and> rn_isolation x = po_type p"
      by (auto simp: typed_def)
    have "rn_pool x = po_type p \<and> rn_isolation x = po_type p" if "x \<in> set (pg_runners pg')" "rn_id x = ra_id a" for x
      using that(1) unfolding n(3)
    proof (cases rule: update_whereE)
      case (changed y)
      then show ?thesis using that(2) p(2) [of y] p(2) [OF nin(1)] nin(2) n(2) by (simp add: heartbeat_runner_def)
    next
      case kept
      then show ?thesis using that(2) p(2) by blast
    qed
    then have "typed a db'" using p(1) by (simp add: heartbeat(1) typed_def pool_of_def)
    moreover have "admitted env a db'" using a(1) n(4) by (simp add: heartbeat(1) admitted_def fleet_log_def)
    ultimately show "admitted env a db' \<and> typed a db'" by simp
  qed
next
  case (pool p)
  show ?thesis by (rule admission_keeps [where ps = "[p]", OF ok same_accounts]) (auto simp: pool fleet_log_def)
next
  case (elsewhere pg' es)
  show ?thesis by (rule admission_keeps [where ps = "[]", OF ok same_accounts]) (use elsewhere in \<open>auto simp: fleet_log_def\<close>)
qed

lemma authenticate_effect:
  assumes "AuthenticateRunner now runner serial db = Inr i"
  obtains c n a p where "c \<in> set (fl_certs db)" "ct_serial c = serial" "ct_runner c = runner" "certificate_live now c" "ct_id c = ri_CertificateID i"
    "n \<in> set (pg_runners (fl_pg db))" "rn_id n = runner" "rn_status n \<noteq> ''disabled''" "a \<in> set (fl_accounts db)" "ra_id a = runner"
    "pool_of (ra_pool a) db = Some p" "ri_RunnerID i = runner" "ri_PoolID i = ra_pool a" "ri_PoolType i = po_type p" "ri_Serial i = serial"
    "cap_IsolationLevel (ri_Capabilities i) = rn_isolation n"
  using assms
  by (auto simp: AuthenticateRunner_def enabled_runner_def account_of_def stored_capabilities_def
      split: option.splits if_splits dest!: find_SomeD)

text \<open>
  C9 (safety). Who authenticates was admitted: the certificate names a runner that is not disabled, its serial belongs to that runner and
  is active or retiring within its time, the audit log holds the enrolment of the runner with a token of its pool, and the
  isolation level is the type of the pool, whatever the heartbeats said.
\<close>

theorem authenticated_runner_admitted:
  assumes "fleet_start start" and "fleet_steps aenv start db" and "Authenticate aenv now certificate db = Inr i"
  shows "CertificateIdentity aenv certificate = Some (ri_RunnerID i, ri_Serial i) \<and>
    (\<exists>c\<in>set (fl_certs db). ct_id c = ri_CertificateID i \<and> ct_serial c = ri_Serial i \<and> ct_runner c = ri_RunnerID i \<and> certificate_live now c) \<and>
    (\<exists>n\<in>set (pg_runners (fl_pg db)). rn_id n = ri_RunnerID i \<and> rn_status n \<noteq> ''disabled'') \<and>
    (\<exists>serial. \<exists>t\<in>set (fl_tokens db). rg_pool t = ri_PoolID i \<and>
       enrolled_event aenv (ri_RunnerID i) (ri_PoolID i) serial (rg_id t) \<in> set (fleet_log db)) \<and>
    cap_IsolationLevel (ri_Capabilities i) = ri_PoolType i"
proof -
  have ok: "admission_ok aenv db"
    by (rule fleet_invariant [OF assms(1,2)]) (simp add: fleet_start_def admission_ok_def, rule admission_step)
  obtain runner serial where cert: "CertificateIdentity aenv certificate = Some (runner, serial)"
    and auth: "AuthenticateRunner now runner serial db = Inr i"
    using assms(3) by (auto simp: Authenticate_def split: option.splits sum.splits)
  from auth have f1: "CertificateIdentity aenv certificate = Some (ri_RunnerID i, ri_Serial i)"
    by (rule authenticate_effect) (simp add: cert)
  from auth have f2: "\<exists>c\<in>set (fl_certs db). ct_id c = ri_CertificateID i \<and> ct_serial c = ri_Serial i \<and> ct_runner c = ri_RunnerID i \<and> certificate_live now c"
    by (rule authenticate_effect) auto
  from auth have f3: "\<exists>n\<in>set (pg_runners (fl_pg db)). rn_id n = ri_RunnerID i \<and> rn_status n \<noteq> ''disabled''"
    by (rule authenticate_effect) auto
  from auth have f4: "\<exists>serial. \<exists>t\<in>set (fl_tokens db). rg_pool t = ri_PoolID i \<and>
      enrolled_event aenv (ri_RunnerID i) (ri_PoolID i) serial (rg_id t) \<in> set (fleet_log db)"
    by (rule authenticate_effect) (use ok in \<open>metis admission_ok_def admitted_def\<close>)
  from auth have f5: "cap_IsolationLevel (ri_Capabilities i) = ri_PoolType i"
    by (rule authenticate_effect) (use ok in \<open>auto simp: admission_ok_def typed_def\<close>)
  show ?thesis using f1 f2 f3 f4 f5 by blast
qed

section \<open>From enrolment to the first request\<close>

text \<open>
  What the service relies on: a certificate that was created from a template is parsed with the fields of the template, and
  \<open>uuid.Parse\<close> reads what \<open>String\<close> prints.
\<close>

definition x509_ok :: "auth_env \<Rightarrow> bool" where
  "x509_ok env \<longleftrightarrow>
     (\<forall>t issuer key der. ae_create env t issuer key = Some der \<longrightarrow>
        (\<exists>raw. ae_certificate env der = Some (t\<lparr>xc_PublicKey := key, xc_Raw := raw\<rparr>)))"

definition uuid_ok :: "auth_env \<Rightarrow> bool" where
  "uuid_ok env \<longleftrightarrow> (\<forall>u. ae_parse env (env_String (fe_pg env) u) = Some u)"

lemma big_SetBytes_foldl: "foldl (\<lambda>n b. 256 * n + of_char b) a bs = 256 ^ length bs * a + big_SetBytes bs" for a :: nat
proof (induction bs arbitrary: a)
  case (Cons b bs)
  show ?case using Cons [of "256 * a + of_char b"] Cons [of "of_char b"] by (simp add: big_SetBytes_def algebra_simps)
qed (simp add: big_SetBytes_def)

lemma big_SetBytes_less: "big_SetBytes bs < 256 ^ length bs"
proof (induction bs)
  case (Cons b bs)
  have "big_SetBytes (b # bs) = 256 ^ length bs * of_char b + big_SetBytes bs"
    using big_SetBytes_foldl [of "of_char b" bs] by (simp add: big_SetBytes_def)
  also have "\<dots> < 256 ^ length bs * (of_char b + 1)" using Cons by simp
  also have "\<dots> \<le> 256 ^ length bs * 256" using nat_of_char_less_256 [of b] by (intro mult_left_mono) linarith+
  finally show ?case by simp
qed (simp add: big_SetBytes_def)

lemma length_hex_text: "16 ^ k \<le> n \<Longrightarrow> n < 16 ^ Suc k \<Longrightarrow> length (hex_text n) = Suc k"
proof (induction k arbitrary: n)
  case 0
  then show ?case by (simp add: hex_text.simps [of n])
next
  case (Suc k)
  have "(1::nat) \<le> 16 ^ k" by simp
  then have "\<not> n < 16" using Suc(2) unfolding power_Suc by linarith
  moreover have "length (hex_text (n div 16)) = Suc k" using Suc(2,3) by (intro Suc(1)) auto
  ultimately show ?case by (simp add: hex_text.simps [of n])
qed

text \<open>The serials of runners have forty hexadecimal digits.\<close>

lemma randomSerial_bounds:
  assumes "length random = 20"
  shows "0 < randomSerial random" and "length (hex_text (randomSerial random)) = 40"
proof -
  obtain b bs where r: "random = b # bs" "length bs = 19" using assms by (cases random) auto
  define m :: nat where "m = of_char b mod 64 + 64"
  have m: "64 \<le> m" "m < 128" by (simp_all add: m_def)
  have eq: "randomSerial random = 256 ^ 19 * m + big_SetBytes bs"
    using big_SetBytes_foldl [of m bs] m by (simp add: randomSerial_def big_SetBytes_def r m_def)
  have low: "256 ^ 19 * 64 \<le> randomSerial random" using m(1) by (simp add: eq)
  have "randomSerial random < 256 ^ 19 * (m + 1)" using big_SetBytes_less [of bs] r(2) by (simp add: eq)
  also have "\<dots> \<le> 256 ^ 19 * 128" using m(2) by (intro mult_left_mono) auto
  finally have high: "randomSerial random < 256 ^ 19 * 128" .
  show "0 < randomSerial random" using low by simp
  show "length (hex_text (randomSerial random)) = 40" using length_hex_text [of 39 "randomSerial random"] low high by simp
qed

lemma signed_certificate:
  assumes "x509_ok env" and "SignRunnerCertificate env random csr runner clock lifetime = Some issued"
  obtains info raw notBefore where "ic_Certificate issued =
      (runner_template env (randomSerial random) runner info notBefore (truncate_second clock + lifetime))
        \<lparr>xc_PublicKey := xr_PublicKey (ci_Request info), xc_Raw := raw\<rparr>"
    "runner \<noteq> uuid_Nil" "notBefore \<le> truncate_second clock" "lifetime \<le> DefaultRunnerLifetime"
proof -
  obtain info where info: "ValidateRunnerCSR env csr = Some info"
    using assms(2) by (auto simp: SignRunnerCertificate_def split: option.splits)
  let ?nb = "max (truncate_second clock - runnerCertificateBackdate) (xc_NotBefore (ae_issuer env))"
  obtain der where der: "ae_create env (runner_template env (randomSerial random) runner info ?nb (truncate_second clock + lifetime))
      (ae_issuer env) (xr_PublicKey (ci_Request info)) = Some der" "ae_certificate env der = Some (ic_Certificate issued)"
    and ok: "runner \<noteq> uuid_Nil" "lifetime \<le> DefaultRunnerLifetime" "xc_NotBefore (ae_issuer env) \<le> truncate_second clock"
    using assms(2) info by (auto simp: SignRunnerCertificate_def Let_def split: option.splits if_splits)
  obtain raw where raw: "ic_Certificate issued = (runner_template env (randomSerial random) runner info ?nb (truncate_second clock + lifetime))
        \<lparr>xc_PublicKey := xr_PublicKey (ci_Request info), xc_Raw := raw\<rparr>"
    using assms(1) der unfolding x509_ok_def by (metis option.inject)
  have "?nb \<le> truncate_second clock" using ok(3) by (simp add: runnerCertificateBackdate_def go_time)
  then show ?thesis using that raw ok(1,2) by blast
qed

lemma identity_of_signed:
  assumes "x509_ok env" and "uuid_ok env" and "SignRunnerCertificate env random csr runner clock lifetime = Some issued"
    and "16 \<le> length (serial_text (ic_Certificate issued))" and "length (serial_text (ic_Certificate issued)) \<le> 64"
    and "0 < randomSerial random"
  shows "CertificateIdentity env (ic_Certificate issued) = Some (runner, serial_text (ic_Certificate issued))"
proof -
  obtain info raw nb where c: "ic_Certificate issued =
      (runner_template env (randomSerial random) runner info nb (truncate_second clock + lifetime))
        \<lparr>xc_PublicKey := xr_PublicKey (ci_Request info), xc_Raw := raw\<rparr>"
    using signed_certificate [OF assms(1,3)] by metis
  have trim: "TrimPrefix (CHR ''/'' # s) ''/'' = s" for s :: string using TrimPrefix_append [of "''/''" s] by simp
  show ?thesis using assms(2,4,5,6)
    by (simp add: CertificateIdentity_def c runner_template_def runner_uri_def trim uuid_ok_def Let_def)
qed

text \<open>
  C14 (roundtrip). A runner that was just enrolled authenticates with the certificate that was signed for it, at any time in its validity, and
  as the identity that the enrolment returned.
\<close>

theorem enrolled_runner_authenticates:
  assumes "x509_ok env" and "uuid_ok env" and "fe_labels env (cap_Labels capabilities) = Some (cap_Labels capabilities)"
    and "length (ai_serial ids) = 20"
    and "Enroll env ids clock now token name capabilities csr db = Inr (db', i, certificate)"
    and "SignRunnerCertificate env (ai_serial ids) csr (ai_runner ids) clock DefaultRunnerLifetime = Some issued"
    and "cr_NotBefore certificate \<le> later" and "later < cr_NotAfter certificate"
  shows "Authenticate env later (ic_Certificate issued) db' = Inr i"
proof -
  let ?s = "serial_text (ic_Certificate issued)"
  obtain digest where cert: "certificate = certificateRecord issued" and valid: "validateCapabilities name capabilities"
    and en: "EnrollRunner env (ai_certificate ids) now \<lparr>en_TokenDigest = digest, en_RunnerID = ai_runner ids, en_Name = name,
       en_Capabilities = capabilities, en_Certificate = certificateRecord issued\<rparr> db = Inr (db', i)"
    using assms(5,6) by (auto simp: Enroll_def split: option.splits if_splits sum.splits)
  from en show ?thesis
  proof (cases rule: enroll_effect)
    case (enrolled t pool labels c a)
    have labels: "labels = cap_Labels capabilities" using enrolled(5) assms(3) by simp
    have checks: "16 \<le> length ?s" "length ?s \<le> 64" and fresh: "\<forall>x\<in>set (fl_certs db). ct_serial x \<noteq> ?s"
      using enrolled(7,10) by (auto simp: certificate_checks_def list_ex_iff certificateRecord_def)
    have fresh_runner: "\<forall>n\<in>set (pg_runners (fl_pg db)). rn_id n \<noteq> ai_runner ids"
      and fresh_account: "\<forall>b\<in>set (fl_accounts db). ra_id b \<noteq> ai_runner ids"
      using enrolled(20,22) by force+
    have live: "certificate_live later c" using assms(7,8) enrolled(11-13) by (simp add: certificate_live_def cert)
    have c: "List.find (\<lambda>c. ct_serial c = ?s \<and> ct_runner c = ai_runner ids \<and> certificate_live later c) (fl_certs db') = Some c"
      using fresh live enrolled(9,10) by (simp add: enrolled(6) find_append find_None_iff certificateRecord_def split: option.split)
        (auto dest: find_SomeD)
    have n: "enabled_runner (ai_runner ids) (fl_pg db') = Some (new_runner (ai_runner ids) (po_type pool) labels capabilities)"
      using fresh_runner by (simp add: enrolled(21) enabled_runner_def find_append new_runner_def find_None_iff split: option.split)
        (auto dest: find_SomeD)
    have a: "account_of (ai_runner ids) db' = Some a"
      using fresh_account enrolled(16) by (simp add: enrolled(15) account_of_def find_append find_None_iff split: option.split)
        (auto dest: find_SomeD)
    have "po_id pool = rg_pool t" using enrolled(3) by (auto simp: pool_of_def dest: find_SomeD)
    then have p: "pool_of (po_id pool) db' = Some pool" using enrolled(3,25) by (simp add: pool_of_def)
    have full: "cap_OS capabilities \<noteq> []" "cap_Architecture capabilities \<noteq> []" "cap_Executor capabilities \<noteq> []" "cap_RunnerVersion capabilities \<noteq> []"
      using valid by (auto simp: validateCapabilities_def)
    have "AuthenticateRunner later (ai_runner ids) ?s db' = Inr i"
      using enrolled(4,8,10,17-19,26) full
      by (simp add: AuthenticateRunner_def c n a p labels new_runner_def stored_capabilities_def certificateRecord_def)
    then show ?thesis
      using identity_of_signed [OF assms(1,2,6) checks randomSerial_bounds(1) [OF assms(4)]] by (simp add: Authenticate_def)
  qed
qed

section \<open>Rotation\<close>

lemma find_update_where:
  assumes "\<And>x. q (f x) = q x"
  shows "List.find q (update_where p f xs) = map_option (\<lambda>x. if p x then f x else x) (List.find q xs)"
  by (induction xs) (use assms in \<open>auto simp: update_where_def\<close>)

lemma find_unique:
  assumes "x \<in> set xs" and "q x" and "\<And>y. y \<in> set xs \<Longrightarrow> q y \<Longrightarrow> y = x"
  shows "List.find q xs = Some x"
  using assms by (metis find_None_iff find_SomeD not_None_eq)

text \<open>The rows of the runner that authentication joins with the certificate.\<close>

definition runner_rows :: "uuid \<Rightarrow> fleet_db \<Rightarrow> (runner_row \<times> runner_account \<times> runner_pool) option" where
  "runner_rows runner db =
     (case (enabled_runner runner (fl_pg db), account_of runner db) of
        (Some n, Some a) \<Rightarrow> map_option (\<lambda>p. (n, a, p)) (pool_of (ra_pool a) db)
      | _ \<Rightarrow> None)"

definition identity_of_rows :: "runner_row \<times> runner_account \<times> runner_pool \<Rightarrow> certificate_row \<Rightarrow> runner_error + Identity" where
  "identity_of_rows rows c =
     (case rows of (n, a, pool) \<Rightarrow>
        (case rn_protocol n of
           None \<Rightarrow> Inl RunnerDatabase
         | Some protocol \<Rightarrow>
             if rn_os n = [] \<or> rn_arch n = [] \<or> rn_executor n = [] \<or> ra_version a = [] then Inl RunnerDatabase
             else Inr \<lparr>ri_RunnerID = rn_id n, ri_PoolID = ra_pool a, ri_PoolType = po_type pool, ri_Name = ra_name a,
                       ri_CertificateID = ct_id c, ri_Serial = ct_serial c,
                       ri_Capabilities = stored_capabilities n protocol (ra_version a)\<rparr>))"

lemma authenticate_rows:
  "AuthenticateRunner now runner serial db =
     (case (List.find (\<lambda>c. ct_serial c = serial \<and> ct_runner c = runner \<and> certificate_live now c) (fl_certs db), runner_rows runner db) of
        (Some c, Some rows) \<Rightarrow> identity_of_rows rows c
      | _ \<Rightarrow> Inl RunnerDenied)"
  by (auto simp: AuthenticateRunner_def runner_rows_def identity_of_rows_def split: option.splits)

text \<open>With unique serials the certificate is found by its serial.\<close>

lemma authenticate_by_serial:
  assumes "certs_ok db" and "c \<in> set (fl_certs db)"
  shows "AuthenticateRunner now (ct_runner c) (ct_serial c) db =
     (case runner_rows (ct_runner c) db of
        Some rows \<Rightarrow> if certificate_live now c then identity_of_rows rows c else Inl RunnerDenied
      | None \<Rightarrow> Inl RunnerDenied)"
proof -
  let ?q = "\<lambda>x. ct_serial x = ct_serial c \<and> ct_runner x = ct_runner c \<and> certificate_live now x"
  note uniq = certs_unique(1) [OF assms(1) _ assms(2)]
  have "List.find ?q (fl_certs db) = (if certificate_live now c then Some c else None)"
    using find_unique [of c "fl_certs db" ?q] assms(2) uniq by (auto simp: find_None_iff)
  then show ?thesis by (simp add: authenticate_rows split: option.splits)
qed

lemma identity_of_rows_cong:
  "identity_of_rows rows old = Inr i \<Longrightarrow> identity_of_rows rows c = Inr (i\<lparr>ri_CertificateID := ct_id c, ri_Serial := ct_serial c\<rparr>)"
  by (auto simp: identity_of_rows_def split: prod.splits option.splits if_splits)

lemma identity_of_rows_serial: "identity_of_rows (n, a\<lparr>ra_serial := s\<rparr>, p) c = identity_of_rows (n, a, p) c"
  by (cases "rn_protocol n") (simp_all add: identity_of_rows_def)

lemma identity_of_rows_state: "identity_of_rows rows (c\<lparr>ct_state := x, ct_retire_at := y\<rparr>) = identity_of_rows rows c"
  by (cases rows, cases "rn_protocol (fst rows)") (simp_all add: identity_of_rows_def)

lemma runner_rows_renamed:
  assumes "pg_runners (fl_pg db') = pg_runners (fl_pg db)" and "fl_pools db' = fl_pools db"
    and "fl_accounts db' = update_where (\<lambda>a. ra_id a = runner) (\<lambda>a. a\<lparr>ra_serial := s\<rparr>) (fl_accounts db)"
  shows "runner_rows runner db' = map_option (\<lambda>(n, a, p). (n, a\<lparr>ra_serial := s\<rparr>, p)) (runner_rows runner db)"
proof -
  have "account_of runner db' = map_option (\<lambda>a. a\<lparr>ra_serial := s\<rparr>) (account_of runner db)"
    unfolding account_of_def assms(3) by (subst find_update_where) (auto split: option.splits dest: find_SomeD intro!: option.map_cong)
  moreover have "enabled_runner runner (fl_pg db') = enabled_runner runner (fl_pg db)" by (simp add: enabled_runner_def assms(1))
  ultimately show ?thesis by (simp add: runner_rows_def pool_of_def assms(2) option.map_comp comp_def split: option.splits)
qed

text \<open>The rows after a rotation that issued a certificate.\<close>

lemma rotation_rows:
  assumes ok: "certs_ok db" and ok': "certs_ok db'" and rot: "RotateRunnerCertificate env newID now r db = Inr (db', issued)"
    and new: "cr_Serial issued \<notin> ct_serial ` set (fl_certs db)"
    and auth: "AuthenticateRunner now (ro_RunnerID r) (ro_OldSerial r) db = Inr i"
  obtains old c rows rows' where "ct_serial old = ro_OldSerial r" "ct_runner old = ro_RunnerID r" "old \<in> set (fl_certs db)"
    "old\<lparr>ct_state := CertRetiring, ct_retire_at := Some (cr_PreviousValidUntil issued)\<rparr> \<in> set (fl_certs db')"
    "cr_PreviousValidUntil issued \<le> ct_not_after old" "cr_PreviousValidUntil issued \<le> now + RotationGracePeriod"
    "c \<in> set (fl_certs db')" "ct_runner c = ro_RunnerID r" "ct_id c = newID" "ct_serial c = cr_Serial issued"
    "\<forall>t. certificate_live t c \<longleftrightarrow> cr_NotBefore issued \<le> t \<and> t < cr_NotAfter issued"
    "runner_rows (ro_RunnerID r) db = Some rows" "runner_rows (ro_RunnerID r) db' = Some rows'"
    "\<forall>x. identity_of_rows rows' x = identity_of_rows rows x"
    "\<forall>newID' now' other. RotateRunnerCertificate env newID' now' (r\<lparr>ro_Certificate := other\<rparr>) db' =
      (if cr_CSRFingerprint other = cr_CSRFingerprint (ro_Certificate r) then Inr (db', issued) else Inl RunnerDenied)"
  using rot
proof (cases rule: rotate_effect)
  case retry
  then show ?thesis using new by simp
next
  case (rotated old c until)
  define old' where "old' = old\<lparr>ct_state := CertRetiring, ct_retire_at := Some until\<rparr>"
  obtain rows where rows: "runner_rows (ro_RunnerID r) db = Some rows" using auth by (auto simp: authenticate_rows split: option.splits)
  obtain rows' where rows': "runner_rows (ro_RunnerID r) db' = Some rows'" "\<forall>x. identity_of_rows rows' x = identity_of_rows rows x"
    using runner_rows_renamed [OF rotated(27,26,24)] rows by (cases rows) (simp add: identity_of_rows_serial)
  have in': "old' \<in> set (fl_certs db')" "c \<in> set (fl_certs db')"
    unfolding rotated(12) old'_def update_where_def using rotated(1,4) by (auto intro!: image_eqI [of _ _ old])
  have live: "certificate_live t c \<longleftrightarrow> cr_NotBefore issued \<le> t \<and> t < cr_NotAfter issued" for t
    using rotated(11,20-22) by (auto simp: certificate_live_def)
  have no_other: "x = c" if "x \<in> set (fl_certs db')" "ct_replaces x = Some (ct_id old)" for x
    using that rotated(13,23) unfolding rotated(12)
    by (auto simp: certificate_checks_def list_ex_iff retire_certificate_def)
  have by_id: "x = old'" if "x \<in> set (fl_certs db')" "ct_id x = ct_id old" for x
    by (rule certs_unique(2) [OF ok' that(1) in'(1)]) (simp add: old'_def that(2))
  have by_serial: "x = old'" if "x \<in> set (fl_certs db')" "ct_serial x = ro_OldSerial r" for x
    by (rule certs_unique(1) [OF ok' that(1) in'(1)]) (simp add: old'_def that(2) rotated(2))
  have find_old: "List.find (\<lambda>c. ct_serial c = ro_OldSerial r \<and> ct_runner c = ro_RunnerID r) (fl_certs db') = Some old'"
    by (rule find_unique [OF in'(1)]) (use rotated(2,3) by_serial in \<open>auto simp: old'_def\<close>)
  have "replacementCertificate (ct_id old) db' = Inr (Some issued)"
  proof -
    have "List.find (\<lambda>c. ct_replaces c = Some (ct_id old)) (fl_certs db') = Some c" by (rule find_unique [OF in'(2)]) (use rotated(23) no_other in auto)
    moreover have "List.find (\<lambda>c. ct_id c = ct_id old) (fl_certs db') = Some old'" by (rule find_unique [OF in'(1)]) (use by_id in \<open>auto simp: old'_def\<close>)
    moreover have "length (ct_csr c) = 32" "length (ct_public c) = 32" using rotated(13) by (auto simp: certificate_checks_def)
    ultimately show ?thesis using rotated(11,16-19,21,22) by (simp add: replacementCertificate_def old'_def)
  qed
  moreover have "ct_id old' = ct_id old" by (simp add: old'_def)
  moreover obtain n where "enabled_runner (ro_RunnerID r) (fl_pg db') = Some n" using rotated(7,27) by (auto simp: enabled_runner_def)
  ultimately have again: "RotateRunnerCertificate env newID' now' (r\<lparr>ro_Certificate := other\<rparr>) db' =
      (if cr_CSRFingerprint other = cr_CSRFingerprint (ro_Certificate r) then Inr (db', issued) else Inl RunnerDenied)" for newID' now' other
    using rotated(8,10,11) find_old by (auto simp: RotateRunnerCertificate_def)
  have until: "cr_PreviousValidUntil issued = until" using rotated(11) by simp
  show ?thesis
    by (rule that [OF rotated(2,3,1) _ _ _ in'(2) rotated(15,14) _ _ rows rows' _])
      (use in'(1) rotated(9,10,11,16) live again in \<open>auto simp: until old'_def\<close>)
qed

text \<open>
  C13 (functional). Rotation hands over from one certificate to the next. After a rotation that issued a new certificate the runner has the
  same identity with both: with the new one for its whole validity, with the old one until a time that the answer names and
  that is at most fifteen minutes ahead. A retry with the same request returns the same certificate, and another request for
  the same old certificate is denied.
\<close>

theorem rotation_hands_over:
  assumes "fleet_start start" and "fleet_steps env start db"
    and "AuthenticateRunner now (ro_RunnerID r) (ro_OldSerial r) db = Inr i"
    and "RotateRunnerCertificate env newID now r db = Inr (db', issued)" and "cr_Serial issued \<notin> ct_serial ` set (fl_certs db)"
  shows "(cr_NotBefore issued \<le> t \<and> t < cr_NotAfter issued \<longrightarrow>
      AuthenticateRunner t (ro_RunnerID r) (cr_Serial issued) db' = Inr (i\<lparr>ri_CertificateID := newID, ri_Serial := cr_Serial issued\<rparr>)) \<and>
    (now \<le> t \<longrightarrow> AuthenticateRunner t (ro_RunnerID r) (ro_OldSerial r) db' =
      (if t < cr_PreviousValidUntil issued then Inr i else Inl RunnerDenied)) \<and>
    cr_PreviousValidUntil issued \<le> now + RotationGracePeriod \<and>
    RotateRunnerCertificate env newID' now' (r\<lparr>ro_Certificate := other\<rparr>) db' =
      (if cr_CSRFingerprint other = cr_CSRFingerprint (ro_Certificate r) then Inr (db', issued) else Inl RunnerDenied)"
proof -
  have ok: "certs_ok db" by (rule reachable_certs [OF assms(1,2)])
  have step: "fleet_step env db db'" by (rule fleet_step.rotate [OF assms(4)])
  have ok': "certs_ok db'" by (rule certs_ok_step [OF fleet_step_certs [OF step] ok])
  obtain old c rows rows' where rot: "ct_serial old = ro_OldSerial r" "ct_runner old = ro_RunnerID r" "old \<in> set (fl_certs db)"
    and old': "old\<lparr>ct_state := CertRetiring, ct_retire_at := Some (cr_PreviousValidUntil issued)\<rparr> \<in> set (fl_certs db')"
    and until: "cr_PreviousValidUntil issued \<le> ct_not_after old" "cr_PreviousValidUntil issued \<le> now + RotationGracePeriod"
    and c: "c \<in> set (fl_certs db')" "ct_runner c = ro_RunnerID r" "ct_id c = newID" "ct_serial c = cr_Serial issued"
      "\<forall>t. certificate_live t c \<longleftrightarrow> cr_NotBefore issued \<le> t \<and> t < cr_NotAfter issued"
    and rows: "runner_rows (ro_RunnerID r) db = Some rows" "runner_rows (ro_RunnerID r) db' = Some rows'"
      "\<forall>x. identity_of_rows rows' x = identity_of_rows rows x"
    and retry: "\<forall>newID' now' other. RotateRunnerCertificate env newID' now' (r\<lparr>ro_Certificate := other\<rparr>) db' =
      (if cr_CSRFingerprint other = cr_CSRFingerprint (ro_Certificate r) then Inr (db', issued) else Inl RunnerDenied)"
    by (rule rotation_rows [OF ok ok' assms(4,5,3)]) (rule that; assumption)
  let ?old' = "old\<lparr>ct_state := CertRetiring, ct_retire_at := Some (cr_PreviousValidUntil issued)\<rparr>"
  have auth: "certificate_live now old" "identity_of_rows rows old = Inr i"
    using assms(3) authenticate_by_serial [OF ok rot(3), of now] rows(1) rot(1,2) by (auto split: if_splits)
  have f1: "AuthenticateRunner t (ro_RunnerID r) (cr_Serial issued) db' = Inr (i\<lparr>ri_CertificateID := newID, ri_Serial := cr_Serial issued\<rparr>)"
    if "cr_NotBefore issued \<le> t" "t < cr_NotAfter issued"
    using authenticate_by_serial [OF ok' c(1), of t] c(2-5) rows(2,3) that identity_of_rows_cong [OF auth(2), of c] by simp
  have f2: "AuthenticateRunner t (ro_RunnerID r) (ro_OldSerial r) db' = (if t < cr_PreviousValidUntil issued then Inr i else Inl RunnerDenied)"
    if "now \<le> t"
  proof -
    have "certificate_live t ?old' \<longleftrightarrow> t < cr_PreviousValidUntil issued" using auth(1) until(1) that by (auto simp: certificate_live_def)
    moreover have "identity_of_rows rows' ?old' = Inr i" using auth(2) rows(3) by (simp add: identity_of_rows_state)
    ultimately show ?thesis using authenticate_by_serial [OF ok' old', of t] rows(2) rot(1,2) by simp
  qed
  have f3: "cr_PreviousValidUntil issued \<le> now + RotationGracePeriod" by (rule until(2))
  have f4: "RotateRunnerCertificate env newID' now' (r\<lparr>ro_Certificate := other\<rparr>) db' =
      (if cr_CSRFingerprint other = cr_CSRFingerprint (ro_Certificate r) then Inr (db', issued) else Inl RunnerDenied)"
    using retry by simp
  show ?thesis using f1 f2 f3 f4 by blast
qed

end
