(* ===== verification/Runner_Server.thy ===== *)
theory Runner_Server
  imports Runner_Auth Run_Access
begin

text \<open>
  The gRPC service of runners: \<open>auth.go\<close> and \<open>server.go\<close> of \<open>src/internal/runnergrpc\<close>. Registration and rotation call the
  identity service; a \<open>Work\<close> stream is authenticated when it is opened, and each of its messages calls operations of the run
  store for that runner. Unlike a transaction, a handler that fails keeps what the store did before: its result is the
  state, the messages that were sent and the error that ends the stream, if any.

  The texts of identifiers, the credentials of checkouts and whether a message can be sent are parameters, indexed by the
  round of the loop where one handler asks repeatedly. The loop over the jobs of a heartbeat is a partial function, whose
  termination is proved.
\<close>

section \<open>Messages\<close>

datatype grpc_code = InvalidArgument | FailedPrecondition | InternalCode | Unavailable | Unauthenticated | AlreadyExists
  | PermissionDenied | ResourceExhausted | SendFailed

datatype IsolationLevel = IsolationStandard | IsolationPrivileged | IsolationDeployment | IsolationUnspecified

record RunnerCapabilities =
  rcap_Os :: string
  rcap_Architecture :: string
  rcap_Executor :: string
  rcap_IsolationLevel :: IsolationLevel
  rcap_Labels :: gomap
  rcap_Capacity :: int
  rcap_AvailableDiskBytes :: int

datatype LocalJobState = LocalReceived | LocalRunning | LocalUnspecified
datatype JobConclusion = ConclusionSucceeded | ConclusionFailed | ConclusionCanceled | ConclusionUnspecified

record wire_lease =
  wl_JobId :: string
  wl_LeaseToken :: string
  wl_State :: LocalJobState

record wire_heartbeat =
  wh_ProtocolVersion :: nat
  wh_Capabilities :: "RunnerCapabilities option"
  wh_ActiveLeases :: "wire_lease list"

record wire_receipt =
  wr_JobId :: string
  wr_LeaseToken :: string

record wire_completion =
  wm_JobId :: string
  wm_LeaseToken :: string
  wm_Conclusion :: JobConclusion

record wire_log =
  wg_JobId :: string
  wg_LeaseToken :: string
  wg_StepName :: string
  wg_Chunk :: WireChunk

datatype WorkRequest =
    WorkHeartbeat wire_heartbeat | WorkAccepted wire_receipt | WorkStarted wire_receipt | WorkCompleted wire_completion
  | WorkLog wire_log | WorkEmpty

record job_message =
  jm_JobId :: uuid
  jm_RunId :: uuid
  jm_LeaseToken :: string
  jm_LeaseExpiresAt :: gotime
  jm_ExecutionPlanJson :: bytes
  jm_Source :: "(string \<times> string \<times> string \<times> string) option"
  jm_Credential :: "(bytes \<times> gotime) option"

datatype WorkResponse =
    ResponseRenewed uuid gotime | ResponseCancel uuid | ResponseAssignment job_message | ResponseLog string int

text \<open>A checkout credential, or why there is none: permanently unavailable, or an error that may pass.\<close>

record CheckoutCredential =
  cc_CloneURL :: string
  cc_RepositoryID :: string
  cc_Token :: bytes
  cc_ExpiresAt :: gotime

datatype credential_error = CredentialPermanent | CredentialTransient

section \<open>The server\<close>

record server_db =
  sv_fleet :: fleet_db
  sv_streams :: "uuid \<Rightarrow> log_stream_row option"
  sv_chunks :: "uuid \<Rightarrow> int \<Rightarrow> log_chunk_row option"

record Server =
  gs_sessions :: "uuid list"
  gs_slots :: nat

record server_env =
  se_auth :: auth_env
  se_credentials :: bool
  se_assignments :: bool
  se_send :: "WorkResponse \<Rightarrow> bool"

text \<open>The values that a handler gets from outside, for the round \<open>k\<close> of its loop.\<close>

record work_input =
  wi_now :: "nat \<Rightarrow> gotime"
  wi_wall :: "nat \<Rightarrow> gotime"
  wi_token :: "nat \<Rightarrow> string"
  wi_status :: "nat \<Rightarrow> uuid"
  wi_checkout :: "nat \<Rightarrow> Assignment \<Rightarrow> credential_error + CheckoutCredential"

abbreviation sv_pg :: "server_db \<Rightarrow> pg_db" where
  "sv_pg db \<equiv> fl_pg (sv_fleet db)"

definition set_pg :: "pg_db \<Rightarrow> server_db \<Rightarrow> server_db" where
  "set_pg pg db = db\<lparr>sv_fleet := (sv_fleet db)\<lparr>fl_pg := pg\<rparr>\<rparr>"

abbreviation se_pg :: "server_env \<Rightarrow> pg_env" where
  "se_pg env \<equiv> fe_pg (se_auth env)"

definition supportedProtocol :: "nat \<Rightarrow> bool" where
  "supportedProtocol version \<longleftrightarrow> version \<ge> 1 \<and> version \<le> 2"

definition workStoreError :: "pg_error \<Rightarrow> grpc_code" where
  "workStoreError e = (if e = PgInvalidRunnerRequest then InvalidArgument else if e = PgLeaseInvalid then FailedPrecondition else InternalCode)"

definition capabilities :: "RunnerCapabilities \<Rightarrow> nat \<Rightarrow> Capabilities option" where
  "capabilities input protocol =
     (let isolation = (case rcap_IsolationLevel input of
            IsolationStandard \<Rightarrow> Some ''standard'' | IsolationPrivileged \<Rightarrow> Some ''privileged'' | IsolationDeployment \<Rightarrow> Some ''deployment''
          | IsolationUnspecified \<Rightarrow> None)
      in case isolation of
           None \<Rightarrow> None
         | Some level \<Rightarrow>
             if length (rcap_Labels input) > 64 \<or> list_ex (\<lambda>(key, v). length key > 128 \<or> length v > 512) (rcap_Labels input) then None
             else Some \<lparr>cap_OS = rcap_Os input, cap_Architecture = rcap_Architecture input, cap_Executor = rcap_Executor input,
                        cap_IsolationLevel = level, cap_Labels = rcap_Labels input, cap_Capacity = rcap_Capacity input,
                        cap_AvailableDiskBytes = rcap_AvailableDiskBytes input, cap_ProtocolVersion = int protocol,
                        cap_RunnerVersion = ''protocol-v'' @ format_nat protocol\<rparr>)"

section \<open>Registration and rotation\<close>

record register_request =
  rq_ProtocolVersion :: nat
  rq_Capabilities :: "RunnerCapabilities option"
  rq_OneTimeToken :: string
  rq_Name :: string
  rq_CsrPem :: bytes

text \<open>Sixteen registrations may be in progress; the slot is held until the handler returns.\<close>

definition Register :: "server_env \<Rightarrow> auth_ids \<Rightarrow> gotime \<Rightarrow> gotime \<Rightarrow> register_request \<Rightarrow> Server \<Rightarrow> fleet_db
    \<Rightarrow> grpc_code + fleet_db \<times> Identity \<times> CertificateRecord" where
  "Register env ids clock now request server db =
     (if gs_slots server \<ge> 16 then Inl ResourceExhausted
      else if \<not> supportedProtocol (rq_ProtocolVersion request) \<or> length (rq_OneTimeToken request) > 512 \<or>
              length (rq_Name request) > 128 \<or> int (length (rq_CsrPem request)) > MaxCSRBytes
      then Inl InvalidArgument
      else
        (case rq_Capabilities request of
           None \<Rightarrow> Inl InvalidArgument
         | Some c \<Rightarrow>
             (case capabilities c (rq_ProtocolVersion request) of
                None \<Rightarrow> Inl InvalidArgument
              | Some capability \<Rightarrow>
                  (case Enroll (se_auth env) ids clock now (rq_OneTimeToken request) (rq_Name request) capability (rq_CsrPem request) db of
                     Inl _ \<Rightarrow> Inl PermissionDenied
                   | Inr x \<Rightarrow> Inr x))))"

definition RotateCertificate :: "server_env \<Rightarrow> auth_ids \<Rightarrow> gotime \<Rightarrow> gotime \<Rightarrow> Identity \<Rightarrow> nat \<Rightarrow> bytes \<Rightarrow> fleet_db
    \<Rightarrow> grpc_code + fleet_db \<times> CertificateRecord" where
  "RotateCertificate env ids clock now identity protocol csr db =
     (if \<not> supportedProtocol protocol \<or> csr = [] \<or> int (length csr) > MaxCSRBytes then Inl InvalidArgument
      else (case Rotate (se_auth env) ids clock now identity csr db of Inl _ \<Rightarrow> Inl PermissionDenied | Inr x \<Rightarrow> Inr x))"

text \<open>
  The certificate of the peer: TLS has verified the chains, and the leaf that was presented must be the leaf of the first.
\<close>

definition sameCertificate :: "x509_certificate \<Rightarrow> x509_certificate \<Rightarrow> bool" where
  "sameCertificate left right \<longleftrightarrow> xc_Raw left = xc_Raw right"

definition authenticatePeer :: "server_env \<Rightarrow> gotime \<Rightarrow> x509_certificate list list \<Rightarrow> x509_certificate list \<Rightarrow> fleet_db \<Rightarrow> grpc_code + Identity" where
  "authenticatePeer env now verified peers db =
     (case (verified, peers) of
        (chain # _, leaf # _) \<Rightarrow>
          if length chain < 2 \<or> \<not> sameCertificate leaf (hd chain) then Inl Unauthenticated
          else (case Authenticate (se_auth env) now leaf db of Inl _ \<Rightarrow> Inl Unauthenticated | Inr identity \<Rightarrow> Inr identity)
      | _ \<Rightarrow> Inl Unauthenticated)"

section \<open>Sessions\<close>

definition beginSession :: "uuid \<Rightarrow> Server \<Rightarrow> Server option" where
  "beginSession runnerID server =
     (if runnerID \<in> set (gs_sessions server) then None else Some (server\<lparr>gs_sessions := runnerID # gs_sessions server\<rparr>))"

definition endSession :: "uuid \<Rightarrow> Server \<Rightarrow> Server" where
  "endSession runnerID server = server\<lparr>gs_sessions := filter (\<lambda>x. x \<noteq> runnerID) (gs_sessions server)\<rparr>"

section \<open>Logs\<close>

text \<open>The columns of a job that the log store compares; \<open>NULL\<close> is equal to nothing.\<close>

definition log_job :: "pg_job \<Rightarrow> job_row option" where
  "log_job j =
     (case (jb_runner j, jb_hash j, jb_expires j) of
        (Some r, Some h, Some e) \<Rightarrow>
          Some \<lparr>jr_runner_id = r, jr_token_hash = h, jr_lease_expires = e, jr_status = jb_status j, jr_created_at = jb_created j\<rparr>
      | _ \<Rightarrow> None)"

definition log_tables_of :: "server_db \<Rightarrow> log_tables" where
  "log_tables_of db =
     \<lparr>lt_jobs = (\<lambda>i. case List.find (\<lambda>j. jb_id j = i) (pg_jobs (sv_pg db)) of None \<Rightarrow> None | Some j \<Rightarrow> log_job j),
      lt_streams = sv_streams db, lt_chunks = sv_chunks db\<rparr>"

definition logError :: "log_error \<Rightarrow> grpc_code" where
  "logError e = (case e of LogLeaseInvalid \<Rightarrow> FailedPrecondition | LogSequence \<Rightarrow> FailedPrecondition | LogLimit \<Rightarrow> FailedPrecondition
     | LogExpired \<Rightarrow> FailedPrecondition | _ \<Rightarrow> Unavailable)"

definition send :: "server_env \<Rightarrow> WorkResponse \<Rightarrow> server_db \<Rightarrow> server_db \<times> WorkResponse list \<times> grpc_code option" where
  "send env response db = (if se_send env response then (db, [response], None) else (db, [], Some SendFailed))"

definition handleLog :: "server_env \<Rightarrow> gotime \<Rightarrow> gotime \<Rightarrow> uuid \<Rightarrow> wire_log \<Rightarrow> server_db \<Rightarrow> server_db \<times> WorkResponse list \<times> grpc_code option" where
  "handleLog env now1 now2 runnerID message db =
     (let m = wg_Chunk message in
      if wc_Sequence m > MaxJobLogChunks \<or> wc_StepIndex m > 1023 \<or> length (wg_StepName message) > 128 then (db, [], Some InvalidArgument)
      else
        (case ae_parse (se_auth env) (wg_JobId message) of
           None \<Rightarrow> (db, [], Some InvalidArgument)
         | Some jobID \<Rightarrow>
             (let chunk = stored_chunk \<lparr>lr_RunnerID = runnerID, lr_JobID = jobID, lr_LeaseToken = wg_LeaseToken message\<rparr> m in
              if \<not> ValidateLogChunk chunk then (db, [], Some InvalidArgument)
              else
                (case AppendLogChunk (env_sha (se_pg env)) now1 now2 chunk (log_tables_of db) of
                   Inl e \<Rightarrow> (db, [], Some (logError e))
                 | Inr t \<Rightarrow> send env (ResponseLog (wg_JobId message) (wc_Sequence m))
                              (db\<lparr>sv_streams := lt_streams t, sv_chunks := lt_chunks t\<rparr>)))))"

section \<open>Receipts and completions\<close>

definition handleReceipt :: "server_env \<Rightarrow> gotime \<Rightarrow> uuid \<Rightarrow> wire_receipt \<Rightarrow> bool \<Rightarrow> server_db
    \<Rightarrow> server_db \<times> WorkResponse list \<times> grpc_code option" where
  "handleReceipt env now runnerID message started db =
     (if length (wr_LeaseToken message) > 512 then (db, [], Some InvalidArgument)
      else
        (case ae_parse (se_auth env) (wr_JobId message) of
           None \<Rightarrow> (db, [], Some InvalidArgument)
         | Some jobID \<Rightarrow>
             (let request = \<lparr>lr_RunnerID = runnerID, lr_JobID = jobID, lr_LeaseToken = wr_LeaseToken message\<rparr> in
              case (if started then Store_StartRunnerJob (se_pg env) now request (sv_pg db)
                    else Store_AcknowledgeRunnerJob (se_pg env) now request (sv_pg db)) of
                Inl e \<Rightarrow> (db, [], Some (workStoreError e))
              | Inr (pg, lease) \<Rightarrow> send env (ResponseRenewed (ls_JobID lease) (ls_LeaseExpires lease)) (set_pg pg db))))"

definition handleCompletion :: "server_env \<Rightarrow> uuid \<Rightarrow> gotime \<Rightarrow> uuid \<Rightarrow> wire_completion \<Rightarrow> server_db
    \<Rightarrow> server_db \<times> WorkResponse list \<times> grpc_code option" where
  "handleCompletion env statusID now runnerID message db =
     (if length (wm_LeaseToken message) > 512 then (db, [], Some InvalidArgument)
      else
        (let statusValue = (case wm_Conclusion message of ConclusionSucceeded \<Rightarrow> Some JobSucceeded | ConclusionFailed \<Rightarrow> Some JobFailed
               | ConclusionCanceled \<Rightarrow> Some JobCanceled | ConclusionUnspecified \<Rightarrow> None)
         in case (ae_parse (se_auth env) (wm_JobId message), statusValue) of
              (Some jobID, Some status) \<Rightarrow>
                (case Store_CompleteRunnerJob (se_pg env) statusID now
                        \<lparr>rc_RunnerID = runnerID, rc_JobID = jobID, rc_LeaseToken = wm_LeaseToken message, rc_Status = status\<rparr> (sv_pg db) of
                   Inl e \<Rightarrow> (db, [], Some (workStoreError e))
                 | Inr pg \<Rightarrow> (set_pg pg db, [], None))
            | _ \<Rightarrow> (db, [], Some InvalidArgument)))"

section \<open>Heartbeats\<close>

definition release_or_fail :: "server_env \<Rightarrow> work_input \<Rightarrow> nat \<Rightarrow> uuid \<Rightarrow> Assignment \<Rightarrow> bool \<Rightarrow> pg_db \<Rightarrow> pg_db \<times> grpc_code" where
  "release_or_fail env w k runnerID a permanent pg =
     (case (if permanent
            then Store_CompleteRunnerJob (se_pg env) (wi_status w k) (wi_now w k)
                   \<lparr>rc_RunnerID = runnerID, rc_JobID = as_JobID a, rc_LeaseToken = as_LeaseToken a, rc_Status = JobFailed\<rparr> pg
            else Store_ReleaseRunnerJob (se_pg env) (wi_now w k)
                   \<lparr>lr_RunnerID = runnerID, lr_JobID = as_JobID a, lr_LeaseToken = as_LeaseToken a\<rparr> pg) of
        Inl e \<Rightarrow> (pg, workStoreError e)
      | Inr pg1 \<Rightarrow> (pg1, InternalCode))"

text \<open>The credential of a job with sources: the completed message, or the state after the job was given up.\<close>

definition attachSourceCredential :: "server_env \<Rightarrow> work_input \<Rightarrow> nat \<Rightarrow> uuid \<Rightarrow> Assignment \<Rightarrow> SourceCheckout \<Rightarrow> job_message \<Rightarrow> pg_db
    \<Rightarrow> (pg_db \<times> grpc_code) + job_message" where
  "attachSourceCredential env w k runnerID a source message pg =
     (let fail = (\<lambda>permanent. Inl (release_or_fail env w k runnerID a permanent pg)) in
      if \<not> se_credentials env \<or> (src_Provider source \<noteq> ''github'' \<and> src_Provider source \<noteq> ''gitee'') \<or>
         src_RepositoryUUID source = uuid_Nil
      then fail True
      else if src_Provider source = ''gitee'' \<and> \<not> se_assignments env then fail True
      else
        (case wi_checkout w k a of
           Inl e \<Rightarrow> fail (e = CredentialPermanent)
         | Inr credential \<Rightarrow>
             if cc_RepositoryID credential \<noteq> src_RepositoryID source \<or> cc_Token credential = [] \<or>
                length (cc_Token credential) > 4096 \<or> \<not> cc_ExpiresAt credential > wi_wall w k
             then fail True
             else if src_Provider source = ''gitee'' \<and> cc_CloneURL credential = [] then fail True
             else
               (let url = (if src_Provider source = ''gitee'' then cc_CloneURL credential else src_CloneURL source) in
                Inr (message\<lparr>jm_Source := Some (src_Provider source, src_RepositoryID source, url, src_CommitSHA source),
                             jm_Credential := Some (cc_Token credential, cc_ExpiresAt credential)\<rparr>))))"

definition assignment_message :: "Assignment \<Rightarrow> bytes \<Rightarrow> job_message" where
  "assignment_message a plan =
     \<lparr>jm_JobId = as_JobID a, jm_RunId = as_RunID a, jm_LeaseToken = as_LeaseToken a, jm_LeaseExpiresAt = as_LeaseExpires a,
      jm_ExecutionPlanJson = plan, jm_Source = None, jm_Credential = None\<rparr>"

text \<open>The loop that hands out jobs until none is left for the runner; \<open>k\<close> counts its rounds.\<close>

partial_function (option) claim_jobs :: "server_env \<Rightarrow> work_input \<Rightarrow> uuid \<Rightarrow> nat \<Rightarrow> WorkResponse list \<Rightarrow> pg_db
    \<Rightarrow> (pg_db \<times> WorkResponse list \<times> grpc_code option) option" where
  "claim_jobs env w runnerID k out pg =
     (case Store_ClaimRunnerJob (se_pg env) (wi_token w k) (wi_now w k) runnerID pg of
        Inl e \<Rightarrow> Some (pg, out, Some (workStoreError e))
      | Inr (pg1, assigned) \<Rightarrow>
          (case assigned of
             None \<Rightarrow> Some (pg1, out, None)
           | Some a \<Rightarrow>
               (case env_marshal (se_pg env) (as_Spec a) of
                  None \<Rightarrow> Some (pg1, out, Some InternalCode)
                | Some plan \<Rightarrow>
                    if length plan > 1048576 then Some (pg1, out, Some InternalCode)
                    else
                      (case (case as_Source a of None \<Rightarrow> Inr (assignment_message a plan)
                             | Some source \<Rightarrow> attachSourceCredential env w k runnerID a source (assignment_message a plan) pg1) of
                         Inl (pg2, code) \<Rightarrow> Some (pg2, out, Some code)
                       | Inr message \<Rightarrow>
                           if se_send env (ResponseAssignment message)
                           then claim_jobs env w runnerID (Suc k) (out @ [ResponseAssignment message]) pg1
                           else Some (pg1, out, Some SendFailed)))))"

definition lease_response :: "LeaseResult \<Rightarrow> WorkResponse" where
  "lease_response r = (if res_Renewed r then ResponseRenewed (res_JobID r) (res_LeaseExpires r) else ResponseCancel (res_JobID r))"

fun send_all :: "server_env \<Rightarrow> WorkResponse list \<Rightarrow> WorkResponse list \<Rightarrow> WorkResponse list \<times> bool" where
  "send_all env [] out = (out, True)"
| "send_all env (r # rs) out = (if se_send env r then send_all env rs (out @ [r]) else (out, False))"

definition active_lease :: "server_env \<Rightarrow> wire_lease \<Rightarrow> ActiveLease option" where
  "active_lease env l =
     (if length (wl_LeaseToken l) > 512 then None
      else
        (case (ae_parse (se_auth env) (wl_JobId l),
               case wl_State l of LocalReceived \<Rightarrow> Some ''received'' | LocalRunning \<Rightarrow> Some ''running'' | LocalUnspecified \<Rightarrow> None) of
           (Some jobID, Some state) \<Rightarrow> Some \<lparr>al_JobID = jobID, al_LeaseToken = wl_LeaseToken l, al_State = state\<rparr>
         | _ \<Rightarrow> None))"

definition descriptor_of :: "Identity \<Rightarrow> Capabilities \<Rightarrow> RunnerDescriptor" where
  "descriptor_of identity c =
     \<lparr>rd_ID = ri_RunnerID identity, rd_PoolType = ri_PoolType identity, rd_OS = cap_OS c, rd_Architecture = cap_Architecture c,
      rd_Executor = cap_Executor c, rd_Labels = cap_Labels c, rd_Capacity = cap_Capacity c,
      rd_AvailableDiskBytes = cap_AvailableDiskBytes c, rd_ProtocolVersion = cap_ProtocolVersion c\<rparr>"

definition heartbeat_request :: "server_env \<Rightarrow> Identity \<Rightarrow> wire_heartbeat \<Rightarrow> HeartbeatRequest option" where
  "heartbeat_request env identity heartbeat =
     (if \<not> supportedProtocol (wh_ProtocolVersion heartbeat) \<or> length (wh_ActiveLeases heartbeat) > 256 then None
      else
        (case wh_Capabilities heartbeat of
           None \<Rightarrow> None
         | Some c \<Rightarrow>
             (case capabilities c (wh_ProtocolVersion heartbeat) of
                None \<Rightarrow> None
              | Some capability \<Rightarrow>
                  if cap_IsolationLevel capability \<noteq> ri_PoolType identity \<or>
                     cap_ProtocolVersion capability \<noteq> cap_ProtocolVersion (ri_Capabilities identity)
                  then None
                  else
                    (case those (map (active_lease env) (wh_ActiveLeases heartbeat)) of
                       None \<Rightarrow> None
                     | Some active \<Rightarrow> Some \<lparr>hb_Runner = descriptor_of identity capability, hb_ActiveJobs = active\<rparr>))))"

definition handleHeartbeat :: "server_env \<Rightarrow> work_input \<Rightarrow> gotime \<Rightarrow> Identity \<Rightarrow> wire_heartbeat \<Rightarrow> server_db
    \<Rightarrow> (server_db \<times> WorkResponse list \<times> grpc_code option) option" where
  "handleHeartbeat env w now identity heartbeat db =
     (case heartbeat_request env identity heartbeat of
        None \<Rightarrow> Some (db, [], Some InvalidArgument)
      | Some request \<Rightarrow>
          (case Store_RenewRunnerLeases (se_pg env) now request (sv_pg db) of
             Inl e \<Rightarrow> Some (db, [], Some (workStoreError e))
           | Inr (pg, result) \<Rightarrow>
               (case send_all env (map lease_response (hr_Jobs result)) [] of
                  (out, sent) \<Rightarrow>
                    if \<not> sent then Some (set_pg pg db, out, Some SendFailed)
                    else map_option (\<lambda>(pg1, out1, code). (set_pg pg1 db, out1, code)) (claim_jobs env w (ri_RunnerID identity) 0 out pg))))"

section \<open>The stream\<close>

definition work_message :: "server_env \<Rightarrow> work_input \<Rightarrow> gotime \<Rightarrow> Identity \<Rightarrow> WorkRequest \<Rightarrow> server_db
    \<Rightarrow> (server_db \<times> WorkResponse list \<times> grpc_code option) option" where
  "work_message env w now identity request db =
     (case request of
        WorkHeartbeat h \<Rightarrow> handleHeartbeat env w now identity h db
      | WorkAccepted m \<Rightarrow> Some (handleReceipt env now (ri_RunnerID identity) m False db)
      | WorkStarted m \<Rightarrow> Some (handleReceipt env now (ri_RunnerID identity) m True db)
      | WorkCompleted m \<Rightarrow> Some (handleCompletion env (wi_status w 0) now (ri_RunnerID identity) m db)
      | WorkLog m \<Rightarrow> Some (handleLog env now now (ri_RunnerID identity) m db)
      | WorkEmpty \<Rightarrow> Some (db, [], Some InvalidArgument))"

text \<open>The messages of a stream, each with its inputs, until one of them ends it.\<close>

fun Work :: "server_env \<Rightarrow> Identity \<Rightarrow> (work_input \<times> gotime \<times> WorkRequest) list \<Rightarrow> server_db
    \<Rightarrow> (server_db \<times> WorkResponse list \<times> grpc_code option) option" where
  "Work env identity [] db = Some (db, [], None)"
| "Work env identity ((w, now, request) # rest) db =
     (case work_message env w now identity request db of
        None \<Rightarrow> None
      | Some (db1, out, code) \<Rightarrow>
          (case code of
             Some e \<Rightarrow> Some (db1, out, Some e)
           | None \<Rightarrow> map_option (\<lambda>(db2, more, last). (db2, out @ more, last)) (Work env identity rest db1)))"

text \<open>The handler of a stream: one session for each runner, which ends with the stream.\<close>

definition work_session :: "server_env \<Rightarrow> Identity \<Rightarrow> (work_input \<times> gotime \<times> WorkRequest) list \<Rightarrow> Server \<Rightarrow> server_db
    \<Rightarrow> (Server \<times> server_db \<times> WorkResponse list \<times> grpc_code option) option" where
  "work_session env identity messages server db =
     (case beginSession (ri_RunnerID identity) server of
        None \<Rightarrow> Some (server, db, [], Some AlreadyExists)
      | Some opened \<Rightarrow> map_option (\<lambda>r. (endSession (ri_RunnerID identity) opened, r)) (Work env identity messages db))"

end
