(* ===== verification/Runner_Traces.thy ===== *)
theory Runner_Traces
  imports Runner_Sessions Pg_Traces
begin

text \<open>
  A runner from its registration token to the revocation of its certificate, and the properties of the identities and of the
  sessions of runners at work on it.
\<close>

section \<open>A certificate authority that signs one certificate\<close>

definition demo_key :: public_key where
  "demo_key = Ed25519Key (replicate 32 (CHR ''k''))"

definition demo_sha :: "bytes \<Rightarrow> bytes" where
  "demo_sha b = replicate 32 (case b of [] \<Rightarrow> CHR 0x00 | c # _ \<Rightarrow> c)"

definition demo_uri :: x509_url where
  "demo_uri = \<lparr>uri_Scheme = ''yuanci'', uri_Host = ''runner'', uri_Path = ''/iiiii'', uri_EscapedPath = ''/iiiii'', uri_RawQuery = [],
     uri_Fragment = [], uri_User = False\<rparr>"

text \<open>The serial is the number of twenty bytes \<open>A\<close>.\<close>

definition demo_template :: x509_certificate where
  "demo_template =
     \<lparr>xc_SerialNumber = int (big_SetBytes (''AAAAAAAAAAAAAAAAAAAA'')), xc_Subject = [], xc_NotBefore = 40 * Second,
      xc_NotAfter = 100 * Second + 24 * Hour, xc_KeyUsage = 1, xc_ExtKeyUsage = [ExtKeyUsageClientAuth], xc_UnknownExtKeyUsage = 0,
      xc_BasicConstraintsValid = True, xc_IsCA = False, xc_URIs = [demo_uri], xc_DNSNames = [], xc_IPAddresses = [],
      xc_EmailAddresses = [], xc_PublicKey = demo_key, xc_SubjectKeyId = demo_sha ''P'', xc_AuthorityKeyId = ''I'', xc_Raw = []\<rparr>"

definition demo_issuer :: x509_certificate where
  "demo_issuer = demo_template\<lparr>xc_IsCA := True, xc_KeyUsage := 32, xc_NotBefore := 0, xc_NotAfter := 8760 * Hour, xc_SubjectKeyId := ''I'',
     xc_Raw := ''R''\<rparr>"

definition demo_certificate :: x509_certificate where
  "demo_certificate = demo_template\<lparr>xc_Raw := ''D''\<rparr>"

definition demo_env :: auth_env where
  "demo_env =
     \<lparr>fe_pg = sample_env, fe_labels = Some, fe_time = (\<lambda>_. ''t''), ae_sha = demo_sha, ae_parse = (\<lambda>s. Some (of_nat (length s))),
      ae_pem_decode = (\<lambda>b. Some (\<lparr>pb_Type = ''CERTIFICATE REQUEST'', pb_Headers = 0, pb_Bytes = b\<rparr>, [])),
      ae_pem_encode = (\<lambda>b. b),
      ae_request = (\<lambda>_. Some \<lparr>xr_Subject = [], xr_Names = 0, xr_Extensions = 0, xr_Attributes = 0, xr_PublicKey = demo_key, xr_Signed = True\<rparr>),
      ae_pkix = (\<lambda>_. Some ''P''),
      ae_create = (\<lambda>t issuer key. if t = demo_template \<and> key = demo_key then Some ''D'' else None),
      ae_certificate = (\<lambda>_. Some demo_certificate), ae_issuer = demo_issuer, ae_issuer_key = demo_key\<rparr>"

lemma demo_x509: "x509_ok demo_env"
  by (auto simp: x509_ok_def demo_env_def demo_certificate_def demo_template_def split: if_splits intro: exI [of _ "''D''"])

lemma demo_uuid: "uuid_ok demo_env"
  by (simp add: uuid_ok_def demo_env_def sample_env_def)

lemma demo_inj: "inj (env_String (fe_pg demo_env))"
  by (rule injI) (metis demo_uuid option.inject uuid_ok_def)

lemma demo_fleet_env: "fe_pg demo_env = sample_env" "fe_labels demo_env = Some" "fe_time demo_env = (\<lambda>_. ''t'')"
  by (simp_all add: demo_env_def)

section \<open>From the token to the revocation\<close>

definition demo_capabilities :: Capabilities where
  "demo_capabilities = \<lparr>cap_OS = ''linux'', cap_Architecture = ''amd64'', cap_Executor = ''docker'', cap_IsolationLevel = ''standard'',
     cap_Labels = [], cap_Capacity = 1, cap_AvailableDiskBytes = 10 ^ 12, cap_ProtocolVersion = 2, cap_RunnerVersion = ''protocol-v2''\<rparr>"

definition demo_ids :: auth_ids where
  "demo_ids = \<lparr>ai_runner = 5, ai_certificate = 60, ai_serial = ''AAAAAAAAAAAAAAAAAAAA''\<rparr>"

definition fleet_fresh :: fleet_db where
  "fleet_fresh = \<lparr>fl_pg = empty_db, fl_pools = [\<lparr>po_id = 2, po_name = ''standard'', po_type = ''standard''\<rparr>], fl_accounts = [],
     fl_tokens = [], fl_certs = []\<rparr>"

definition demo_token :: RegistrationToken where
  "demo_token = \<lparr>rt_ID = 30, rt_PoolName = ''standard'', rt_Digest = demo_sha ''6'', rt_ExpiresAt = Hour, rt_MaxUses = 1, rt_CreatedBy = None\<rparr>"

definition demo_text :: string where
  "demo_text = hex_encode (replicate 32 (CHR ''a''))"

definition demo_row :: registration_row where
  "demo_row = \<lparr>rg_id = 30, rg_pool = 2, rg_digest = demo_sha ''6'', rg_expires = Hour, rg_max = 1, rg_used = 0, rg_created_by = None,
     rg_last_used = None, rg_last_runner = None, rg_revoked = None\<rparr>"

definition runner_event :: "string \<Rightarrow> string \<Rightarrow> uuid \<Rightarrow> gomap \<Rightarrow> AuditEvent" where
  "runner_event action resource target metadata =
     \<lparr>ae_actor_user_id = None, ae_action = action, ae_resource_type = resource, ae_resource_id = env_String sample_env target,
      ae_metadata = metadata\<rparr>"

definition fleet_issued :: fleet_db where
  "fleet_issued = fleet_fresh\<lparr>fl_tokens := [demo_row],
     fl_pg := write_event (runner_event ''runner_registration_token.created'' ''runner_registration_token'' 30
       [(''pool_id'', env_String sample_env 2), (''expires_at'', ''t''), (''max_uses'', FormatInt 1)]) empty_db\<rparr>"

definition demo_identity :: Identity where
  "demo_identity = \<lparr>ri_RunnerID = 5, ri_PoolID = 2, ri_PoolType = ''standard'', ri_Name = ''runner-1'', ri_CertificateID = 60,
     ri_Serial = serial_text demo_certificate, ri_Capabilities = demo_capabilities\<rparr>"

definition demo_issued :: IssuedCertificate where
  "demo_issued = \<lparr>ic_Certificate = demo_certificate, ic_ChainPEM = ''DR'', ic_CSRFingerprint = demo_sha ''C'', ic_PublicKeyFingerprint = demo_sha ''P''\<rparr>"

definition demo_cert_row :: certificate_row where
  "demo_cert_row = \<lparr>ct_id = 60, ct_runner = 5, ct_serial = serial_text demo_certificate, ct_csr = demo_sha ''C'', ct_public = demo_sha ''P'',
     ct_state = CertActive, ct_chain = ''DR'', ct_not_before = 40 * Second, ct_not_after = 100 * Second + 24 * Hour, ct_retire_at = None,
     ct_revoked_at = None, ct_reason = None, ct_replaces = None\<rparr>"

definition demo_account :: runner_account where
  "demo_account = \<lparr>ra_id = 5, ra_pool = 2, ra_name = ''runner-1'', ra_serial = Some (serial_text demo_certificate),
     ra_version = ''protocol-v2'', ra_reason = None\<rparr>"

definition fleet_enrolled :: fleet_db where
  "fleet_enrolled = fleet_issued\<lparr>fl_accounts := [demo_account], fl_certs := [demo_cert_row],
     fl_tokens := [demo_row\<lparr>rg_used := 1, rg_last_used := Some (100 * Second), rg_last_runner := Some 5\<rparr>],
     fl_pg := write_event (enrolled_event demo_env 5 2 (serial_text demo_certificate) 30)
       ((fl_pg fleet_issued)\<lparr>pg_runners := [new_runner 5 ''standard'' [] demo_capabilities]\<rparr>)\<rparr>"

lemma demo_serial: "serial_text demo_certificate = ''4141414141414141414141414141414141414141''"
proof -
  have "big_SetBytes (''AAAAAAAAAAAAAAAAAAAA'') = 0x4141414141414141414141414141414141414141"
    by (simp add: big_SetBytes_def)
  moreover have "hex_digit 4 = CHR ''4''" "hex_digit (Suc 0) = CHR ''1''" by code_simp+
  ultimately have "hex_text (nat (xc_SerialNumber demo_certificate)) = ''4141414141414141414141414141414141414141''"
    by (simp add: demo_certificate_def demo_template_def hex_text.simps)
  moreover have "ToLower ''4141414141414141414141414141414141414141'' = ''4141414141414141414141414141414141414141''" by code_simp
  ultimately show ?thesis by (simp add: serial_text_def)
qed

lemma demo_issue: "CreateRegistrationToken demo_env (10 * Second) demo_token fleet_fresh = Inr fleet_issued"
  by (simp add: CreateRegistrationToken_def demo_token_def fleet_fresh_def fleet_issued_def demo_row_def fleet_audit_def actor_known_def
    appendRunnerAudit_def runner_event_def demo_env_def demo_sha_def duration_defs)

lemma TrimSpace_Nil: "TrimSpace [] = []"
  by code_simp

lemma demo_sign: "SignRunnerCertificate demo_env (ai_serial demo_ids) ''C'' (ai_runner demo_ids) (100 * Second) DefaultRunnerLifetime = Some demo_issued"
proof -
  have info: "ValidateRunnerCSR demo_env ''C'' = Some \<lparr>ci_Request = \<lparr>xr_Subject = [], xr_Names = 0, xr_Extensions = 0, xr_Attributes = 0,
       xr_PublicKey = demo_key, xr_Signed = True\<rparr>, ci_CSRFingerprint = demo_sha ''C'', ci_PublicKeyFingerprint = demo_sha ''P''\<rparr>"
    using TrimSpace_Nil by (simp add: ValidateRunnerCSR_def demo_env_def MaxCSRBytes_def demo_key_def supportedPublicKey_def)
  have char_65: "char_of (65 :: nat) = CHR ''A''" by code_simp
  have serial: "randomSerial (ai_serial demo_ids) = big_SetBytes ''AAAAAAAAAAAAAAAAAAAA''"
    using char_65 by (simp add: randomSerial_def demo_ids_def)
  have string_5: "env_String sample_env 5 = ''iiiii''" by code_simp
  have uri: "runner_uri demo_env 5 = demo_uri"
    using string_5 by (simp add: runner_uri_def demo_uri_def demo_env_def Let_def)
  have template: "runner_template demo_env (big_SetBytes ''AAAAAAAAAAAAAAAAAAAA'') 5 \<lparr>ci_Request = \<lparr>xr_Subject = [], xr_Names = 0, xr_Extensions = 0,
       xr_Attributes = 0, xr_PublicKey = demo_key, xr_Signed = True\<rparr>, ci_CSRFingerprint = demo_sha ''C'', ci_PublicKeyFingerprint = demo_sha ''P''\<rparr>
       (40 * Second) (100 * Second + 24 * Hour) = demo_template"
    by (simp add: runner_template_def uri demo_template_def) (simp add: demo_env_def demo_issuer_def demo_template_def)
  have issuer: "xc_IsCA demo_issuer" "bit (xc_KeyUsage demo_issuer) 5" "xc_NotBefore demo_issuer = 0" "xc_NotAfter demo_issuer = 8760 * Hour"
      "xc_Raw demo_issuer = ''R''"
    by (simp_all add: demo_issuer_def) code_simp
  have times: "truncate_second (100 * Second) = 100 * Second" "max (100 * Second - runnerCertificateBackdate) 0 = 40 * Second"
    "DefaultRunnerLifetime = 24 * Hour" "0 < 24 * Hour" "0 \<le> 100 * Second" "100 * Second < 8760 * Hour" "100 * Second + 24 * Hour \<le> 8760 * Hour"
    "40 * Second < 8760 * Hour"
    by (simp_all add: truncate_second_def runnerCertificateBackdate_def DefaultRunnerLifetime_def duration_defs)
  have env: "ae_issuer demo_env = demo_issuer" "publicKeysEqual demo_env k k'" "ae_create demo_env demo_template i demo_key = Some ''D''"
    "ae_certificate demo_env der = Some demo_certificate" "ae_pem_encode demo_env b = b" for k k' i der b
    by (simp_all add: demo_env_def publicKeysEqual_def)
  have ids: "ai_runner demo_ids = 5" by (simp add: demo_ids_def)
  show ?thesis
    unfolding SignRunnerCertificate_def info ids serial env Let_def option.case issuer times CSRInfo.simps x509_request.simps template
    by (simp add: demo_issued_def env issuer) (simp add: duration_defs)
qed

lemma demo_digest: "RunnerTokenDigest demo_env demo_text = Some (demo_sha ''6'')"
proof -
  have "hex_encode (replicate 32 (CHR ''a'')) = CHR ''6'' # tl (hex_encode (replicate 32 (CHR ''a'')))" by code_simp
  then have "demo_sha demo_text = demo_sha ''6''" unfolding demo_text_def demo_sha_def by (metis list.case(2))
  then show ?thesis by (simp add: RunnerTokenDigest_def demo_text_def hex_decode_encode) (simp add: demo_env_def demo_serial)
qed

lemma demo_valid: "validateCapabilities ''runner-1'' demo_capabilities"
  by code_simp

lemma demo_enroll:
  "Enroll demo_env demo_ids (100 * Second) (100 * Second) demo_text ''runner-1'' demo_capabilities ''C'' fleet_issued =
   Inr (fleet_enrolled, demo_identity, certificateRecord demo_issued)"
proof -
  have "list_all hex_lower (serial_text demo_certificate)" and len: "length (serial_text demo_certificate) = 40"
    unfolding demo_serial by code_simp+
  then have serial: "Ball (set (serial_text demo_certificate)) hex_lower" by (simp add: list_all_iff)
  have live: "100 * Second < Hour" "40 * Second < 100 * Second + 24 * Hour" by (simp_all add: duration_defs)
  have ids: "ai_runner demo_ids = 5" "ai_certificate demo_ids = 60" by (simp_all add: demo_ids_def)
  have sha: "length (demo_sha b) = 32" for b by (simp add: demo_sha_def)
  have rec: "certificateRecord demo_issued = \<lparr>cr_Serial = serial_text demo_certificate, cr_CSRFingerprint = demo_sha ''C'',
      cr_PublicKeyFingerprint = demo_sha ''P'', cr_ChainPEM = ''DR'', cr_NotBefore = 40 * Second, cr_NotAfter = 100 * Second + 24 * Hour,
      cr_PreviousValidUntil = time_zero\<rparr>"
    by (simp add: certificateRecord_def demo_issued_def demo_certificate_def demo_template_def)
  have "EnrollRunner demo_env 60 (100 * Second) \<lparr>en_TokenDigest = demo_sha ''6'', en_RunnerID = 5, en_Name = ''runner-1'',
      en_Capabilities = demo_capabilities, en_Certificate = certificateRecord demo_issued\<rparr> fleet_issued = Inr (fleet_enrolled, demo_identity)"
    unfolding rec
    by (simp add: EnrollRunner_def token_usable_def fleet_issued_def fleet_fresh_def demo_row_def live pool_of_def demo_capabilities_def
      insert_runner_def insertRunnerCertificate_def certificate_checks_def serial len sha affected_def list_all_iff consume_token_def Let_def demo_fleet_env
      fleet_audit_def actor_known_def appendRunnerAudit_def write_event_def empty_db_def)
      (simp add: fleet_enrolled_def fleet_issued_def fleet_fresh_def demo_row_def demo_identity_def demo_capabilities_def demo_account_def
        demo_cert_row_def enrolled_event_def demo_fleet_env write_event_def empty_db_def new_runner_def update_where_def runner_event_def)
  then show ?thesis by (simp add: Enroll_def demo_digest demo_valid demo_sign [unfolded ids] ids)
qed

lemma fleet_enrolled_tables:
  "fl_certs fleet_enrolled = [demo_cert_row]" "fl_accounts fleet_enrolled = [demo_account]"
  "fl_pools fleet_enrolled = [\<lparr>po_id = 2, po_name = ''standard'', po_type = ''standard''\<rparr>]"
  "pg_runners (fl_pg fleet_enrolled) = [new_runner 5 ''standard'' [] demo_capabilities]"
  by (simp_all add: fleet_enrolled_def fleet_issued_def fleet_fresh_def)

lemma fleet_fresh_start: "fleet_start fleet_fresh"
  by (simp add: fleet_start_def fleet_fresh_def fleet_log_def empty_db_def empty_identity_def)

lemma fleet_enrolled_steps: "fleet_steps demo_env fleet_issued fleet_enrolled" "fleet_steps demo_env fleet_fresh fleet_enrolled"
proof -
  obtain e where "EnrollRunner demo_env 60 (100 * Second) e fleet_issued = Inr (fleet_enrolled, demo_identity)"
    using demo_enroll by (auto simp: Enroll_def demo_ids_def split: option.splits if_splits sum.splits)
  then have "fleet_step demo_env fleet_issued fleet_enrolled" by (rule fleet_step.enroll)
  then show "fleet_steps demo_env fleet_issued fleet_enrolled" "fleet_steps demo_env fleet_fresh fleet_enrolled"
    using fleet_step.issue [OF demo_issue] by (auto intro: converse_rtranclp_into_rtranclp)
qed

definition demo_rotation :: Rotation where
  "demo_rotation = \<lparr>ro_RunnerID = 5, ro_OldSerial = serial_text demo_certificate,
     ro_Certificate = \<lparr>cr_Serial = ''4242424242424242'', cr_CSRFingerprint = demo_sha ''E'', cr_PublicKeyFingerprint = demo_sha ''Q'',
       cr_ChainPEM = ''ER'', cr_NotBefore = 140 * Second, cr_NotAfter = 200 * Second + 24 * Hour, cr_PreviousValidUntil = 0\<rparr>, ro_GracePeriod = RotationGracePeriod\<rparr>"

lemma enrolled_live: "AuthenticateRunner (200 * Second) 5 (serial_text demo_certificate) fleet_enrolled = Inr demo_identity"
  by (simp add: AuthenticateRunner_def fleet_enrolled_tables enabled_runner_def account_of_def pool_of_def new_runner_def demo_cert_row_def
    demo_account_def certificate_live_def duration_defs demo_capabilities_def stored_capabilities_def demo_identity_def)

lemma demo_rotate: "\<exists>db issued. RotateRunnerCertificate demo_env 61 (200 * Second) demo_rotation fleet_enrolled = Inr (db, issued) \<and>
    cr_Serial issued = ''4242424242424242''"
proof -
  have "list_all hex_lower ''4242424242424242''" by code_simp
  then show ?thesis
    by (simp add: RotateRunnerCertificate_def demo_rotation_def RotationGracePeriod_def fleet_enrolled_tables enabled_runner_def new_runner_def
      demo_cert_row_def replacementCertificate_def retire_certificate_def update_where_def insertRunnerCertificate_def certificate_checks_def
      demo_account_def demo_serial demo_sha_def fleet_audit_def actor_known_def duration_defs Let_def)
qed

lemma demo_revoke: "\<exists>db. RevokeRunnerCertificate demo_env (300 * Second) (serial_text demo_certificate) ''lost'' None fleet_enrolled = Inr db"
  by (simp add: RevokeRunnerCertificate_def fleet_enrolled_tables demo_cert_row_def usable_state_def revoke_certificates_def fleet_audit_def
    actor_known_def demo_serial duration_defs)

lemma demo_disable: "\<exists>db. DisableRunner demo_env (300 * Second) 5 ''lost'' None fleet_enrolled = Inr db"
  by (simp add: DisableRunner_def fleet_enrolled_tables demo_cert_row_def usable_state_def revoke_certificates_def fleet_audit_def
    actor_known_def duration_defs disable_rows_def affected_def new_runner_def)

section \<open>The properties at work\<close>

theorem revoked_certificate_dead_witness:
  "\<exists>db. RevokeRunnerCertificate demo_env (300 * Second) (serial_text demo_certificate) ''lost'' None fleet_enrolled = Inr db \<and>
     Authenticate demo_env (400 * Second) demo_certificate db = Inl RunnerDenied"
  using demo_revoke revoked_certificate_dead [OF _ rtranclp.rtrancl_refl, of demo_env "300 * Second" "serial_text demo_certificate" "''lost''" None fleet_enrolled]
  by blast

theorem disabled_runner_locked_out_witness:
  "\<exists>db. DisableRunner demo_env (300 * Second) 5 ''lost'' None fleet_enrolled = Inr db \<and>
     AuthenticateRunner (400 * Second) 5 (serial_text demo_certificate) db = Inl RunnerDenied"
  using demo_disable disabled_runner_locked_out [OF _ rtranclp.rtrancl_refl, of demo_env "300 * Second" 5 "''lost''" None fleet_enrolled]
  by blast

theorem registration_token_budget_witness: "int (admissions demo_env 30 fleet_enrolled) \<le> 1"
  using registration_token_budget [OF demo_inj fleet_fresh_start rtranclp.rtrancl_refl demo_issue fleet_enrolled_steps(1)]
  by (simp add: demo_token_def)

theorem enrolled_runner_authenticates_witness: "Authenticate demo_env (200 * Second) demo_certificate fleet_enrolled = Inr demo_identity"
proof -
  have "fe_labels demo_env (cap_Labels demo_capabilities) = Some (cap_Labels demo_capabilities)" "length (ai_serial demo_ids) = 20"
    by (simp_all add: demo_fleet_env demo_ids_def)
  moreover have "cr_NotBefore (certificateRecord demo_issued) \<le> 200 * Second" "200 * Second < cr_NotAfter (certificateRecord demo_issued)"
    by (simp_all add: certificateRecord_def demo_issued_def demo_certificate_def demo_template_def duration_defs)
  ultimately show ?thesis
    using enrolled_runner_authenticates [OF demo_x509 demo_uuid _ _ demo_enroll demo_sign] by (simp add: demo_issued_def)
qed

theorem rotation_hands_over_witness:
  "\<exists>db issued. RotateRunnerCertificate demo_env 61 (200 * Second) demo_rotation fleet_enrolled = Inr (db, issued) \<and>
     AuthenticateRunner (200 * Second + RotationGracePeriod) 5 (serial_text demo_certificate) db = Inl RunnerDenied"
proof -
  obtain db issued where r: "RotateRunnerCertificate demo_env 61 (200 * Second) demo_rotation fleet_enrolled = Inr (db, issued)"
    and serial: "cr_Serial issued = ''4242424242424242''"
    using demo_rotate by blast
  have runner: "ro_RunnerID demo_rotation = 5" "ro_OldSerial demo_rotation = serial_text demo_certificate" by (simp_all add: demo_rotation_def)
  have "cr_Serial issued \<notin> ct_serial ` set (fl_certs fleet_enrolled)"
    by (simp add: serial fleet_enrolled_tables demo_cert_row_def demo_serial)
  from rotation_hands_over [OF fleet_fresh_start fleet_enrolled_steps(2) enrolled_live [folded runner] r this]
  have "AuthenticateRunner (200 * Second + RotationGracePeriod) 5 (serial_text demo_certificate) db = Inl RunnerDenied"
    by (auto simp: runner not_less RotationGracePeriod_def duration_defs split: if_splits)
  with r show ?thesis by blast
qed

lemma demo_certificate_sel: "xc_URIs demo_certificate = [demo_uri]" "xc_DNSNames demo_certificate = []" "xc_IPAddresses demo_certificate = []"
  "xc_EmailAddresses demo_certificate = []" "xc_Subject demo_certificate = []" "\<not> xc_IsCA demo_certificate"
  "xc_BasicConstraintsValid demo_certificate" "xc_KeyUsage demo_certificate = 1" "xc_UnknownExtKeyUsage demo_certificate = 0"
  "xc_ExtKeyUsage demo_certificate = [ExtKeyUsageClientAuth]"
  by (simp_all add: demo_certificate_def demo_template_def)

text \<open>The identity of the certificate at work, and the token that admitted its runner.\<close>

theorem authenticated_runner_admitted_witness:
  "\<exists>serial. \<exists>t\<in>set (fl_tokens fleet_enrolled). rg_pool t = 2 \<and> enrolled_event demo_env 5 2 serial (rg_id t) \<in> set (fleet_log fleet_enrolled)"
proof -
  have "CertificateIdentity demo_env demo_certificate = Some (5, serial_text demo_certificate)"
  proof -
    have "TrimPrefix ''/iiiii'' ''/'' = ''iiiii''" "env_String sample_env 5 = ''iiiii''" by code_simp+
    moreover have "0 < xc_SerialNumber demo_certificate" by (simp add: demo_certificate_def demo_template_def big_SetBytes_def)
    ultimately show ?thesis
      by (simp add: CertificateIdentity_def demo_serial demo_certificate_sel demo_uri_def) (simp add: demo_env_def demo_serial)
  qed
  then have "Authenticate demo_env (200 * Second) demo_certificate fleet_enrolled = Inr demo_identity"
    by (simp add: Authenticate_def enrolled_live)
  from authenticated_runner_admitted [OF fleet_fresh_start fleet_enrolled_steps(2) this] show ?thesis
    by (simp add: demo_identity_def)
qed

section \<open>A queued job and two runners\<close>

definition queue_row :: pg_job where
  "queue_row = sample_row 101 7 (2 * Second) ''build'' ''compile'' [] JobQueued None"

definition queue_pg :: pg_db where
  "queue_pg = empty_db\<lparr>pg_runs := [\<lparr>rw_rec = sample_record, rw_rerun = None\<rparr>], pg_jobs := [queue_row],
     pg_runners := [new_runner 5 ''standard'' [] demo_capabilities]\<rparr>"

definition queue_fleet :: fleet_db where
  "queue_fleet = fleet_enrolled\<lparr>fl_pg := queue_pg\<rparr>"




definition demo_server :: server_env where
  "demo_server = \<lparr>se_auth = demo_env, se_credentials = False, se_assignments = False, se_send = (\<lambda>_. True)\<rparr>"

definition demo_input :: work_input where
  "demo_input = \<lparr>wi_now = (\<lambda>_. 400 * Second), wi_wall = (\<lambda>_. 400 * Second), wi_token = (\<lambda>_. ''token''), wi_status = (\<lambda>_. 90),
     wi_checkout = (\<lambda>_ _. Inl CredentialTransient)\<rparr>"


definition queue_server :: server_db where
  "queue_server = \<lparr>sv_fleet = queue_fleet, sv_streams = Map.empty, sv_chunks = (\<lambda>_. Map.empty)\<rparr>"


text \<open>Runner 6 asks to complete the job that runner 5 holds, and even knows its token.\<close>

definition leased_row :: pg_job where
  "leased_row = bind_lease sample_env (400 * Second) 5 ''token'' queue_row"

definition intruder :: runner_row where
  "intruder = new_runner 6 ''standard'' [] demo_capabilities"

definition leased_server :: server_db where
  "leased_server = queue_server\<lparr>sv_fleet := queue_fleet\<lparr>fl_pg := queue_pg\<lparr>pg_jobs := [leased_row], pg_runners := pg_runners queue_pg @ [intruder]\<rparr>\<rparr>\<rparr>"

definition intruder_identity :: Identity where
  "intruder_identity = demo_identity\<lparr>ri_RunnerID := 6\<rparr>"

definition intruder_message :: WorkRequest where
  "intruder_message = WorkCompleted \<lparr>wm_JobId = replicate 101 (CHR ''i''), wm_LeaseToken = ''token'', wm_Conclusion = ConclusionFailed\<rparr>"

theorem stream_spares_other_runners_witness:
  "\<exists>db out code. Work demo_server intruder_identity [(demo_input, 401 * Second, intruder_message)] leased_server = Some (db, out, code) \<and>
     leased_row \<in> set (pg_jobs (sv_pg db))"
proof -
  obtain db out code where w: "Work demo_server intruder_identity [(demo_input, 401 * Second, intruder_message)] leased_server = Some (db, out, code)"
  proof -
    obtain x where "work_message demo_server demo_input (401 * Second) intruder_identity intruder_message leased_server = Some x"
      by (simp add: work_message_def intruder_message_def)
    then show thesis using that by (cases x, cases "snd (snd x)") auto
  qed
  have rows: "pg_jobs (sv_pg leased_server) = [leased_row]" "pg_runners (sv_pg leased_server) = [new_runner 5 ''standard'' [] demo_capabilities, intruder]"
    by (simp_all add: leased_server_def queue_pg_def fleet_enrolled_tables)
  have j: "leased_row \<in> set (pg_jobs (sv_pg leased_server))" "job_leased (jb_status leased_row)" "jb_runner leased_row = Some 5"
    by (simp_all add: rows leased_row_def bind_lease_def)
  have n: "new_runner 5 ''standard'' [] demo_capabilities \<in> set (pg_runners (sv_pg leased_server))"
    "rn_id (new_runner 5 ''standard'' [] demo_capabilities) = 5" "(5 :: uuid) \<noteq> ri_RunnerID intruder_identity"
    by (simp_all add: rows new_runner_def intruder_identity_def)
  have "distinct (map jb_id (pg_jobs (sv_pg leased_server)))" by (simp add: rows)
  from stream_spares_other_runners [OF w this j n] w show ?thesis by blast
qed

end
