(* ===== verification/Spec2Isabelle.thy ===== *)
theory Spec2Isabelle
  imports Lease_Guarantees Authorization_Policy Project_Automation Redaction Log_Stream Status_Delivery Webhook_Traces Login_Traces Runner_Traces
begin

text \<open>
  Verification of the core of YuanCI, a self-hosted CI server with its runners (Go, \<open>src/internal\<close>).

  \<^bold>\<open>The program.\<close> A provider (GitHub, Gitee) sends a webhook. The entrance checks its signature and stores the
  delivery in an inbox. A worker claims deliveries under a lease; the orchestrator looks up the automation settings of the
  repository, fetches the pipeline file, compiles it into a plan and stores a run with one job for each job of the plan.
  Runners claim jobs under leases, renew the leases by heartbeats, send logs and complete the jobs; completions release
  the jobs that depend on them and finish the run; expired leases are recovered. Every change of the status of a run is
  reported to the provider through an outbox. Users sign in with sessions, and what they may do follows from memberships
  and an authorization policy; the first administrator is set up with a code. Runners are admitted with registration tokens
  and identified by client certificates, which they rotate, and work over one gRPC stream each.

  \<^bold>\<open>Theories and sources.\<close>
  \<^item> Prelude, Go_Std, Go_Text, Base64: Go values, the functions of the standard library that the source calls, and the
    lemmas on lists and tables that the other theories share.
  \<^item> Pipeline_Types, Pipeline_Validate, Dep_Graph, Pipeline_Compile, Pipeline_Properties: \<open>pipeline/types.go\<close> and
    \<open>pipeline/compiler.go\<close>. The checks of a pipeline file, the search for cycles and the compiler; the validator is
    compared with a declarative definition of validity.
  \<^item> Run_State, Memory_Store: \<open>run/state.go\<close>, \<open>run/store.go\<close>, \<open>run/runner_store.go\<close>, \<open>run/runner_memory.go\<close>,
    \<open>run/recovery_memory.go\<close>: statuses, requests, and every operation of the in-memory store.
  \<^item> Job_Machine, Run_Machine: the specification of a run store, an abstract machine over jobs with dependencies and runs
    with statuses. The locale \<open>run_store\<close> is the contract of a store; its lemmas (jobs start after their dependencies, runs
    do not get stuck, statuses of runs are sound) are proved once from it.
  \<^item> Memory_Refine, Memory_Guarantees, Plan_Runs, Store_Traces, Lease_Guarantees: the in-memory store implements the
    machine, and what follows.
  \<^item> Pg_Store, Run_Access: \<open>store/postgres/store.go\<close>, \<open>runner_jobs.go\<close>, \<open>runner_recovery.go\<close>, \<open>authorized_runs.go\<close>,
    \<open>run_actions.go\<close>, \<open>run_rerun.go\<close>: every transaction on runs and jobs. Pg_Refine, Pg_Guarantees, Pg_Actions,
    Pg_Traces: this store implements the machine too, now with cancellation and reruns, and what follows.
  \<^item> Authorization_Policy: \<open>authorization/policy.go\<close>. Identity_Store, Identity_Properties: \<open>identity/session.go\<close> and
    \<open>store/postgres/identity.go\<close>.
  \<^item> Scm_Types, Lease_Queue, Commit_Status, Status_Delivery: \<open>scm/scm.go\<close>, \<open>commitstatus\<close> and
    \<open>store/postgres/commit_status.go\<close>. The locale \<open>leased_queue\<close> of Lease_Queue is the contract of a durable work queue;
    the outbox and the webhook inbox are its two interpretations.
  \<^item> Webhook_Verify, Webhook_Inbox, Github_Hook, Github_Hook_Properties: \<open>scm/webhook/verify.go\<close>,
    \<open>store/postgres/webhook_inbox.go\<close>, \<open>githubhook/service.go\<close> and the webhook half of \<open>scm/github/client.go\<close>.
  \<^item> Project_Automation, Automation_Store, Automation_Guarantees: \<open>project/automation.go\<close>, \<open>project/project.go\<close>,
    \<open>store/postgres/project_automation.go\<close> and \<open>gitee_automation.go\<close>.
  \<^item> Github_Ci, Webhook_Runs, Webhook_Guarantees, Webhook_Traces: \<open>githubci\<close> and \<open>store/postgres/github_ci.go\<close>.
  \<^item> Redaction, Log_Stream: \<open>runner/redaction.go\<close>, \<open>runner/logs.go\<close> and \<open>store/postgres/logs.go\<close>.
  \<^item> Provider_Identity, Login_Store, Login_Guarantees, Login_Traces: \<open>identity/oauth.go\<close>, \<open>store/postgres/oauth.go\<close>,
    \<open>store/postgres/provisioning.go\<close> and the types of \<open>provisioning/service.go\<close>: OAuth flows, the setup of an instance, its
    login configurations. The first administrator is the bootstrap identity, the setup closes for ever, and a login
    configuration becomes active only after a login with it.
  \<^item> Runner_Identity, Runner_Auth: \<open>store/postgres/runner_identity.go\<close>, \<open>runnerauth/service.go\<close> and the certificate requests
    and client certificates of \<open>runnerauth/pki.go\<close>. Runner_Guarantees: tokens admit as many runners as they say, revoked
    certificates and disabled runners stay out, enrolled runners authenticate, rotation hands over.
  \<^item> Runner_Server: \<open>runnergrpc/server.go\<close> and \<open>runnergrpc/auth.go\<close> over the run store, the log store and the identities;
    Runner_Sessions: heartbeats return, a stream spares the jobs of other runners, and what revocation does to open streams.
    Runner_Traces: a runner from its token to its revocation.
  \<^item> This theory: what holds from the webhook to the last job.

  \<^bold>\<open>How the state is modelled.\<close> A struct is a record, an enumeration a datatype with one more constructor for other
  texts where the source converts strings. A table is a list of rows in the order of insertion; unique keys, foreign keys
  and checks that can fail are tested by the operation that would violate them and give a database error. An operation
  takes the state and returns it changed, or an error; an error means that the transaction is rolled back. Each
  transaction is atomic and reads the clock once, and \<open>FOR UPDATE SKIP LOCKED\<close> finds no locked rows: interleavings are
  sequences of transactions, which the step relations (\<open>mem_step\<close>, \<open>pg_step\<close>, \<open>hook_step\<close>, \<open>worker_step\<close>, \<open>login_step\<close>,
  \<open>fleet_step\<close>) quantify over with any arguments and any times. A handler of the runner service is not a transaction: it keeps
  what the store did before it failed, and returns the state, the messages that it sent and the error that ends the stream. A column that is \<open>NULL\<close> is an empty text where the source maps one to the other, and
  an option elsewhere. Times and durations are integers in nanoseconds; clock readings need not increase.

  \<^bold>\<open>Parameters.\<close> What the source takes from elsewhere is an argument: the YAML decoder, the JSON codecs, SHA-256, HMAC,
  the order of map iteration and the rounding of \<open>time.ParseDuration\<close> (\<open>runtime\<close>, \<open>pg_env\<close>, \<open>ci_env\<close>, \<open>hook_runtime\<close>,
  \<open>event_codec\<close>, \<open>login_env\<close>), PEM, DER and X.509 (\<open>auth_env\<close>), random identifiers and tokens, the fetcher of pipeline
  files, the sender of commit statuses, the credentials of checkouts and whether a message can be sent. Hypotheses
  about them are named: \<open>ranges_ok\<close> (a loop over a map visits each entry once), \<open>plan_codec_ok\<close> (a plan is decoded as it
  was encoded), \<open>x509_ok\<close> (a certificate is parsed as it was created), \<open>uuid_ok\<close> (the text of an identifier is parsed back);
  witnesses instantiate them with concrete functions.

  \<^bold>\<open>Loops.\<close> Loops are structural recursion or functions with a termination proof (\<open>hasCycle\<close>, \<open>retry_loop\<close>,
  \<open>fields_from\<close>, the redactor); none needs fuel. The loop that hands out jobs in a heartbeat (\<open>claim_jobs\<close>) has no bound of
  its own: it is a partial function, and \<open>heartbeat_returns\<close> shows that it ends, because every round takes one of the free
  places of the runner, as long as its rounds follow each other within the 30 seconds of a lease. The workers, which run until they are stopped, are functions of the list of
  their rounds. The rate limiter counts with rationals where the source has floating point numbers.

  \<^bold>\<open>Not modelled.\<close> The HTTP handlers (they decode a request and call an operation of the model), the service of
  \<open>provisioning/service.go\<close> (it seals client secrets and builds OAuth clients), the OAuth exchanges and the REST clients of the
  providers, the import of repositories (\<open>integration\<close>, \<open>store/postgres/integration.go\<close>), the Gitee service and its grants, the
  creation and the files of the certificate authority and the interceptors of gRPC, the runner agent beside its redactor and
  log buffer (it drives Docker, git and files), envelope encryption, listings of projects, configuration and commands,
  migrations beside the constraints that the operations meet, and generated code. Header names are ASCII.
\<close>

section \<open>From the webhook to the last job\<close>

lemma new_rows_exist:
  assumes "new_rows env newID runID stages now = Some rows" and "plan_pairs stages \<noteq> []"
  obtains j where "j \<in> set rows" "jb_run j = runID"
proof -
  obtain stage job ps where ps: "plan_pairs stages = (stage, job) # ps" using assms(2) by (cases "plan_pairs stages") auto
  have "length rows = length (plan_pairs stages)" using arg_cong [OF new_rows_Some [OF assms(1)], of length] by simp
  then obtain j js where j: "rows = j # js" using ps by (cases rows) auto
  have "jb_run j = runID" using new_rows_Some [OF assms(1)] unfolding ps j by simp
  then show ?thesis using that [of j] j by simp
qed

text \<open>
  C1 (liveness). From the webhook to the end of the run: the run that the orchestrator creates for a delivery always has
  a job that is queued, assigned or running until the run is over, whatever the server, the runners, the users and the
  recovery do afterwards. No run of a webhook gets stuck.
\<close>

theorem webhook_run_never_stuck:
  assumes "plan_codec_ok ce" and "ranges_ok (ce_runtime ce)" and "pg_steps (ce_pg ce) empty_db (ci_pg db)"
    and "Process ce ids now fetch item db = Inr (db', OutcomeRunCreated)" and "pg_steps (ce_pg ce) (ci_pg db') pg"
    and "r \<in> set (pg_runs pg)" and "rw_id r = ids_run ids" and "\<not> Terminal (rw_status r)"
  shows "\<exists>j\<in>set (pg_jobs pg). jb_run j = ids_run ids \<and> jb_status j \<in> {JobQueued, JobAssigned, JobRunning}"
proof -
  obtain source plan rows row where p: "Compile (ce_runtime ce) source now = Inr plan" "row \<in> set (pg_runs (ci_pg db'))" "rw_id row = ids_run ids"
    "env_plan (ce_pg ce) (rec_Plan (rw_rec row)) = Some plan" "new_rows (ce_pg ce) (ids_jobs ids) (ids_run ids) (plan_Stages plan) now = Some rows"
    "set rows \<subseteq> set (pg_jobs (ci_pg db'))"
    using run_created_facts [OF assms(1,4)] by fastforce
  have ok: "plan_graph_ok plan" using Compile_graph_ok [OF assms(2) p(1)] .
  then have "plan_pairs (plan_Stages plan) \<noteq> []" by (cases "plan_Stages plan") (auto simp: plan_graph_ok_def plan_pairs_def)
  then obtain j where j: "j \<in> set (pg_jobs (ci_pg db'))" "jb_run j = rw_id row"
    using new_rows_exist [OF p(5)] p(3,6) by (metis subsetD)
  have reach: "pg_steps (ce_pg ce) empty_db (ci_pg db')" using assms(3) Process_pg_steps [OF assms(1,4)] by simp
  have g: "run_graph_ok (ids_run ids) (fst (pg_view (ci_pg db')))"
    using pg_graph_ok [OF reachable_wf [OF reach] p(2) j p(4) ok] p(3) by simp
  have v: "ids_run ids \<in> jv_run ` set (fst (pg_view (ci_pg db')))"
    using pg_views_in [OF j(1)] j(2) p(3) by (metis image_eqI row_view_sel(1))
  have reach': "pg_steps (ce_pg ce) empty_db pg" using reach assms(5) by simp
  have "ids_run ids \<in> jv_run ` set (fst (pg_view pg))"
    using job_steps_run_graph [OF pg.steps_jobs [OF reach assms(5)] g v] by blast
  then obtain k where k: "k \<in> set (pg_jobs pg)" "jb_run k = rw_id r" using assms(7) by (auto simp: pg_view_def pg_views_def)
  have i: "snd (pg_view pg) (ids_run ids) = Some (rw_status r, rec_FinishedAt (rw_rec r))"
    using pg_run_info [OF reach' assms(6) k] assms(7) by simp
  obtain w where "w \<in> set (fst (pg_view pg))" "jv_run w = ids_run ids" "plain (jv_status w)"
    using pg.run_progress [OF reach assms(5) g v i assms(8)] by blast
  then show ?thesis by (auto simp: pg_view_def pg_views_def plain_def)
qed

theorem webhook_run_never_stuck_witness:
  "\<exists>j\<in>set (pg_jobs (ci_pg (hook_after pushed))). jb_run j = 30 \<and> jb_status j \<in> {JobQueued, JobAssigned, JobRunning}"
proof -
  obtain r where r: "r \<in> set (pg_runs (ci_pg (hook_after pushed)))" "rw_id r = ids_run hook_ids" "rw_status r = StatusQueued"
    using run_created_facts [OF hook_env_codec hook_process] by fastforce
  have ranges: "ranges_ok (ce_runtime hook_env)" using sample_ranges by (simp add: hook_env_def ranges_ok_def)
  have start: "pg_steps (ce_pg hook_env) empty_db (ci_pg (hook_db (hook_claimed ''P'')))"
    by (rule r_into_rtranclp, rule pg_step.elsewhere) (simp_all add: hook_db_def pg_start_def)
  have "\<exists>j\<in>set (pg_jobs (ci_pg (hook_after pushed))). jb_run j = ids_run hook_ids \<and> jb_status j \<in> {JobQueued, JobAssigned, JobRunning}"
    by (rule webhook_run_never_stuck [OF hook_env_codec ranges start hook_process rtranclp.rtrancl_refl r(1,2)])
      (simp add: r(3) Terminal_def)
  then show ?thesis by (simp add: hook_ids_def)
qed

end
